(* ===== verification/Prelude.thy ===== *)
theory Prelude
  imports Main "HOL-Library.Word" "HOL-Library.Signed_Division"
begin

text \<open>
  Shared by every component: undefined behaviour of C as a value (\<open>fault\<close>), the sequencing of
  fallible steps (\<open>bindF\<close>), blocks of memory as lists of bytes with checked access, C strings,
  the character classes of \<open>ctype.h\<close> in the C locale, decimal printing as \<open>%d\<close> does it, and the
  answers of \<open>malloc\<close>.

  A byte is a HOL \<open>char\<close> (exactly eight bits). A pointer to bytes is the list of the bytes from
  the pointer to the end of its block, so that reading past the end of the block is visible.
\<close>

unbundle bit_operations_syntax

section \<open>Undefined behaviour as a value\<close>

text \<open>
  Where the C standard gives the code no meaning, the model returns \<open>Inl\<close> with the reason. An
  \<open>Inr\<close> result is a run without undefined behaviour.
\<close>

datatype fault =
    Null_pointer      \<comment> \<open>a null pointer is dereferenced\<close>
  | Out_of_bounds     \<comment> \<open>an access outside its block of memory\<close>
  | Bad_size          \<comment> \<open>a negative int passed as the size of a memory operation\<close>
  | Int_overflow      \<comment> \<open>signed integer arithmetic leaves the range of int\<close>
  | Use_after_free    \<comment> \<open>an access through a pointer to freed or never allocated memory\<close>
  | Uninitialised     \<comment> \<open>a field of malloc'ed memory is read before it is written\<close>
  | Never_returns     \<comment> \<open>not undefined, but the loop at hand runs for ever\<close>

named_theorems fault_simps \<open>equations that run a fallible computation\<close>

fun bindF :: "fault + 'a \<Rightarrow> ('a \<Rightarrow> fault + 'b) \<Rightarrow> fault + 'b" where
  "bindF (Inl e) f = Inl e"
| "bindF (Inr x) f = f x"

lemma bindF_cong [fundef_cong]:
  "m = m' \<Longrightarrow> (\<And>x. m' = Inr x \<Longrightarrow> f x = g x) \<Longrightarrow> bindF m f = bindF m' g"
  by (cases m') auto

lemma bindF_eq_Inr [fault_simps]: "bindF m f = Inr y \<longleftrightarrow> (\<exists>x. m = Inr x \<and> f x = Inr y)"
  by (cases m) auto

lemma bindF_eq_Inl: "bindF m f = Inl e \<longleftrightarrow> m = Inl e \<or> (\<exists>x. m = Inr x \<and> f x = Inl e)"
  by (cases m) auto

lemma bindF_assoc: "bindF (bindF m f) g = bindF m (\<lambda>x. bindF (f x) g)"
  by (cases m) auto

text \<open>Changing the result of a run; \<open>mapF_simps\<close> moves it to the ends of the branches.\<close>

fun mapF :: "('a \<Rightarrow> 'b) \<Rightarrow> fault + 'a \<Rightarrow> fault + 'b" where
  "mapF h (Inl e) = Inl e"
| "mapF h (Inr x) = Inr (h x)"

lemma mapF_bindF: "mapF h (bindF m f) = bindF m (\<lambda>x. mapF h (f x))"
  by (cases m) auto

lemma bindF_mapF: "bindF (mapF h m) f = bindF m (\<lambda>x. f (h x))"
  by (cases m) auto

lemmas mapF_simps = mapF_bindF bindF_mapF if_distrib [where f = "mapF h" for h]
  option.case_distrib [where h = "mapF h" for h]

text \<open>A run without undefined behaviour.\<close>

definition defined :: "fault + 'a \<Rightarrow> bool" where
  "defined m \<longleftrightarrow> (case m of Inl _ \<Rightarrow> False | Inr _ \<Rightarrow> True)"

lemma defined_iff: "defined m \<longleftrightarrow> (\<exists>x. m = Inr x)"
  by (cases m) (auto simp: defined_def)

lemma defined_simps [simp]: "defined (Inr x)" "\<not> defined (Inl e)"
  by (simp_all add: defined_def)

lemma defined_bindF: "defined m \<Longrightarrow> (\<And>x. m = Inr x \<Longrightarrow> defined (f x)) \<Longrightarrow> defined (bindF m f)"
  by (cases m) auto

section \<open>The C int type\<close>

text \<open>
  Ints are 32 bits wide; a sum or a product outside the range is undefined. Positions and sizes
  that provably stay small are kept as mathematical integers.
\<close>

definition INT_MAX :: int where
  "INT_MAX = 2147483647"

definition in_int :: "int \<Rightarrow> bool" where
  "in_int n \<longleftrightarrow> - INT_MAX - 1 \<le> n \<and> n \<le> INT_MAX"

definition c_int :: "int \<Rightarrow> fault + int" where
  "c_int n = (if in_int n then Inr n else Inl Int_overflow)"

lemma c_int_Inr [simp]: "in_int n \<Longrightarrow> c_int n = Inr n"
  by (simp add: c_int_def)

lemma in_int_small: "- 2147483648 \<le> n \<Longrightarrow> n \<le> 2147483647 \<Longrightarrow> in_int n"
  by (simp add: in_int_def INT_MAX_def)

lemma sdiv_pos: "0 \<le> a \<Longrightarrow> 0 < b \<Longrightarrow> a sdiv b = a div b" for a b :: int
  by (cases "a = 0") (simp_all add: signed_divide_int_def)

lemma smod_pos: "0 \<le> a \<Longrightarrow> 0 < b \<Longrightarrow> a smod b = a mod b" for a b :: int
  by (cases "a = 0") (simp_all add: smod_mod_positive)

section \<open>Blocks of memory\<close>

definition read_at :: "'a list \<Rightarrow> int \<Rightarrow> fault + 'a" where
  "read_at blk i =
     (if 0 \<le> i \<and> i < int (length blk) then Inr (blk ! nat i) else Inl Out_of_bounds)"

text \<open>\<open>memcpy\<close> and \<open>memset\<close> into a block at an offset.\<close>

definition write_at :: "'a list \<Rightarrow> int \<Rightarrow> 'a list \<Rightarrow> fault + 'a list" where
  "write_at blk off xs =
     (if 0 \<le> off \<and> off + int (length xs) \<le> int (length blk)
      then Inr (take (nat off) blk @ xs @ drop (nat off + length xs) blk)
      else Inl Out_of_bounds)"

text \<open>The \<open>n\<close> bytes from an offset on; a negative int becomes a huge \<open>size_t\<close>.\<close>

definition slice_at :: "'a list \<Rightarrow> int \<Rightarrow> int \<Rightarrow> fault + 'a list" where
  "slice_at blk off n =
     (if n < 0 then Inl Bad_size
      else if 0 \<le> off \<and> off + n \<le> int (length blk) then Inr (take (nat n) (drop (nat off) blk))
      else Inl Out_of_bounds)"

definition fill_at :: "'a list \<Rightarrow> int \<Rightarrow> int \<Rightarrow> 'a \<Rightarrow> fault + 'a list" where
  "fill_at blk off n c = (if n < 0 then Inl Bad_size else write_at blk off (replicate (nat n) c))"

lemma read_at_nth [simp]: "i < length blk \<Longrightarrow> read_at blk (int i) = Inr (blk ! i)"
  by (simp add: read_at_def)

lemma length_write_at: "write_at blk off xs = Inr blk' \<Longrightarrow> length blk' = length blk"
  by (auto simp: write_at_def split: if_splits)

lemma length_fill_at: "fill_at blk off n c = Inr blk' \<Longrightarrow> length blk' = length blk"
  by (auto simp: fill_at_def length_write_at split: if_splits)

lemma write_at_Inr:
  "0 \<le> off \<Longrightarrow> off + int (length xs) \<le> int (length blk) \<Longrightarrow>
   write_at blk off xs = Inr (take (nat off) blk @ xs @ drop (nat off + length xs) blk)"
  by (simp add: write_at_def)

lemma slice_at_Inr:
  "0 \<le> n \<Longrightarrow> 0 \<le> off \<Longrightarrow> off + n \<le> int (length blk) \<Longrightarrow>
   slice_at blk off n = Inr (take (nat n) (drop (nat off) blk))"
  by (simp add: slice_at_def)

lemma fill_at_Inr:
  "0 \<le> n \<Longrightarrow> 0 \<le> off \<Longrightarrow> off + n \<le> int (length blk) \<Longrightarrow>
   fill_at blk off n c = Inr (take (nat off) blk @ replicate (nat n) c @ drop (nat off + nat n) blk)"
  by (simp add: fill_at_def write_at_def)

lemma write_at_Inr_iff:
  "write_at blk off xs = Inr blk' \<longleftrightarrow> 0 \<le> off \<and> nat off + length xs \<le> length blk \<and>
    blk' = take (nat off) blk @ xs @ drop (nat off + length xs) blk"
  by (auto simp: write_at_def)

lemma take_write_at:
  "write_at blk off xs = Inr blk' \<Longrightarrow> take (nat off + length xs) blk' = take (nat off) blk @ xs"
  by (auto simp: write_at_Inr_iff)

lemma take_fill_at: "fill_at blk off n c = Inr blk' \<Longrightarrow> take (nat off) blk' = take (nat off) blk"
  by (auto simp: fill_at_def write_at_Inr_iff split: if_splits)

lemma write_at_defined:
  "0 \<le> off \<Longrightarrow> off + int (length xs) \<le> int (length blk) \<Longrightarrow> \<exists>blk'. write_at blk off xs = Inr blk'"
  by (simp add: write_at_def)

lemma fill_at_defined:
  "0 \<le> n \<Longrightarrow> 0 \<le> off \<Longrightarrow> off + n \<le> int (length blk) \<Longrightarrow> \<exists>blk'. fill_at blk off n c = Inr blk'"
  by (simp add: fill_at_Inr)

section \<open>C strings\<close>

abbreviation NUL :: char where "NUL \<equiv> CHR 0x00"
abbreviation LF :: char where "LF \<equiv> CHR 0x0A"
abbreviation CR :: char where "CR \<equiv> CHR 0x0D"

text \<open>The string a pointer denotes: the bytes up to the terminator.\<close>

fun c_str :: "char list \<Rightarrow> fault + string" where
  "c_str [] = Inl Out_of_bounds"
| "c_str (c # cs) = (if c = NUL then Inr [] else bindF (c_str cs) (\<lambda>s. Inr (c # s)))"

lemma c_str_append [simp]: "NUL \<notin> set s \<Longrightarrow> c_str (s @ NUL # rest) = Inr s"
  by (induction s) auto

lemma c_str_NUL [simp]: "c_str (NUL # rest) = Inr []"
  by simp

lemma c_str_Inr_iff: "c_str blk = Inr s \<longleftrightarrow> (NUL \<notin> set s \<and> (\<exists>rest. blk = s @ NUL # rest))"
proof (induction blk arbitrary: s)
  case Nil
  then show ?case by simp
next
  case (Cons c cs)
  show ?case
    by (cases s) (auto simp: Cons.IH fault_simps)
qed

lemma c_str_defined: "NUL \<in> set blk \<Longrightarrow> \<exists>s. c_str blk = Inr s"
  by (metis c_str_append split_list_first)

section \<open>Character classes (C locale)\<close>

definition isspace :: "char \<Rightarrow> bool" where
  "isspace c \<longleftrightarrow> (let n = (of_char c :: nat) in n = 32 \<or> (9 \<le> n \<and> n \<le> 13))"

definition isalpha :: "char \<Rightarrow> bool" where
  "isalpha c \<longleftrightarrow> (let n = (of_char c :: nat) in (65 \<le> n \<and> n \<le> 90) \<or> (97 \<le> n \<and> n \<le> 122))"

definition isdigit :: "char \<Rightarrow> bool" where
  "isdigit c \<longleftrightarrow> (let n = (of_char c :: nat) in 48 \<le> n \<and> n \<le> 57)"

definition isgraph :: "char \<Rightarrow> bool" where
  "isgraph c \<longleftrightarrow> (let n = (of_char c :: nat) in 33 \<le> n \<and> n \<le> 126)"

definition toupper :: "char \<Rightarrow> char" where
  "toupper c = (let n = (of_char c :: nat) in if 97 \<le> n \<and> n \<le> 122 then char_of (n - 32) else c)"

lemma isspace_NUL [simp]: "\<not> isspace NUL"
  by (simp add: isspace_def)

lemma isalpha_not_NUL: "isalpha c \<Longrightarrow> c \<noteq> NUL"
  by (auto simp: isalpha_def)

lemma isalpha_not_space: "isalpha c \<Longrightarrow> \<not> isspace c"
  by (auto simp: isalpha_def isspace_def Let_def)

lemma of_char_char_of: "n < 256 \<Longrightarrow> (of_char (char_of n :: char) :: nat) = n"
  by (simp add: of_char_mod_256)

lemma of_char_bound: "(of_char c :: nat) < 256"
  by (metis mod_less_divisor of_char_mod_256 zero_less_numeral)

lemma isalpha_toupper: "isalpha c \<Longrightarrow> isalpha (toupper c)"
  by (auto simp: isalpha_def toupper_def Let_def of_char_char_of)

section \<open>Decimal numbers\<close>

text \<open>What \<open>%d\<close> prints.\<close>

fun dec_nat :: "nat \<Rightarrow> string" where
  "dec_nat n =
     (if n < 10 then [char_of (48 + n)] else dec_nat (n div 10) @ [char_of (48 + n mod 10)])"

declare dec_nat.simps [simp del]

definition dec_int :: "int \<Rightarrow> string" where
  "dec_int n = (if n < 0 then CHR ''-'' # dec_nat (nat (- n)) else dec_nat (nat n))"

lemma dec_nat_digits: "c \<in> set (dec_nat n) \<Longrightarrow> isdigit c"
proof (induction n rule: dec_nat.induct)
  case (1 n)
  have d: "isdigit (char_of (48 + k))" if "k < 10" for k :: nat
    using that by (simp add: isdigit_def of_char_char_of)
  show ?case
  proof (cases "n < 10")
    case True
    then show ?thesis using 1(2) d by (simp add: dec_nat.simps)
  next
    case False
    then have "c \<in> set (dec_nat (n div 10)) \<or> c = char_of (48 + n mod 10)"
      using 1(2) by (subst (asm) dec_nat.simps) auto
    then show ?thesis
      using 1(1) False d [of "n mod 10"] by auto
  qed
qed

lemma dec_nat_not_Nil: "dec_nat n \<noteq> []"
  by (subst dec_nat.simps) simp

section \<open>Answers of the allocator\<close>

text \<open>
  A run sees the sequence of the pointers \<open>malloc\<close> (and \<open>memalign\<close>, \<open>strdup\<close>, \<open>asprintf\<close>)
  return, as numbers of 32 bits; 0 is the null pointer of a failed allocation. Every theorem holds
  for every sequence unless it names one.
\<close>

type_synonym u8 = "8 word"
type_synonym u16 = "16 word"
type_synonym u32 = "32 word"
type_synonym mem = "nat \<Rightarrow> u32"

definition malloc :: "mem \<Rightarrow> u32 \<times> mem" where
  "malloc m = (m 0, \<lambda>k. m (Suc k))"

definition never_fails :: "mem \<Rightarrow> bool" where
  "never_fails m \<longleftrightarrow> (\<forall>k. m k \<noteq> 0)"

lemma malloc_never_fails:
  "never_fails m \<Longrightarrow> fst (malloc m) \<noteq> 0" "never_fails m \<Longrightarrow> never_fails (snd (malloc m))"
  by (auto simp: never_fails_def malloc_def)

section \<open>Small words\<close>

lemma sint_small: "uint x < 2 ^ 31 \<Longrightarrow> sint x = uint x" for x :: u32
proof -
  assume "uint x < 2 ^ 31"
  then have "sint (word_of_int (uint x) :: u32) = uint x" by (subst int_word_sint) simp
  then show ?thesis by simp
qed

lemma unat_u32: "unat w < 4294967296" for w :: u32
proof -
  have "unat w < 2 ^ LENGTH(32)" by (rule unsigned_less)
  then show ?thesis by simp
qed

section \<open>The bytes of a word\<close>

lemma masks32: "(0xff000000 :: u32) = push_bit 24 (mask 8)" "(0x00ff0000 :: u32) = push_bit 16 (mask 8)"
  "(0x0000ff00 :: u32) = push_bit 8 (mask 8)" "(0x000000ff :: u32) = mask 8"
  by (simp_all add: mask_eq_exp_minus_1 push_bit_eq_mult)

lemma masks16: "(0xff00 :: u16) = push_bit 8 (mask 8)" "(0x00ff :: u16) = mask 8"
  by (simp_all add: mask_eq_exp_minus_1 push_bit_eq_mult)

lemma bytes32:
  fixes w :: u32
  shows "drop_bit 24 (w AND 0xff000000) = take_bit 8 (drop_bit 24 w)"
   "drop_bit 16 (w AND 0x00ff0000) = take_bit 8 (drop_bit 16 w)"
   "drop_bit 8 (w AND 0x0000ff00) = take_bit 8 (drop_bit 8 w)" "w AND 0x000000ff = take_bit 8 w"
  unfolding masks32 by (auto intro!: bit_word_eqI simp: bit_simps)

lemma bytes16:
  fixes w :: u16
  shows "drop_bit 8 (w AND 0xff00) = take_bit 8 (drop_bit 8 w)" "w AND 0x00ff = take_bit 8 w"
  unfolding masks16 by (auto intro!: bit_word_eqI simp: bit_simps)

lemma join32:
  fixes w :: u32
  shows "push_bit 24 (take_bit 8 (drop_bit 24 w)) OR push_bit 16 (take_bit 8 (drop_bit 16 w)) OR
   push_bit 8 (take_bit 8 (drop_bit 8 w)) OR take_bit 8 w = w" (is "?l = w")
proof (rule bit_word_eqI)
  fix n :: nat assume "n < LENGTH(32)"
  then consider "n < 8" | "8 \<le> n" "n < 16" | "16 \<le> n" "n < 24" | "24 \<le> n" "n < 32" by fastforce
  then show "bit ?l n = bit w n" by cases (auto simp: bit_simps)
qed

lemma join16:
  fixes w :: u16
  shows "push_bit 8 (take_bit 8 (drop_bit 8 w)) OR take_bit 8 w = w"
  by (rule bit_word_eqI) (auto simp: bit_simps)

lemma byte_bound: "unat (take_bit 8 w) < 256" for w :: "'a :: len word"
 by (simp add: unsigned_take_bit_eq take_bit_nat_less_exp[of 8, simplified])

end
