(* ===== verification/Platform.thy ===== *)
theory Platform
  imports Prelude
begin

text \<open>
  The platform under the program: the socket library, the file descriptors and the directory
  functions of the Wii U system libraries, none of which is in the repository. Each call is a
  parameter of the model (a field of \<open>os\<close>) that maps the outside world to an answer and the world
  after the call; nothing is assumed about it unless a theorem says so. Here too: the constants of
  the platform that the repository's own headers define, and the base state every operation
  threads (the outside world and the coming answers of the allocator).
\<close>

section \<open>System calls\<close>

record stat_buf =
  st_mode :: u32
  st_size :: int
  st_mtime :: int

record 'w os =
  os_socket :: "'w \<Rightarrow> int \<times> 'w"                          \<comment> \<open>a TCP socket, negative on failure\<close>
  os_setsockopt :: "int \<Rightarrow> u32 \<Rightarrow> 'w \<Rightarrow> 'w"                 \<comment> \<open>switch a socket option on\<close>
  os_bind :: "int \<Rightarrow> int \<Rightarrow> 'w \<Rightarrow> int \<times> 'w"                \<comment> \<open>socket, port\<close>
  os_listen :: "int \<Rightarrow> int \<Rightarrow> 'w \<Rightarrow> int \<times> 'w"
  os_accept :: "int \<Rightarrow> 'w \<Rightarrow> (int \<times> u32 \<times> u16) \<times> 'w"     \<comment> \<open>descriptor, peer address, peer port\<close>
  os_recv :: "int \<Rightarrow> int \<Rightarrow> 'w \<Rightarrow> char list option \<times> 'w"   \<comment> \<open>the bytes, \<open>None\<close> on error\<close>
  os_send :: "int \<Rightarrow> string \<Rightarrow> 'w \<Rightarrow> int \<times> 'w"
  os_socketclose :: "int \<Rightarrow> 'w \<Rightarrow> int \<times> 'w"
  os_socketlasterr :: "'w \<Rightarrow> int \<times> 'w"
  os_read :: "int \<Rightarrow> int \<Rightarrow> 'w \<Rightarrow> char list option \<times> 'w"
  os_write :: "int \<Rightarrow> char list \<Rightarrow> 'w \<Rightarrow> int \<times> 'w"
  os_close :: "int \<Rightarrow> 'w \<Rightarrow> 'w"
  os_host_ip :: "'w \<Rightarrow> u32 option \<times> 'w"                  \<comment> \<open>\<open>ACGetAssignedAddress\<close>\<close>
  os_stat :: "string \<Rightarrow> 'w \<Rightarrow> stat_buf option \<times> 'w"       \<comment> \<open>\<open>None\<close>: the call failed\<close>
  os_opendir :: "string \<Rightarrow> 'w \<Rightarrow> int option \<times> 'w"
  os_readdir :: "int \<Rightarrow> 'w \<Rightarrow> string list \<times> 'w"          \<comment> \<open>the names of one pass, then \<open>rewinddir\<close>\<close>
  os_closedir :: "int \<Rightarrow> 'w \<Rightarrow> 'w"
  os_strftime :: "int \<Rightarrow> string"                        \<comment> \<open>\<open>"%b %d %Y %H:%M "\<close> of the local time\<close>
  os_fresh :: "int \<Rightarrow> 'w \<Rightarrow> char list \<times> 'w"              \<comment> \<open>what a block from \<open>malloc\<close> holds\<close>
  os_path_max :: int                                  \<comment> \<open>\<open>PATH_MAX\<close> of the C library\<close>

section \<open>Constants\<close>

definition EAGAIN :: int where "EAGAIN = 6"
definition EWOULDBLOCK :: int where "EWOULDBLOCK = 6"
definition ENOBUFS :: int where "ENOBUFS = 105"
definition SO_REUSEADDR :: u32 where "SO_REUSEADDR = 0x0004"
definition SO_NONBLOCK :: u32 where "SO_NONBLOCK = 0x1016"

text \<open>The file type bits of \<open>sys/stat.h\<close>.\<close>

definition S_IFMT :: u32 where "S_IFMT = 0xF000"
definition S_IFDIR :: u32 where "S_IFDIR = 0x4000"

definition S_ISDIR :: "u32 \<Rightarrow> bool" where
  "S_ISDIR m \<longleftrightarrow> m AND S_IFMT = S_IFDIR"

section \<open>The base state\<close>

record 'w sys =
  world :: 'w
  allocs :: mem

text \<open>A system call, and a computation that only allocates.\<close>

definition sysc :: "('w \<Rightarrow> 'a \<times> 'w) \<Rightarrow> ('w, 'z) sys_scheme \<Rightarrow> 'a \<times> ('w, 'z) sys_scheme" where
  "sysc f s = (let (x, w) = f (world s) in (x, s\<lparr>world := w\<rparr>))"

definition sys_do :: "('w \<Rightarrow> 'w) \<Rightarrow> ('w, 'z) sys_scheme \<Rightarrow> ('w, 'z) sys_scheme" where
  "sys_do f s = s\<lparr>world := f (world s)\<rparr>"

definition allocating ::
  "(mem \<Rightarrow> fault + 'a \<times> mem) \<Rightarrow> ('w, 'z) sys_scheme \<Rightarrow> fault + 'a \<times> ('w, 'z) sys_scheme" where
  "allocating f s = bindF (f (allocs s)) (\<lambda>(x, m). Inr (x, s\<lparr>allocs := m\<rparr>))"

lemma sysc_allocs [simp]: "allocs (snd (sysc f s)) = allocs s"
  by (simp add: sysc_def split: prod.splits)

lemma sys_do_allocs [simp]: "allocs (sys_do f s) = allocs s"
  by (simp add: sys_do_def)

section \<open>A small platform to run the model on\<close>

text \<open>
  A world with scripted peers: what \<open>recv\<close> and \<open>read\<close> deliver next, who connects next, and a record
  of what was sent, written and closed. The witnesses of the theorems run on it; no theorem assumes
  it. An exhausted script answers with an error, whose code is that of an operation that would block.
\<close>

record host =
  inbox :: "char list list"
  peers :: "(int \<times> u32 \<times> u16) list"
  infile :: "char list"
  outbox :: "string list"
  outfile :: "char list"
  shut :: "int list"

definition pop_inbox :: "int \<Rightarrow> host \<Rightarrow> char list option \<times> host" where
  "pop_inbox n w =
     (case inbox w of [] \<Rightarrow> (None, w) | b # bs \<Rightarrow> (Some (take (nat n) b), w\<lparr>inbox := bs\<rparr>))"

definition pop_peer :: "host \<Rightarrow> (int \<times> u32 \<times> u16) \<times> host" where
  "pop_peer w = (case peers w of [] \<Rightarrow> ((-1, 0, 0), w) | p # ps \<Rightarrow> (p, w\<lparr>peers := ps\<rparr>))"

definition host_os :: "host os" where
  "host_os = \<lparr>
     os_socket = (\<lambda>w. (3, w)),
     os_setsockopt = (\<lambda>fd opt w. w),
     os_bind = (\<lambda>fd port w. (0, w)),
     os_listen = (\<lambda>fd n w. (0, w)),
     os_accept = (\<lambda>fd w. pop_peer w),
     os_recv = (\<lambda>fd n w. pop_inbox n w),
     os_send = (\<lambda>fd t w. (int (length t), w\<lparr>outbox := outbox w @ [t]\<rparr>)),
     os_socketclose = (\<lambda>fd w. (0, w\<lparr>shut := shut w @ [fd]\<rparr>)),
     os_socketlasterr = (\<lambda>w. (EAGAIN, w)),
     os_read = (\<lambda>fd n w. (Some (take (nat n) (infile w)), w\<lparr>infile := drop (nat n) (infile w)\<rparr>)),
     os_write = (\<lambda>fd bs w. (int (length bs), w\<lparr>outfile := outfile w @ bs\<rparr>)),
     os_close = (\<lambda>fd w. w\<lparr>shut := shut w @ [fd]\<rparr>),
     os_host_ip = (\<lambda>w. (Some 0xC0A80002, w)),
     os_stat = (\<lambda>p w. (if p = ''/pub'' then Some \<lparr>st_mode = 0x41FF, st_size = 0, st_mtime = 0\<rparr>
                      else if p = ''/pub/a.txt'' then
                        Some \<lparr>st_mode = 0x81FF, st_size = 4711, st_mtime = 0\<rparr>
                      else None, w)),
     os_opendir = (\<lambda>p w. (if p = ''/pub'' then Some 6 else None, w)),
     os_readdir = (\<lambda>d w. ([''a.txt'', ''b''], w)),
     os_closedir = (\<lambda>d w. w),
     os_strftime = (\<lambda>t. ''Jan 01 1970 00:00 ''),
     os_fresh = (\<lambda>n w. (replicate (nat n) NUL, w)),
     os_path_max = 1024\<rparr>"

lemma host_os_fields [simp]:
  "os_recv host_os fd n w = pop_inbox n w"
  "os_accept host_os fd w = pop_peer w"
  "os_send host_os fd t w = (int (length t), w\<lparr>outbox := outbox w @ [t]\<rparr>)"
  "os_socketclose host_os fd w = (0, w\<lparr>shut := shut w @ [fd]\<rparr>)"
  "os_socketlasterr host_os w = (EAGAIN, w)"
  "os_read host_os fd n w =
     (Some (take (nat n) (infile w)), w\<lparr>infile := drop (nat n) (infile w)\<rparr>)"
  "os_write host_os fd bs w = (int (length bs), w\<lparr>outfile := outfile w @ bs\<rparr>)"
  "os_close host_os fd w = w\<lparr>shut := shut w @ [fd]\<rparr>"
  "os_socket host_os w = (3, w)" "os_setsockopt host_os fd opt w = w"
  "os_bind host_os fd port w = (0, w)" "os_listen host_os fd k w = (0, w)"
  "os_host_ip host_os w = (Some 0xC0A80002, w)"
  "os_stat host_os p w = (if p = ''/pub'' then Some \<lparr>st_mode = 0x41FF, st_size = 0, st_mtime = 0\<rparr>
     else if p = ''/pub/a.txt'' then Some \<lparr>st_mode = 0x81FF, st_size = 4711, st_mtime = 0\<rparr>
     else None, w)"
  "os_opendir host_os p w = (if p = ''/pub'' then Some 6 else None, w)"
  "os_readdir host_os d w = ([''a.txt'', ''b''], w)" "os_closedir host_os d w = w"
  "os_strftime host_os mt = ''Jan 01 1970 00:00 ''"
  "os_fresh host_os n w = (replicate (nat n) NUL, w)"
  "os_path_max host_os = 1024"
  by (simp_all add: host_os_def)

definition host0 :: host where
  "host0 = \<lparr>inbox = [], peers = [], infile = [], outbox = [], outfile = [], shut = []\<rparr>"

definition allocs0 :: mem where
  "allocs0 = (\<lambda>k. 64 + 64 * of_nat k)"

end
