(* ===== verification/IOBuffer.thy ===== *)
theory IOBuffer
  imports Prelude
begin

text \<open>
  The line buffer of \<^verbatim>\<open>iobuffer.c\<close>: a block that bytes are appended to at \<open>head\<close>, and a second
  block the next complete line is copied into. The control connection of a client owns two of them
  (input and output), a data channel owns one.
\<close>

section \<open>The structure and its operations\<close>

record io_buffer =
  buffer :: "char list"
  line :: "char list"
  bsize :: int
  head :: int

definition sizeAlign :: "int \<Rightarrow> int \<Rightarrow> int" where
  "sizeAlign sz multipleOf = sz + (multipleOf - sz smod multipleOf)"

text \<open>
  Three allocations: the structure, its buffer and its line. The second and the third are both
  attempted before either is checked.
\<close>

definition new_buffer :: "int \<Rightarrow> mem \<Rightarrow> io_buffer option \<times> mem" where
  "new_buffer sz m =
     (let sz = sizeAlign sz 64; (p, m) = malloc m in
      if p = 0 then (None, m)
      else let (pb, m) = malloc m; (pl, m) = malloc m in
        if pb = 0 \<or> pl = 0 then (None, m)
        else (Some \<lparr>buffer = replicate (nat sz) NUL, line = replicate (nat sz) NUL,
                    bsize = sz, head = 0\<rparr>, m))"

definition iobuffer_remaining :: "io_buffer \<Rightarrow> int" where
  "iobuffer_remaining b = bsize b - 1 - head b"

text \<open>The write position as an offset into the block; \<open>None\<close> is the null pointer.\<close>

definition iobuffer_head :: "io_buffer option \<Rightarrow> int option" where
  "iobuffer_head ob =
     (case ob of None \<Rightarrow> None | Some b \<Rightarrow> if head b > bsize b then None else Some (head b))"

definition iobuffer_append :: "io_buffer \<Rightarrow> char list option \<Rightarrow> int \<Rightarrow> fault + int \<times> io_buffer" where
  "iobuffer_append b data len =
     (case data of
        None \<Rightarrow> Inr (-1, b)
      | Some d \<Rightarrow>
          bindF (c_int (head b + len)) (\<lambda>e.
          if e > bsize b then Inr (-1, b)
          else
            bindF (slice_at d 0 len) (\<lambda>bytes.
            bindF (write_at (buffer b) (head b) bytes) (\<lambda>buf.
            Inr (0, b\<lparr>buffer := buf, head := e\<rparr>)))))"

function find_eol_from :: "char list \<Rightarrow> int \<Rightarrow> int \<Rightarrow> fault + int" where
  "find_eol_from data limit i =
     (if i < limit
      then bindF (read_at data i) (\<lambda>c.
           if c = LF then Inr i else find_eol_from data limit (i + 1))
      else Inr (-1))"
  by pat_completeness auto
termination
  by (relation "measure (\<lambda>(_, limit, i). nat (limit - i))") auto

declare find_eol_from.simps [simp del]

definition find_eol :: "char list \<Rightarrow> int \<Rightarrow> fault + int" where
  "find_eol data limit = find_eol_from data limit 0"

definition calculate_bytes_to_copy :: "int \<Rightarrow> bool \<Rightarrow> bool \<Rightarrow> int" where
  "calculate_bytes_to_copy eol_offset has_cr preserve_newlines =
     (if preserve_newlines then eol_offset + 1
      else if has_cr then eol_offset - 1 else eol_offset)"

text \<open>
  Both public readers go through this one. The byte before the line feed is read before it is
  known whether there is one. The result is the line block (\<open>None\<close>: no complete line).
\<close>

definition iobuffer_next_line_internal ::
  "io_buffer \<Rightarrow> bool \<Rightarrow> fault + char list option \<times> io_buffer" where
  "iobuffer_next_line_internal b preserve_newline =
     bindF (find_eol (buffer b) (head b)) (\<lambda>eol.
     if eol < 0 then Inr (None, b)
     else
       bindF (read_at (buffer b) (eol - 1)) (\<lambda>prev.
       let bytesToCopy = calculate_bytes_to_copy eol (prev = CR) preserve_newline;
           newBufferStart = eol + 1;
           hd' = head b - newBufferStart in
       bindF (slice_at (buffer b) 0 bytesToCopy) (\<lambda>bytes.
       bindF (write_at (line b) 0 bytes) (\<lambda>l1.
       bindF (write_at l1 bytesToCopy [NUL]) (\<lambda>l2.
       bindF (slice_at (buffer b) newBufferStart (bsize b - newBufferStart)) (\<lambda>rest.
       bindF (write_at (buffer b) 0 rest) (\<lambda>b1.
       bindF (fill_at b1 hd' (bsize b - hd') NUL) (\<lambda>b2.
       Inr (Some l2, b\<lparr>buffer := b2, line := l2, head := hd'\<rparr>)))))))))"

definition iobuffer_next_line_eol :: "io_buffer \<Rightarrow> fault + char list option \<times> io_buffer" where
  "iobuffer_next_line_eol b = iobuffer_next_line_internal b True"

definition iobuffer_next_line :: "io_buffer \<Rightarrow> fault + char list option \<times> io_buffer" where
  "iobuffer_next_line b = iobuffer_next_line_internal b False"

section \<open>The bytes held and the invariant\<close>

definition contents :: "io_buffer \<Rightarrow> string" where
  "contents b = take (nat (head b)) (buffer b)"

text \<open>
  The blocks have the size the structure says and the head is inside. The bound keeps every sum of
  positions far from the limit of an int: the code creates buffers of 1088 and 192064 bytes.
\<close>

definition iob_wf :: "io_buffer \<Rightarrow> bool" where
  "iob_wf b \<longleftrightarrow> 0 \<le> head b \<and> head b \<le> bsize b \<and> 0 < bsize b \<and> bsize b \<le> 2 ^ 20 \<and>
     int (length (buffer b)) = bsize b \<and> int (length (line b)) = bsize b"

lemma contents_length: "iob_wf b \<Longrightarrow> int (length (contents b)) = head b"
  by (auto simp: iob_wf_def contents_def min_def)

lemma iob_wfD:
  assumes "iob_wf b"
  shows "0 \<le> head b" "head b \<le> bsize b" "0 < bsize b" "bsize b \<le> 1048576"
    "int (length (buffer b)) = bsize b" "int (length (line b)) = bsize b"
  using assms by (auto simp: iob_wf_def)

lemma buffer_split:
  assumes "iob_wf b"
  shows "buffer b = contents b @ drop (nat (head b)) (buffer b)"
  by (simp add: contents_def)

section \<open>Creating a buffer\<close>

lemma sizeAlign_spec:
  assumes "0 \<le> sz" and "0 < m"
  shows "sz < sizeAlign sz m" and "sizeAlign sz m \<le> sz + m" and "m dvd sizeAlign sz m"
proof -
  have r: "sz smod m = sz mod m"
    using assms by (simp add: smod_mod_positive)
  have "0 \<le> sz mod m" "sz mod m < m" using assms by auto
  then show "sz < sizeAlign sz m" "sizeAlign sz m \<le> sz + m"
    by (auto simp: sizeAlign_def r)
  have "sz + (m - sz mod m) = m * (sz div m) + m"
    by (simp add: algebra_simps minus_mod_eq_mult_div)
  then show "m dvd sizeAlign sz m"
    unfolding sizeAlign_def r by (metis dvd_add dvd_refl dvd_triv_left)
qed

lemma new_buffer_wf:
  assumes "new_buffer sz m = (Some b, m')" and "0 \<le> sz" and "sz \<le> 2 ^ 20 - 64"
  shows "iob_wf b" and "contents b = []" and "sz < bsize b"
  using assms sizeAlign_spec [of sz 64]
  by (auto simp: new_buffer_def iob_wf_def contents_def Let_def split: prod.splits if_splits)

lemma new_buffer_never_fails:
  "never_fails m \<Longrightarrow> \<exists>b m'. new_buffer sz m = (Some b, m') \<and> never_fails m'"
  by (auto simp: new_buffer_def never_fails_def malloc_def Let_def)

section \<open>Appending\<close>

lemma append_fits:
  assumes "iob_wf b" and "length s \<le> length d" and "head b + int (length s) \<le> bsize b"
    and "s = take (length s) d"
  shows "\<exists>b'. iobuffer_append b (Some d) (int (length s)) = Inr (0, b') \<and> iob_wf b' \<and>
    contents b' = contents b @ s \<and> bsize b' = bsize b \<and> line b' = line b \<and>
    head b' = head b + int (length s)"
proof -
  note wf = iob_wfD [OF assms(1)]
  let ?blk = "take (nat (head b)) (buffer b) @ s @ drop (nat (head b) + length s) (buffer b)"
  have "write_at (buffer b) (head b) s = Inr ?blk"
    using wf assms(3) by (simp add: write_at_Inr)
  moreover have "slice_at d 0 (int (length s)) = Inr s"
    using assms(2,4) by (simp add: slice_at_Inr)
  moreover have "c_int (head b + int (length s)) = Inr (head b + int (length s))"
    using wf assms(3) by (intro c_int_Inr in_int_small) auto
  ultimately have run: "iobuffer_append b (Some d) (int (length s)) =
      Inr (0, b\<lparr>buffer := ?blk, head := head b + int (length s)\<rparr>)" (is "_ = Inr (0, ?b)")
    using assms(3) by (simp add: iobuffer_append_def)
  have n: "nat (head b + int (length s)) = nat (head b) + length s"
    using wf by (simp add: nat_add_distrib)
  have l: "length (take (nat (head b)) (buffer b)) = nat (head b)"
    using wf by simp
  have "contents ?b = contents b @ s"
    using l by (simp add: contents_def n)
  moreover have "iob_wf ?b"
    using assms(1,3) wf by (simp add: iob_wf_def)
  ultimately show ?thesis using run by auto
qed

lemma append_overflow:
  assumes "iob_wf b" and "head b + len > bsize b" and "len \<le> 2 ^ 30"
  shows "iobuffer_append b (Some d) len = Inr (-1, b)"
proof -
  have "c_int (head b + len) = Inr (head b + len)"
    using iob_wfD [OF assms(1)] assms(2,3) by (intro c_int_Inr in_int_small) auto
  then show ?thesis using assms(2) by (simp add: iobuffer_append_def)
qed

section \<open>Finding the end of a line\<close>

lemma find_eol_from_hit:
  assumes "i \<le> j" and "int j < limit" and "j < length data" and "data ! j = LF"
    and "\<And>k. i \<le> k \<Longrightarrow> k < j \<Longrightarrow> data ! k \<noteq> LF"
  shows "find_eol_from data limit (int i) = Inr (int j)"
  using assms(1) assms(5)
proof (induction i rule: inc_induct)
  case base
  show ?case using assms(2,3,4) by (subst find_eol_from.simps) simp
next
  case (step n)
  then have "find_eol_from data limit (int (Suc n)) = Inr (int j)" "data ! n \<noteq> LF"
    by auto
  with step.hyps assms(2,3) show ?case
    by (subst find_eol_from.simps) (simp add: add.commute)
qed

lemma find_eol_from_miss:
  assumes "i \<le> n" and "n \<le> length data" and "\<And>k. i \<le> k \<Longrightarrow> k < n \<Longrightarrow> data ! k \<noteq> LF"
  shows "find_eol_from data (int n) (int i) = Inr (-1)"
  using assms(1,3)
proof (induction i rule: inc_induct)
  case base
  show ?case by (subst find_eol_from.simps) simp
next
  case (step k)
  then have "find_eol_from data (int n) (int (Suc k)) = Inr (-1)" "data ! k \<noteq> LF"
    by auto
  with step.hyps assms(2) show ?case
    by (subst find_eol_from.simps) (simp add: add.commute)
qed

lemma contents_nth: "iob_wf b \<Longrightarrow> int k < head b \<Longrightarrow> buffer b ! k = contents b ! k"
  by (simp add: contents_def)

lemma find_eol_hit:
  assumes "iob_wf b" and "contents b = l @ LF # r" and "LF \<notin> set l"
  shows "find_eol (buffer b) (head b) = Inr (int (length l))"
proof -
  have h: "int (length l) < head b"
    using contents_length [OF assms(1)] assms(2) by simp
  have "buffer b ! k \<noteq> LF" if "k < length l" for k
    using that contents_nth [OF assms(1), of k] h assms(2,3) by (auto simp: nth_append dest: nth_mem)
  moreover have "buffer b ! length l = LF"
    using contents_nth [OF assms(1) h] assms(2) by simp
  ultimately have "find_eol_from (buffer b) (head b) (int 0) = Inr (int (length l))"
    using h iob_wfD [OF assms(1)] by (intro find_eol_from_hit) auto
  then show ?thesis by (simp add: find_eol_def)
qed

lemma find_eol_miss:
  assumes "iob_wf b" and "LF \<notin> set (contents b)"
  shows "find_eol (buffer b) (head b) = Inr (-1)"
proof -
  note wf = iob_wfD [OF assms(1)]
  have "buffer b ! k \<noteq> LF" if "k < nat (head b)" for k
    using that contents_nth [OF assms(1), of k] assms(2) contents_length [OF assms(1)] wf(1)
    by (metis nat_int nth_mem zless_nat_eq_int_zless)
  then have "find_eol_from (buffer b) (int (nat (head b))) (int 0) = Inr (-1)"
    using wf by (intro find_eol_from_miss) auto
  then show ?thesis using wf(1) by (simp add: find_eol_def)
qed

text \<open>Whatever the buffer holds, a line found ends below the head: the readers make progress.\<close>

lemma find_eol_from_bound:
  "find_eol_from data limit i = Inr e \<Longrightarrow> e = -1 \<or> (i \<le> e \<and> e < limit)"
proof (induction data limit i rule: find_eol_from.induct)
  case (1 data limit i)
  show ?case
  proof (cases "i < limit")
    case True
    with 1(2) obtain c where c: "read_at data i = Inr c"
      and e: "(if c = LF then Inr i else find_eol_from data limit (i + 1)) = Inr e"
      by (subst (asm) find_eol_from.simps) (auto simp: fault_simps)
    show ?thesis
      using 1(1) [OF True c] e True by (cases "c = LF") auto
  next
    case False
    then show ?thesis using 1(2) by (subst (asm) find_eol_from.simps) auto
  qed
qed

section \<open>Reading a line\<close>

definition strip_cr :: "string \<Rightarrow> string" where
  "strip_cr l = (if l \<noteq> [] \<and> last l = CR then butlast l else l)"

text \<open>The bytes the caller sees for the line \<open>l\<close>, and the line block they are put in.\<close>

definition line_text :: "bool \<Rightarrow> string \<Rightarrow> string" where
  "line_text keep l = (if keep then l @ [LF] else strip_cr l)"

definition line_block :: "io_buffer \<Rightarrow> string \<Rightarrow> char list" where
  "line_block b txt = txt @ NUL # drop (Suc (length txt)) (line b)"

definition after_line :: "io_buffer \<Rightarrow> string \<Rightarrow> string \<Rightarrow> io_buffer" where
  "after_line b txt r =
     b\<lparr>buffer := r @ replicate (nat (bsize b) - length r) NUL, line := line_block b txt,
       head := int (length r)\<rparr>"

lemma line_text_length: "l \<noteq> [] \<Longrightarrow> length (line_text keep l) =
    (if keep then length l + 1 else if last l = CR then length l - 1 else length l)"
  by (simp add: line_text_def strip_cr_def)

lemma line_text_prefix: "l \<noteq> [] \<Longrightarrow> take (length (line_text keep l)) (l @ LF # r) = line_text keep l"
  by (cases l rule: rev_cases) (auto simp: line_text_def strip_cr_def)

lemma next_line_some:
  assumes wf: "iob_wf b" and c: "contents b = l @ LF # r" and lf: "LF \<notin> set l"
    and ne: "l \<noteq> []" and room: "keep \<Longrightarrow> int (length l) + 1 < bsize b"
  shows "iobuffer_next_line_internal b keep =
    Inr (Some (line_block b (line_text keep l)), after_line b (line_text keep l) r)"
proof -
  note W = iob_wfD [OF wf]
  let ?t = "line_text keep l" and ?e = "int (length l)"
  have hd: "head b = ?e + 1 + int (length r)" using contents_length [OF wf] c by simp
  have buf: "buffer b = l @ LF # r @ drop (nat (head b)) (buffer b)"
    using buffer_split [OF wf] c by simp
  have tl: "length ?t \<le> length l + 1" "int (length ?t) + 1 \<le> bsize b"
    using line_text_length [OF ne, of keep] room hd W by (auto split: if_splits)
  have prev: "read_at (buffer b) (?e - 1) = Inr (last l)"
    using ne by (subst buf) (cases l rule: rev_cases; simp add: read_at_def nth_append)
  have n: "calculate_bytes_to_copy ?e (last l = CR) keep = int (length ?t)"
    using line_text_length [OF ne, of keep] ne
    by (cases l) (auto simp: calculate_bytes_to_copy_def split: if_splits)
  have s1: "slice_at (buffer b) 0 (int (length ?t)) = Inr ?t"
  proof -
    have "take (length ?t) (buffer b) = ?t"
      by (subst buf) (rule line_text_prefix [OF ne])
    then show ?thesis
      using W tl by (simp add: slice_at_Inr)
  qed
  have w1: "write_at (line b) 0 ?t = Inr (?t @ drop (length ?t) (line b))"
    using W tl by (simp add: write_at_Inr)
  have w2: "write_at (?t @ drop (length ?t) (line b)) (int (length ?t)) [NUL] =
      Inr (line_block b ?t)"
    using W tl by (simp add: write_at_Inr line_block_def)
  have s2: "slice_at (buffer b) (?e + 1) (bsize b - (?e + 1)) = Inr (drop (Suc (length l)) (buffer b))"
    using W hd by (simp add: slice_at_Inr nat_diff_distrib nat_add_distrib)
  have d: "drop (Suc (length l)) (buffer b) = r @ drop (nat (head b)) (buffer b)"
    by (subst buf) simp
  let ?R = "r @ drop (nat (head b)) (buffer b) @ drop (nat (bsize b) - Suc (length l)) (buffer b)"
  have len: "length ?R = nat (bsize b)" using W hd by simp
  have k: "nat (head b) = Suc (length l + length r)" "nat (bsize b) = length (buffer b)"
    "Suc (length l + length r) \<le> length (buffer b)"
    using W hd by auto
  have w3: "write_at (buffer b) 0 (drop (Suc (length l)) (buffer b)) = Inr ?R"
    using k d by (simp add: write_at_Inr)
  have w4: "fill_at ?R (int (length r)) (bsize b - int (length r)) NUL =
      Inr (r @ replicate (nat (bsize b) - length r) NUL)"
    using W hd len by (subst fill_at_Inr) (simp_all add: nat_diff_distrib)
  show ?thesis
    using find_eol_hit [OF wf c lf] prev n s1 w1 w2 s2 w3 w4 hd
    by (simp add: iobuffer_next_line_internal_def Let_def after_line_def)
qed

lemma next_line_none:
  assumes "iob_wf b" and "LF \<notin> set (contents b)"
  shows "iobuffer_next_line_internal b keep = Inr (None, b)"
  using find_eol_miss [OF assms] by (simp add: iobuffer_next_line_internal_def)

text \<open>
  Two reads and writes outside the blocks: the byte before a line feed that comes first, and the
  terminator of a kept line that fills the line block.
\<close>

lemma next_line_lone_lf:
  assumes "iob_wf b" and "contents b = LF # r"
  shows "iobuffer_next_line_internal b keep = Inl Out_of_bounds"
  using find_eol_hit [OF assms(1), of "[]" r] assms(2)
  by (simp add: iobuffer_next_line_internal_def read_at_def)

lemma after_line_wf:
  assumes wf: "iob_wf b" and "contents b = l @ LF # r" and "int (length txt) + 1 \<le> bsize b"
  shows "iob_wf (after_line b txt r)" and "contents (after_line b txt r) = r"
    and "bsize (after_line b txt r) = bsize b"
proof -
  have "int (length r) < head b" using contents_length [OF wf] assms(2) by simp
  then show "iob_wf (after_line b txt r)" "contents (after_line b txt r) = r"
    using wf assms(3) by (auto simp: iob_wf_def after_line_def contents_def line_block_def)
qed (simp add: after_line_def)

lemma next_line_progress:
  assumes "iobuffer_next_line_internal b keep = Inr (Some blk, b')"
  shows "nat (head b') < nat (head b)"
  using assms find_eol_from_bound [of "buffer b" "head b" 0]
  by (fastforce simp: iobuffer_next_line_internal_def find_eol_def fault_simps Let_def
      split: if_splits)

section \<open>The buffer as a queue of lines\<close>

text \<open>
  What the FTP server uses the buffer for: bytes are put at one end, complete lines are taken from
  the other. \<open>drains get q ls q'\<close>: taking lines until there is none yields the strings \<open>ls\<close>.
\<close>

inductive drains ::
  "('q \<Rightarrow> fault + char list option \<times> 'q) \<Rightarrow> 'q \<Rightarrow> string list \<Rightarrow> 'q \<Rightarrow> bool" for get where
  no_line: "get q = Inr (None, q') \<Longrightarrow> drains get q [] q'"
| a_line: "get q = Inr (Some blk, q1) \<Longrightarrow> c_str blk = Inr t \<Longrightarrow> drains get q1 ts q' \<Longrightarrow>
    drains get q (t # ts) q'"

inductive_cases drains_NilE: "drains get q [] q'"
inductive_cases drains_ConsE: "drains get q (t # ts) q'"

lemma drains_deterministic:
  "drains get q ts q' \<Longrightarrow> drains get q us q'' \<Longrightarrow> ts = us \<and> q' = q''"
proof (induction arbitrary: us q'' rule: drains.induct)
  case (no_line q q')
  then show ?case by (auto elim: drains.cases)
next
  case (a_line q blk q1 t ts q')
  note step = a_line
  show ?case
    using step(5)
  proof (cases rule: drains.cases)
    case no_line
    with step(1) show ?thesis by simp
  next
    case (a_line blk' r1 t' ts')
    with step(1,2) have "drains get q1 ts' q''" "t' = t" by auto
    with step(4) [of ts' q''] a_line(1) show ?thesis by simp
  qed
qed

text \<open>A line the buffer can hand out: not empty, and free of line feeds and terminators.\<close>

definition proper_line :: "string \<Rightarrow> bool" where
  "proper_line l \<longleftrightarrow> l \<noteq> [] \<and> LF \<notin> set l \<and> NUL \<notin> set l"

definition terminated :: "string list \<Rightarrow> string" where
  "terminated ls = concat (map (\<lambda>l. l @ [LF]) ls)"

lemma terminated_simps [simp]:
  "terminated [] = []" "terminated (l # ls) = l @ LF # terminated ls"
  "terminated (ls @ ms) = terminated ls @ terminated ms"
  by (simp_all add: terminated_def)

locale line_queue =
  fixes inv :: "'q \<Rightarrow> bool" and bytes :: "'q \<Rightarrow> string" and room :: "'q \<Rightarrow> int"
    and put :: "'q \<Rightarrow> string \<Rightarrow> fault + int \<times> 'q"
    and get :: "'q \<Rightarrow> fault + char list option \<times> 'q"
    and shown :: "string \<Rightarrow> string"
  assumes put_fits: "inv q \<Longrightarrow> int (length (bytes q) + length s) \<le> room q \<Longrightarrow>
      \<exists>q'. put q s = Inr (0, q') \<and> inv q' \<and> bytes q' = bytes q @ s \<and> room q' = room q"
    and put_full: "inv q \<Longrightarrow> room q < int (length (bytes q) + length s) \<Longrightarrow> length s \<le> 2 ^ 30 \<Longrightarrow>
      put q s = Inr (-1, q)"
    and get_some: "inv q \<Longrightarrow> bytes q = l @ LF # r \<Longrightarrow> proper_line l \<Longrightarrow>
      int (length l) + 1 < room q \<Longrightarrow>
      \<exists>blk q'. get q = Inr (Some blk, q') \<and> c_str blk = Inr (shown l) \<and> inv q' \<and> bytes q' = r \<and>
        room q' = room q"
    and get_none: "inv q \<Longrightarrow> LF \<notin> set (bytes q) \<Longrightarrow> get q = Inr (None, q)"
begin

lemma drains_lines:
  assumes "inv q" and "bytes q = terminated ls @ r" and "LF \<notin> set r"
    and "\<And>l. l \<in> set ls \<Longrightarrow> proper_line l \<and> int (length l) + 1 < room q"
  shows "\<exists>q'. drains get q (map shown ls) q' \<and> inv q' \<and> bytes q' = r \<and> room q' = room q"
  using assms
proof (induction ls arbitrary: q)
  case Nil
  then show ?case using get_none by (auto intro: drains.no_line)
next
  case (Cons l ls)
  then obtain blk q1 where g: "get q = Inr (Some blk, q1)" "c_str blk = Inr (shown l)" "inv q1"
      "bytes q1 = terminated ls @ r" "room q1 = room q"
    using get_some [of q l "terminated ls @ r"] by auto
  with Cons obtain q' where "drains get q1 (map shown ls) q'" "inv q'" "bytes q' = r"
      "room q' = room q"
    by (metis list.set_intros(2))
  with g show ?case by (auto intro: drains.a_line)
qed

lemma put_then_drain:
  assumes "inv q" and "bytes q = terminated ls" and "int (length (terminated (ls @ [l]))) \<le> room q"
    and "\<And>k. k \<in> set (ls @ [l]) \<Longrightarrow> proper_line k \<and> int (length k) + 1 < room q"
  shows "\<exists>q1 q2. put q (l @ [LF]) = Inr (0, q1) \<and> drains get q1 (map shown (ls @ [l])) q2 \<and>
    inv q2 \<and> bytes q2 = []"
proof -
  obtain q1 where "put q (l @ [LF]) = Inr (0, q1)" "inv q1" "bytes q1 = terminated (ls @ [l]) @ []"
      "room q1 = room q"
    using put_fits [of q "l @ [LF]"] assms(1,2,3) by auto
  with drains_lines [of q1 "ls @ [l]" "[]"] assms(4) show ?thesis by auto
qed

end

definition put_string :: "io_buffer \<Rightarrow> string \<Rightarrow> fault + int \<times> io_buffer" where
  "put_string b s = iobuffer_append b (Some (s @ [NUL])) (int (length s))"

lemma strip_cr_no_NUL: "NUL \<notin> set l \<Longrightarrow> NUL \<notin> set (strip_cr l)"
  by (auto simp: strip_cr_def dest: in_set_butlastD)

lemma next_line_queue:
  assumes "iob_wf b" and "contents b = l @ LF # r" and "proper_line l"
    and room: "int (length l) + 1 < bsize b"
  shows "\<exists>blk b'. iobuffer_next_line_internal b keep = Inr (Some blk, b') \<and>
    c_str blk = Inr (line_text keep l) \<and> iob_wf b' \<and> contents b' = r \<and> bsize b' = bsize b"
proof -
  have p: "LF \<notin> set l" "l \<noteq> []" "NUL \<notin> set (line_text keep l)"
    using assms(3) strip_cr_no_NUL by (auto simp: proper_line_def line_text_def)
  have "int (length (line_text keep l)) + 1 \<le> bsize b"
    using line_text_length [OF p(2), of keep] room by (auto split: if_splits)
  with next_line_some [OF assms(1,2) p(1,2) room] after_line_wf [OF assms(1,2)] p(3)
  show ?thesis by (auto simp: line_block_def)
qed

lemma put_string_full:
  assumes "iob_wf b" and "bsize b < int (length (contents b) + length s)" and "length s \<le> 2 ^ 30"
  shows "put_string b s = Inr (-1, b)"
  unfolding put_string_def
  by (rule append_overflow) (use assms contents_length [OF assms(1)] in auto)

text \<open>The output side keeps line ends, the input side strips them.\<close>

interpretation out_lines: line_queue iob_wf contents bsize put_string iobuffer_next_line_eol
    "line_text True"
proof
  fix b :: io_buffer and s :: string
  assume "iob_wf b" and "int (length (contents b) + length s) \<le> bsize b"
  then show "\<exists>b'. put_string b s = Inr (0, b') \<and> iob_wf b' \<and> contents b' = contents b @ s \<and>
      bsize b' = bsize b"
    using append_fits [of b s "s @ [NUL]"] contents_length [of b] by (auto simp: put_string_def)
qed (use put_string_full next_line_queue next_line_none in
      \<open>auto simp: iobuffer_next_line_eol_def\<close>)

interpretation in_lines: line_queue iob_wf contents bsize put_string iobuffer_next_line
    "line_text False"
proof
  fix b :: io_buffer and s :: string
  assume "iob_wf b" and "int (length (contents b) + length s) \<le> bsize b"
  then show "\<exists>b'. put_string b s = Inr (0, b') \<and> iob_wf b' \<and> contents b' = contents b @ s \<and>
      bsize b' = bsize b"
    by (rule out_lines.put_fits)
qed (use put_string_full next_line_queue next_line_none in
      \<open>auto simp: iobuffer_next_line_def\<close>)

section \<open>Every outcome of the readers, and the invariant\<close>

lemma next_line_overflow:
  assumes wf: "iob_wf b" and c: "contents b = l @ LF # r" and lf: "LF \<notin> set l" and ne: "l \<noteq> []"
    and full: "int (length l) + 1 = bsize b"
  shows "iobuffer_next_line_internal b True = Inl Out_of_bounds"
proof -
  note W = iob_wfD [OF wf]
  have "head b = int (length l) + 1 + int (length r)" using contents_length [OF wf] c by simp
  then have b: "buffer b = l @ [LF]" and "r = []"
    using buffer_split [OF wf] c full W by auto
  have "read_at (buffer b) (int (length l) - 1) = Inr (last l)"
    using ne by (simp add: b) (cases l rule: rev_cases; simp add: read_at_def nth_append)
  moreover have "slice_at (buffer b) 0 (int (length l) + 1) = Inr (l @ [LF])"
    by (simp add: b slice_at_Inr nat_add_distrib)
  moreover have "write_at (line b) 0 (l @ [LF]) = Inr (l @ [LF])"
    using W full by (simp add: write_at_Inr)
  moreover have "write_at (l @ [LF]) (int (length l) + 1) [NUL] = Inl Out_of_bounds"
    by (simp add: write_at_def)
  ultimately show ?thesis
    using find_eol_hit [OF wf c lf]
    by (simp add: iobuffer_next_line_internal_def calculate_bytes_to_copy_def Let_def)
qed

lemma next_line_cases:
  assumes "iob_wf b"
  obtains (none) "LF \<notin> set (contents b)" "iobuffer_next_line_internal b keep = Inr (None, b)"
    | (lone) r where "contents b = LF # r" "iobuffer_next_line_internal b keep = Inl Out_of_bounds"
    | (full) l where "contents b = l @ [LF]" "LF \<notin> set l" "l \<noteq> []" "keep" "int (length l) + 1 = bsize b"
        "iobuffer_next_line_internal b keep = Inl Out_of_bounds"
    | (line) l r where "contents b = l @ LF # r" "LF \<notin> set l" "l \<noteq> []"
        "keep \<Longrightarrow> int (length l) + 1 < bsize b"
        "iobuffer_next_line_internal b keep =
          Inr (Some (line_block b (line_text keep l)), after_line b (line_text keep l) r)"
proof (cases "LF \<in> set (contents b)")
  case False
  then show thesis using none next_line_none [OF assms] by blast
next
  case True
  then obtain l r where c: "contents b = l @ LF # r" "LF \<notin> set l"
    by (meson split_list_first)
  have len: "int (length l) + 1 + int (length r) \<le> bsize b"
    using contents_length [OF assms] iob_wfD(2) [OF assms] c by simp
  show thesis
  proof (cases "l = []")
    case True
    with c lone next_line_lone_lf [OF assms] show thesis by auto
  next
    case False
    show thesis
    proof (cases "keep \<and> int (length l) + 1 = bsize b")
      case True
      with len have "r = []" by simp
      with True c False next_line_overflow [OF assms c] full show thesis by auto
    next
      case ok: False
      with len have "keep \<Longrightarrow> int (length l) + 1 < bsize b" by auto
      with line c False next_line_some [OF assms c False] show thesis by blast
    qed
  qed
qed

lemma next_line_wf:
  assumes "iob_wf b" and "iobuffer_next_line_internal b keep = Inr (x, b')"
  shows "iob_wf b' \<and> bsize b' = bsize b"
  using assms(1)
proof (cases rule: next_line_cases [where keep = keep])
  case (line l r)
  have "int (length (line_text keep l)) + 1 \<le> bsize b"
    using line_text_length [OF line(3), of keep] line(1,4) contents_length [OF assms(1)]
      iob_wfD(2) [OF assms(1)] by (auto split: if_splits)
  with after_line_wf [OF assms(1) line(1)] line(5) assms(2) show ?thesis by auto
qed (use assms in auto)

lemma append_wf:
  assumes "iob_wf b" and "iobuffer_append b data len = Inr (r, b')"
  shows "iob_wf b' \<and> bsize b' = bsize b"
  using assms
  by (fastforce simp: iobuffer_append_def fault_simps iob_wf_def c_int_def slice_at_def
      dest: length_write_at split: option.splits if_splits)

fun put_all :: "io_buffer \<Rightarrow> string list \<Rightarrow> fault + io_buffer" where
  "put_all b [] = Inr b"
| "put_all b (t # ts) = bindF (put_string b t) (\<lambda>(_, b'). put_all b' ts)"

lemma put_all_fits:
  assumes "iob_wf b" and "int (length (contents b @ concat ts)) \<le> bsize b"
  shows "\<exists>b'. put_all b ts = Inr b' \<and> iob_wf b' \<and> contents b' = contents b @ concat ts \<and>
    bsize b' = bsize b"
  using assms
proof (induction ts arbitrary: b)
  case (Cons t ts)
  then obtain b1 where "put_string b t = Inr (0, b1)" "iob_wf b1" "contents b1 = contents b @ t"
      "bsize b1 = bsize b"
    using out_lines.put_fits [of b t] by auto
  with Cons.IH [of b1] Cons.prems(2) show ?case by auto
qed simp

lemma takeWhile_LF [simp]: "LF \<notin> set l \<Longrightarrow> takeWhile (\<lambda>c. c \<noteq> LF) (l @ LF # r) = l"
  by (induction l) auto

section \<open>Properties\<close>

text \<open>C5: lines put into an empty buffer come out again in the same order, each complete with its
  line end, and the buffer is empty afterwards; no step is undefined.\<close>

theorem buffer_is_fifo:
  assumes "iob_wf b" and "contents b = []" and "int (length (terminated ls)) \<le> bsize b"
    and "\<forall>l \<in> set ls. proper_line l \<and> int (length l) + 1 < bsize b"
  shows "\<exists>b1 b2. put_all b (map (\<lambda>l. l @ [LF]) ls) = Inr b1 \<and>
    drains iobuffer_next_line_eol b1 (map (\<lambda>l. l @ [LF]) ls) b2 \<and> iob_wf b2 \<and> contents b2 = []"
proof -
  obtain b1 where b1: "put_all b (map (\<lambda>l. l @ [LF]) ls) = Inr b1" "iob_wf b1"
      "contents b1 = terminated ls @ []" "bsize b1 = bsize b"
    using put_all_fits [OF assms(1), of "map (\<lambda>l. l @ [LF]) ls"] assms(2,3)
    by (auto simp: terminated_def)
  have "map (line_text True) ls = map (\<lambda>l. l @ [LF]) ls" by (simp add: line_text_def)
  with out_lines.drains_lines [OF b1(2,3)] b1(1,4) assms(4) show ?thesis by auto
qed

theorem buffer_is_fifo_witness:
  "\<exists>b b1 b2. put_all b [''200 ok'' @ [CR, LF], ''221 bye'' @ [CR, LF]] = Inr b1 \<and>
    drains iobuffer_next_line_eol b1 [''200 ok'' @ [CR, LF], ''221 bye'' @ [CR, LF]] b2 \<and>
    contents b2 = []"
proof -
  let ?b = "\<lparr>buffer = replicate 64 NUL, line = replicate 64 NUL, bsize = 64, head = 0\<rparr>"
  have "iob_wf ?b" "contents ?b = []" by (simp_all add: iob_wf_def contents_def)
  then show ?thesis
    using buffer_is_fifo [of ?b "[''200 ok'' @ [CR], ''221 bye'' @ [CR]]"]
    by (auto simp: proper_line_def)
qed

text \<open>C6: every outcome of reading a line from a well-formed buffer. Without a line feed nothing
  happens. A line feed at the very start makes the code read the byte before the block, and a kept
  line as long as the block makes it write its terminator behind the block. Otherwise the caller
  sees the first line (with its line end, or without it and without a carriage return), the rest
  stays, and the bytes behind it are zero.\<close>

theorem next_line_outcomes:
  assumes "iob_wf b"
  shows "iobuffer_next_line_internal b keep =
    (if LF \<notin> set (contents b) then Inr (None, b)
     else
       let l = takeWhile (\<lambda>c. c \<noteq> LF) (contents b); r = drop (length l + 1) (contents b) in
       if l = [] \<or> (keep \<and> int (length l) + 1 = bsize b) then Inl Out_of_bounds
       else Inr (Some (line_block b (line_text keep l)), after_line b (line_text keep l) r))"
  using assms
proof (cases rule: next_line_cases [where keep = keep])
  case (full l)
  then show ?thesis by simp
next
  case (line l r)
  then show ?thesis by auto
qed simp_all

theorem next_line_outcomes_witness:
  "iobuffer_next_line_internal
    \<lparr>buffer = ''NOOP'' @ [CR, LF] @ replicate 58 NUL, line = replicate 64 NUL, bsize = 64, head = 6\<rparr>
    False \<noteq> Inl Out_of_bounds"
  by (subst next_line_outcomes) (simp_all add: iob_wf_def contents_def Let_def)

text \<open>Appending and reading lines keep the buffer well formed, whatever is appended and whichever
  line is read, as long as the operation is defined.\<close>

theorem buffer_invariant:
  assumes "iob_wf b"
  shows "(\<forall>data len r b'. iobuffer_append b data len = Inr (r, b') \<longrightarrow> iob_wf b' \<and> bsize b' = bsize b) \<and>
    (\<forall>x b'. iobuffer_next_line b = Inr (x, b') \<longrightarrow> iob_wf b' \<and> bsize b' = bsize b) \<and>
    (\<forall>x b'. iobuffer_next_line_eol b = Inr (x, b') \<longrightarrow> iob_wf b' \<and> bsize b' = bsize b)"
  using append_wf [OF assms] next_line_wf [OF assms]
  by (simp add: iobuffer_next_line_def iobuffer_next_line_eol_def)

theorem buffer_invariant_witness:
  "iob_wf \<lparr>buffer = replicate 64 NUL, line = replicate 64 NUL, bsize = 64, head = 0\<rparr> \<and>
   (\<exists>b'. iobuffer_append \<lparr>buffer = replicate 64 NUL, line = replicate 64 NUL, bsize = 64, head = 0\<rparr>
      (Some ''hello'') 5 = Inr (0, b') \<and> iob_wf b')"
proof -
  let ?b = "\<lparr>buffer = replicate 64 NUL, line = replicate 64 NUL, bsize = 64, head = 0\<rparr>"
  have w: "iob_wf ?b" by (simp add: iob_wf_def)
  obtain b' where "iobuffer_append ?b (Some ''hello'') 5 = Inr (0, b')"
    by (simp add: iobuffer_append_def in_int_def INT_MAX_def slice_at_def write_at_def)
  with buffer_invariant [OF w] w show ?thesis by blast
qed

text \<open>A new buffer has strictly more bytes than asked for, a multiple of the cache line, at most 64
  more, all zero; it exists exactly when its three allocations succeed.\<close>

theorem new_buffer_size:
  assumes "0 \<le> sz" and "sz \<le> 2 ^ 20 - 64"
  shows "(\<forall>b m'. new_buffer sz m = (Some b, m') \<longrightarrow> iob_wf b \<and> contents b = [] \<and>
      sz < bsize b \<and> bsize b \<le> sz + 64 \<and> 64 dvd bsize b) \<and>
    (fst (new_buffer sz m) = None \<longleftrightarrow> m 0 = 0 \<or> m 1 = 0 \<or> m 2 = 0)"
proof -
  have "bsize b = sizeAlign sz 64" if "new_buffer sz m = (Some b, m')" for b m'
    using that by (auto simp: new_buffer_def Let_def split: prod.splits if_splits)
  moreover have "fst (new_buffer sz m) = None \<longleftrightarrow> m 0 = 0 \<or> m 1 = 0 \<or> m 2 = 0"
    by (simp add: new_buffer_def malloc_def Let_def eval_nat_numeral)
  ultimately show ?thesis
    using new_buffer_wf assms sizeAlign_spec [of sz 64] by auto
qed

theorem new_buffer_size_witness:
  "\<exists>b m'. new_buffer 1024 (\<lambda>_. 64) = (Some b, m') \<and> 64 dvd bsize b \<and> 1024 < bsize b"
proof -
  obtain b m' where "new_buffer 1024 (\<lambda>_. 64) = (Some b, m')"
    by (simp add: new_buffer_def malloc_def Let_def)
  then show ?thesis using new_buffer_size [of 1024 "\<lambda>_. 64"] by auto
qed

end
