(* ===== verification/Network.thy ===== *)
theory Network
  imports Platform IOBuffer
begin

text \<open>
  The wrappers of \<^verbatim>\<open>network.c\<close> around the socket library: server sockets, polling for a connection,
  reading into a line buffer, writing a line, and the counter of the ports passive mode hands out.
  A negative result is an error code, as in the source. The progress messages on the console are
  left out.
\<close>

section \<open>State\<close>

text \<open>\<open>static unsigned next_ephermal_port = 1024\<close>\<close>

record 'w net = "'w sys" +
  next_ephermal_port :: u32

section \<open>Addresses and ports\<close>

definition network_get_host_ip :: "'w os \<Rightarrow> ('w, 'z) sys_scheme \<Rightarrow> u32 \<times> ('w, 'z) sys_scheme" where
  "network_get_host_ip os s =
     (let (answer, s) = sysc (os_host_ip os) s in
      (case answer of None \<Rightarrow> 0 | Some ip \<Rightarrow> ip, s))"

definition network_get_ephermal_port :: "('w, 'z) net_scheme \<Rightarrow> u16 \<times> ('w, 'z) net_scheme" where
  "network_get_ephermal_port s =
     (let result = ucast (next_ephermal_port s);
          n = next_ephermal_port s + 1;
          n = (if n > 65535 then 1024 else n) in
      (result, s\<lparr>next_ephermal_port := n\<rparr>))"

section \<open>Server sockets\<close>

definition setup_server_socket :: "'w os \<Rightarrow> ('w, 'z) sys_scheme \<Rightarrow> int \<times> ('w, 'z) sys_scheme" where
  "setup_server_socket os s =
     (let (sock, s) = sysc (os_socket os) s in
      if sock < 0 then let (errno, s) = sysc (os_socketlasterr os) s in (-1, s)
      else
        let s = sys_do (os_setsockopt os sock SO_NONBLOCK) s;
            s = sys_do (os_setsockopt os sock SO_REUSEADDR) s in
        (sock, s))"

definition bind_to_port :: "'w os \<Rightarrow> int \<Rightarrow> int \<Rightarrow> ('w, 'z) sys_scheme \<Rightarrow> int \<times> ('w, 'z) sys_scheme" where
  "bind_to_port os sock port s =
     (let (result, s) = sysc (os_bind os sock port) s in
      if result < 0 then let (errno, s) = sysc (os_socketlasterr os) s in (result, s)
      else (result, s))"

definition network_create_serversocket ::
  "'w os \<Rightarrow> int \<Rightarrow> int \<Rightarrow> ('w, 'z) sys_scheme \<Rightarrow> int \<times> ('w, 'z) sys_scheme" where
  "network_create_serversocket os port backlog s =
     (let (sock, s) = setup_server_socket os s in
      if sock < 0 then (-1, s)
      else
        let (bound, s) = bind_to_port os sock port s in
        if bound < 0 then let (_, s) = sysc (os_socketclose os sock) s in (-1, s)
        else
          let (result, s) = sysc (os_listen os sock backlog) s in
          if result < 0 then
            let (errno, s) = sysc (os_socketlasterr os) s;
                (_, s) = sysc (os_socketclose os sock) s in
            (-1, s)
          else (sock, s))"

text \<open>
  One attempt to accept. The callback gets the descriptor and the address and port of the peer;
  \<open>None\<close> is the null callback.
\<close>

definition network_accept_poll ::
  "'w os \<Rightarrow> int \<Rightarrow> (int \<Rightarrow> u32 \<Rightarrow> u16 \<Rightarrow> ('w, 'z) sys_scheme \<Rightarrow> fault + ('w, 'z) sys_scheme) option \<Rightarrow>
   ('w, 'z) sys_scheme \<Rightarrow> fault + int \<times> ('w, 'z) sys_scheme" where
  "network_accept_poll os sock callback s =
     (case callback of
        None \<Rightarrow> Inr (-1, s)
      | Some cb \<Rightarrow>
          let ((fd, ip, port), s) = sysc (os_accept os sock) s in
          if fd < 0 then
            let (errno, s) = sysc (os_socketlasterr os) s in
            if errno = EAGAIN \<or> errno = EWOULDBLOCK then Inr (0, s) else Inr (-1, s)
          else bindF (cb fd ip port s) (\<lambda>s. Inr (0, s)))"

definition network_close :: "'w os \<Rightarrow> int \<Rightarrow> ('w, 'z) sys_scheme \<Rightarrow> int \<times> ('w, 'z) sys_scheme" where
  "network_close os sock s = (if sock < 0 then (sock, s) else sysc (os_socketclose os sock) s)"

section \<open>Reading and writing\<close>

definition network_read_buffer ::
  "'w os \<Rightarrow> int \<Rightarrow> io_buffer \<Rightarrow> ('w, 'z) sys_scheme \<Rightarrow>
   fault + int \<times> io_buffer \<times> ('w, 'z) sys_scheme" where
  "network_read_buffer os sock b s =
     (if sock < 0 then Inr (sock, b, s)
      else if iobuffer_remaining b = 0 then Inr (- ENOBUFS, b, s)
      else
        case iobuffer_head (Some b) of
          None \<Rightarrow> Inl Null_pointer
        | Some off \<Rightarrow>
            if iobuffer_remaining b < 0 then Inl Bad_size
            else
              let (nread, s) = sysc (os_recv os sock (iobuffer_remaining b)) s in
              (case nread of
                 None \<Rightarrow> let (errno, s) = sysc (os_socketlasterr os) s in Inr (- errno, b, s)
               | Some bytes \<Rightarrow>
                   bindF (write_at (buffer b) off bytes) (\<lambda>buf.
                   let n = int (length bytes); b = b\<lparr>buffer := buf, head := head b + n\<rparr> in
                   (case iobuffer_head (Some b) of
                      None \<Rightarrow> Inl Null_pointer
                    | Some off \<Rightarrow>
                        bindF (fill_at (buffer b) off (iobuffer_remaining b) NUL) (\<lambda>buf.
                        Inr (n, b\<lparr>buffer := buf\<rparr>, s))))))"

text \<open>The line is a C string at the start of its block.\<close>

definition network_writeln ::
  "'w os \<Rightarrow> int \<Rightarrow> char list \<Rightarrow> ('w, 'z) sys_scheme \<Rightarrow> fault + int \<times> ('w, 'z) sys_scheme" where
  "network_writeln os sock ln s =
     (if sock < 0 then Inr (-1, s)
      else
        bindF (c_str ln) (\<lambda>text.
        if text = [] then Inr (0, s)
        else
          let (nwritten, s) = sysc (os_send os sock text) s in
          if nwritten < 0 then
            let (errno, s) = sysc (os_socketlasterr os) s in Inr (- errno, s)
          else Inr (nwritten, s)))"

text \<open>Active mode is not implemented: connecting always fails.\<close>

definition network_connect :: "u32 \<Rightarrow> u16 \<Rightarrow> int" where
  "network_connect remote_ip remote_port = -1"

section \<open>Reading keeps the buffer\<close>

text \<open>A socket never hands out more bytes than it was asked for.\<close>

definition recv_within :: "'w os \<Rightarrow> bool" where
  "recv_within os \<longleftrightarrow>
     (\<forall>fd n w bs w'. 0 \<le> n \<longrightarrow> os_recv os fd n w = (Some bs, w') \<longrightarrow> int (length bs) \<le> n)"

text \<open>An input buffer leaves its last byte free.\<close>

definition iob_input :: "io_buffer \<Rightarrow> bool" where
  "iob_input b \<longleftrightarrow> iob_wf b \<and> head b < bsize b"

lemma network_read_ok:
  assumes b: "iob_input b" and r: "iobuffer_remaining b \<noteq> 0" and "0 \<le> sock"
    and rc: "os_recv os sock (iobuffer_remaining b) (world s) = (Some bytes, w')"
    and n: "int (length bytes) \<le> iobuffer_remaining b"
  shows "\<exists>b'. network_read_buffer os sock b s = Inr (int (length bytes), b', s\<lparr>world := w'\<rparr>) \<and>
    iob_input b' \<and> contents b' = contents b @ bytes \<and> bsize b' = bsize b \<and> line b' = line b"
proof -
  note wf = iob_wfD [OF conjunct1 [OF b [unfolded iob_input_def]]]
  have rem: "iobuffer_remaining b = bsize b - 1 - head b" "0 < iobuffer_remaining b"
    using b r by (auto simp: iobuffer_remaining_def iob_input_def)
  let ?n = "int (length bytes)"
  obtain buf1 where w: "write_at (buffer b) (head b) bytes = Inr buf1"
    using write_at_defined [of "head b" bytes "buffer b"] wf rem n by auto
  let ?b1 = "b\<lparr>buffer := buf1, head := head b + ?n\<rparr>"
  have l1: "length buf1 = length (buffer b)" using w by (rule length_write_at)
  have h1: "iobuffer_head (Some ?b1) = Some (head b + ?n)"
    "iobuffer_remaining ?b1 = bsize b - 1 - head b - ?n"
    using rem n by (auto simp: iobuffer_head_def iobuffer_remaining_def)
  obtain buf2 where f: "fill_at buf1 (head b + ?n) (bsize b - 1 - head b - ?n) NUL = Inr buf2"
    using fill_at_defined [of "bsize b - 1 - head b - ?n" "head b + ?n" buf1] wf rem n l1 by auto
  let ?b2 = "?b1\<lparr>buffer := buf2\<rparr>"
  have run: "network_read_buffer os sock b s = Inr (?n, ?b2, s\<lparr>world := w'\<rparr>)"
    using assms(3) r rem rc w h1 f wf(2)
    by (simp add: network_read_buffer_def sysc_def iobuffer_head_def Let_def)
  have "iob_input ?b2"
    using wf rem n length_fill_at [OF f] l1 by (simp add: iob_input_def iob_wf_def)
  moreover have "contents ?b2 = contents b @ bytes"
    using take_fill_at [OF f] take_write_at [OF w] wf(1) by (simp add: contents_def nat_add_distrib)
  ultimately show ?thesis using run by auto
qed

section \<open>The port counter\<close>

lemma ephermal_step:
  assumes "1024 \<le> unat (next_ephermal_port s)" and "unat (next_ephermal_port s) \<le> 65535"
  shows "unat (next_ephermal_port (snd (network_get_ephermal_port s))) =
      1024 + (unat (next_ephermal_port s) - 1024 + 1) mod 64512"
    and "unat (fst (network_get_ephermal_port s)) = unat (next_ephermal_port s)"
proof -
  let ?p = "next_ephermal_port s"
  have u: "unat (?p + 1) = unat ?p + 1"
    using assms(2) by (simp add: unat_word_ariths)
  show "unat (next_ephermal_port (snd (network_get_ephermal_port s))) =
      1024 + (unat ?p - 1024 + 1) mod 64512"
  proof (cases "unat ?p = 65535")
    case True
    with u show ?thesis by (simp add: network_get_ephermal_port_def Let_def word_less_nat_alt)
  next
    case False
    with assms u show ?thesis
      by (simp add: network_get_ephermal_port_def Let_def word_less_nat_alt)
  qed
  show "unat (fst (network_get_ephermal_port s)) = unat ?p"
    using assms(2) by (simp add: network_get_ephermal_port_def Let_def unsigned_ucast_eq
        take_bit_nat_eq_self)
qed

text \<open>The state after handing out some ports.\<close>

fun after_ports :: "nat \<Rightarrow> ('w, 'z) net_scheme \<Rightarrow> ('w, 'z) net_scheme" where
  "after_ports 0 s = s"
| "after_ports (Suc k) s = snd (network_get_ephermal_port (after_ports k s))"

lemma after_ports_port:
  assumes "1024 \<le> unat (next_ephermal_port s)" and "unat (next_ephermal_port s) \<le> 65535"
  shows "unat (next_ephermal_port (after_ports k s)) =
    1024 + (unat (next_ephermal_port s) - 1024 + k) mod 64512"
proof (induction k)
  case 0
  have "unat (next_ephermal_port s) - 1024 < 64512" using assms by arith
  then show ?case using assms(1) by simp
next
  case (Suc k)
  let ?r = "(unat (next_ephermal_port s) - 1024 + k) mod 64512"
  have "?r < 64512" by simp
  then have "1024 \<le> unat (next_ephermal_port (after_ports k s))"
    "unat (next_ephermal_port (after_ports k s)) \<le> 65535" using Suc by auto
  from ephermal_step(1) [OF this] Suc show ?case by (simp add: mod_Suc_eq)
qed

lemma network_read_cases:
  assumes "iob_input b" and "recv_within os"
  shows "\<exists>n b' s'. network_read_buffer os sock b s = Inr (n, b', s') \<and> iob_input b' \<and>
    bsize b' = bsize b \<and>
    (if sock < 0 then n = sock \<and> b' = b \<and> s' = s
     else if iobuffer_remaining b = 0 then n = - ENOBUFS \<and> b' = b \<and> s' = s
     else
       case os_recv os sock (iobuffer_remaining b) (world s) of
         (None, w) \<Rightarrow> n = - fst (os_socketlasterr os w) \<and> b' = b
       | (Some bytes, w) \<Rightarrow> n = int (length bytes) \<and> contents b' = contents b @ bytes \<and>
           s' = s\<lparr>world := w\<rparr>)"
proof (cases "sock < 0 \<or> iobuffer_remaining b = 0")
  case True
  then show ?thesis using assms(1) by (auto simp: network_read_buffer_def)
next
  case opened: False
  obtain x w where x: "os_recv os sock (iobuffer_remaining b) (world s) = (x, w)" by fastforce
  show ?thesis
  proof (cases x)
    case None
    moreover have "iobuffer_head (Some b) = Some (head b)" "\<not> iobuffer_remaining b < 0"
      using assms(1) by (auto simp: iobuffer_head_def iobuffer_remaining_def iob_input_def)
    ultimately show ?thesis
      using opened x assms(1)
      by (auto simp: network_read_buffer_def sysc_def split: prod.splits)
  next
    case (Some bytes)
    have "0 \<le> iobuffer_remaining b"
      using assms(1) by (auto simp: iobuffer_remaining_def iob_input_def)
    then have "int (length bytes) \<le> iobuffer_remaining b"
      using assms(2) x Some unfolding recv_within_def by blast
    then obtain b' where "network_read_buffer os sock b s = Inr (int (length bytes), b', s\<lparr>world := w\<rparr>)"
        "iob_input b'" "contents b' = contents b @ bytes" "bsize b' = bsize b"
      using network_read_ok [OF assms(1)] opened x Some by (metis not_less)
    then show ?thesis using opened x Some by simp
  qed
qed

section \<open>Properties\<close>

text \<open>Reading from a socket into an input buffer, on every outcome of the socket library: a closed
  socket and a full buffer are reported without a call; an error reports the negated error code and
  leaves the buffer alone; otherwise exactly the received bytes are added behind the ones held, the
  count is returned, and the buffer stays one that leaves its last byte free.\<close>

theorem network_read_outcomes:
  assumes "iob_input b" and "recv_within os"
  shows "\<exists>n b' s'. network_read_buffer os sock b s = Inr (n, b', s') \<and> iob_input b' \<and>
    bsize b' = bsize b \<and>
    (if sock < 0 then n = sock \<and> b' = b \<and> s' = s
     else if iobuffer_remaining b = 0 then n = - ENOBUFS \<and> b' = b \<and> s' = s
     else
       case os_recv os sock (iobuffer_remaining b) (world s) of
         (None, w) \<Rightarrow> n = - fst (os_socketlasterr os w) \<and> b' = b
       | (Some bytes, w) \<Rightarrow> n = int (length bytes) \<and> contents b' = contents b @ bytes \<and>
           s' = s\<lparr>world := w\<rparr>)"
  by (rule network_read_cases [OF assms])

lemma host_recv_within: "recv_within host_os"
  by (auto simp: recv_within_def pop_inbox_def split: list.splits)

theorem network_read_outcomes_witness:
  "\<exists>n b' s'. network_read_buffer host_os 5
      \<lparr>buffer = replicate 64 NUL, line = replicate 64 NUL, bsize = 64, head = 0\<rparr>
      \<lparr>world = host0\<lparr>inbox := [''NOOP'']\<rparr>, allocs = allocs0\<rparr> = Inr (n, b', s') \<and>
    n = 4 \<and> contents b' = ''NOOP''"
proof -
  let ?b = "\<lparr>buffer = replicate 64 NUL, line = replicate 64 NUL, bsize = 64, head = 0\<rparr>"
  let ?s = "\<lparr>world = host0\<lparr>inbox := [''NOOP'']\<rparr>, allocs = allocs0\<rparr>"
  have "iob_input ?b" "contents ?b = []" by (simp_all add: iob_input_def iob_wf_def contents_def)
  with network_read_outcomes [of ?b host_os 5 ?s] host_recv_within show ?thesis
    by (simp add: iobuffer_remaining_def pop_inbox_def) blast
qed

text \<open>The ports of passive mode: from any port of the range, the k-th port handed out later is k
  steps further in the range 1024 to 65535, wrapping at its end; so no reserved port is ever handed
  out and a port comes back only after all 64512 of them.\<close>

theorem ephermal_ports_cycle:
  assumes "1024 \<le> unat (next_ephermal_port s)" and "unat (next_ephermal_port s) \<le> 65535"
  shows "unat (fst (network_get_ephermal_port (after_ports k s))) =
      1024 + (unat (next_ephermal_port s) - 1024 + k) mod 64512 \<and>
    (\<forall>j < 64512. fst (network_get_ephermal_port (after_ports (k + j) s)) =
        fst (network_get_ephermal_port (after_ports k s)) \<longrightarrow> j = 0)"
proof -
  let ?p = "unat (next_ephermal_port s) - 1024"
  have port: "unat (fst (network_get_ephermal_port (after_ports k s))) = 1024 + (?p + k) mod 64512" for k
  proof -
    have "(?p + k) mod 64512 < 64512" by simp
    then show ?thesis
      using ephermal_step(2) [of "after_ports k s"] after_ports_port [OF assms, of k] by simp
  qed
  have "j = 0" if "j < 64512" "(?p + (k + j)) mod 64512 = (?p + k) mod 64512" for j
  proof -
    have "64512 dvd (?p + (k + j)) - (?p + k)"
      using that(2) by (metis mod_eq_dvd_iff_nat le_add1 add.assoc)
    then show ?thesis using that(1) by (auto dest: dvd_imp_le)
  qed
  then show ?thesis using port by (metis add_left_cancel)
qed

theorem ephermal_ports_cycle_witness:
  "unat (fst (network_get_ephermal_port
    (after_ports 64513 \<lparr>world = (), allocs = (\<lambda>_. 64), next_ephermal_port = 1024\<rparr>))) = 1025"
  using ephermal_ports_cycle [of "\<lparr>world = (), allocs = (\<lambda>_. 64), next_ephermal_port = 1024\<rparr>" 64513]
  by simp

end
