(* ===== verification/Dtp.thy ===== *)
theory Dtp
  imports Network
begin

text \<open>
  The data channels of \<^verbatim>\<open>dtp/dtp.c\<close>, \<^verbatim>\<open>dtp/passive.c\<close> and \<^verbatim>\<open>dtp/active.c\<close>. Channels live in a
  store of addresses, because the poll list, the list under construction and the client all point
  to them and the code frees them while they are still linked. The union \<open>local\<close> is the word of its
  four bytes: a descriptor or the address of a text.
\<close>

section \<open>Channels\<close>

text \<open>A field of memory from \<open>malloc\<close> is unreadable until it is assigned.\<close>

datatype 'a cell = Uninit | Init 'a

fun cell_get :: "'a cell \<Rightarrow> fault + 'a" where
  "cell_get Uninit = Inl Uninitialised"
| "cell_get (Init x) = Inr x"

text \<open>The two tables of function pointers a channel can carry.\<close>

datatype data_interface = Passive | Active

record data_channel =
  nxt :: "u32 cell"
  dstate :: u8
  dlocal :: u32
  remote_fd :: int
  listen_fd :: "int cell"
  dip :: u32
  dport :: u16
  dbuffer :: "io_buffer option cell"
  iface :: "data_interface cell"

definition DTP_PENDING :: u8 where "DTP_PENDING = 0"
definition DTP_ESTABLISHED :: u8 where "DTP_ESTABLISHED = 1"
definition DTP_SENDING :: u8 where "DTP_SENDING = 2"
definition DTP_RECVING :: u8 where "DTP_RECVING = 3"
definition DTP_CLOSED :: u8 where "DTP_CLOSED = 4"
definition DTP_ERROR :: u8 where "DTP_ERROR = 5"
definition DTP_FREE :: u8 where "DTP_FREE = 6"
definition DTP_RECV :: u8 where "DTP_RECV = 0x20"
definition DTP_XMIT :: u8 where "DTP_XMIT = 0x40"
definition DTP_LOCAL_BUF :: u8 where "DTP_LOCAL_BUF = 0x80"

lemmas dtp_states = DTP_PENDING_def DTP_ESTABLISHED_def DTP_SENDING_def DTP_RECVING_def
  DTP_CLOSED_def DTP_ERROR_def DTP_FREE_def

definition GET_STATE :: "data_channel \<Rightarrow> u8" where
  "GET_STATE dtp = dstate dtp AND 0x0F"

definition SET_STATE :: "data_channel \<Rightarrow> u8 \<Rightarrow> data_channel" where
  "SET_STATE dtp flag = dtp\<lparr>dstate := (dstate dtp AND DTP_LOCAL_BUF) OR flag\<rparr>"

section \<open>State\<close>

record 'w dtp = "'w net" +
  channels :: "u32 \<Rightarrow> data_channel option"
  strings :: "u32 \<Rightarrow> char list option"
  dtp_list :: u32
  next_dtp_list :: u32

definition get_channel :: "u32 \<Rightarrow> ('w, 'z) dtp_scheme \<Rightarrow> fault + data_channel" where
  "get_channel p s =
     (if p = 0 then Inl Null_pointer
      else case channels s p of None \<Rightarrow> Inl Use_after_free | Some c \<Rightarrow> Inr c)"

definition put_channel :: "u32 \<Rightarrow> data_channel \<Rightarrow> ('w, 'z) dtp_scheme \<Rightarrow> ('w, 'z) dtp_scheme" where
  "put_channel p c s = s\<lparr>channels := (channels s)(p := Some c)\<rparr>"

section \<open>Moving data\<close>

definition dtp_write_buffered_data_to_fd ::
  "'w os \<Rightarrow> int \<Rightarrow> io_buffer \<Rightarrow> int \<Rightarrow> ('w, 'z) sys_scheme \<Rightarrow>
   fault + int \<times> io_buffer \<times> ('w, 'z) sys_scheme" where
  "dtp_write_buffered_data_to_fd os fd b packetSize s =
     (if fd < 0 \<or> packetSize < 0 then Inr (-1, b, s)
      else
        let packetSize = (if packetSize > head b then head b else packetSize) in
        bindF (slice_at (buffer b) 0 packetSize) (\<lambda>bytes.
        let (nwritten, s) = sysc (os_write os fd bytes) s in
        if nwritten < 0 then
          let (errno, s) = sysc (os_socketlasterr os) s in
          if errno \<noteq> EAGAIN then Inr (- errno, b, s) else Inr (0, b, s)
        else
          bindF (slice_at (buffer b) nwritten (bsize b - nwritten)) (\<lambda>rest.
          bindF (write_at (buffer b) 0 rest) (\<lambda>buf.
          Inr (nwritten, b\<lparr>buffer := buf, head := head b - nwritten\<rparr>, s)))))"

definition dtp_fill_buffer_from_fd ::
  "'w os \<Rightarrow> io_buffer \<Rightarrow> int \<Rightarrow> ('w, 'z) sys_scheme \<Rightarrow>
   fault + int \<times> io_buffer \<times> ('w, 'z) sys_scheme" where
  "dtp_fill_buffer_from_fd os b fd s =
     (if head b > 0 then Inr (head b, b, s)
      else
        let (nread, s) = sysc (os_read os fd (bsize b)) s in
        (case nread of
           None \<Rightarrow> Inr (-1, b, s)
         | Some bytes \<Rightarrow>
             bindF (write_at (buffer b) 0 bytes) (\<lambda>buf.
             Inr (int (length bytes), b\<lparr>buffer := buf, head := int (length bytes)\<rparr>, s))))"

text \<open>
  \<open>dtp_copy_data\<close> gets pointers to the two descriptors of the channel; \<open>Sending\<close> is to the remote
  side from the local one, \<open>Receiving\<close> the other way round.
\<close>

datatype direction = Sending | Receiving

fun to_fd :: "direction \<Rightarrow> data_channel \<Rightarrow> int" where
  "to_fd Sending c = remote_fd c"
| "to_fd Receiving c = sint (dlocal c)"

fun from_fd :: "direction \<Rightarrow> data_channel \<Rightarrow> int" where
  "from_fd Sending c = sint (dlocal c)"
| "from_fd Receiving c = remote_fd c"

definition dtp_copy_data ::
  "'w os \<Rightarrow> direction \<Rightarrow> data_channel \<Rightarrow> io_buffer \<Rightarrow> int \<Rightarrow> ('w, 'z) sys_scheme \<Rightarrow>
   fault + data_channel \<times> ('w, 'z) sys_scheme" where
  "dtp_copy_data os dir c b sz s =
     (if to_fd dir c < 0 \<or> from_fd dir c < 0 then Inr (c, s)
      else
        bindF (dtp_write_buffered_data_to_fd os (to_fd dir c) b sz s) (\<lambda>(nwritten, b, s).
        let c = c\<lparr>dbuffer := Init (Some b)\<rparr> in
        if nwritten < 0 then Inr (SET_STATE c DTP_ERROR, s)
        else
          bindF (dtp_fill_buffer_from_fd os b (from_fd dir c) s) (\<lambda>(nread, b, s).
          let c = c\<lparr>dbuffer := Init (Some b)\<rparr> in
          if nread < 0 then Inr (SET_STATE c DTP_ERROR, s)
          else if nread = 0 then
            let s = sys_do (os_close os (to_fd dir c)) s;
                s = sys_do (os_close os (from_fd dir c)) s in
            Inr (SET_STATE (c\<lparr>remote_fd := -1, dlocal := -1\<rparr>) DTP_CLOSED, s)
          else Inr (c, s))))"

definition dtp_move ::
  "'w os \<Rightarrow> direction \<Rightarrow> int \<Rightarrow> u32 \<Rightarrow> ('w, 'z) dtp_scheme \<Rightarrow> fault + ('w, 'z) dtp_scheme" where
  "dtp_move os dir sz p s =
     (if p = 0 then Inr s
      else
        bindF (get_channel p s) (\<lambda>c.
        bindF (cell_get (dbuffer c)) (\<lambda>ob.
        case ob of
          None \<Rightarrow> Inr s
        | Some b \<Rightarrow>
            bindF (dtp_copy_data os dir c b sz s) (\<lambda>(c, s). Inr (put_channel p c s)))))"

definition dtp_send_data :: "'w os \<Rightarrow> u32 \<Rightarrow> ('w, 'z) dtp_scheme \<Rightarrow> fault + ('w, 'z) dtp_scheme" where
  "dtp_send_data os p s = dtp_move os Sending 1500 p s"

definition dtp_receive_data :: "'w os \<Rightarrow> u32 \<Rightarrow> ('w, 'z) dtp_scheme \<Rightarrow> fault + ('w, 'z) dtp_scheme" where
  "dtp_receive_data os p s = dtp_move os Receiving 512 p s"

section \<open>Creating and freeing channels\<close>

text \<open>The end of a local text or descriptor; a text that is not allocated cannot be freed.\<close>

definition free_local :: "'w os \<Rightarrow> data_channel \<Rightarrow> ('w, 'z) dtp_scheme \<Rightarrow> fault + ('w, 'z) dtp_scheme" where
  "free_local os c s =
     (if dstate c AND DTP_LOCAL_BUF \<noteq> 0 then
        if dlocal c = 0 then Inr s
        else case strings s (dlocal c) of
            None \<Rightarrow> Inl Use_after_free
          | Some _ \<Rightarrow> Inr (s\<lparr>strings := (strings s)(dlocal c := None)\<rparr>)
      else if sint (dlocal c) \<ge> 0 then Inr (sys_do (os_close os (sint (dlocal c))) s)
      else Inr s)"

definition free_data_channel :: "'w os \<Rightarrow> u32 \<Rightarrow> ('w, 'z) dtp_scheme \<Rightarrow> fault + ('w, 'z) dtp_scheme" where
  "free_data_channel os p s =
     (if p = 0 then Inr s
      else
        bindF (get_channel p s) (\<lambda>c.
        bindF (free_local os c s) (\<lambda>s.
        bindF (cell_get (listen_fd c)) (\<lambda>lfd.
        let s = (if lfd \<ge> 0 then snd (sysc (os_socketclose os lfd) s) else s);
            s = (if remote_fd c \<ge> 0 then snd (sysc (os_socketclose os (remote_fd c)) s) else s) in
        bindF (cell_get (dbuffer c)) (\<lambda>_.
        Inr (s\<lparr>channels := (channels s)(p := None)\<rparr>))))))"

definition new_data_channel ::
  "'w os \<Rightarrow> u32 \<Rightarrow> u16 \<Rightarrow> ('w, 'z) dtp_scheme \<Rightarrow> fault + u32 \<times> ('w, 'z) dtp_scheme" where
  "new_data_channel os ip port s =
     (let (p, m) = malloc (allocs s); s = s\<lparr>allocs := m\<rparr> in
      if p = 0 then Inr (0, s)
      else
        let c = \<lparr>nxt = Uninit, dstate = DTP_PENDING, dlocal = -1, remote_fd = -1,
                 listen_fd = Uninit, dip = ip, dport = port, dbuffer = Uninit, iface = Uninit\<rparr>;
            s = put_channel p c s in
        if ip = 0 then bindF (free_data_channel os p s) (\<lambda>s. Inr (0, s))
        else
          let (ob, m) = new_buffer 192000 (allocs s);
              c = c\<lparr>dbuffer := Init ob\<rparr>;
              s = put_channel p c (s\<lparr>allocs := m\<rparr>) in
          if ob = None then bindF (free_data_channel os p s) (\<lambda>s. Inr (0, s))
          else
            let c = c\<lparr>nxt := Init (next_dtp_list s)\<rparr> in
            Inr (p, (put_channel p c s)\<lparr>next_dtp_list := p\<rparr>))"

definition new_passive_channel ::
  "'w os \<Rightarrow> u32 \<Rightarrow> u16 \<Rightarrow> ('w, 'z) dtp_scheme \<Rightarrow> fault + u32 \<times> ('w, 'z) dtp_scheme" where
  "new_passive_channel os ip port s =
     bindF (new_data_channel os ip port s) (\<lambda>(p, s).
     if p = 0 then Inl Null_pointer
     else
       bindF (get_channel p s) (\<lambda>c.
       let (fd, s) = network_create_serversocket os (uint (dport c)) 1 s;
           c = c\<lparr>listen_fd := Init fd\<rparr>;
           s = put_channel p c s in
       if fd < 0 then bindF (free_data_channel os p s) (\<lambda>s. Inr (0, s))
       else Inr (p, put_channel p (c\<lparr>iface := Init Passive\<rparr>) s)))"

definition new_active_channel ::
  "'w os \<Rightarrow> u32 \<Rightarrow> u16 \<Rightarrow> ('w, 'z) dtp_scheme \<Rightarrow> fault + u32 \<times> ('w, 'z) dtp_scheme" where
  "new_active_channel os ip port s =
     bindF (new_data_channel os ip port s) (\<lambda>(p, s).
     bindF (get_channel p s) (\<lambda>c.
     Inr (p, put_channel p (c\<lparr>iface := Init Active\<rparr>) s)))"

section \<open>Passive and active mode\<close>

definition pasv_accept_handler ::
  "'w os \<Rightarrow> u32 \<Rightarrow> int \<Rightarrow> u32 \<Rightarrow> u16 \<Rightarrow> ('w, 'z) dtp_scheme \<Rightarrow> fault + ('w, 'z) dtp_scheme" where
  "pasv_accept_handler os p fd ip port s =
     bindF (get_channel p s) (\<lambda>c.
     bindF (cell_get (listen_fd c)) (\<lambda>lfd.
     let (_, s) = network_close os lfd s;
         c = SET_STATE (c\<lparr>listen_fd := Init (-1), remote_fd := fd\<rparr>) DTP_ESTABLISHED in
     Inr (put_channel p c s)))"

definition pasv_try_accept :: "'w os \<Rightarrow> u32 \<Rightarrow> ('w, 'z) dtp_scheme \<Rightarrow> fault + ('w, 'z) dtp_scheme" where
  "pasv_try_accept os p s =
     (if p = 0 then Inr s
      else
        bindF (get_channel p s) (\<lambda>c.
        if GET_STATE c \<noteq> DTP_PENDING then Inr s
        else
          bindF (cell_get (listen_fd c)) (\<lambda>lfd.
          bindF (network_accept_poll os lfd (Some (pasv_accept_handler os p)) s) (\<lambda>(r, s).
          if r < 0 then
            bindF (get_channel p s) (\<lambda>c. Inr (put_channel p (SET_STATE c DTP_ERROR) s))
          else Inr s))))"

definition active_try_connect :: "u32 \<Rightarrow> ('w, 'z) dtp_scheme \<Rightarrow> fault + ('w, 'z) dtp_scheme" where
  "active_try_connect p s = Inr s"

definition pasv_is_connected :: "u32 \<Rightarrow> ('w, 'z) dtp_scheme \<Rightarrow> fault + bool \<times> ('w, 'z) dtp_scheme" where
  "pasv_is_connected p s = Inr (True, s)"

definition active_is_connected :: "u32 \<Rightarrow> ('w, 'z) dtp_scheme \<Rightarrow> fault + bool \<times> ('w, 'z) dtp_scheme" where
  "active_is_connected p s =
     bindF (get_channel p s) (\<lambda>c.
     if GET_STATE c = DTP_ESTABLISHED \<and> remote_fd c \<ge> 0 then Inr (True, s)
     else
       let c = c\<lparr>remote_fd := network_connect (dip c) (dport c)\<rparr>; s = put_channel p c s in
       if remote_fd c \<ge> 0 then Inr (True, put_channel p (SET_STATE c DTP_ESTABLISHED) s)
       else Inr (False, s))"

text \<open>The calls through the table of function pointers.\<close>

fun iface_accept :: "'w os \<Rightarrow> data_interface \<Rightarrow> u32 \<Rightarrow> ('w, 'z) dtp_scheme \<Rightarrow> fault + ('w, 'z) dtp_scheme" where
  "iface_accept os Passive p s = pasv_try_accept os p s"
| "iface_accept os Active p s = active_try_connect p s"

fun iface_is_connected ::
  "data_interface \<Rightarrow> u32 \<Rightarrow> ('w, 'z) dtp_scheme \<Rightarrow> fault + bool \<times> ('w, 'z) dtp_scheme" where
  "iface_is_connected Passive p s = pasv_is_connected p s"
| "iface_is_connected Active p s = active_is_connected p s"

definition iface_send ::
  "'w os \<Rightarrow> data_interface \<Rightarrow> u32 \<Rightarrow> ('w, 'z) dtp_scheme \<Rightarrow> fault + ('w, 'z) dtp_scheme" where
  "iface_send os i p s = dtp_send_data os p s"

definition iface_recv ::
  "'w os \<Rightarrow> data_interface \<Rightarrow> u32 \<Rightarrow> ('w, 'z) dtp_scheme \<Rightarrow> fault + ('w, 'z) dtp_scheme" where
  "iface_recv os i p s = dtp_receive_data os p s"

definition iface_free ::
  "'w os \<Rightarrow> data_interface \<Rightarrow> u32 \<Rightarrow> ('w, 'z) dtp_scheme \<Rightarrow> fault + ('w, 'z) dtp_scheme" where
  "iface_free os i p s = free_data_channel os p s"

section \<open>Polling\<close>

definition dtp_check_ready :: "data_channel \<Rightarrow> data_channel" where
  "dtp_check_ready c =
     (if GET_STATE c \<noteq> DTP_ESTABLISHED then c
      else
        let c = (if dstate c AND DTP_RECV \<noteq> 0 then SET_STATE c DTP_RECVING else c) in
        if dstate c AND DTP_XMIT \<noteq> 0 then SET_STATE c DTP_SENDING else c)"

text \<open>The switch of the poll loop on the state of one channel.\<close>

definition dtp_service :: "'w os \<Rightarrow> u32 \<Rightarrow> ('w, 'z) dtp_scheme \<Rightarrow> fault + ('w, 'z) dtp_scheme" where
  "dtp_service os p s =
     bindF (get_channel p s) (\<lambda>c.
     if GET_STATE c = DTP_PENDING then
       bindF (cell_get (iface c)) (\<lambda>i. iface_accept os i p s)
     else if GET_STATE c = DTP_ESTABLISHED then Inr (put_channel p (dtp_check_ready c) s)
     else if GET_STATE c = DTP_SENDING then
       bindF (cell_get (iface c)) (\<lambda>i. iface_send os i p s)
     else if GET_STATE c = DTP_RECVING then
       bindF (cell_get (iface c)) (\<lambda>i. iface_recv os i p s)
     else Inr s)"

text \<open>One turn of the loop: unlink the first channel, serve it, free it or link it to the other list.\<close>

definition dtp_poll_turn :: "'w os \<Rightarrow> ('w, 'z) dtp_scheme \<Rightarrow> fault + ('w, 'z) dtp_scheme" where
  "dtp_poll_turn os s =
     (let p = dtp_list s in
      bindF (get_channel p s) (\<lambda>c.
      bindF (cell_get (nxt c)) (\<lambda>n.
      let s = put_channel p (c\<lparr>nxt := Init 0\<rparr>) (s\<lparr>dtp_list := n\<rparr>) in
      bindF (dtp_service os p s) (\<lambda>s.
      bindF (get_channel p s) (\<lambda>c.
      if GET_STATE c = DTP_FREE then
        bindF (cell_get (iface c)) (\<lambda>i. iface_free os i p s)
      else
        Inr ((put_channel p (c\<lparr>nxt := Init (next_dtp_list s)\<rparr>) s)\<lparr>next_dtp_list := p\<rparr>))))))"

text \<open>\<open>None\<close>: the loop never ends (it could on a damaged list).\<close>

partial_function (option) dtp_poll_loop ::
  "'w os \<Rightarrow> ('w, 'z) dtp_scheme \<Rightarrow> (fault + ('w, 'z) dtp_scheme) option" where
  "dtp_poll_loop os s =
     (if dtp_list s = 0 then Some (Inr s)
      else case dtp_poll_turn os s of
          Inl e \<Rightarrow> Some (Inl e)
        | Inr s' \<Rightarrow> dtp_poll_loop os s')"

definition dtp_poll :: "'w os \<Rightarrow> ('w, 'z) dtp_scheme \<Rightarrow> (fault + ('w, 'z) dtp_scheme) option" where
  "dtp_poll os s =
     map_option (\<lambda>r. bindF r (\<lambda>s. Inr (s\<lparr>dtp_list := next_dtp_list s, next_dtp_list := 0\<rparr>)))
       (dtp_poll_loop os s)"

section \<open>Starting a transfer\<close>

text \<open>Creates an active channel if the pointer is null; the result is the pointer.\<close>

definition dtp_channel_init ::
  "'w os \<Rightarrow> u32 \<Rightarrow> u32 \<Rightarrow> u16 \<Rightarrow> ('w, 'z) dtp_scheme \<Rightarrow> fault + u32 \<times> ('w, 'z) dtp_scheme" where
  "dtp_channel_init os p ip port s =
     (if p = 0 then new_active_channel os ip port s else Inr (p, s))"

definition dtp_send_buffer :: "u32 \<Rightarrow> u32 \<Rightarrow> ('w, 'z) dtp_scheme \<Rightarrow> fault + int \<times> ('w, 'z) dtp_scheme" where
  "dtp_send_buffer p txt s =
     bindF (get_channel p s) (\<lambda>c.
     if sint (dlocal c) = -1 then
       Inr (0, put_channel p (c\<lparr>dlocal := txt, dstate := dstate c OR (DTP_LOCAL_BUF OR DTP_XMIT)\<rparr>) s)
     else Inr (-1, s))"

definition dtp_send_file :: "u32 \<Rightarrow> int \<Rightarrow> ('w, 'z) dtp_scheme \<Rightarrow> fault + int \<times> ('w, 'z) dtp_scheme" where
  "dtp_send_file p fd s =
     bindF (get_channel p s) (\<lambda>c.
     if sint (dlocal c) = -1 then
       Inr (0, put_channel p (c\<lparr>dlocal := word_of_int fd,
         dstate := (dstate c AND NOT DTP_LOCAL_BUF) OR DTP_XMIT\<rparr>) s)
     else Inr (-1, s))"

section \<open>The state byte\<close>

lemma get_set_state:
  "f AND 0x0F = f \<Longrightarrow> GET_STATE (SET_STATE c f) = f"
  by (simp add: GET_STATE_def SET_STATE_def DTP_LOCAL_BUF_def bit.conj_disj_distrib2 and.assoc)

lemma get_set_states [simp]:
  "GET_STATE (SET_STATE c DTP_PENDING) = DTP_PENDING"
  "GET_STATE (SET_STATE c DTP_ESTABLISHED) = DTP_ESTABLISHED"
  "GET_STATE (SET_STATE c DTP_SENDING) = DTP_SENDING"
  "GET_STATE (SET_STATE c DTP_RECVING) = DTP_RECVING"
  "GET_STATE (SET_STATE c DTP_CLOSED) = DTP_CLOSED"
  "GET_STATE (SET_STATE c DTP_ERROR) = DTP_ERROR"
  "GET_STATE (SET_STATE c DTP_FREE) = DTP_FREE"
  by (rule get_set_state; simp add: dtp_states)+

lemma set_state_flags:
  "f AND 0x60 = 0 \<Longrightarrow> dstate (SET_STATE c f) AND DTP_XMIT = 0"
  "f AND 0x60 = 0 \<Longrightarrow> dstate (SET_STATE c f) AND DTP_RECV = 0"
proof -
  assume f: "f AND 0x60 = 0"
  have "f AND DTP_XMIT = f AND (0x60 AND DTP_XMIT)" "f AND DTP_RECV = f AND (0x60 AND DTP_RECV)"
    by (simp_all add: DTP_XMIT_def DTP_RECV_def)
  then have "f AND DTP_XMIT = 0" "f AND DTP_RECV = 0"
    using f by (simp_all add: and.assoc [symmetric])
  then show "dstate (SET_STATE c f) AND DTP_XMIT = 0" "dstate (SET_STATE c f) AND DTP_RECV = 0"
    by (simp_all add: SET_STATE_def DTP_LOCAL_BUF_def bit.conj_disj_distrib2 and.assoc
        DTP_XMIT_def DTP_RECV_def)
qed

lemma set_state_fields [simp]:
  "nxt (SET_STATE c f) = nxt c" "dlocal (SET_STATE c f) = dlocal c"
  "remote_fd (SET_STATE c f) = remote_fd c" "listen_fd (SET_STATE c f) = listen_fd c"
  "dbuffer (SET_STATE c f) = dbuffer c" "iface (SET_STATE c f) = iface c"
  by (simp_all add: SET_STATE_def)

lemma check_ready_established:
  "dtp_check_ready (SET_STATE c DTP_ESTABLISHED) = SET_STATE c DTP_ESTABLISHED"
  using set_state_flags [of DTP_ESTABLISHED c]
  by (simp add: dtp_check_ready_def DTP_ESTABLISHED_def)

lemma get_put_channel [simp]:
  "p \<noteq> 0 \<Longrightarrow> get_channel p (put_channel p c s) = Inr c"
  "channels (put_channel p c s) = (channels s)(p := Some c)"
  "dtp_list (put_channel p c s) = dtp_list s" "next_dtp_list (put_channel p c s) = next_dtp_list s"
  "strings (put_channel p c s) = strings s" "world (put_channel p c s) = world s"
  "allocs (put_channel p c s) = allocs s"
  by (simp_all add: get_channel_def put_channel_def)

lemma get_channel_Inr: "get_channel p s = Inr c \<longleftrightarrow> p \<noteq> 0 \<and> channels s p = Some c"
  by (auto simp: get_channel_def split: option.splits)

lemma sysc_dtp [simp]:
  fixes s :: "('w, 'z) dtp_scheme"
  shows "channels (snd (sysc f s)) = channels s" "dtp_list (snd (sysc f s)) = dtp_list s"
    "next_dtp_list (snd (sysc f s)) = next_dtp_list s" "strings (snd (sysc f s)) = strings s"
  by (simp_all add: sysc_def split: prod.splits)

lemma sys_do_dtp [simp]:
  fixes s :: "('w, 'z) dtp_scheme"
  shows "channels (sys_do g s) = channels s" "dtp_list (sys_do g s) = dtp_list s"
    "next_dtp_list (sys_do g s) = next_dtp_list s" "strings (sys_do g s) = strings s"
  by (simp_all add: sys_do_def)

section \<open>The pump\<close>

text \<open>
  Two descriptors behave as the ends of a byte stream: writing takes at least one of the bytes
  offered and appends the ones taken to the sink, reading removes bytes from the source and
  returns none only at its end; closing changes neither.
\<close>

definition pipe :: "'w os \<Rightarrow> int \<Rightarrow> int \<Rightarrow> ('w \<Rightarrow> char list) \<Rightarrow> ('w \<Rightarrow> char list) \<Rightarrow> bool" where
  "pipe os to from src snk \<longleftrightarrow>
     (\<forall>bs w n w'. os_write os to bs w = (n, w') \<longrightarrow>
        0 \<le> n \<and> n \<le> int (length bs) \<and> (bs \<noteq> [] \<longrightarrow> 0 < n) \<and>
        snk w' = snk w @ take (nat n) bs \<and> src w' = src w) \<and>
     (\<forall>k w r w'. 0 < k \<longrightarrow> os_read os from k w = (r, w') \<longrightarrow>
        (\<exists>bs. r = Some bs \<and> int (length bs) \<le> k \<and> src w = bs @ src w' \<and>
          (bs = [] \<longrightarrow> src w = []) \<and> snk w' = snk w)) \<and>
     (\<forall>fd w. src (os_close os fd w) = src w \<and> snk (os_close os fd w) = snk w)"

lemma write_buffered_ok:
  assumes b: "iob_wf b" and "0 \<le> fd" and "0 \<le> sz"
    and w: "os_write os fd (take (nat sz) (contents b)) (world s) = (n, w')"
    and n: "0 \<le> n" "n \<le> int (length (take (nat sz) (contents b)))"
  shows "\<exists>b'. dtp_write_buffered_data_to_fd os fd b sz s = Inr (n, b', s\<lparr>world := w'\<rparr>) \<and>
    iob_wf b' \<and> bsize b' = bsize b \<and> contents b' = drop (nat n) (contents b)"
proof -
  note W = iob_wfD [OF b]
  let ?k = "if sz > head b then head b else sz"
  have s1: "slice_at (buffer b) 0 ?k = Inr (take (nat sz) (contents b))"
    using W assms(3) by (auto simp: slice_at_Inr contents_def min_def)
  have nh: "n \<le> head b"
    using n(2) contents_length [OF b] by simp
  have s2: "slice_at (buffer b) n (bsize b - n) = Inr (drop (nat n) (buffer b))"
    using W n(1) nh by (simp add: slice_at_Inr)
  obtain buf where buf: "write_at (buffer b) 0 (drop (nat n) (buffer b)) = Inr buf"
    using write_at_defined [of 0 "drop (nat n) (buffer b)" "buffer b"] by auto
  let ?b = "b\<lparr>buffer := buf, head := head b - n\<rparr>"
  have run: "dtp_write_buffered_data_to_fd os fd b sz s = Inr (n, ?b, s\<lparr>world := w'\<rparr>)"
    using assms(2,3) s1 s2 buf w n(1)
    by (auto simp: dtp_write_buffered_data_to_fd_def sysc_def Let_def)
  have wf: "iob_wf ?b"
    using W n(1) nh length_write_at [OF buf] by (simp add: iob_wf_def)
  have "take (length (buffer b) - nat n) buf = drop (nat n) (buffer b)"
    using take_write_at [OF buf] by simp
  then have "take (nat (head b - n)) buf = take (nat (head b - n)) (drop (nat n) (buffer b))"
    using W n(1) nh by (metis min.absorb1 nat_diff_distrib' nat_int nat_mono diff_le_mono take_take)
  also have "\<dots> = drop (nat n) (contents b)"
    using n(1) nh by (simp add: contents_def drop_take nat_diff_distrib')
  finally have "contents ?b = drop (nat n) (contents b)" by (simp add: contents_def)
  with run wf show ?thesis by auto
qed

lemma fill_empty_ok:
  assumes b: "iob_wf b" and "contents b = []"
    and r: "os_read os fd (bsize b) (world s) = (Some bs, w')" and n: "int (length bs) \<le> bsize b"
  shows "\<exists>b'. dtp_fill_buffer_from_fd os b fd s = Inr (int (length bs), b', s\<lparr>world := w'\<rparr>) \<and>
    iob_wf b' \<and> bsize b' = bsize b \<and> contents b' = bs"
proof -
  note W = iob_wfD [OF b]
  have h: "head b = 0" using contents_length [OF b] assms(2) by simp
  obtain buf where buf: "write_at (buffer b) 0 bs = Inr buf"
    using write_at_defined [of 0 bs "buffer b"] W n by auto
  let ?b = "b\<lparr>buffer := buf, head := int (length bs)\<rparr>"
  have "dtp_fill_buffer_from_fd os b fd s = Inr (int (length bs), ?b, s\<lparr>world := w'\<rparr>)"
    using h r buf by (simp add: dtp_fill_buffer_from_fd_def sysc_def)
  moreover have "iob_wf ?b"
    using W n length_write_at [OF buf] by (simp add: iob_wf_def)
  moreover have "contents ?b = bs"
    using take_write_at [OF buf] by (simp add: contents_def)
  ultimately show ?thesis by auto
qed

lemma fill_nonempty:
  assumes "iob_wf b" and "contents b \<noteq> []"
  shows "dtp_fill_buffer_from_fd os b fd s = Inr (int (length (contents b)), b, s)"
proof -
  have h: "int (length (contents b)) = head b" using contents_length [OF assms(1)] .
  moreover have "0 < head b" unfolding h [symmetric] using assms(2) by simp
  ultimately show ?thesis by (simp add: dtp_fill_buffer_from_fd_def)
qed

lemma fd_of_dbuffer [simp]:
  "to_fd dir (c\<lparr>dbuffer := x\<rparr>) = to_fd dir c" "from_fd dir (c\<lparr>dbuffer := x\<rparr>) = from_fd dir c"
  by (cases dir; simp)+

text \<open>
  One call of \<open>dtp_copy_data\<close> on a pipe. Nothing is lost or reordered: the sink, the buffer and the
  source together keep their bytes in order. Either the transfer is over and both ends are closed,
  or there is strictly less to do.
\<close>

lemma copy_data_pipe:
  assumes fds: "0 \<le> to_fd dir c" "0 \<le> from_fd dir c" and b: "iob_wf b" and sz: "0 < sz"
    and pipe: "pipe os (to_fd dir c) (from_fd dir c) src snk"
  shows "\<exists>c' b' w'. dtp_copy_data os dir c b sz s = Inr (c', s\<lparr>world := w'\<rparr>) \<and>
    dbuffer c' = Init (Some b') \<and> iob_wf b' \<and>
    snk w' @ contents b' @ src w' = snk (world s) @ contents b @ src (world s) \<and>
    (GET_STATE c' = DTP_CLOSED \<and> remote_fd c' = -1 \<and> sint (dlocal c') = -1 \<and>
       contents b' = [] \<and> src w' = []
     \<or> c' = c\<lparr>dbuffer := Init (Some b')\<rparr> \<and> contents b' \<noteq> [] \<and>
       2 * length (src w') + length (contents b') <
         2 * length (src (world s)) + length (contents b))"
proof -
  let ?t = "take (nat sz) (contents b)"
  obtain n w1 where w: "os_write os (to_fd dir c) ?t (world s) = (n, w1)" by fastforce
  then have n: "0 \<le> n" "n \<le> int (length ?t)" "?t \<noteq> [] \<longrightarrow> 0 < n"
    and w1: "snk w1 = snk (world s) @ take (nat n) ?t" "src w1 = src (world s)"
    using pipe unfolding pipe_def by blast+
  obtain b1 where b1: "dtp_write_buffered_data_to_fd os (to_fd dir c) b sz s =
        Inr (n, b1, s\<lparr>world := w1\<rparr>)" "iob_wf b1" "bsize b1 = bsize b"
      "contents b1 = drop (nat n) (contents b)"
    using write_buffered_ok [OF b fds(1) _ w n(1,2)] sz by auto
  have snk1: "snk w1 @ contents b1 = snk (world s) @ contents b"
  proof -
    have "nat n \<le> nat sz" using n(2) by simp
    then show ?thesis using w1(1) b1(4) by (simp add: min_absorb1)
  qed
  have less: "contents b \<noteq> [] \<Longrightarrow> length (contents b1) < length (contents b)"
    using n(3) sz b1(4) by auto
  show ?thesis
  proof (cases "contents b1 = []")
    case False
    then have "dtp_copy_data os dir c b sz s = Inr (c\<lparr>dbuffer := Init (Some b1)\<rparr>, s\<lparr>world := w1\<rparr>)"
      using fds b1(1) n(1) fill_nonempty [OF b1(2) False, of os "from_fd dir c" "s\<lparr>world := w1\<rparr>"]
      by (simp add: dtp_copy_data_def Let_def)
    moreover have "contents b \<noteq> []" using False b1(4) by auto
    ultimately show ?thesis using False b1(2) snk1 w1(2) less by fastforce
  next
    case True
    obtain r w2 where r: "os_read os (from_fd dir c) (bsize b1) w1 = (r, w2)" by fastforce
    have "0 < bsize b1" using iob_wfD(3) [OF b1(2)] .
    with r pipe obtain bs where bs: "r = Some bs" "int (length bs) \<le> bsize b1" "src w1 = bs @ src w2"
        "bs = [] \<longrightarrow> src w1 = []" "snk w2 = snk w1"
      unfolding pipe_def by blast
    obtain b2 where b2: "dtp_fill_buffer_from_fd os b1 (from_fd dir c) (s\<lparr>world := w1\<rparr>) =
        Inr (int (length bs), b2, s\<lparr>world := w2\<rparr>)" "iob_wf b2" "contents b2 = bs"
      using fill_empty_ok [OF b1(2) True, of os "from_fd dir c" "s\<lparr>world := w1\<rparr>" bs w2] r bs(1,2)
      by auto
    have all: "snk w2 @ contents b2 @ src w2 = snk (world s) @ contents b @ src (world s)"
      using snk1 True bs(3,5) b2(3) w1(2) by simp
    show ?thesis
    proof (cases "bs = []")
      case False
      moreover from this have "2 * length (src w2) + length bs < 2 * length (src (world s)) + length (contents b)"
        using bs(3) w1(2) by auto
      moreover have "dtp_copy_data os dir c b sz s =
          Inr (c\<lparr>dbuffer := Init (Some b2)\<rparr>, s\<lparr>world := w2\<rparr>)"
        using fds b1(1) b2 n(1) False by (simp add: dtp_copy_data_def Let_def)
      ultimately show ?thesis using False b2 all by fastforce
    next
      case nil: True
      let ?w = "os_close os (from_fd dir c) (os_close os (to_fd dir c) w2)"
      have "src ?w = src w2" "snk ?w = snk w2" using pipe unfolding pipe_def by simp_all
      moreover have "dtp_copy_data os dir c b sz s =
          Inr (SET_STATE (c\<lparr>dbuffer := Init (Some b2), remote_fd := -1, dlocal := -1\<rparr>) DTP_CLOSED,
            s\<lparr>world := ?w\<rparr>)"
        using fds b1(1) b2 n(1) nil by (simp add: dtp_copy_data_def Let_def sys_do_def)
      ultimately show ?thesis using nil b2 all bs(3,4) by fastforce
    qed
  qed
qed

text \<open>A transfer, one packet per poll.\<close>

fun send_or_receive :: "'w os \<Rightarrow> direction \<Rightarrow> u32 \<Rightarrow> ('w, 'z) dtp_scheme \<Rightarrow> fault + ('w, 'z) dtp_scheme" where
  "send_or_receive os Sending p s = dtp_send_data os p s"
| "send_or_receive os Receiving p s = dtp_receive_data os p s"

fun packets :: "'w os \<Rightarrow> direction \<Rightarrow> u32 \<Rightarrow> nat \<Rightarrow> ('w, 'z) dtp_scheme \<Rightarrow> fault + ('w, 'z) dtp_scheme" where
  "packets os dir p 0 s = Inr s"
| "packets os dir p (Suc k) s = bindF (send_or_receive os dir p s) (packets os dir p k)"

lemma send_or_receive_move:
  "send_or_receive os dir p s = dtp_move os dir (case dir of Sending \<Rightarrow> 1500 | Receiving \<Rightarrow> 512) p s"
  by (cases dir) (simp_all add: dtp_send_data_def dtp_receive_data_def)

lemma move_channel:
  "p \<noteq> 0 \<Longrightarrow> channels s p = Some c \<Longrightarrow> dbuffer c = Init (Some b) \<Longrightarrow>
   dtp_move os dir sz p s = bindF (dtp_copy_data os dir c b sz s) (\<lambda>(c, s). Inr (put_channel p c s))"
  by (simp add: dtp_move_def get_channel_def)

lemma put_same: "channels s p = Some c \<Longrightarrow> put_channel p c s = s"
  by (cases s) (simp add: put_channel_def fun_upd_idem)

lemma closed_fd:
  assumes "remote_fd c = -1"
  shows "to_fd dir c < 0 \<or> from_fd dir c < 0"
  by (cases dir) (use assms in simp_all)

lemma packets_closed:
  assumes "p \<noteq> 0" and "channels s p = Some c" and "remote_fd c = -1" and "dbuffer c = Init (Some b)"
  shows "packets os dir p k s = Inr s"
proof (induction k)
  case (Suc k)
  have "send_or_receive os dir p s = Inr s"
    unfolding send_or_receive_move move_channel [OF assms(1,2,4)]
    using closed_fd [OF assms(3), of dir] assms(2) by (simp add: dtp_copy_data_def put_same)
  with Suc show ?case by simp
qed simp

lemma packets_pipe:
  assumes "p \<noteq> 0" and "channels s p = Some c" and "dbuffer c = Init (Some b)" and "iob_wf b"
    and "0 \<le> to_fd dir c" and "0 \<le> from_fd dir c"
    and pipe: "pipe os (to_fd dir c) (from_fd dir c) src snk"
    and "2 * length (src (world s)) + length (contents b) < k"
  shows "\<exists>s' c'. packets os dir p k s = Inr s' \<and> channels s' p = Some c' \<and>
    GET_STATE c' = DTP_CLOSED \<and> remote_fd c' = -1 \<and> sint (dlocal c') = -1 \<and>
    src (world s') = [] \<and> snk (world s') = snk (world s) @ contents b @ src (world s)"
  using assms(2-6,8) pipe
proof (induction k arbitrary: s c b)
  case (Suc k)
  let ?sz = "(case dir of Sending \<Rightarrow> 1500 | Receiving \<Rightarrow> 512) :: int"
  have "0 < ?sz" by (cases dir) simp_all
  from copy_data_pipe [OF Suc.prems(4,5,3) this Suc.prems(7), of s]
  obtain c' b' w' where run: "dtp_copy_data os dir c b ?sz s = Inr (c', s\<lparr>world := w'\<rparr>)"
      and b': "dbuffer c' = Init (Some b')" "iob_wf b'"
      and all: "snk w' @ contents b' @ src w' = snk (world s) @ contents b @ src (world s)"
      and next': "GET_STATE c' = DTP_CLOSED \<and> remote_fd c' = -1 \<and> sint (dlocal c') = -1 \<and>
         contents b' = [] \<and> src w' = []
       \<or> c' = c\<lparr>dbuffer := Init (Some b')\<rparr> \<and> contents b' \<noteq> [] \<and>
         2 * length (src w') + length (contents b') < 2 * length (src (world s)) + length (contents b)"
    by blast
  let ?s = "put_channel p c' (s\<lparr>world := w'\<rparr>)"
  have step: "packets os dir p (Suc k) s = packets os dir p k ?s"
    using run by (simp add: send_or_receive_move move_channel [OF assms(1) Suc.prems(1,2)])
  have ch: "channels ?s p = Some c'" "world ?s = w'" by simp_all
  from next' show ?case
  proof
    assume "GET_STATE c' = DTP_CLOSED \<and> remote_fd c' = -1 \<and> sint (dlocal c') = -1 \<and>
      contents b' = [] \<and> src w' = []"
    with packets_closed [OF assms(1) ch(1) _ b'(1)] all step ch show ?thesis by auto
  next
    assume open': "c' = c\<lparr>dbuffer := Init (Some b')\<rparr> \<and> contents b' \<noteq> [] \<and>
      2 * length (src w') + length (contents b') < 2 * length (src (world s)) + length (contents b)"
    then have "2 * length (src (world ?s)) + length (contents b') < k" using Suc.prems(6) ch by simp
    with Suc.IH [OF ch(1) b'] open' Suc.prems(4,5,7) all step ch show ?thesis by auto
  qed
qed simp

section \<open>The interface of a data channel\<close>

text \<open>
  What polling relies on: the calls through the table keep the channel sound and touch nothing else
  of the store. Reading and writing never move more bytes than asked.
\<close>

definition fd_io_within :: "'w os \<Rightarrow> bool" where
  "fd_io_within os \<longleftrightarrow>
     (\<forall>fd bs w n w'. os_write os fd bs w = (n, w') \<longrightarrow> n \<le> int (length bs)) \<and>
     (\<forall>fd k w bs w'. 0 \<le> k \<longrightarrow> os_read os fd k w = (Some bs, w') \<longrightarrow> int (length bs) \<le> k)"

definition served :: "u32 \<Rightarrow> data_channel \<Rightarrow> data_channel \<Rightarrow>
    ('w, 'z) dtp_scheme \<Rightarrow> ('w, 'z) dtp_scheme \<Rightarrow> bool" where
  "served p c c' s s' \<longleftrightarrow> channels s' = (channels s)(p := Some c') \<and> strings s' = strings s \<and>
     dtp_list s' = dtp_list s \<and> next_dtp_list s' = next_dtp_list s \<and> nxt c' = nxt c \<and>
     GET_STATE c' \<noteq> DTP_FREE"

locale data_iface =
  fixes inv :: "data_channel \<Rightarrow> bool"
    and accept send recv :: "'w os \<Rightarrow> u32 \<Rightarrow> ('w, 'z) dtp_scheme \<Rightarrow> fault + ('w, 'z) dtp_scheme"
  assumes inv_state: "inv (SET_STATE c f) = inv c"
    and accept_ok: "fd_io_within os \<Longrightarrow> p \<noteq> 0 \<Longrightarrow> channels s p = Some c \<Longrightarrow> inv c \<Longrightarrow>
      GET_STATE c = DTP_PENDING \<Longrightarrow> \<exists>s' c'. accept os p s = Inr s' \<and> served p c c' s s' \<and> inv c'"
    and send_ok: "fd_io_within os \<Longrightarrow> p \<noteq> 0 \<Longrightarrow> channels s p = Some c \<Longrightarrow> inv c \<Longrightarrow>
      GET_STATE c = DTP_SENDING \<Longrightarrow> \<exists>s' c'. send os p s = Inr s' \<and> served p c c' s s' \<and> inv c'"
    and recv_ok: "fd_io_within os \<Longrightarrow> p \<noteq> 0 \<Longrightarrow> channels s p = Some c \<Longrightarrow> inv c \<Longrightarrow>
      GET_STATE c = DTP_RECVING \<Longrightarrow> \<exists>s' c'. recv os p s = Inr s' \<and> served p c c' s s' \<and> inv c'"
begin

definition serve :: "'w os \<Rightarrow> u32 \<Rightarrow> data_channel \<Rightarrow> ('w, 'z) dtp_scheme \<Rightarrow> fault + ('w, 'z) dtp_scheme" where
  "serve os p c s =
     (if GET_STATE c = DTP_PENDING then accept os p s
      else if GET_STATE c = DTP_ESTABLISHED then Inr (put_channel p (dtp_check_ready c) s)
      else if GET_STATE c = DTP_SENDING then send os p s
      else if GET_STATE c = DTP_RECVING then recv os p s
      else Inr s)"

lemma check_ready_cases: "dtp_check_ready c \<in> {c, SET_STATE c DTP_RECVING, SET_STATE c DTP_SENDING,
    SET_STATE (SET_STATE c DTP_RECVING) DTP_SENDING}"
  by (simp add: dtp_check_ready_def Let_def)

lemma check_ready_ok:
  assumes "GET_STATE c = DTP_ESTABLISHED" and "inv c"
  shows "served p c (dtp_check_ready c) s (put_channel p (dtp_check_ready c) s) \<and>
    inv (dtp_check_ready c)"
proof -
  have "DTP_ESTABLISHED \<noteq> DTP_FREE" "DTP_SENDING \<noteq> DTP_FREE" "DTP_RECVING \<noteq> DTP_FREE"
    by (simp_all add: dtp_states)
  then show ?thesis
    using check_ready_cases [of c] assms by (auto simp: served_def inv_state)
qed

lemma serve_ok:
  assumes "fd_io_within os" and "p \<noteq> 0" and "channels s p = Some c" and "inv c"
    and "GET_STATE c \<noteq> DTP_FREE"
  shows "\<exists>s' c'. serve os p c s = Inr s' \<and> served p c c' s s' \<and> inv c'"
proof -
  have "served p c c s s" using assms by (simp add: served_def fun_upd_idem)
  then show ?thesis
    using assms accept_ok [OF assms(1-4)] send_ok [OF assms(1-4)] recv_ok [OF assms(1-4)]
      check_ready_ok [of c p s]
    unfolding serve_def by metis
qed

end

text \<open>The channels of the two modes. Active mode never sets the listening descriptor.\<close>

definition has_buffer :: "data_channel \<Rightarrow> bool" where
  "has_buffer c \<longleftrightarrow> (case dbuffer c of Init (Some b) \<Rightarrow> iob_wf b | _ \<Rightarrow> False)"

definition passive_ok :: "data_channel \<Rightarrow> bool" where
  "passive_ok c \<longleftrightarrow> iface c = Init Passive \<and> listen_fd c \<noteq> Uninit \<and> has_buffer c"

definition active_ok :: "data_channel \<Rightarrow> bool" where
  "active_ok c \<longleftrightarrow> iface c = Init Active \<and> has_buffer c"

lemma write_buffered_defined:
  assumes io: "fd_io_within os" and b: "iob_wf b" and "0 \<le> fd" and "0 \<le> sz"
  shows "\<exists>n b' s'. dtp_write_buffered_data_to_fd os fd b sz s = Inr (n, b', s') \<and> iob_wf b' \<and>
    (\<exists>w. s' = s\<lparr>world := w\<rparr>)"
proof -
  let ?k = "if sz > head b then head b else sz" and ?t = "take (nat sz) (contents b)"
  obtain n w' where w: "os_write os fd ?t (world s) = (n, w')" by fastforce
  show ?thesis
  proof (cases "0 \<le> n")
    case True
    moreover have "n \<le> int (length ?t)" using io w unfolding fd_io_within_def by blast
    ultimately show ?thesis using write_buffered_ok [OF b assms(3,4) w] by blast
  next
    case False
    have "slice_at (buffer b) 0 ?k = Inr ?t"
      using iob_wfD [OF b] assms(4) by (auto simp: slice_at_Inr contents_def min_def)
    then show ?thesis
      using w False b assms(3,4)
      by (auto simp: dtp_write_buffered_data_to_fd_def sysc_def Let_def split: prod.splits)
  qed
qed

lemma fill_defined:
  assumes io: "fd_io_within os" and b: "iob_wf b"
  shows "\<exists>n b' s'. dtp_fill_buffer_from_fd os b fd s = Inr (n, b', s') \<and> iob_wf b' \<and>
    (\<exists>w. s' = s\<lparr>world := w\<rparr>)"
proof (cases "contents b = []")
  case False
  have "s = s\<lparr>world := world s\<rparr>" by simp
  with fill_nonempty [OF b False, of os fd s] b show ?thesis by blast
next
  case True
  then have h: "\<not> head b > 0" using contents_length [OF b] by simp
  obtain r w' where r: "os_read os fd (bsize b) (world s) = (r, w')" by fastforce
  show ?thesis
  proof (cases r)
    case None
    with r h have "dtp_fill_buffer_from_fd os b fd s = Inr (-1, b, s\<lparr>world := w'\<rparr>)"
      by (simp add: dtp_fill_buffer_from_fd_def sysc_def)
    with b show ?thesis by blast
  next
    case (Some bs)
    have "int (length bs) \<le> bsize b"
      using io r Some iob_wfD(3) [OF b] unfolding fd_io_within_def by (metis less_imp_le)
    with fill_empty_ok [OF b True r [unfolded Some]] show ?thesis by blast
  qed
qed

lemma same_world: "\<exists>w. s = s\<lparr>world := w\<rparr>"
  by (intro exI [of _ "world s"]) simp

lemma copy_data_defined:
  assumes io: "fd_io_within os" and b: "iob_wf b" and "dbuffer c = Init (Some b)" and "0 \<le> sz"
  shows "\<exists>c' w. dtp_copy_data os dir c b sz s = Inr (c', s\<lparr>world := w\<rparr>) \<and> has_buffer c' \<and>
    iface c' = iface c \<and> listen_fd c' = listen_fd c \<and> nxt c' = nxt c \<and>
    GET_STATE c' \<in> {GET_STATE c, DTP_CLOSED, DTP_ERROR}"
proof (cases "to_fd dir c < 0 \<or> from_fd dir c < 0")
  case True
  have "dtp_copy_data os dir c b sz s = Inr (c, s)"
    using True by (simp add: dtp_copy_data_def)
  moreover have "has_buffer c" using b assms(3) by (simp add: has_buffer_def)
  ultimately show ?thesis using same_world [of s] by simp
next
  case fds: False
  then obtain n b1 s1 w1 where w: "dtp_write_buffered_data_to_fd os (to_fd dir c) b sz s = Inr (n, b1, s1)"
      "iob_wf b1" "s1 = s\<lparr>world := w1\<rparr>"
    using write_buffered_defined [OF io b _ assms(4), of "to_fd dir c" s] by auto
  obtain k b2 s2 w2 where f: "dtp_fill_buffer_from_fd os b1 (from_fd dir c) s1 = Inr (k, b2, s2)"
      "iob_wf b2" "s2 = s\<lparr>world := w2\<rparr>"
    using fill_defined [OF io w(2), of "from_fd dir c" s1] w(3) by auto
  show ?thesis
  proof (cases "n < 0")
    case True
    then show ?thesis
      using fds w by (simp add: dtp_copy_data_def Let_def has_buffer_def) blast
  next
    case False
    let ?c = "c\<lparr>dbuffer := Init (Some b2)\<rparr>"
    let ?w = "os_close os (from_fd dir c) (os_close os (to_fd dir c) w2)"
    have "dtp_copy_data os dir c b sz s =
      (if k < 0 then Inr (SET_STATE ?c DTP_ERROR, s\<lparr>world := w2\<rparr>)
       else if k = 0 then Inr (SET_STATE (?c\<lparr>remote_fd := -1, dlocal := -1\<rparr>) DTP_CLOSED, s\<lparr>world := ?w\<rparr>)
       else Inr (?c, s\<lparr>world := w2\<rparr>))"
      using False fds w(1) f(1) by (simp add: dtp_copy_data_def Let_def f(3) sys_do_def)
    moreover have "GET_STATE ?c = GET_STATE c" by (simp add: GET_STATE_def)
    ultimately show ?thesis using f(2) by (simp add: has_buffer_def) blast
  qed
qed

lemma move_served:
  assumes io: "fd_io_within os" and p: "p \<noteq> 0" "channels s p = Some c" and b: "has_buffer c"
    and st: "GET_STATE c \<noteq> DTP_FREE" and "0 \<le> sz"
  shows "\<exists>s' c'. dtp_move os dir sz p s = Inr s' \<and> served p c c' s s' \<and> has_buffer c' \<and>
    iface c' = iface c \<and> listen_fd c' = listen_fd c"
proof -
  obtain b' where b': "dbuffer c = Init (Some b')" "iob_wf b'"
    using b by (auto simp: has_buffer_def split: cell.splits option.splits)
  obtain c' w where c': "dtp_copy_data os dir c b' sz s = Inr (c', s\<lparr>world := w\<rparr>)" "has_buffer c'"
      "iface c' = iface c" "listen_fd c' = listen_fd c" "nxt c' = nxt c"
      "GET_STATE c' \<in> {GET_STATE c, DTP_CLOSED, DTP_ERROR}"
    using copy_data_defined [OF io b'(2,1) assms(6)] by blast
  have "GET_STATE c' \<noteq> DTP_FREE" using c'(6) st by (auto simp: dtp_states)
  then have "served p c c' s (put_channel p c' (s\<lparr>world := w\<rparr>))"
    using c'(5) by (simp add: served_def)
  with c' show ?thesis by (simp add: move_channel [OF p b'(1)]) blast
qed

lemma network_close_world: "\<exists>w. snd (network_close os fd s) = s\<lparr>world := w\<rparr>"
proof (cases "fd < 0")
  case True
  with same_world [of s] show ?thesis by (simp add: network_close_def)
qed (auto simp: network_close_def sysc_def split: prod.splits)

lemma has_buffer_fields [simp]:
  "has_buffer (c\<lparr>listen_fd := l\<rparr>) = has_buffer c" "has_buffer (c\<lparr>remote_fd := fd\<rparr>) = has_buffer c"
  "has_buffer (SET_STATE c f) = has_buffer c" "has_buffer (c\<lparr>nxt := n\<rparr>) = has_buffer c"
  by (simp_all add: has_buffer_def)

lemma accept_handler_ok:
  assumes "p \<noteq> 0" and "channels s p = Some c" and "listen_fd c = Init lfd"
  shows "\<exists>w. pasv_accept_handler os p fd ip port s =
    Inr (put_channel p (SET_STATE (c\<lparr>listen_fd := Init (-1), remote_fd := fd\<rparr>) DTP_ESTABLISHED)
      (s\<lparr>world := w\<rparr>))"
  using assms network_close_world [of os lfd s]
  by (auto simp: pasv_accept_handler_def get_channel_def split: prod.splits)

lemma try_accept_ok:
  assumes p: "p \<noteq> 0" "channels s p = Some c" and c: "passive_ok c" and st: "GET_STATE c = DTP_PENDING"
  shows "\<exists>s' c'. pasv_try_accept os p s = Inr s' \<and> served p c c' s s' \<and> passive_ok c'"
proof -
  obtain lfd where l: "listen_fd c = Init lfd"
    using c by (cases "listen_fd c") (auto simp: passive_ok_def)
  obtain fd ip port w1 where a: "os_accept os lfd (world s) = ((fd, ip, port), w1)"
    by (metis prod.exhaust)
  let ?s1 = "s\<lparr>world := w1\<rparr>"
  note run = pasv_try_accept_def network_accept_poll_def get_channel_def Let_def
  show ?thesis
  proof (cases "fd < 0")
    case True
    then have "\<exists>w. pasv_try_accept os p s \<in> {Inr (s\<lparr>world := w\<rparr>),
        Inr (put_channel p (SET_STATE c DTP_ERROR) (s\<lparr>world := w\<rparr>))}"
      using p l a st by (auto simp: run sysc_def split: prod.splits)
    moreover have "served p c c s (s\<lparr>world := w\<rparr>)" for w
      using p st by (simp add: served_def fun_upd_idem dtp_states)
    moreover have "served p c (SET_STATE c DTP_ERROR) s (put_channel p (SET_STATE c DTP_ERROR) (s\<lparr>world := w\<rparr>))" for w
      by (simp add: served_def) (simp add: dtp_states)
    moreover have "passive_ok (SET_STATE c DTP_ERROR)" using c by (simp add: passive_ok_def)
    ultimately show ?thesis using c by blast
  next
    case False
    let ?c = "SET_STATE (c\<lparr>listen_fd := Init (-1), remote_fd := fd\<rparr>) DTP_ESTABLISHED"
    obtain w where "pasv_accept_handler os p fd ip port ?s1 = Inr (put_channel p ?c (?s1\<lparr>world := w\<rparr>))"
      using accept_handler_ok [of p ?s1 c lfd os fd ip port] p l by auto
    then have "pasv_try_accept os p s = Inr (put_channel p ?c (s\<lparr>world := w\<rparr>))"
      using False p l a st by (simp add: run sysc_def)
    moreover have "served p c ?c s (put_channel p ?c (s\<lparr>world := w\<rparr>))"
      by (simp add: served_def) (simp add: dtp_states)
    moreover have "passive_ok ?c" using c by (simp add: passive_ok_def)
    ultimately show ?thesis by blast
  qed
qed

lemma move_passive:
  assumes "fd_io_within os" and "p \<noteq> 0" and "channels s p = Some c" and "passive_ok c"
    and "GET_STATE c \<noteq> DTP_FREE" and "0 \<le> sz"
  shows "\<exists>s' c'. dtp_move os dir sz p s = Inr s' \<and> served p c c' s s' \<and> passive_ok c'"
proof -
  have "has_buffer c" using assms(4) by (simp add: passive_ok_def)
  from move_served [OF assms(1-3) this assms(5,6)] assms(4) show ?thesis
    unfolding passive_ok_def by metis
qed

interpretation pasv: data_iface passive_ok "\<lambda>os. iface_accept os Passive"
    "\<lambda>os. iface_send os Passive" "\<lambda>os. iface_recv os Passive"
proof
  show "passive_ok (SET_STATE c f) = passive_ok c" for c f by (simp add: passive_ok_def)
next
  fix os :: "'a os" and p :: u32 and s :: "('a, 'b) dtp_scheme" and c
  assume a: "fd_io_within os" "p \<noteq> 0" "channels s p = Some c" "passive_ok c"
  show "\<exists>s' c'. iface_accept os Passive p s = Inr s' \<and> served p c c' s s' \<and> passive_ok c'"
    if "GET_STATE c = DTP_PENDING" using try_accept_ok [OF a(2-4) that] by simp
  show "\<exists>s' c'. iface_send os Passive p s = Inr s' \<and> served p c c' s s' \<and> passive_ok c'"
    if "GET_STATE c = DTP_SENDING"
    using move_passive [OF a, where dir = Sending and sz = 1500] that
    by (simp add: iface_send_def dtp_send_data_def dtp_states)
  show "\<exists>s' c'. iface_recv os Passive p s = Inr s' \<and> served p c c' s s' \<and> passive_ok c'"
    if "GET_STATE c = DTP_RECVING"
    using move_passive [OF a, where dir = Receiving and sz = 512] that
    by (simp add: iface_recv_def dtp_receive_data_def dtp_states)
qed

interpretation actv: data_iface active_ok "\<lambda>os. iface_accept os Active"
    "\<lambda>os. iface_send os Active" "\<lambda>os. iface_recv os Active"
proof
  show "active_ok (SET_STATE c f) = active_ok c" for c f by (simp add: active_ok_def)
next
  fix os :: "'a os" and p :: u32 and s :: "('a, 'b) dtp_scheme" and c
  assume a: "fd_io_within os" "p \<noteq> 0" "channels s p = Some c" "active_ok c"
  show "\<exists>s' c'. iface_accept os Active p s = Inr s' \<and> served p c c' s s' \<and> active_ok c'"
    if "GET_STATE c = DTP_PENDING"
    using a that
    by (intro exI [of _ s] exI [of _ c])
      (simp add: active_try_connect_def served_def fun_upd_idem dtp_states)
  show "\<exists>s' c'. iface_send os Active p s = Inr s' \<and> served p c c' s s' \<and> active_ok c'"
    if "GET_STATE c = DTP_SENDING"
    using move_served [OF a(1-3), where dir = Sending and sz = 1500] a(4) that
    by (auto simp: iface_send_def dtp_send_data_def active_ok_def dtp_states)
  show "\<exists>s' c'. iface_recv os Active p s = Inr s' \<and> served p c c' s s' \<and> active_ok c'"
    if "GET_STATE c = DTP_RECVING"
    using move_served [OF a(1-3), where dir = Receiving and sz = 512] a(4) that
    by (auto simp: iface_recv_def dtp_receive_data_def active_ok_def dtp_states)
qed

definition chan_ok :: "data_channel \<Rightarrow> bool" where
  "chan_ok c \<longleftrightarrow> passive_ok c \<or> active_ok c"

lemma chan_ok_nxt [simp]: "chan_ok (c\<lparr>nxt := n\<rparr>) = chan_ok c"
  by (simp add: chan_ok_def passive_ok_def active_ok_def)

lemma service_ok:
  assumes "fd_io_within os" and "p \<noteq> 0" and "channels s p = Some c" and "chan_ok c"
    and "GET_STATE c \<noteq> DTP_FREE"
  shows "\<exists>s' c'. dtp_service os p s = Inr s' \<and> served p c c' s s' \<and> chan_ok c'"
proof -
  from assms(4) consider (pasv) "passive_ok c" | (actv) "active_ok c"
    unfolding chan_ok_def by blast
  then show ?thesis
  proof cases
  case c: pasv
  then have "dtp_service os p s = pasv.serve os p c s"
    using assms(2,3) by (simp add: dtp_service_def pasv.serve_def get_channel_def passive_ok_def)
  with pasv.serve_ok [OF assms(1-3) c assms(5)] show ?thesis by (auto simp: chan_ok_def)
next
  case c: actv
  then have "dtp_service os p s = actv.serve os p c s"
    using assms(2,3) by (simp add: dtp_service_def actv.serve_def get_channel_def active_ok_def)
  with actv.serve_ok [OF assms(1-3) c assms(5)] show ?thesis by (auto simp: chan_ok_def)
qed
qed

section \<open>Polling\<close>

text \<open>The channels a pointer leads to through the \<open>next\<close> fields, up to the null pointer.\<close>

fun chain :: "(u32 \<Rightarrow> data_channel option) \<Rightarrow> u32 \<Rightarrow> u32 list \<Rightarrow> bool" where
  "chain m p [] \<longleftrightarrow> p = 0"
| "chain m p (q # qs) \<longleftrightarrow> p = q \<and> q \<noteq> 0 \<and>
     (case m q of None \<Rightarrow> False
      | Some c \<Rightarrow> (case nxt c of Uninit \<Rightarrow> False | Init n \<Rightarrow> chain m n qs))"

lemma chain_upd [simp]: "q \<notin> set ps \<Longrightarrow> chain (m(q := x)) p ps = chain m p ps"
  by (induction ps arbitrary: p) (auto split: option.splits cell.splits)

definition is_free :: "('w, 'z) dtp_scheme \<Rightarrow> u32 \<Rightarrow> bool" where
  "is_free s p \<longleftrightarrow> (case channels s p of None \<Rightarrow> False | Some c \<Rightarrow> GET_STATE c = DTP_FREE)"

text \<open>The text a channel will give back when it is freed.\<close>

definition held_text :: "data_channel \<Rightarrow> u32" where
  "held_text c = (if dstate c AND DTP_LOCAL_BUF \<noteq> 0 then dlocal c else 0)"

definition freeable :: "('w, 'z) dtp_scheme \<Rightarrow> u32 list \<Rightarrow> bool" where
  "freeable s ps \<longleftrightarrow>
     (\<forall>p \<in> set ps. \<forall>c. channels s p = Some c \<longrightarrow> GET_STATE c = DTP_FREE \<longrightarrow>
        listen_fd c \<noteq> Uninit \<and> (held_text c \<noteq> 0 \<longrightarrow> strings s (held_text c) \<noteq> None) \<and>
        (\<forall>q \<in> set ps. \<forall>d. channels s q = Some d \<longrightarrow> GET_STATE d = DTP_FREE \<longrightarrow> q \<noteq> p \<longrightarrow>
           held_text c \<noteq> 0 \<longrightarrow> held_text d \<noteq> held_text c))"

definition polling :: "('w, 'z) dtp_scheme \<Rightarrow> u32 list \<Rightarrow> u32 list \<Rightarrow> bool" where
  "polling s ps qs \<longleftrightarrow> chain (channels s) (dtp_list s) ps \<and> chain (channels s) (next_dtp_list s) qs \<and>
     distinct (ps @ qs) \<and> (\<forall>p \<in> set (ps @ qs). \<exists>c. channels s p = Some c \<and> chan_ok c) \<and> freeable s ps"

lemma freeable_less:
  assumes f: "freeable s ps" and sub: "set qs \<subseteq> set ps"
    and ch: "\<And>q e. q \<in> set qs \<Longrightarrow> channels s' q = Some e \<Longrightarrow> channels s q = Some e"
    and str: "\<And>q e. q \<in> set qs \<Longrightarrow> channels s q = Some e \<Longrightarrow> GET_STATE e = DTP_FREE \<Longrightarrow>
      held_text e \<noteq> 0 \<Longrightarrow> strings s' (held_text e) \<noteq> None"
  shows "freeable s' qs"
  unfolding freeable_def
proof (intro ballI allI impI conjI)
  fix p c assume p: "p \<in> set qs" "channels s' p = Some c" "GET_STATE c = DTP_FREE"
  then have c: "p \<in> set ps" "channels s p = Some c" using sub ch by auto
  show "listen_fd c \<noteq> Uninit" using f c p(3) by (auto simp: freeable_def)
  show "strings s' (held_text c) \<noteq> None" if "held_text c \<noteq> 0" using str p c that by blast
  fix q d assume q: "q \<in> set qs" "channels s' q = Some d" "GET_STATE d = DTP_FREE" "q \<noteq> p"
    "held_text c \<noteq> 0"
  then have "q \<in> set ps" "channels s q = Some d" using sub ch by auto
  with f c p(3) q(3-5) show "held_text d \<noteq> held_text c" unfolding freeable_def by blast
qed

lemma free_local_ok:
  "held_text c \<noteq> 0 \<longrightarrow> strings s (held_text c) \<noteq> None \<Longrightarrow> \<exists>s1. free_local os c s = Inr s1 \<and>
    channels s1 = channels s \<and> dtp_list s1 = dtp_list s \<and> next_dtp_list s1 = next_dtp_list s \<and>
    strings s1 = (if held_text c = 0 then strings s else (strings s)(held_text c := None))"
  by (cases "dstate c AND DTP_LOCAL_BUF = 0"; cases "dlocal c = 0")
    (auto simp: free_local_def held_text_def)

lemma free_channel_ok:
  assumes p: "p \<noteq> 0" "channels s p = Some c" and c: "has_buffer c" "listen_fd c \<noteq> Uninit"
    and t: "held_text c \<noteq> 0 \<longrightarrow> strings s (held_text c) \<noteq> None"
  shows "\<exists>s'. free_data_channel os p s = Inr s' \<and> channels s' = (channels s)(p := None) \<and>
    dtp_list s' = dtp_list s \<and> next_dtp_list s' = next_dtp_list s \<and>
    strings s' = (if held_text c = 0 then strings s else (strings s)(held_text c := None))"
proof -
  obtain lfd b where l: "listen_fd c = Init lfd" "dbuffer c = Init b"
    using c by (cases "listen_fd c"; cases "dbuffer c") (auto simp: has_buffer_def)
  obtain s1 where s1: "free_local os c s = Inr s1" "channels s1 = channels s" "dtp_list s1 = dtp_list s"
      "next_dtp_list s1 = next_dtp_list s"
      "strings s1 = (if held_text c = 0 then strings s else (strings s)(held_text c := None))"
    using free_local_ok [OF t] by blast
  then show ?thesis using p l by (simp add: free_data_channel_def get_channel_def Let_def)
qed

lemma poll_turn_free:
  assumes pl: "polling s (p # ps) qs" and fr: "is_free s p"
  shows "\<exists>s'. dtp_poll_turn os s = Inr s' \<and> polling s' ps qs \<and> channels s' = (channels s)(p := None)"
proof -
  obtain c n where c: "channels s p = Some c" "nxt c = Init n" "p \<noteq> 0" "dtp_list s = p"
      "chain (channels s) n ps" and q: "chain (channels s) (next_dtp_list s) qs"
      and d: "p \<notin> set ps" "p \<notin> set qs" "distinct (ps @ qs)" and ok: "chan_ok c"
      and oks: "\<forall>q \<in> set (ps @ qs). \<exists>c. channels s q = Some c \<and> chan_ok c"
    using pl by (auto simp: polling_def split: option.splits cell.splits)
  let ?c = "c\<lparr>nxt := Init 0\<rparr>" and ?s = "put_channel p (c\<lparr>nxt := Init 0\<rparr>) (s\<lparr>dtp_list := n\<rparr>)"
  have st: "GET_STATE ?c = DTP_FREE" "GET_STATE c = DTP_FREE" "held_text ?c = held_text c"
    using fr c(1) by (simp_all add: is_free_def GET_STATE_def held_text_def)
  have f: "listen_fd c \<noteq> Uninit" "held_text c \<noteq> 0 \<longrightarrow> strings s (held_text c) \<noteq> None"
    using pl c(1) st(2) by (auto simp: polling_def freeable_def)
  have hb: "has_buffer ?c" using ok by (auto simp: chan_ok_def passive_ok_def active_ok_def)
  obtain s' where s': "free_data_channel os p ?s = Inr s'" "channels s' = (channels ?s)(p := None)"
      "dtp_list s' = n" "next_dtp_list s' = next_dtp_list s"
      "strings s' = (if held_text c = 0 then strings s else (strings s)(held_text c := None))"
    using free_channel_ok [of p ?s ?c os] c(3) hb f st(3) by auto
  obtain i where i: "iface c = Init i" using ok by (auto simp: chan_ok_def passive_ok_def active_ok_def)
  have "dtp_service os p ?s = Inr ?s"
    using c(3) st(1) by (simp add: dtp_service_def dtp_states)
  then have run: "dtp_poll_turn os s = Inr s'"
    using c s'(1) st(1) i by (simp add: dtp_poll_turn_def get_channel_def Let_def iface_free_def)
  have ch: "channels s' = (channels s)(p := None)" using s'(2) by simp
  have keep: "channels s q = Some e" if "channels s' q = Some e" for q e
    using that ch by (auto split: if_splits)
  have "freeable s' ps"
  proof -
    have old: "freeable s (p # ps)" using pl by (simp add: polling_def)
    have new: "strings s' (held_text e) \<noteq> None"
      if "q \<in> set ps" "channels s q = Some e" "GET_STATE e = DTP_FREE" "held_text e \<noteq> 0" for q e
    proof -
      have "q \<noteq> p" using that(1) d(1) by auto
      moreover have "strings s (held_text e) \<noteq> None"
        using old that unfolding freeable_def by simp
      moreover have "held_text e \<noteq> held_text c" if "held_text c \<noteq> 0"
        using old c(1) st(2) \<open>q \<in> set ps\<close> \<open>channels s q = Some e\<close> \<open>GET_STATE e = DTP_FREE\<close>
          \<open>q \<noteq> p\<close> that unfolding freeable_def by simp
      ultimately show ?thesis using s'(5) by auto
    qed
    show ?thesis by (rule freeable_less [OF old]) (use keep new in auto)
  qed
  then have "polling s' ps qs"
    using c q d oks s'(3,4) by (auto simp: polling_def ch)
  with run ch show ?thesis by blast
qed

lemma poll_turn_keep:
  assumes io: "fd_io_within os" and pl: "polling s (p # ps) qs" and fr: "\<not> is_free s p"
  shows "\<exists>s'. dtp_poll_turn os s = Inr s' \<and> polling s' ps (p # qs) \<and>
    (\<exists>c. channels s' = (channels s)(p := Some c)) \<and> \<not> is_free s' p"
proof -
  obtain c n where c: "channels s p = Some c" "nxt c = Init n" "p \<noteq> 0" "dtp_list s = p"
      "chain (channels s) n ps" and q: "chain (channels s) (next_dtp_list s) qs"
      and d: "p \<notin> set ps" "p \<notin> set qs" "distinct (ps @ qs)" and ok: "chan_ok c"
      and oks: "\<forall>q \<in> set (ps @ qs). \<exists>c. channels s q = Some c \<and> chan_ok c"
    using pl by (auto simp: polling_def split: option.splits cell.splits)
  let ?s = "put_channel p (c\<lparr>nxt := Init 0\<rparr>) (s\<lparr>dtp_list := n\<rparr>)"
  have st: "GET_STATE (c\<lparr>nxt := Init 0\<rparr>) \<noteq> DTP_FREE"
    using fr c(1) by (simp add: is_free_def GET_STATE_def)
  obtain s1 c1 where s1: "dtp_service os p ?s = Inr s1" "served p (c\<lparr>nxt := Init 0\<rparr>) c1 ?s s1" "chan_ok c1"
    using service_ok [OF io c(3), of ?s "c\<lparr>nxt := Init 0\<rparr>"] ok st by auto
  then have ch1: "channels s1 = (channels s)(p := Some c1)" "dtp_list s1 = n"
      "next_dtp_list s1 = next_dtp_list s" "strings s1 = strings s" and st1: "GET_STATE c1 \<noteq> DTP_FREE"
    by (simp_all add: served_def)
  let ?c = "c1\<lparr>nxt := Init (next_dtp_list s)\<rparr>" and ?s' = "(put_channel p (c1\<lparr>nxt := Init (next_dtp_list s)\<rparr>) s1)\<lparr>next_dtp_list := p\<rparr>"
  have run: "dtp_poll_turn os s = Inr ?s'"
    using c s1(1) ch1 st1 by (simp add: dtp_poll_turn_def get_channel_def Let_def)
  have ch: "channels ?s' = (channels s)(p := Some ?c)" using ch1 by simp
  have "freeable ?s' ps"
  proof -
    have old: "freeable s (p # ps)" using pl by (simp add: polling_def)
    have same: "channels ?s' q = channels s q" if "q \<in> set ps" for q using that d(1) ch by auto
    have new: "strings ?s' (held_text e) \<noteq> None"
      if "q \<in> set ps" "channels s q = Some e" "GET_STATE e = DTP_FREE" "held_text e \<noteq> 0" for q e
      using old that ch1(4) unfolding freeable_def by simp
    show ?thesis by (rule freeable_less [OF old]) (use same new in auto)
  qed
  then have "polling ?s' ps (p # qs)"
    using c q d oks ch1 s1(3) by (auto simp: polling_def)
  moreover have "\<not> is_free ?s' p" using st1 by (simp add: is_free_def GET_STATE_def)
  ultimately show ?thesis using run ch by blast
qed

lemma poll_loop_ok:
  assumes "fd_io_within os" and "polling s ps qs"
  shows "\<exists>s'. dtp_poll_loop os s = Some (Inr s') \<and>
    polling s' [] (rev (filter (\<lambda>p. \<not> is_free s p) ps) @ qs) \<and>
    (\<forall>p \<in> set ps. is_free s p \<longrightarrow> channels s' p = None) \<and>
    (\<forall>q. q \<notin> set ps \<longrightarrow> channels s' q = channels s q)"
  using assms(2)
proof (induction ps arbitrary: s qs)
  case Nil
  then show ?case by (subst dtp_poll_loop.simps) (simp add: polling_def)
next
  case (Cons p ps)
  have start: "dtp_list s \<noteq> 0" "p \<notin> set ps" using Cons.prems by (auto simp: polling_def)
  have same: "is_free s1 q = is_free s q" if "channels s1 = (channels s)(p := x)" "q \<in> set ps" for s1 x q
    using that start(2) by (auto simp: is_free_def)
  have loop: "dtp_poll_loop os s = dtp_poll_loop os s1" if "dtp_poll_turn os s = Inr s1" for s1
    using that start(1) by (subst dtp_poll_loop.simps) simp
  show ?case
  proof (cases "is_free s p")
    case True
    then obtain s1 where s1: "dtp_poll_turn os s = Inr s1" "polling s1 ps qs"
        "channels s1 = (channels s)(p := None)"
      using poll_turn_free [OF Cons.prems, of os] by blast
    from Cons.IH [OF s1(2)] obtain s' where s': "dtp_poll_loop os s1 = Some (Inr s')"
        "polling s' [] (rev (filter (\<lambda>p. \<not> is_free s1 p) ps) @ qs)"
        "\<forall>q \<in> set ps. is_free s1 q \<longrightarrow> channels s' q = None"
        "\<forall>q. q \<notin> set ps \<longrightarrow> channels s' q = channels s1 q" by blast
    have fl: "filter (\<lambda>p. \<not> is_free s1 p) ps = filter (\<lambda>p. \<not> is_free s p) ps"
      by (rule filter_cong) (simp_all add: same [OF s1(3)])
    show ?thesis
    proof (intro exI conjI)
      show "dtp_poll_loop os s = Some (Inr s')" using loop [OF s1(1)] s'(1) by simp
      show "polling s' [] (rev (filter (\<lambda>p. \<not> is_free s p) (p # ps)) @ qs)"
        using s'(2) fl True by simp
      show "\<forall>q \<in> set (p # ps). is_free s q \<longrightarrow> channels s' q = None"
        using s'(3,4) same [OF s1(3)] s1(3) start(2) by auto
      show "\<forall>q. q \<notin> set (p # ps) \<longrightarrow> channels s' q = channels s q"
        using s'(4) s1(3) by simp
    qed
  next
    case False
    then obtain s1 c where s1: "dtp_poll_turn os s = Inr s1" "polling s1 ps (p # qs)"
        "channels s1 = (channels s)(p := Some c)"
      using poll_turn_keep [OF assms(1) Cons.prems] by blast
    from Cons.IH [OF s1(2)] obtain s' where s': "dtp_poll_loop os s1 = Some (Inr s')"
        "polling s' [] (rev (filter (\<lambda>p. \<not> is_free s1 p) ps) @ p # qs)"
        "\<forall>q \<in> set ps. is_free s1 q \<longrightarrow> channels s' q = None"
        "\<forall>q. q \<notin> set ps \<longrightarrow> channels s' q = channels s1 q" by blast
    have "filter (\<lambda>p. \<not> is_free s1 p) ps = filter (\<lambda>p. \<not> is_free s p) ps"
      by (rule filter_cong) (simp_all add: same [OF s1(3)])
    then have pl: "polling s' [] (rev (filter (\<lambda>p. \<not> is_free s p) (p # ps)) @ qs)"
      using s'(2) False by simp
    show ?thesis
    proof (intro exI conjI)
      show "dtp_poll_loop os s = Some (Inr s')" using loop [OF s1(1)] s'(1) by simp
      show "\<forall>q \<in> set (p # ps). is_free s q \<longrightarrow> channels s' q = None"
        using s'(3) same [OF s1(3)] False by auto
      show "\<forall>q. q \<notin> set (p # ps) \<longrightarrow> channels s' q = channels s q"
        using s'(4) s1(3) by simp
    qed (rule pl)
  qed
qed

section \<open>Requests and connections\<close>

fun services :: "'w os \<Rightarrow> u32 \<Rightarrow> nat \<Rightarrow> ('w, 'z) dtp_scheme \<Rightarrow> fault + ('w, 'z) dtp_scheme" where
  "services os p 0 s = Inr s"
| "services os p (Suc k) s = bindF (dtp_service os p s) (services os p k)"

lemma services_idle:
  assumes "dtp_service os p s = Inr s"
  shows "services os p k s = Inr s"
  by (induction k) (use assms in simp_all)

text \<open>A world whose scripted input is a whole file and that records what is written.\<close>

lemma host_pipe: "pipe host_os to from infile outfile"
  unfolding pipe_def by (auto simp: min_def)

lemma host_fd_io: "fd_io_within host_os"
  by (auto simp: fd_io_within_def)

definition chan0 :: data_channel where
  "chan0 = \<lparr>nxt = Init 0, dstate = DTP_PENDING, dlocal = -1, remote_fd = -1, listen_fd = Init 7,
     dip = 0x7F000001, dport = 1024,
     dbuffer = Init (Some \<lparr>buffer = replicate 64 NUL, line = replicate 64 NUL, bsize = 64, head = 0\<rparr>),
     iface = Init Passive\<rparr>"

definition dtp0 :: "host \<Rightarrow> (u32 \<Rightarrow> data_channel option) \<Rightarrow> u32 \<Rightarrow> host dtp" where
  "dtp0 w cs p = \<lparr>world = w, allocs = allocs0, next_ephermal_port = 1024, channels = cs,
     strings = Map.empty, dtp_list = p, next_dtp_list = 0\<rparr>"

lemma chan0_ok: "passive_ok chan0"
  by (simp add: passive_ok_def has_buffer_def chan0_def iob_wf_def)

text \<open>Moving data does not look at the texts.\<close>

lemma sysc_strings:
  "sysc f (s\<lparr>strings := txts\<rparr>) = (fst (sysc f s), (snd (sysc f s))\<lparr>strings := txts\<rparr>)"
  by (simp add: sysc_def case_prod_beta)

lemma sys_do_strings: "sys_do g (s\<lparr>strings := txts\<rparr>) = (sys_do g s)\<lparr>strings := txts\<rparr>"
  by (simp add: sys_do_def)

lemma write_buffered_strings:
  "dtp_write_buffered_data_to_fd os fd b n (s\<lparr>strings := txts\<rparr>) =
    mapF (\<lambda>(k, b, s'). (k, b, s'\<lparr>strings := txts\<rparr>)) (dtp_write_buffered_data_to_fd os fd b n s)"
  by (simp add: dtp_write_buffered_data_to_fd_def Let_def sysc_strings case_prod_beta mapF_simps
      cong: if_cong)

lemma fill_strings:
  "dtp_fill_buffer_from_fd os b fd (s\<lparr>strings := txts\<rparr>) =
    mapF (\<lambda>(k, b, s'). (k, b, s'\<lparr>strings := txts\<rparr>)) (dtp_fill_buffer_from_fd os b fd s)"
  by (simp add: dtp_fill_buffer_from_fd_def Let_def sysc_strings case_prod_beta mapF_simps
      cong: if_cong option.case_cong)

lemma copy_data_strings:
  "dtp_copy_data os dir c b n (s\<lparr>strings := txts\<rparr>) =
    mapF (\<lambda>(c, s'). (c, s'\<lparr>strings := txts\<rparr>)) (dtp_copy_data os dir c b n s)"
  by (simp add: dtp_copy_data_def Let_def write_buffered_strings fill_strings sys_do_strings
      case_prod_beta mapF_simps cong: if_cong)

section \<open>Properties\<close>

text \<open>C3: a transfer between two descriptors that behave as a byte stream. In either direction, if
  enough packets are moved, the channel reaches CLOSED with both descriptors given up, the source is
  at its end, and the sink has received what the buffer held followed by all the bytes of the
  source, in order. Twice the bytes left, plus one, are enough packets, whatever part of each packet
  the platform accepts.\<close>

theorem transfer_completes:
  assumes "p \<noteq> 0" and "channels s p = Some c" and "dbuffer c = Init (Some b)" and "iob_wf b"
    and "0 \<le> to_fd dir c" and "0 \<le> from_fd dir c"
    and "pipe os (to_fd dir c) (from_fd dir c) src snk"
    and "2 * length (src (world s)) + length (contents b) < k"
  shows "\<exists>s' c'. packets os dir p k s = Inr s' \<and> channels s' p = Some c' \<and>
    GET_STATE c' = DTP_CLOSED \<and> remote_fd c' = -1 \<and> sint (dlocal c') = -1 \<and>
    src (world s') = [] \<and> snk (world s') = snk (world s) @ contents b @ src (world s)"
  by (rule packets_pipe [OF assms])

theorem transfer_completes_witness:
  "\<exists>s'. packets host_os Sending 64 100
      (dtp0 (host0\<lparr>infile := ''hello''\<rparr>) [64 \<mapsto> chan0\<lparr>remote_fd := 4, dlocal := 5\<rparr>] 0) = Inr s' \<and>
    outfile (world s') = ''hello''"
proof -
  let ?b = "\<lparr>buffer = replicate 64 NUL, line = replicate 64 NUL, bsize = 64, head = 0\<rparr>"
  have "iob_wf ?b" "contents ?b = []" by (simp_all add: iob_wf_def contents_def)
  with transfer_completes [OF _ _ _ _ _ _ host_pipe, of 64
      "dtp0 (host0\<lparr>infile := ''hello''\<rparr>) [64 \<mapsto> chan0\<lparr>remote_fd := 4, dlocal := 5\<rparr>] 0"
      "chan0\<lparr>remote_fd := 4, dlocal := 5\<rparr>" ?b Sending 100]
  show ?thesis by (auto simp: dtp0_def chan0_def host0_def)
qed



text \<open>A transfer asked for before the peer connects is lost. The accept handler of passive mode
  replaces the whole state byte, so the request flag is gone; the channel stays ESTABLISHED and no
  number of later polls moves it on.\<close>

theorem accept_drops_the_request:
  assumes "p \<noteq> 0" and "channels s p = Some c" and "iface c = Init Passive" and "listen_fd c = Init lfd"
    and "GET_STATE c = DTP_PENDING" and "os_accept os lfd (world s) = ((fd, ip, port), w)" and "0 \<le> fd"
  shows "\<exists>s' c'. dtp_service os p s = Inr s' \<and> channels s' p = Some c' \<and>
    GET_STATE c' = DTP_ESTABLISHED \<and> remote_fd c' = fd \<and> dlocal c' = dlocal c \<and>
    dstate c' AND (DTP_XMIT OR DTP_RECV) = 0 \<and> (\<forall>k. services os p k s' = Inr s')"
proof -
  let ?c = "SET_STATE (c\<lparr>listen_fd := Init (-1), remote_fd := fd\<rparr>) DTP_ESTABLISHED"
  obtain w' where "pasv_accept_handler os p fd ip port (s\<lparr>world := w\<rparr>) =
      Inr (put_channel p ?c (s\<lparr>world := w\<rparr>\<lparr>world := w'\<rparr>))"
    using accept_handler_ok [of p "s\<lparr>world := w\<rparr>" c lfd os fd ip port] assms by auto
  then have run: "dtp_service os p s = Inr (put_channel p ?c (s\<lparr>world := w'\<rparr>))"
    using assms by (simp add: dtp_service_def pasv_try_accept_def network_accept_poll_def
        get_channel_def sysc_def)
  have "dtp_service os p (put_channel p ?c (s\<lparr>world := w'\<rparr>)) = Inr (put_channel p ?c (s\<lparr>world := w'\<rparr>))"
    using assms(1) put_same [of "put_channel p ?c (s\<lparr>world := w'\<rparr>)" p ?c]
    by (simp add: dtp_service_def check_ready_established)
      (simp add: dtp_states)
  moreover have "dstate ?c AND (DTP_XMIT OR DTP_RECV) = 0"
    using set_state_flags [of DTP_ESTABLISHED] by (simp add: bit.conj_disj_distrib DTP_ESTABLISHED_def)
  ultimately show ?thesis using run services_idle by fastforce
qed

theorem accept_drops_the_request_witness:
  "\<exists>s' c'. dtp_service host_os 64 (dtp0 (host0\<lparr>peers := [(9, 0x7F000001, 5000)]\<rparr>)
      [64 \<mapsto> chan0\<lparr>dlocal := 192, dstate := DTP_LOCAL_BUF OR DTP_XMIT\<rparr>] 0) = Inr s' \<and>
    channels s' 64 = Some c' \<and> (\<forall>k. services host_os 64 k s' = Inr s')"
proof -
  have st: "GET_STATE (chan0\<lparr>dlocal := 192, dstate := DTP_LOCAL_BUF OR DTP_XMIT\<rparr>) = DTP_PENDING"
    by (simp add: GET_STATE_def DTP_LOCAL_BUF_def DTP_XMIT_def DTP_PENDING_def)
  show ?thesis
    using accept_drops_the_request [OF _ _ _ _ st, where p = 64 and lfd = 7 and os = host_os and fd = 9
      and s = "dtp0 (host0\<lparr>peers := [(9, 0x7F000001, 5000)]\<rparr>)
        [64 \<mapsto> chan0\<lparr>dlocal := 192, dstate := DTP_LOCAL_BUF OR DTP_XMIT\<rparr>] 0"
      and ip = "0x7F000001" and port = 5000 and w = "host0\<lparr>peers := []\<rparr>"]
    by (auto simp: dtp0_def chan0_def pop_peer_def host0_def)
qed

text \<open>Once the peer is connected, a request does start: an ESTABLISHED channel with no request gets
  its text, the next poll makes it SENDING, and a second request is refused.\<close>

theorem request_after_connect_starts:
  assumes "p \<noteq> 0" and "channels s p = Some c" and "GET_STATE c = DTP_ESTABLISHED"
    and "dstate c AND DTP_RECV = 0" and "dlocal c = -1" and "sint txt \<noteq> -1"
  shows "\<exists>s1 c1 s2 c2. dtp_send_buffer p txt s = Inr (0, s1) \<and> channels s1 p = Some c1 \<and>
    dlocal c1 = txt \<and> dtp_send_buffer p other s1 = Inr (-1, s1) \<and>
    dtp_service os p s1 = Inr s2 \<and> channels s2 p = Some c2 \<and> GET_STATE c2 = DTP_SENDING \<and>
    dlocal c2 = txt \<and> dstate c2 AND DTP_LOCAL_BUF \<noteq> 0"
proof -
  let ?c = "c\<lparr>dlocal := txt, dstate := dstate c OR (DTP_LOCAL_BUF OR DTP_XMIT)\<rparr>"
  have st: "GET_STATE ?c = DTP_ESTABLISHED"
    using assms(3) by (simp add: GET_STATE_def DTP_LOCAL_BUF_def DTP_XMIT_def
        bit.conj_disj_distrib2)
  have x: "dstate ?c AND DTP_XMIT \<noteq> 0" "dstate ?c AND DTP_LOCAL_BUF = DTP_LOCAL_BUF"
    by (simp_all add: DTP_LOCAL_BUF_def DTP_XMIT_def bit.conj_disj_distrib2)
  have r: "dstate ?c AND DTP_RECV = 0"
    using assms(4) by (simp add: DTP_LOCAL_BUF_def DTP_XMIT_def DTP_RECV_def bit.conj_disj_distrib2)
  let ?s1 = "put_channel p ?c s"
  have s1: "dtp_send_buffer p txt s = Inr (0, ?s1)" "dtp_send_buffer p other ?s1 = Inr (-1, ?s1)"
    using assms(1,2,5,6) by (simp_all add: dtp_send_buffer_def get_channel_def)
  have "dtp_check_ready ?c = SET_STATE ?c DTP_SENDING"
    using st x(1) r by (simp add: dtp_check_ready_def)
  then have "dtp_service os p ?s1 = Inr (put_channel p (SET_STATE ?c DTP_SENDING) ?s1)"
    using assms(1) st by (simp add: dtp_service_def) (simp add: dtp_states)
  moreover have "dstate (SET_STATE ?c DTP_SENDING) AND DTP_LOCAL_BUF \<noteq> 0"
    by (simp add: SET_STATE_def DTP_SENDING_def DTP_LOCAL_BUF_def DTP_XMIT_def bit.conj_disj_distrib2)
  ultimately show ?thesis using s1 by fastforce
qed

theorem request_after_connect_starts_witness:
  "\<exists>s1 s2 c2. dtp_send_buffer 64 192 (dtp0 host0 [64 \<mapsto> chan0\<lparr>dstate := DTP_ESTABLISHED\<rparr>] 0) = Inr (0, s1) \<and>
    dtp_service host_os 64 s1 = Inr s2 \<and> channels s2 64 = Some c2 \<and> GET_STATE c2 = DTP_SENDING"
proof -
  have "GET_STATE (chan0\<lparr>dstate := DTP_ESTABLISHED\<rparr>) = DTP_ESTABLISHED"
    "dstate (chan0\<lparr>dstate := DTP_ESTABLISHED\<rparr>) AND DTP_RECV = 0"
    by (simp_all add: GET_STATE_def DTP_ESTABLISHED_def DTP_RECV_def)
  from request_after_connect_starts [OF _ _ this, of 64 "dtp0 host0 [64 \<mapsto> chan0\<lparr>dstate := DTP_ESTABLISHED\<rparr>] 0" 192]
  show ?thesis by (simp add: dtp0_def chan0_def) blast
qed

text \<open>A text is never sent. Whatever texts the store holds, sending on a channel does the same
  system calls and changes the channel in the same way: the address of the text is only ever used as
  the number of a descriptor to read from.\<close>

theorem sending_ignores_the_text:
  "dtp_send_data os p (s\<lparr>strings := txts\<rparr>) =
    mapF (\<lambda>s'. s'\<lparr>strings := txts\<rparr>) (dtp_send_data os p s)"
proof (cases "p = 0")
  case True
  then show ?thesis by (simp add: dtp_send_data_def dtp_move_def)
next
  case False
  have order: "r\<lparr>strings := a, channels := b\<rparr> = r\<lparr>channels := b, strings := a\<rparr>"
    for r :: "('a, 'b) dtp_scheme" and a b by simp
  show ?thesis
    using False
    by (simp add: order dtp_send_data_def dtp_move_def get_channel_def put_channel_def copy_data_strings
        mapF_simps case_prod_beta cong: if_cong option.case_cong split: option.split)
qed

text \<open>Creating a channel, on every branch. Without memory for the structure it returns null. A null
  address, or no memory for the buffer, takes the error exit, and there the code tests the listening
  descriptor nobody has set: undefined. Otherwise the channel is PENDING, closed on both sides, with
  an empty buffer, and is the first of the list under construction.\<close>

theorem new_channel_outcomes:
  "let (p, m) = malloc (allocs s); (ob, m') = new_buffer 192000 m in
    if p = 0 then new_data_channel os ip port s = Inr (0, s\<lparr>allocs := m\<rparr>)
    else if ip = 0 \<or> ob = None then new_data_channel os ip port s = Inl Uninitialised
    else \<exists>b c s'. ob = Some b \<and> iob_wf b \<and> contents b = [] \<and> 192000 < bsize b \<and>
      new_data_channel os ip port s = Inr (p, s') \<and> next_dtp_list s' = p \<and> dtp_list s' = dtp_list s \<and>
      allocs s' = m' \<and> channels s' = (channels s)(p := Some c) \<and> GET_STATE c = DTP_PENDING \<and>
      nxt c = Init (next_dtp_list s) \<and> dbuffer c = Init (Some b) \<and> remote_fd c = -1 \<and>
      sint (dlocal c) = -1 \<and> dip c = ip \<and> dport c = port"
proof -
  obtain p m where m: "malloc (allocs s) = (p, m)" by fastforce
  obtain ob m' where b: "new_buffer 192000 m = (ob, m')" by fastforce
  have lb: "DTP_PENDING AND DTP_LOCAL_BUF = 0" "DTP_PENDING AND 15 = DTP_PENDING"
    by (simp_all add: DTP_PENDING_def)
  show ?thesis
  proof (cases "p = 0 \<or> ip = 0 \<or> ob = None")
    case True
    then show ?thesis
      using m b by (auto simp: new_data_channel_def free_data_channel_def free_local_def
          get_channel_def lb Let_def)
  next
    case False
    then obtain x where x: "ob = Some x" by auto
    have "iob_wf x" "contents x = []" "192000 < bsize x"
      using new_buffer_wf [of 192000 m x m'] b x by simp_all
    moreover have "\<exists>c s'. new_data_channel os ip port s = Inr (p, s') \<and> next_dtp_list s' = p \<and>
        dtp_list s' = dtp_list s \<and> allocs s' = m' \<and> channels s' = (channels s)(p := Some c) \<and>
        GET_STATE c = DTP_PENDING \<and> nxt c = Init (next_dtp_list s) \<and> dbuffer c = Init (Some x) \<and>
        remote_fd c = -1 \<and> sint (dlocal c) = -1 \<and> dip c = ip \<and> dport c = port"
      using False m b x
      by (intro exI [of _ "\<lparr>nxt = Init (next_dtp_list s), dstate = DTP_PENDING, dlocal = -1,
          remote_fd = -1, listen_fd = Uninit, dip = ip, dport = port, dbuffer = Init (Some x),
          iface = Uninit\<rparr>"]) (simp add: new_data_channel_def GET_STATE_def lb Let_def)
    ultimately show ?thesis using False m b x by simp
  qed
qed

text \<open>A channel of active mode can be created but never freed: the listening descriptor is never
  set, so freeing it is undefined whatever happened to its other fields; a channel of passive mode
  whose socket is there can be freed.\<close>

theorem active_channels_cannot_be_freed:
  assumes "never_fails (allocs s)" and "ip \<noteq> 0"
  shows "\<exists>p s' c. new_active_channel os ip port s = Inr (p, s') \<and> p \<noteq> 0 \<and>
    channels s' p = Some c \<and> active_ok c \<and> free_data_channel os p s' = Inl Uninitialised"
proof -
  obtain p m where m: "malloc (allocs s) = (p, m)" by fastforce
  have nf: "p \<noteq> 0" "never_fails m" using malloc_never_fails [OF assms(1)] m by auto
  obtain b m' where b: "new_buffer 192000 m = (Some b, m')" using new_buffer_never_fails [OF nf(2)] by blast
  have wf: "iob_wf b" using new_buffer_wf [OF b] by simp
  have lb: "DTP_PENDING AND DTP_LOCAL_BUF = 0" by (simp add: DTP_PENDING_def)
  show ?thesis
    using nf m b wf assms(2)
    by (simp add: new_active_channel_def new_data_channel_def get_channel_def Let_def active_ok_def
        has_buffer_def free_data_channel_def free_local_def lb)
qed

theorem active_channels_cannot_be_freed_witness:
  "\<exists>p s'. new_active_channel host_os 0x7F000001 20 ((dtp0 host0 Map.empty 0)\<lparr>allocs := \<lambda>_. 64\<rparr>) = Inr (p, s') \<and>
    free_data_channel host_os p s' = Inl Uninitialised"
proof -
  let ?s = "(dtp0 host0 Map.empty 0)\<lparr>allocs := \<lambda>_. 64\<rparr>"
  have "never_fails (allocs (?s))" by (simp add: never_fails_def)
  with active_channels_cannot_be_freed [of ?s "0x7F000001" host_os 20]
  show ?thesis by (auto simp del: not_None_eq)
qed

end
