(* ===== verification/VfsPath.thy ===== *)
theory VfsPath
  imports Platform
begin

text \<open>
  Paths of \<^verbatim>\<open>vfs/vfs_pathent.c\<close> and \<^verbatim>\<open>vfs/vfs_path.c\<close>: a path the user gives is parsed into the
  list of its segments, normalised with a stack, merged into the working directory and printed
  back. The linked list of segments is owned by its path alone, so it is the list of its names;
  the null pointer is the empty list. A path pointer is a \<open>vfs_path option\<close>.
\<close>

section \<open>Segments\<close>

text \<open>
  A segment whose name could not be copied keeps a null name, which every use dereferences at
  once; the model reports the null pointer where the copy fails.
\<close>

definition new_vfs_pathent :: "char list option \<Rightarrow> mem \<Rightarrow> fault + string option \<times> mem" where
  "new_vfs_pathent entity m =
     (case entity of
        None \<Rightarrow> Inr (None, m)
      | Some e \<Rightarrow>
          let (p, m) = malloc m in
          if p = 0 then Inr (None, m)
          else
            bindF (c_str e) (\<lambda>name.
            let (q, m) = malloc m in
            if q = 0 then Inl Null_pointer else Inr (Some name, m)))"

definition pathent_list_append :: "string list \<Rightarrow> string \<Rightarrow> string list" where
  "pathent_list_append list pathent = list @ [pathent]"

fun skip_separator :: "char list \<Rightarrow> fault + char list" where
  "skip_separator [] = Inl Out_of_bounds"
| "skip_separator (c # cs) = (if c = CHR ''/'' then skip_separator cs else Inr (c # cs))"

text \<open>\<open>while(path[i] == '/') i++\<close> inside the loop.\<close>

function skip_slashes :: "char list \<Rightarrow> nat \<Rightarrow> fault + nat" where
  "skip_slashes path i =
     (if i < length path
      then if path ! i = CHR ''/'' then skip_slashes path (Suc i) else Inr i
      else Inl Out_of_bounds)"
  by pat_completeness auto
termination
  by (relation "measure (\<lambda>(path, i). length path - i)") auto

declare skip_slashes.simps [simp del]

lemma skip_slashes_le: "skip_slashes path i = Inr j \<Longrightarrow> i \<le> j"
proof (induction path i rule: skip_slashes.induct)
  case (1 path i)
  then show ?case by (subst (asm) (2) skip_slashes.simps) (auto split: if_splits)
qed

text \<open>
  The loop of the parser over the block of the path: \<open>i\<close> is the index, \<open>e\<close> the offset of the
  current segment. It ends at a terminator with the segments so far, or with \<open>None\<close> by the jump to
  the error label. After a separator the index is moved behind the run of separators and then
  advanced once more by the loop.
\<close>

function parse_loop ::
  "char list \<Rightarrow> nat \<Rightarrow> nat \<Rightarrow> string list \<Rightarrow> mem \<Rightarrow> fault + (string list option \<times> nat) \<times> mem" where
  "parse_loop path i e acc m =
     (if i < length path then
        if path ! i = NUL then Inr ((Some acc, e), m)
        else if \<not> isgraph (path ! i) \<and> path ! i \<noteq> CHR '' '' then Inr ((None, e), m)
        else if path ! i = CHR ''/'' then
          bindF (new_vfs_pathent (Some (drop e (path[i := NUL]))) m) (\<lambda>(ent, m).
          case ent of
            None \<Rightarrow> Inr ((None, e), m)
          | Some name \<Rightarrow>
              bindF (skip_slashes path i) (\<lambda>j.
              parse_loop path (Suc j) j (pathent_list_append acc name) m))
        else parse_loop path (Suc i) e acc m
      else Inl Out_of_bounds)"
  by pat_completeness auto
termination
  by (relation "measure (\<lambda>(path, i, _). length path - i)")
    (auto dest: skip_slashes_le)

declare parse_loop.simps [simp del]

definition vfs_pathent_parse :: "char list option \<Rightarrow> mem \<Rightarrow> fault + string list \<times> mem" where
  "vfs_pathent_parse path m =
     (case path of
        None \<Rightarrow> Inr ([], m)
      | Some p \<Rightarrow>
          bindF (read_at p 0) (\<lambda>c.
          if c = NUL then Inr ([], m)
          else
            bindF (skip_separator p) (\<lambda>q.
            bindF (parse_loop q 0 0 [] m) (\<lambda>((res, e), m).
            case res of
              None \<Rightarrow> Inr ([], m)
            | Some acc \<Rightarrow>
                bindF (read_at q (int e)) (\<lambda>c.
                if c = NUL then Inr (acc, m)
                else
                  bindF (new_vfs_pathent (Some (drop e q)) m) (\<lambda>(ent, m).
                  case ent of
                    None \<Rightarrow> Inr ([], m)
                  | Some name \<Rightarrow> Inr (pathent_list_append acc name, m)))))))"

section \<open>Paths\<close>

record vfs_path =
  entities :: "string list"
  absolute :: bool

definition new_vfs_path_internal :: "mem \<Rightarrow> vfs_path option \<times> mem" where
  "new_vfs_path_internal m =
     (let (p, m) = malloc m in
      if p = 0 then (None, m) else (Some \<lparr>entities = [], absolute = False\<rparr>, m))"

text \<open>Pushing the segments onto a stack, then popping everything into the result.\<close>

fun resolve_push :: "string list \<Rightarrow> string list \<Rightarrow> string list" where
  "resolve_push stack [] = stack"
| "resolve_push stack (x # xs) =
     (if x = ''..'' then resolve_push (case stack of [] \<Rightarrow> [] | _ # st \<Rightarrow> st) xs
      else if x = ''.'' then resolve_push stack xs
      else resolve_push (x # stack) xs)"

fun resolve_pop :: "string list \<Rightarrow> string list \<Rightarrow> string list" where
  "resolve_pop acc [] = acc"
| "resolve_pop acc (x # stack) = resolve_pop (x # acc) stack"

definition vfs_path_resolve :: "vfs_path \<Rightarrow> vfs_path" where
  "vfs_path_resolve p =
     (if entities p = [] then p
      else p\<lparr>entities := resolve_pop [] (resolve_push [] (entities p))\<rparr>)"

definition new_vfs_path :: "char list option \<Rightarrow> mem \<Rightarrow> fault + vfs_path option \<times> mem" where
  "new_vfs_path path m =
     (case path of
        None \<Rightarrow> Inr (None, m)
      | Some p \<Rightarrow>
          bindF (read_at p 0) (\<lambda>c.
          if c = NUL then Inr (None, m)
          else
            let (res, m) = new_vfs_path_internal m in
            case res of
              None \<Rightarrow> Inr (None, m)
            | Some r \<Rightarrow>
                let r = (if c = CHR ''/'' then r\<lparr>absolute := True\<rparr> else r) in
                bindF (vfs_pathent_parse (Some p) m) (\<lambda>(ents, m).
                Inr (Some (vfs_path_resolve (r\<lparr>entities := ents\<rparr>)), m))))"

text \<open>The segments are copied one by one; a failed allocation gives up the copy.\<close>

fun clone_entities :: "string list \<Rightarrow> string list \<Rightarrow> mem \<Rightarrow> fault + string list option \<times> mem" where
  "clone_entities acc [] m = Inr (Some acc, m)"
| "clone_entities acc (x # xs) m =
     bindF (new_vfs_pathent (Some (x @ [NUL])) m) (\<lambda>(copy, m).
     case copy of
       None \<Rightarrow> Inr (None, m)
     | Some name \<Rightarrow> clone_entities (acc @ [name]) xs m)"

definition vfs_path_clone :: "vfs_path option \<Rightarrow> mem \<Rightarrow> fault + vfs_path option \<times> mem" where
  "vfs_path_clone path m =
     (case path of
        None \<Rightarrow> Inr (None, m)
      | Some p \<Rightarrow>
          let (res, m) = new_vfs_path_internal m in
          case res of
            None \<Rightarrow> Inr (None, m)
          | Some r \<Rightarrow>
              bindF (clone_entities [] (entities p) m) (\<lambda>(ents, m).
              case ents of
                None \<Rightarrow> Inr (None, m)
              | Some es \<Rightarrow> Inr (Some (r\<lparr>absolute := absolute p, entities := es\<rparr>), m)))"

definition vfs_path_merge ::
  "vfs_path option \<Rightarrow> vfs_path option \<Rightarrow> mem \<Rightarrow> fault + vfs_path option \<times> mem" where
  "vfs_path_merge dest src m =
     (case (dest, src) of
        (Some d, Some s) \<Rightarrow>
          if \<not> absolute d then Inr (None, m)
          else if absolute s then vfs_path_clone (Some s) m
          else if entities s = [] then vfs_path_clone (Some d) m
          else
            bindF (vfs_path_clone (Some d) m) (\<lambda>(result, m).
            bindF (vfs_path_clone (Some s) m) (\<lambda>(tmp, m).
            case (result, tmp) of
              (Some r, Some t) \<Rightarrow>
                Inr (Some (vfs_path_resolve (r\<lparr>entities := entities r @ entities t\<rparr>)), m)
            | _ \<Rightarrow> Inl Null_pointer))
      | _ \<Rightarrow> Inr (None, m))"

text \<open>
  Printing into a zeroed block of \<open>PATH_MAX\<close> bytes. The text in the block is what is accumulated;
  the length is checked before each segment is added.
\<close>

fun acquire_loop :: "int \<Rightarrow> string \<Rightarrow> string list \<Rightarrow> string option" where
  "acquire_loop pmax buf [] = Some buf"
| "acquire_loop pmax buf (x # xs) =
     (let len = int (length buf) + int (length x) + 1 + (if xs \<noteq> [] then 1 else 0) in
      if pmax \<le> len then None
      else acquire_loop pmax (buf @ x @ (if xs \<noteq> [] then ''/'' else [])) xs)"

definition vfs_path_acquire :: "int \<Rightarrow> vfs_path \<Rightarrow> mem \<Rightarrow> string option \<times> mem" where
  "vfs_path_acquire pmax path m =
     (let (p, m) = malloc m in
      if p = 0 then (None, m)
      else (acquire_loop pmax (if absolute path then ''/'' else []) (entities path), m))"

definition vfs_can_chdir ::
  "'w os \<Rightarrow> vfs_path option \<Rightarrow> ('w, 'z) sys_scheme \<Rightarrow> fault + bool \<times> ('w, 'z) sys_scheme" where
  "vfs_can_chdir os path s =
     (case path of
        None \<Rightarrow> Inl Null_pointer
      | Some p \<Rightarrow>
          if \<not> absolute p then Inr (False, s)
          else if entities p = [] then Inr (True, s)
          else
            let (pathstr, m) = vfs_path_acquire (os_path_max os) p (allocs s);
                s = s\<lparr>allocs := m\<rparr> in
            case pathstr of
              None \<Rightarrow> Inr (False, s)
            | Some str \<Rightarrow>
                let (ret, s) = sysc (os_stat os str) s in
                (case ret of None \<Rightarrow> Inr (False, s) | Some st \<Rightarrow> Inr (S_ISDIR (st_mode st), s)))"

section \<open>Normalisation is walking\<close>

text \<open>
  The meaning of a path: starting in a directory (the list of names from the root), each segment
  goes up, stays, or goes down into a name; going up from the root stays there.
\<close>

definition walk_step :: "string list \<Rightarrow> string \<Rightarrow> string list" where
  "walk_step cur x = (if x = ''..'' then butlast cur else if x = ''.'' then cur else cur @ [x])"

definition walk :: "string list \<Rightarrow> string list \<Rightarrow> string list" where
  "walk cur xs = foldl walk_step cur xs"

definition normal :: "string list \<Rightarrow> bool" where
  "normal xs \<longleftrightarrow> ''..'' \<notin> set xs \<and> ''.'' \<notin> set xs"

lemma walk_simps [simp]:
  "walk cur [] = cur" "walk cur (x # xs) = walk (walk_step cur x) xs"
  "walk cur (xs @ ys) = walk (walk cur xs) ys"
  by (simp_all add: walk_def)

lemma normal_walk_step: "normal cur \<Longrightarrow> normal (walk_step cur x)"
  by (auto simp: normal_def walk_step_def dest: in_set_butlastD)

lemma normal_walk: "normal cur \<Longrightarrow> normal (walk cur xs)"
  by (induction xs arbitrary: cur) (auto simp: normal_walk_step)

lemma walk_normal: "normal xs \<Longrightarrow> walk cur xs = cur @ xs"
  by (induction xs arbitrary: cur) (auto simp: normal_def walk_step_def)

lemma resolve_pop_rev: "resolve_pop acc st = rev st @ acc"
  by (induction st arbitrary: acc) auto

lemma butlast_rev: "butlast (rev xs) = rev (tl xs)"
  by (cases xs) auto

lemma resolve_push_walk: "resolve_push st xs = rev (walk (rev st) xs)"
proof (induction xs arbitrary: st)
  case (Cons x xs)
  have "(case st of [] \<Rightarrow> [] | _ # t \<Rightarrow> t) = tl st" by (cases st) auto
  then show ?case by (simp add: Cons.IH walk_step_def butlast_rev)
qed simp

lemma entities_resolve: "entities (vfs_path_resolve p) = walk [] (entities p)"
  by (simp add: vfs_path_resolve_def resolve_push_walk resolve_pop_rev)

lemma absolute_resolve [simp]: "absolute (vfs_path_resolve p) = absolute p"
  by (simp add: vfs_path_resolve_def)

lemma normal_Nil [simp]: "normal []"
  by (simp add: normal_def)

lemma resolve_normal: "normal (entities (vfs_path_resolve p))"
  by (simp add: entities_resolve normal_walk)

lemma resolve_idem: "normal (entities p) \<Longrightarrow> vfs_path_resolve p = p"
  by (cases p) (simp add: vfs_path_resolve_def resolve_push_walk resolve_pop_rev walk_normal)

section \<open>Copying and merging when memory suffices\<close>

lemma never_failsE:
  assumes "never_fails m"
  obtains p m' where "malloc m = (p, m')" "p \<noteq> 0" "never_fails m'"
  using malloc_never_fails [OF assms] by (cases "malloc m") auto

lemma new_vfs_pathent_ok:
  assumes "never_fails m" and "NUL \<notin> set x"
  shows "\<exists>m'. new_vfs_pathent (Some (x @ NUL # rest)) m = Inr (Some x, m') \<and> never_fails m'"
proof -
  obtain p m1 where 1: "malloc m = (p, m1)" "p \<noteq> 0" "never_fails m1"
    using assms(1) by (rule never_failsE)
  obtain q m2 where 2: "malloc m1 = (q, m2)" "q \<noteq> 0" "never_fails m2"
    using 1(3) by (rule never_failsE)
  show ?thesis using 1 2 assms(2) by (simp add: new_vfs_pathent_def)
qed

text \<open>Names as a parsed path has them: no terminator inside.\<close>

definition c_names :: "string list \<Rightarrow> bool" where
  "c_names xs \<longleftrightarrow> (\<forall>x \<in> set xs. NUL \<notin> set x)"

lemma clone_entities_ok:
  assumes "never_fails m" and "c_names xs"
  shows "\<exists>m'. clone_entities acc xs m = Inr (Some (acc @ xs), m') \<and> never_fails m'"
  using assms
proof (induction xs arbitrary: acc m)
  case Nil
  then show ?case by simp
next
  case (Cons x xs)
  then obtain m1 where "new_vfs_pathent (Some (x @ [NUL])) m = Inr (Some x, m1)" "never_fails m1"
    using new_vfs_pathent_ok [of m x "[]"] by (auto simp: c_names_def)
  moreover have "c_names xs" using Cons.prems(2) by (simp add: c_names_def)
  ultimately show ?case using Cons.IH [of m1 "acc @ [x]"] by simp
qed

lemma vfs_path_clone_ok:
  assumes "never_fails m" and "c_names (entities p)"
  shows "\<exists>m'. vfs_path_clone (Some p) m = Inr (Some p, m') \<and> never_fails m'"
proof -
  obtain q m1 where m1: "malloc m = (q, m1)" "q \<noteq> 0" "never_fails m1"
    using assms(1) by (rule never_failsE)
  then obtain m2 where "clone_entities [] (entities p) m1 = Inr (Some (entities p), m2)"
      "never_fails m2"
    using clone_entities_ok [of m1 "entities p" "[]"] assms(2) by auto
  with m1 show ?thesis by (simp add: vfs_path_clone_def new_vfs_path_internal_def)
qed

lemma vfs_path_merge_ok:
  assumes "never_fails m" and "c_names (entities d)" and "c_names (entities s)"
    and "absolute d" and "normal (entities d)"
  shows "\<exists>m'. vfs_path_merge (Some d) (Some s) m =
      Inr (Some (if absolute s then s else d\<lparr>entities := walk (entities d) (entities s)\<rparr>), m') \<and>
    never_fails m'"
proof -
  obtain m1 where d: "vfs_path_clone (Some d) m = Inr (Some d, m1)" "never_fails m1"
    using vfs_path_clone_ok [OF assms(1,2)] by auto
  obtain m2 where s: "vfs_path_clone (Some s) m1 = Inr (Some s, m2)" "never_fails m2"
    using vfs_path_clone_ok [OF d(2) assms(3)] by auto
  obtain m3 where s': "vfs_path_clone (Some s) m = Inr (Some s, m3)" "never_fails m3"
    using vfs_path_clone_ok [OF assms(1,3)] by auto
  have r: "vfs_path_resolve (d\<lparr>entities := entities d @ entities s\<rparr>) =
      d\<lparr>entities := walk (entities d) (entities s)\<rparr>"
    using walk_normal [OF assms(5), of "[]"]
    by (simp add: vfs_path_resolve_def resolve_push_walk resolve_pop_rev)
  show ?thesis
    using d s s' r assms(4) by (auto simp: vfs_path_merge_def)
qed

text \<open>Whatever the allocator answers, a path that comes out is the right one.\<close>

lemma new_vfs_pathent_Some:
  "new_vfs_pathent (Some (x @ NUL # rest)) m = Inr (Some y, m') \<Longrightarrow> NUL \<notin> set x \<Longrightarrow> y = x"
  by (auto simp: new_vfs_pathent_def split: prod.splits if_splits)

lemma clone_entities_Some:
  assumes "clone_entities acc xs m = Inr (Some ys, m')" and "c_names xs"
  shows "ys = acc @ xs"
  using assms
proof (induction xs arbitrary: acc m)
  case (Cons x xs)
  from Cons.prems obtain name m1 where
    "new_vfs_pathent (Some (x @ [NUL])) m = Inr (Some name, m1)"
    and rec: "clone_entities (acc @ [name]) xs m1 = Inr (Some ys, m')"
    by (auto simp: fault_simps split: option.splits)
  then have "name = x"
    using new_vfs_pathent_Some [of x "[]"] Cons.prems(2) by (auto simp: c_names_def)
  then show ?case using Cons.IH [OF rec] Cons.prems(2) by (simp add: c_names_def)
qed simp

lemma vfs_path_clone_Some:
  assumes "vfs_path_clone (Some p) m = Inr (Some q, m')" and "c_names (entities p)"
  shows "q = p"
proof -
  from assms(1) obtain es m1 where "clone_entities [] (entities p) m1 = Inr (Some es, m')"
    and q: "q = \<lparr>entities = es, absolute = absolute p\<rparr>"
    by (auto simp: vfs_path_clone_def new_vfs_path_internal_def fault_simps
        split: prod.splits option.splits if_splits)
  then have "es = entities p" using clone_entities_Some assms(2) by fastforce
  with q show ?thesis by (cases p) simp
qed

lemma vfs_path_merge_Some:
  assumes m: "vfs_path_merge (Some d) (Some s) m = Inr (Some r, m')"
    and c: "c_names (entities d)" "c_names (entities s)" and n: "normal (entities d)"
  shows "r = (if absolute s then s else d\<lparr>entities := walk (entities d) (entities s)\<rparr>)"
proof -
  consider "absolute s" "vfs_path_clone (Some s) m = Inr (Some r, m')"
    | "\<not> absolute s" "entities s = []" "vfs_path_clone (Some d) m = Inr (Some r, m')"
    | d' s' m1 where "\<not> absolute s" "vfs_path_clone (Some d) m = Inr (Some d', m1)"
        "vfs_path_clone (Some s) m1 = Inr (Some s', m')"
        "r = vfs_path_resolve (d'\<lparr>entities := entities d' @ entities s'\<rparr>)"
    using m
    by (auto simp: vfs_path_merge_def fault_simps split: if_splits option.splits prod.splits)
  then show ?thesis
  proof cases
    case 1
    then show ?thesis using vfs_path_clone_Some c by simp
  next
    case 2
    then have "r = d" using vfs_path_clone_Some c by blast
    with 2 show ?thesis by simp
  next
    case 3
    then have "d' = d" "s' = s" using vfs_path_clone_Some c by blast+
    with 3 show ?thesis
      using walk_normal [OF n, of "[]"]
      by (simp add: vfs_path_resolve_def resolve_push_walk resolve_pop_rev)
  qed
qed

lemma vfs_path_merge_NULL [simp]: "vfs_path_merge d None m = Inr (None, m)"
  by (simp add: vfs_path_merge_def split: option.splits)

section \<open>Parsing\<close>

text \<open>The segments of a text: the non-empty pieces between separators.\<close>

fun comps :: "string \<Rightarrow> string \<Rightarrow> string list" where
  "comps cur [] = (if cur = [] then [] else [cur])"
| "comps cur (c # cs) =
     (if c = CHR ''/'' then (if cur = [] then [] else [cur]) @ comps [] cs
      else comps (cur @ [c]) cs)"

definition components :: "string \<Rightarrow> string list" where
  "components t = comps [] t"

definition printable :: "string \<Rightarrow> bool" where
  "printable t \<longleftrightarrow> (\<forall>c \<in> set t. isgraph c \<or> c = CHR '' '')"

lemma printable_simps [simp]:
  "printable []" "printable (c # cs) \<longleftrightarrow> (isgraph c \<or> c = CHR '' '') \<and> printable cs"
  "printable (xs @ ys) \<longleftrightarrow> printable xs \<and> printable ys"
  by (auto simp: printable_def)

lemma printable_no_NUL: "printable t \<Longrightarrow> NUL \<notin> set t"
  by (auto simp: printable_def isgraph_def)

lemma isgraph_slash [simp]: "isgraph (CHR ''/'')"
  by (simp add: isgraph_def)

lemma comps_slashes: "comps [] (replicate n (CHR ''/'') @ t) = comps [] t"
  by (induction n) auto

lemma skip_slashes_run:
  "d \<noteq> CHR ''/'' \<Longrightarrow>
   skip_slashes (xs @ replicate n (CHR ''/'') @ d # ys) (length xs) = Inr (length xs + n)"
proof (induction n arbitrary: xs)
  case 0
  then show ?case by (subst skip_slashes.simps) simp
next
  case (Suc n)
  have "skip_slashes (xs @ replicate (Suc n) (CHR ''/'') @ d # ys) (length xs) =
      skip_slashes ((xs @ [CHR ''/'']) @ replicate n (CHR ''/'') @ d # ys) (length (xs @ [CHR ''/'']))"
    by (subst skip_slashes.simps) (simp add: replicate_app_Cons_same)
  then show ?case using Suc.IH [OF Suc.prems, of "xs @ [CHR ''/'']"] by simp
qed

lemma skip_separator_run:
  "d \<noteq> CHR ''/'' \<Longrightarrow> skip_separator (replicate n (CHR ''/'') @ d # ys) = Inr (d # ys)"
  by (induction n) auto

text \<open>A text that does not end in a separator splits behind its leading separators.\<close>

lemma slash_prefix: "\<exists>n u. t = replicate n (CHR ''/'') @ u \<and> (u = [] \<or> hd u \<noteq> CHR ''/'')"
proof (induction t)
  case (Cons c t)
  then obtain n u where u: "t = replicate n (CHR ''/'') @ u" "u = [] \<or> hd u \<noteq> CHR ''/''" by blast
  show ?case
  proof (cases "c = CHR ''/''")
    case True
    with u have "c # t = replicate (Suc n) (CHR ''/'') @ u" by simp
    with u(2) show ?thesis by blast
  next
    case False
    then show ?thesis by (intro exI [of _ 0] exI [of _ "c # t"]) simp
  qed
qed simp

lemma leading_slashes:
  assumes "t \<noteq> []" and "last t \<noteq> CHR ''/''"
  obtains n d ds where "t = replicate n (CHR ''/'') @ d # ds" and "d \<noteq> CHR ''/''"
proof -
  obtain n u where u: "t = replicate n (CHR ''/'') @ u" "u = [] \<or> hd u \<noteq> CHR ''/''"
    using slash_prefix by blast
  then have "u \<noteq> []" using assms by auto
  with u that show thesis by (cases u) auto
qed

lemma parse_loop_ok:
  assumes "path = pre @ cur @ suf @ NUL # rest" and "printable suf" and "NUL \<notin> set cur"
    and "suf \<noteq> [] \<Longrightarrow> last suf \<noteq> CHR ''/''" and "cur = [] \<Longrightarrow> suf = [] \<or> hd suf \<noteq> CHR ''/''"
    and "never_fails m"
  shows "\<exists>acc' lst m' e'. parse_loop path (length pre + length cur) (length pre) acc m =
      Inr ((Some acc', e'), m') \<and> never_fails m' \<and> drop e' path = lst @ NUL # rest \<and>
      NUL \<notin> set lst \<and> acc' @ comps lst [] = acc @ comps cur suf"
  using assms
proof (induction "length suf" arbitrary: pre cur suf acc m rule: less_induct)
  case less
  let ?i = "length pre + length cur"
  show ?case
  proof (cases suf)
    case Nil
    with less.prems(1) have "?i < length path" "path ! ?i = NUL"
      by (simp_all add: nth_append)
    with Nil less.prems show ?thesis by (subst parse_loop.simps) auto
  next
    case (Cons c cs)
    have at: "?i < length path" "path ! ?i = c"
      using less.prems(1) Cons by (simp_all add: nth_append)
    have c: "c \<noteq> NUL" "isgraph c \<or> c = CHR '' ''"
      using less.prems(2) Cons by (auto simp: isgraph_def)
    show ?thesis
    proof (cases "c = CHR ''/''")
      case False
      have "length cs < length suf" using Cons by simp
      moreover have "path = pre @ (cur @ [c]) @ cs @ NUL # rest" using less.prems(1) Cons by simp
      moreover have "cs \<noteq> [] \<Longrightarrow> last cs \<noteq> CHR ''/''" using less.prems(4) Cons by auto
      moreover have "printable cs" "NUL \<notin> set (cur @ [c])" using less.prems(2,3) Cons c by auto
      ultimately obtain acc' lst m' e' where
        "parse_loop path (Suc ?i) (length pre) acc m = Inr ((Some acc', e'), m')" "never_fails m'"
        "drop e' path = lst @ NUL # rest" "NUL \<notin> set lst"
        "acc' @ comps lst [] = acc @ comps (cur @ [c]) cs"
        using less.hyps [of cs pre "cur @ [c]" m acc] less.prems(6) by auto
      then show ?thesis using at c False Cons by (subst parse_loop.simps) auto
    next
      case True
      have ne: "cs \<noteq> []" "last cs \<noteq> CHR ''/''" "cur \<noteq> []"
        using less.prems(4,5) Cons True by (auto split: if_splits)
      then obtain n d ds where cs: "cs = replicate n (CHR ''/'') @ d # ds" "d \<noteq> CHR ''/''"
        using leading_slashes by metis
      have ent: "drop (length pre) (path[?i := NUL]) = cur @ NUL # cs @ NUL # rest"
        using less.prems(1) Cons by (simp add: list_update_append)
      obtain m1 where m1: "new_vfs_pathent (Some (cur @ NUL # cs @ NUL # rest)) m = Inr (Some cur, m1)"
          "never_fails m1"
        using new_vfs_pathent_ok [OF less.prems(6,3)] by blast
      let ?pre = "pre @ cur @ replicate (Suc n) (CHR ''/'')"
      have path: "path = ?pre @ [d] @ ds @ NUL # rest"
        using less.prems(1) Cons True cs by simp
      have skip: "skip_slashes path ?i = Inr (length ?pre)"
        using skip_slashes_run [OF cs(2), of "pre @ cur" "Suc n" "ds @ NUL # rest"] path by simp
      have "length ds < length suf" "printable ds" "NUL \<notin> set [d]"
        "ds \<noteq> [] \<Longrightarrow> last ds \<noteq> CHR ''/''"
        using less.prems(2) Cons cs ne printable_no_NUL [of suf] by auto
      then obtain acc' lst m' e' where
        "parse_loop path (Suc (length ?pre)) (length ?pre) (acc @ [cur]) m1 = Inr ((Some acc', e'), m')"
        "never_fails m'" "drop e' path = lst @ NUL # rest" "NUL \<notin> set lst"
        "acc' @ comps lst [] = (acc @ [cur]) @ comps [d] ds"
        using less.hyps [of ds ?pre "[d]" m1 "acc @ [cur]"] path m1(2) by auto
      moreover have "comps cur suf = cur # comps [d] ds"
        using Cons True cs ne comps_slashes [of n "d # ds"] by simp
      ultimately show ?thesis
        using at c True Cons ent m1 skip
        by (subst parse_loop.simps) (auto simp: pathent_list_append_def)
    qed
  qed
qed

lemma vfs_pathent_parse_ok:
  assumes "t \<noteq> []" and "printable t" and "last t \<noteq> CHR ''/'' \<or> set t \<subseteq> {CHR ''/''}"
    and "never_fails m"
  shows "\<exists>m'. vfs_pathent_parse (Some (t @ NUL # rest)) m = Inr (components t, m') \<and> never_fails m'"
proof -
  obtain n u where t: "t = replicate n (CHR ''/'') @ u" and "u = [] \<or> hd u \<noteq> CHR ''/''"
    using slash_prefix by blast
  with assms(3) have u: "u = [] \<or> hd u \<noteq> CHR ''/'' \<and> last u \<noteq> CHR ''/''"
    by (cases u) auto
  have r: "read_at (t @ NUL # rest) 0 = Inr (hd t)" "hd t \<noteq> NUL"
    using assms(1) printable_no_NUL [OF assms(2)] by (cases t; auto simp: read_at_def)+
  have sk: "skip_separator (t @ NUL # rest) = Inr (u @ NUL # rest)"
    using u skip_separator_run [of "hd (u @ NUL # rest)" n "tl (u @ NUL # rest)"] t
    by (cases u) auto
  have "printable u" using assms(2) t by simp
  then obtain acc lst m1 e where p: "parse_loop (u @ NUL # rest) 0 0 [] m = Inr ((Some acc, e), m1)"
      "never_fails m1" "drop e (u @ NUL # rest) = lst @ NUL # rest" "NUL \<notin> set lst"
      "acc @ comps lst [] = comps [] u"
    using parse_loop_ok [of "u @ NUL # rest" "[]" "[]" u rest m "[]"] u assms(4) by auto
  have e: "read_at (u @ NUL # rest) (int e) = Inr (hd (lst @ NUL # rest))"
    using p(3) by (metis append_is_Nil_conv drop_eq_Nil2 hd_drop_conv_nth leI list.distinct(1) read_at_nth)
  have comps: "components t = comps [] u"
    by (simp add: components_def t comps_slashes)
  obtain m2 where "new_vfs_pathent (Some (lst @ NUL # rest)) m1 = Inr (Some lst, m2)" "never_fails m2"
    using new_vfs_pathent_ok [OF p(2,4)] by blast
  then show ?thesis
    using r sk p e comps
    by (cases lst) (auto simp: vfs_pathent_parse_def pathent_list_append_def)
qed

lemma new_vfs_path_ok:
  assumes "t \<noteq> []" and "printable t" and "last t \<noteq> CHR ''/'' \<or> set t \<subseteq> {CHR ''/''}"
    and "never_fails m"
  shows "\<exists>m'. new_vfs_path (Some (t @ NUL # rest)) m =
      Inr (Some \<lparr>entities = walk [] (components t), absolute = (hd t = CHR ''/'')\<rparr>, m') \<and>
    never_fails m'"
proof -
  obtain p m1 where m1: "malloc m = (p, m1)" "p \<noteq> 0" "never_fails m1"
    using assms(4) by (rule never_failsE)
  obtain m2 where "vfs_pathent_parse (Some (t @ NUL # rest)) m1 = Inr (components t, m2)"
      "never_fails m2"
    using vfs_pathent_parse_ok [OF assms(1-3) m1(3)] by blast
  moreover have "read_at (t @ NUL # rest) 0 = Inr (hd t)" "hd t \<noteq> NUL"
    using assms(1) printable_no_NUL [OF assms(2)] by (cases t; auto simp: read_at_def)+
  moreover have "vfs_path_resolve \<lparr>entities = es, absolute = a\<rparr> =
      \<lparr>entities = walk [] es, absolute = a\<rparr>" for es a
    by (simp add: vfs_path_resolve_def resolve_push_walk resolve_pop_rev)
  ultimately show ?thesis
    using m1 by (auto simp: new_vfs_path_def new_vfs_path_internal_def)
qed

text \<open>Whatever bytes are parsed, the names hold no terminator and the path is normalised.\<close>

lemma new_vfs_pathent_c_name: "new_vfs_pathent e m = Inr (Some x, m') \<Longrightarrow> NUL \<notin> set x"
  by (auto simp: new_vfs_pathent_def fault_simps c_str_Inr_iff case_prod_beta Let_def
      split: option.splits if_splits)

lemma c_names_simps [simp]:
  "c_names []" "c_names (x # xs) \<longleftrightarrow> NUL \<notin> set x \<and> c_names xs"
  "c_names (xs @ ys) \<longleftrightarrow> c_names xs \<and> c_names ys"
  by (auto simp: c_names_def)

lemma parse_loop_c_names:
  "parse_loop path i e acc m = Inr ((Some acc', e'), m') \<Longrightarrow> c_names acc \<Longrightarrow> c_names acc'"
proof (induction path i e acc m rule: parse_loop.induct)
  case (1 path i e acc m)
  let ?ok = "i < length path \<and> path ! i \<noteq> NUL \<and> (isgraph (path ! i) \<or> path ! i = CHR '' '')"
  consider "acc' = acc"
    | name m1 j where ?ok "path ! i = CHR ''/''"
        "new_vfs_pathent (Some (drop e (path[i := NUL]))) m = Inr (Some name, m1)"
        "skip_slashes path i = Inr j"
        "parse_loop path (Suc j) j (pathent_list_append acc name) m1 = Inr ((Some acc', e'), m')"
    | ?ok "path ! i \<noteq> CHR ''/''" "parse_loop path (Suc i) e acc m = Inr ((Some acc', e'), m')"
    using "1.prems"(1)
    by (subst (asm) parse_loop.simps) (auto simp: fault_simps split: if_splits option.splits)
  then show ?case
  proof cases
    case 1
    then show ?thesis using "1.prems"(2) by simp
  next
    case 2
    moreover have "c_names (pathent_list_append acc name)"
      using "1.prems"(2) new_vfs_pathent_c_name [OF 2(3)] by (simp add: pathent_list_append_def)
    ultimately show ?thesis using "1.IH"(1) by auto
  next
    case 3
    then show ?thesis using "1.IH"(2) "1.prems"(2) by auto
  qed
qed

lemma c_names_subset: "c_names xs \<Longrightarrow> set ys \<subseteq> set xs \<Longrightarrow> c_names ys"
  by (auto simp: c_names_def)

lemma walk_subset: "set (walk cur xs) \<subseteq> set cur \<union> set xs"
proof (induction xs arbitrary: cur)
  case (Cons x xs)
  have "set (walk_step cur x) \<subseteq> set cur \<union> {x}"
    by (auto simp: walk_step_def dest: in_set_butlastD)
  with Cons [of "walk_step cur x"] show ?case by auto
qed simp

lemma vfs_pathent_parse_c_names:
  assumes "vfs_pathent_parse p m = Inr (xs, m')"
  shows "c_names xs"
  using assms new_vfs_pathent_c_name parse_loop_c_names
  by (fastforce simp: vfs_pathent_parse_def fault_simps pathent_list_append_def
      split: option.splits if_splits)

lemma new_vfs_path_inv:
  assumes "new_vfs_path p m = Inr (Some q, m')"
  shows "c_names (entities q)" and "normal (entities q)"
proof -
  from assms obtain r es m1 m2 where "vfs_pathent_parse p m1 = Inr (es, m2)"
    and q: "q = vfs_path_resolve (r\<lparr>entities := es\<rparr>)"
    by (auto simp: new_vfs_path_def fault_simps split: option.splits if_splits prod.splits)
  then have "c_names es" by (simp add: vfs_pathent_parse_c_names)
  then show "c_names (entities q)"
    using c_names_subset walk_subset [of "[]" es] by (auto simp: q entities_resolve)
  show "normal (entities q)" by (simp add: q resolve_normal)
qed

section \<open>Printing\<close>

fun join :: "string list \<Rightarrow> string" where
  "join [] = []"
| "join [x] = x"
| "join (x # y # ys) = x @ ''/'' @ join (y # ys)"

definition path_text :: "vfs_path \<Rightarrow> string" where
  "path_text p = (if absolute p then ''/'' else []) @ join (entities p)"

lemma acquire_loop_text:
  "acquire_loop pmax buf xs =
    (if xs = [] \<or> int (length buf + length (join xs)) + 1 < pmax then Some (buf @ join xs) else None)"
proof (induction xs arbitrary: buf)
  case (Cons x xs)
  have "join (x # xs) = (if xs = [] then x else x @ ''/'' @ join xs)" by (cases xs) auto
  then show ?case by (auto simp: Let_def Cons.IH)
qed simp

lemma vfs_path_acquire_text:
  "vfs_path_acquire pmax p m =
    (if fst (malloc m) \<noteq> 0 \<and> (entities p = [] \<or> int (length (path_text p)) + 1 < pmax)
     then Some (path_text p) else None, snd (malloc m))"
  by (simp add: vfs_path_acquire_def acquire_loop_text path_text_def split: prod.splits)

definition valid_name :: "string \<Rightarrow> bool" where
  "valid_name x \<longleftrightarrow> x \<noteq> [] \<and> printable x \<and> CHR ''/'' \<notin> set x"

definition valid_path :: "vfs_path \<Rightarrow> bool" where
  "valid_path p \<longleftrightarrow> (\<forall>x \<in> set (entities p). valid_name x) \<and> normal (entities p)"

lemma comps_name: "CHR ''/'' \<notin> set x \<Longrightarrow> comps cur (x @ t) = comps (cur @ x) t"
  by (induction x arbitrary: cur) auto

lemma comps_join:
  assumes "\<forall>x \<in> set xs. valid_name x"
  shows "comps [] (join xs) = xs"
  using assms
proof (induction xs rule: join.induct)
  case 1
  then show ?case by simp
next
  case (2 x)
  then show ?case using comps_name [of x "[]" "[]"] by (simp add: valid_name_def)
next
  case (3 x y ys)
  then show ?case using comps_name [of x "[]" "''/'' @ join (y # ys)"] by (simp add: valid_name_def)
qed

lemma components_path_text:
  "\<forall>x \<in> set (entities p). valid_name x \<Longrightarrow> components (path_text p) = entities p"
  by (simp add: components_def path_text_def comps_join)

lemma valid_name_ends: "valid_name x \<Longrightarrow> hd x \<noteq> CHR ''/'' \<and> last x \<noteq> CHR ''/''"
  by (metis hd_in_set last_in_set valid_name_def)

lemma join_valid:
  assumes "\<forall>x \<in> set xs. valid_name x" and "xs \<noteq> []"
  shows "join xs \<noteq> []" and "printable (join xs)" and "last (join xs) \<noteq> CHR ''/''"
    and "hd (join xs) \<noteq> CHR ''/''"
proof -
  have "join xs \<noteq> [] \<and> printable (join xs) \<and> last (join xs) \<noteq> CHR ''/'' \<and> hd (join xs) \<noteq> CHR ''/''"
    using assms
  proof (induction xs rule: join.induct)
    case (2 x)
    then show ?case using valid_name_ends [of x] by (auto simp: valid_name_def)
  next
    case (3 x y ys)
    then show ?case using valid_name_ends [of x] by (auto simp: valid_name_def)
  qed simp
  then show "join xs \<noteq> []" "printable (join xs)" "last (join xs) \<noteq> CHR ''/''"
    "hd (join xs) \<noteq> CHR ''/''" by auto
qed

lemma path_text_parse:
  assumes "valid_path p" and "absolute p \<or> entities p \<noteq> []" and "never_fails m"
  shows "\<exists>m'. new_vfs_path (Some (path_text p @ NUL # rest)) m = Inr (Some p, m') \<and> never_fails m'"
proof -
  have v: "\<forall>x \<in> set (entities p). valid_name x" "normal (entities p)"
    using assms(1) by (auto simp: valid_path_def)
  have "path_text p \<noteq> []" "printable (path_text p)"
    "last (path_text p) \<noteq> CHR ''/'' \<or> set (path_text p) \<subseteq> {CHR ''/''}"
    "(hd (path_text p) = CHR ''/'') = absolute p"
    using assms(2) join_valid [OF v(1)] by (cases "entities p = []"; auto simp: path_text_def)+
  with new_vfs_path_ok [of "path_text p" m rest] assms(3)
    components_path_text [OF v(1)] walk_normal [OF v(2), of "[]"]
  show ?thesis by (cases p) auto
qed

lemma comps_valid:
  "printable cur \<Longrightarrow> CHR ''/'' \<notin> set cur \<Longrightarrow> printable t \<Longrightarrow> \<forall>x \<in> set (comps cur t). valid_name x"
  by (induction cur t rule: comps.induct) (auto simp: valid_name_def)

lemma components_valid: "printable t \<Longrightarrow> \<forall>x \<in> set (components t). valid_name x"
  using comps_valid [of "[]" t] by (simp add: components_def)

section \<open>A separator at the end\<close>

lemma parse_loop_advance:
  assumes "path = pre @ x @ post" and "printable x" and "CHR ''/'' \<notin> set x"
  shows "parse_loop path (length pre) e acc m = parse_loop path (length pre + length x) e acc m"
  using assms
proof (induction x arbitrary: pre)
  case Nil
  then show ?case by simp
next
  case (Cons c x)
  from Cons.prems have "length pre < length path" "path ! length pre = c" "c \<noteq> NUL"
    "isgraph c \<or> c = CHR '' ''" "c \<noteq> CHR ''/''"
    using printable_no_NUL [of "c # x"] by (auto simp: nth_append)
  then have "parse_loop path (length pre) e acc m = parse_loop path (length (pre @ [c])) e acc m"
    by (subst parse_loop.simps) auto
  also have "\<dots> = parse_loop path (length (pre @ [c]) + length x) e acc m"
    using Cons.prems by (intro Cons.IH) auto
  finally show ?case by simp
qed

lemma parse_trailing_separator:
  assumes "valid_name x" and "never_fails m"
  shows "vfs_pathent_parse (Some (x @ ''/'' @ [NUL])) m = Inl Out_of_bounds"
proof -
  let ?p = "x @ CHR ''/'' # [NUL]"
  have x: "printable x" "CHR ''/'' \<notin> set x" "NUL \<notin> set x" "x \<noteq> []" "hd x \<noteq> CHR ''/''"
    using assms(1) printable_no_NUL valid_name_ends by (auto simp: valid_name_def)
  have start: "read_at ?p 0 = Inr (hd x)" "hd x \<noteq> NUL" "skip_separator ?p = Inr ?p"
    using x by (cases x; auto simp: read_at_def)+
  obtain m1 where ent: "new_vfs_pathent (Some (drop 0 (?p[length x := NUL]))) m = Inr (Some x, m1)"
    using new_vfs_pathent_ok [OF assms(2) x(3), of "[NUL]"] by (auto simp: list_update_append)
  have skip: "skip_slashes ?p (length x) = Inr (Suc (length x))"
    using skip_slashes_run [of NUL x 1 "[]"] by simp
  have at: "?p ! length x = CHR ''/''" "length x < length ?p" "isgraph (?p ! length x)"
    "?p ! length x \<noteq> NUL"
    by (simp_all add: nth_append)
  have "parse_loop ?p 0 0 [] m = parse_loop ?p (length x) 0 [] m"
    using parse_loop_advance [of ?p "[]" x "CHR ''/'' # [NUL]" 0 "[]" m] x by simp
  also have "\<dots> = parse_loop ?p (Suc (Suc (length x))) (Suc (length x)) [x] m1"
    using at ent skip by (subst parse_loop.simps) (simp add: pathent_list_append_def)
  also have "\<dots> = Inl Out_of_bounds"
    by (subst parse_loop.simps) simp
  finally show ?thesis
    using start by (simp add: vfs_pathent_parse_def)
qed

section \<open>Properties\<close>

text \<open>A printable path that does not end in a separator parses into exactly the non-empty pieces
  between its separators, whatever follows its terminator in memory, and every piece is a proper
  name.\<close>

theorem parse_splits:
  assumes "t \<noteq> []" and "printable t" and "last t \<noteq> CHR ''/'' \<or> set t \<subseteq> {CHR ''/''}"
    and "never_fails m"
  shows "\<exists>xs m'. vfs_pathent_parse (Some (t @ NUL # rest)) m = Inr (xs, m') \<and>
    xs = components t \<and> (\<forall>x \<in> set xs. valid_name x)"
  using vfs_pathent_parse_ok [OF assms] components_valid [OF assms(2)] by blast

theorem parse_splits_witness:
  "\<exists>xs m'. vfs_pathent_parse (Some (''/usr//local/bin'' @ NUL # ''stale'')) (\<lambda>_. 64) = Inr (xs, m') \<and>
    xs = [''usr'', ''local'', ''bin'']"
proof -
  have "components ''/usr//local/bin'' = [''usr'', ''local'', ''bin'']"
    by (simp add: components_def)
  then show ?thesis
    using parse_splits [of "''/usr//local/bin''" "\<lambda>_. 64" "''stale''"]
    by (simp add: isgraph_def never_fails_def)
qed

text \<open>A path with a separator behind its last name makes the parser step over the terminator:
  with nothing behind it in the block, the next read is out of bounds.\<close>

theorem parse_reads_past_trailing_separator:
  assumes "valid_name x" and "never_fails m"
  shows "vfs_pathent_parse (Some (x @ ''/'' @ [NUL])) m = Inl Out_of_bounds \<and>
    new_vfs_path (Some (x @ ''/'' @ [NUL])) m = Inl Out_of_bounds"
proof -
  obtain p m1 where m1: "malloc m = (p, m1)" "p \<noteq> 0" "never_fails m1"
    using assms(2) by (rule never_failsE)
  have "read_at (x @ ''/'' @ [NUL]) 0 = Inr (hd x)" "hd x \<noteq> NUL"
    using assms(1) printable_no_NUL [of x] by (cases x; auto simp: read_at_def valid_name_def)+
  then show ?thesis
    using parse_trailing_separator [OF assms] parse_trailing_separator [OF assms(1) m1(3)] m1
    by (simp add: new_vfs_path_def new_vfs_path_internal_def)
qed

theorem parse_reads_past_trailing_separator_witness:
  "new_vfs_path (Some (''pub'' @ ''/'' @ [NUL])) (\<lambda>_. 64) = Inl Out_of_bounds"
  using parse_reads_past_trailing_separator [of "''pub''" "\<lambda>_. 64"]
  by (simp add: valid_name_def isgraph_def never_fails_def)

text \<open>With older bytes behind the terminator, a trailing separator makes the parser read them
  as further segments: \<open>pub/\<close> over a leftover \<open>x/etc\<close> becomes three segments, one of them empty.\<close>

theorem parse_picks_up_stale_bytes:
  "\<exists>m'. vfs_pathent_parse (Some (''pub/'' @ NUL # ''x/etc'' @ [NUL])) (\<lambda>_. 64) =
    Inr ([''pub'', [], ''etc''], m')"
  by (simp add: vfs_pathent_parse_def read_at_def parse_loop.simps isgraph_def skip_slashes.simps
      new_vfs_pathent_def malloc_def pathent_list_append_def)

text \<open>C7: normalising a path is walking its segments from the root; the result holds no dot segments
  and normalising it again changes nothing.\<close>

theorem resolve_is_walk:
  "entities (vfs_path_resolve p) = walk [] (entities p) \<and>
   absolute (vfs_path_resolve p) = absolute p \<and>
   normal (entities (vfs_path_resolve p)) \<and>
   vfs_path_resolve (vfs_path_resolve p) = vfs_path_resolve p"
  by (simp add: entities_resolve normal_walk resolve_idem)

text \<open>C8: whatever the allocator answers, a merge into a normalised absolute directory that returns a
  path returns the source itself if that is absolute and the walk along the source otherwise.\<close>

theorem merge_is_walk:
  assumes "vfs_path_merge (Some d) (Some s) m = Inr (Some r, m')"
    and "c_names (entities d)" and "c_names (entities s)" and "normal (entities d)"
  shows "absolute r \<and> entities r = (if absolute s then entities s else walk (entities d) (entities s))"
proof -
  have "absolute d" using assms(1) by (auto simp: vfs_path_merge_def split: if_splits)
  with vfs_path_merge_Some [OF assms] show ?thesis by auto
qed

theorem merge_is_walk_witness:
  "\<exists>r m'. vfs_path_merge (Some \<lparr>entities = [''a'', ''b''], absolute = True\<rparr>)
      (Some \<lparr>entities = [''..'', ''c''], absolute = False\<rparr>) (\<lambda>_. 64) = Inr (Some r, m') \<and>
    absolute r \<and> entities r = [''a'', ''c'']"
proof -
  let ?d = "\<lparr>entities = [''a'', ''b''], absolute = True\<rparr>"
  let ?s = "\<lparr>entities = [''..'', ''c''], absolute = False\<rparr>"
  obtain r m' where "vfs_path_merge (Some ?d) (Some ?s) (\<lambda>_. 64) = Inr (Some r, m')"
    by (simp add: vfs_path_merge_def vfs_path_clone_def new_vfs_path_internal_def malloc_def
        new_vfs_pathent_def)
  with merge_is_walk [OF this] show ?thesis
    by (simp add: normal_def walk_def walk_step_def)
qed

text \<open>C9: printing a path and parsing the text gives the path back, for every absolute or non-empty
  path of proper names without dot segments whose text fits.\<close>

theorem acquire_parse_roundtrip:
  assumes "valid_path p" and "absolute p \<or> entities p \<noteq> []"
    and "int (length (path_text p)) + 1 < pmax" and "never_fails m"
  shows "\<exists>t m1 m2. vfs_path_acquire pmax p m = (Some t, m1) \<and>
    new_vfs_path (Some (t @ NUL # rest)) m1 = Inr (Some p, m2)"
proof -
  obtain q m1 where m1: "malloc m = (q, m1)" "q \<noteq> 0" "never_fails m1"
    using assms(4) by (rule never_failsE)
  with assms(3) have "vfs_path_acquire pmax p m = (Some (path_text p), m1)"
    by (simp add: vfs_path_acquire_text)
  with path_text_parse [OF assms(1,2) m1(3)] show ?thesis by blast
qed

theorem acquire_parse_roundtrip_witness:
  "\<exists>t m1 m2. vfs_path_acquire 1024 \<lparr>entities = [''usr'', ''my dir''], absolute = True\<rparr> (\<lambda>_. 64) =
      (Some t, m1) \<and>
    new_vfs_path (Some (t @ NUL # ''x'')) m1 =
      Inr (Some \<lparr>entities = [''usr'', ''my dir''], absolute = True\<rparr>, m2)"
  by (rule acquire_parse_roundtrip)
    (simp_all add: valid_path_def valid_name_def isgraph_def normal_def path_text_def never_fails_def)

text \<open>A printed path always fits its block of \<open>PATH_MAX\<close> bytes with its terminator, and a text
  is given up exactly when it does not fit or the block cannot be allocated.\<close>

theorem acquire_fits_block:
  assumes "2 \<le> pmax"
  shows "(\<forall>t m'. vfs_path_acquire pmax p m = (Some t, m') \<longrightarrow> t = path_text p \<and> int (length t) + 1 \<le> pmax) \<and>
    (fst (vfs_path_acquire pmax p m) = None \<longleftrightarrow>
      fst (malloc m) = 0 \<or> (entities p \<noteq> [] \<and> pmax \<le> int (length (path_text p)) + 1))"
  using assms by (auto simp: vfs_path_acquire_text path_text_def split: if_splits)

theorem acquire_fits_block_witness:
  "fst (vfs_path_acquire 8 \<lparr>entities = [''abc'', ''def''], absolute = True\<rparr> (\<lambda>_. 64)) = None"
  using acquire_fits_block [of 8 "\<lparr>entities = [''abc'', ''def''], absolute = True\<rparr>" "\<lambda>_. 64"]
  by (simp add: path_text_def malloc_def)

end
