(* ===== verification/VfsList.thy ===== *)
theory VfsList
  imports VfsPath
begin

text \<open>
  The directory listing of \<^verbatim>\<open>vfs/vfs.c\<close>: the size of the block, one line per entry with the size of
  the file in a field of fourteen characters, and the text that LIST sends. The block comes from
  \<open>malloc\<close>, so it starts with whatever the platform left there; the writes go into a list of bytes
  with checked bounds. The names are read before the first \<open>stat\<close>, where the code alternates.
\<close>

section \<open>The size of a file\<close>

text \<open>\<open>long\<close> has 32 bits on this platform.\<close>

function digit_count :: "int \<Rightarrow> int \<Rightarrow> int" where
  "digit_count len n = (if n > 10 then digit_count (len + 1) (n sdiv 10) else len)"
  by pat_completeness auto
termination
  by (relation "measure (\<lambda>(len, n). nat n)") (auto simp: sdiv_pos)

declare digit_count.simps [simp del]

definition strnumlen :: "int \<Rightarrow> fault + int" where
  "strnumlen number =
     bindF (if number > 0 then Inr number else c_int (- number)) (\<lambda>n.
     let len = digit_count 1 n;
         len = (if len > 3 then len + len sdiv 3 else len) in
     Inr (if number > 0 then len else len + 1))"

text \<open>The loop from position 13 down to the padding, as its remaining turns.\<close>

fun digits_loop :: "char list \<Rightarrow> int \<Rightarrow> int \<Rightarrow> nat \<Rightarrow> nat \<Rightarrow> int \<Rightarrow> fault + char list" where
  "digits_loop blk off padding 0 count filesize = Inr blk"
| "digits_loop blk off padding (Suc k) count filesize =
     (let i = padding + int k in
      if count = 3 then
        bindF (write_at blk (off + i) '','') (\<lambda>blk. digits_loop blk off padding k 0 filesize)
      else
        let digit = filesize smod 10 in
        bindF (write_at blk (off + i) [char_of (48 + digit)]) (\<lambda>blk.
        digits_loop blk off padding k (count + 1) ((filesize - digit) sdiv 10)))"

definition format_filesize :: "char list \<Rightarrow> int \<Rightarrow> fault + char list" where
  "format_filesize buf filesize =
     bindF (c_str buf) (\<lambda>before.
     let off = int (length before) in
     bindF (strnumlen filesize) (\<lambda>width.
     let padding = (if 14 - width < 0 then 0 else 14 - width) in
     bindF (fill_at buf off padding (CHR '' '')) (\<lambda>blk.
     bindF (digits_loop blk off padding (nat (14 - padding)) 0 filesize) (\<lambda>blk.
     write_at blk (off + 14) '' ''))))"

section \<open>Lines\<close>

text \<open>
  \<open>strftime\<close> puts at most 20 bytes, and what they are is indeterminate when the text is longer. Its
  result is never negative, so the branch that blanks the field is never taken.
\<close>

definition format_modifytime :: "'w os \<Rightarrow> char list \<Rightarrow> int \<Rightarrow> fault + char list" where
  "format_modifytime os buf modified =
     bindF (c_str buf) (\<lambda>before.
     let txt = os_strftime os modified in
     if length txt < 20 then write_at buf (int (length before)) (txt @ [NUL]) else Inl Uninitialised)"

definition strcat :: "char list \<Rightarrow> string \<Rightarrow> fault + char list" where
  "strcat buf s = bindF (c_str buf) (\<lambda>before. write_at buf (int (length before)) (s @ [NUL]))"

definition get_buffer_size :: "string list \<Rightarrow> int" where
  "get_buffer_size names =
     sint (foldl (\<lambda>sz name. sz + (of_nat (length name) + 42)) (0 :: u32) names)"

text \<open>\<open>st_mode & S_IFMT == S_IFDIR\<close>: the comparison binds tighter than the mask.\<close>

definition dir_marker :: "u32 \<Rightarrow> string" where
  "dir_marker mode =
     (if mode AND (if S_IFMT = S_IFDIR then 1 else 0) \<noteq> 0 then ''<DIR> '' else ''      '')"

definition list_entry ::
  "'w os \<Rightarrow> string \<Rightarrow> string \<Rightarrow> char list \<Rightarrow> ('w, 'z) sys_scheme \<Rightarrow>
   fault + char list \<times> ('w, 'z) sys_scheme" where
  "list_entry os parent name buf s =
     (let (abs_path, m) = malloc (allocs s); s = s\<lparr>allocs := m\<rparr> in
      if abs_path = 0 then Inr (buf, s)
      else
        let (st, s) = sysc (os_stat os (parent @ ''/'' @ name)) s in
        case st of
          None \<Rightarrow> Inr (buf, s)
        | Some st \<Rightarrow>
            bindF (strcat buf (dir_marker (st_mode st))) (\<lambda>buf.
            bindF (format_filesize buf (st_size st)) (\<lambda>buf.
            bindF (format_modifytime os buf (st_mtime st)) (\<lambda>buf.
            bindF (strcat buf name) (\<lambda>buf.
            bindF (strcat buf [CR, LF]) (\<lambda>buf. Inr (buf, s)))))))"

fun list_entries ::
  "'w os \<Rightarrow> string \<Rightarrow> string list \<Rightarrow> char list \<Rightarrow> ('w, 'z) sys_scheme \<Rightarrow>
   fault + char list \<times> ('w, 'z) sys_scheme" where
  "list_entries os parent [] buf s = Inr (buf, s)"
| "list_entries os parent (name # names) buf s =
     bindF (list_entry os parent name buf s) (\<lambda>(buf, s). list_entries os parent names buf s)"

section \<open>The listing\<close>

text \<open>The result is the block with its address, or none.\<close>

definition build_directory_list ::
  "'w os \<Rightarrow> int \<Rightarrow> string \<Rightarrow> int \<Rightarrow> ('w, 'z) sys_scheme \<Rightarrow>
   fault + (u32 \<times> char list) option \<times> ('w, 'z) sys_scheme" where
  "build_directory_list os dir parent sz s =
     (let (p, m) = malloc (allocs s); s = s\<lparr>allocs := m\<rparr> in
      if p = 0 then Inr (None, s)
      else
        let (junk, s) = sysc (os_fresh os sz) s;
            (names, s) = sysc (os_readdir os dir) s in
        bindF (list_entries os parent names junk s) (\<lambda>(buf, s). Inr (Some (p, buf), s)))"

definition vfs_list_directory ::
  "'w os \<Rightarrow> vfs_path \<Rightarrow> ('w, 'z) sys_scheme \<Rightarrow>
   fault + (u32 \<times> char list) option \<times> ('w, 'z) sys_scheme" where
  "vfs_list_directory os v_dir s =
     (let (parent, m) = vfs_path_acquire (os_path_max os) v_dir (allocs s); s = s\<lparr>allocs := m\<rparr> in
      case parent of
        None \<Rightarrow> Inl Null_pointer
      | Some parent \<Rightarrow>
          let (dir, s) = sysc (os_opendir os parent) s in
          case dir of
            None \<Rightarrow> Inr (None, s)
          | Some d \<Rightarrow>
              let (names, s) = sysc (os_readdir os d) s in
              bindF (build_directory_list os d parent (get_buffer_size names) s) (\<lambda>(r, s).
              Inr (r, sys_do (os_closedir os d) s)))"

section \<open>Nodes\<close>

text \<open>
  The nodes of \<open>vfs.h\<close>, which nothing in the program uses yet; pointers are numbers, 0 is null. Releasing
  one gives the result and the blocks freed; \<open>None\<close> is the result of running off the end of the function.
\<close>

record vfs_node =
  node_name :: u32
  node_next :: u32
  node_children :: u32
  node_size :: u32
  node_created :: u32
  node_modified :: u32
  node_attrib :: u8

definition new_vfs_node :: "mem \<Rightarrow> (u32 \<times> vfs_node) option \<times> mem" where
  "new_vfs_node m =
     (let (p, m) = malloc m in
      (if p \<noteq> 0 then
         Some (p, \<lparr>node_name = 0, node_next = 0, node_children = 0, node_size = 0, node_created = 0,
           node_modified = 0, node_attrib = 0\<rparr>)
       else None, m))"

definition free_vfs_node :: "(u32 \<times> vfs_node) option \<Rightarrow> int option \<times> u32 list" where
  "free_vfs_node node =
     (case node of
        None \<Rightarrow> (Some 0, [])
      | Some (p, n) \<Rightarrow>
          if node_next n \<noteq> 0 \<or> node_children n \<noteq> 0 then (Some (-1), [])
          else (None, (if node_name n \<noteq> 0 then [node_name n] else []) @ [p]))"

text \<open>The result is indeterminate exactly when the node was released, so a caller cannot test for success.\<close>

lemma free_vfs_node_result: "fst (free_vfs_node node) = None \<longleftrightarrow> snd (free_vfs_node node) \<noteq> []"
  by (auto simp: free_vfs_node_def split: option.split)

section \<open>Sizes with commas\<close>

text \<open>The decimal number with a comma before every third digit from the right.\<close>

fun grouped :: "nat \<Rightarrow> string" where
  "grouped n =
     (if n < 1000 then dec_nat n
      else grouped (n div 1000) @ '','' @
        [char_of (48 + n div 100 mod 10), char_of (48 + n div 10 mod 10), char_of (48 + n mod 10)])"

declare grouped.simps [simp del]

text \<open>What the loop writes, from right to left.\<close>

fun loop_text :: "nat \<Rightarrow> nat \<Rightarrow> nat \<Rightarrow> string" where
  "loop_text 0 count n = []"
| "loop_text (Suc k) count n =
     (if count = 3 then CHR '','' # loop_text k 0 n
      else char_of (48 + n mod 10) # loop_text k (count + 1) (n div 10))"

lemma length_loop_text [simp]: "length (loop_text k count n) = k"
  by (induction k count n rule: loop_text.induct) auto

lemma char_of_int: "char_of (48 + int n) = char_of (48 + n)"
proof -
  have "48 + int n = int (48 + n)" by simp
  then show ?thesis by (simp only: char_of_def bit_of_nat_iff_bit even_of_nat)
qed

lemma write_middle:
  "length a = n \<Longrightarrow> write_at (a @ c # b) (int n) [d] = Inr (a @ d # b)"
  by (simp add: write_at_Inr)

lemma digits_loop_text:
  assumes "length a = nat (off + padding)" and "0 \<le> off + padding" and "length mid = k"
  shows "digits_loop (a @ mid @ b) off padding k count (int n) =
    Inr (a @ rev (loop_text k count n) @ b)"
  using assms
proof (induction k arbitrary: mid b count n)
  case (Suc k)
  obtain mid' c where mid: "mid = mid' @ [c]" "length mid' = k"
    using Suc.prems(3) by (cases mid rule: rev_cases) auto
  have i: "off + (padding + int k) = int (length (a @ mid'))" using Suc.prems mid by simp
  have w: "write_at (a @ mid @ b) (off + (padding + int k)) [d] = Inr (a @ mid' @ d # b)" for d
    unfolding i mid(1) using write_middle [of "a @ mid'" "length (a @ mid')" c b d] by simp
  have "int n - int (n mod 10) = 10 * int (n div 10)"
    by (simp add: zmod_int zdiv_int minus_mod_eq_mult_div)
  then have dv: "(int n - int (n mod 10)) sdiv 10 = int (n div 10)" "int n smod 10 = int (n mod 10)"
    by (simp_all add: smod_pos sdiv_pos zmod_int)
  show ?case
    using Suc.IH [OF Suc.prems(1,2) mid(2), of "_ # b"] w
    by (simp add: Let_def dv char_of_int)
qed simp

lemma loop_text_grouped: "w = length (grouped n) \<Longrightarrow> rev (loop_text w 0 n) = grouped n"
proof (induction n arbitrary: w rule: grouped.induct)
  case (1 n)
  show ?case
  proof (cases "n < 1000")
    case True
    consider "n < 10" | "10 \<le> n" "n < 100" | "100 \<le> n" by linarith
    then show ?thesis
    proof cases
      case 1
      then show ?thesis using \<open>w = _\<close> by (simp add: grouped.simps dec_nat.simps)
    next
      case 2
      then have "n div 10 < 10" by auto
      with 2 show ?thesis using \<open>w = _\<close>
        by (simp add: grouped.simps dec_nat.simps [of n] dec_nat.simps [of "n div 10"] numeral_2_eq_2)
    next
      case 3
      then have "n div 10 div 10 < 10" "\<not> n div 10 < 10" using True by auto
      then show ?thesis using \<open>w = _\<close> 3 True
        by (simp add: grouped.simps dec_nat.simps [of n] dec_nat.simps [of "n div 10"]
            dec_nat.simps [of "n div 10 div 10"] numeral_3_eq_3)
    qed
  next
    case False
    then have g: "grouped n = grouped (n div 1000) @ '','' @
        [char_of (48 + n div 100 mod 10), char_of (48 + n div 10 mod 10), char_of (48 + n mod 10)]"
      by (subst grouped.simps) simp
    then have w: "w = Suc (Suc (Suc (Suc (length (grouped (n div 1000))))))" using 1(2) by simp
    have "rev (loop_text (length (grouped (n div 1000))) 0 (n div 1000)) = grouped (n div 1000)"
      using 1(1) [OF False refl] .
    then show ?thesis unfolding w g by (simp add: div_mult2_eq [symmetric])
  qed
qed

section \<open>The width of the field\<close>

definition digits :: "nat \<Rightarrow> nat" where
  "digits n = length (dec_nat n)"

lemma digits_rec: "digits n = (if n < 10 then 1 else digits (n div 10) + 1)"
  by (simp add: digits_def dec_nat.simps [of n])

text \<open>The first two digits are 10: there the count of the code is one too low.\<close>

fun leads10 :: "nat \<Rightarrow> bool" where
  "leads10 n = (if n > 10 then leads10 (n div 10) else n = 10)"

declare leads10.simps [simp del]

lemma digits_le: "n < 10 ^ Suc k \<Longrightarrow> digits n \<le> Suc k"
proof (induction k arbitrary: n)
  case 0
  then show ?case by (simp add: digits_rec)
next
  case (Suc k)
  then have "n div 10 < 10 ^ Suc k" by simp
  with Suc.IH [OF this] show ?case by (subst digits_rec) simp
qed

lemma digits_pos: "0 < digits n"
  by (subst digits_rec) simp

lemma digit_count_eq:
  "digit_count len (int n) = len + int (digits n) - 1 - (if leads10 n then 1 else 0)"
proof (induction n arbitrary: len rule: less_induct)
  case (less n)
  show ?case
  proof (cases "n > 10")
    case True
    have "int n sdiv 10 = int (n div 10)" by (simp add: sdiv_pos zdiv_int)
    then have "digit_count len (int n) = digit_count (len + 1) (int (n div 10))"
      using True by (subst digit_count.simps) simp
    moreover have "leads10 n = leads10 (n div 10)" using True by (subst leads10.simps) simp
    moreover have "digits n = digits (n div 10) + 1" using True by (subst digits_rec) simp
    ultimately show ?thesis using less [of "n div 10" "len + 1"] True by simp
  next
    case False
    then have "digit_count len (int n) = len" by (subst digit_count.simps) simp
    moreover have "digits n = (if leads10 n then 2 else 1)"
      using False digits_rec [of n] digits_rec [of "n div 10"] leads10.simps [of n] by auto
    ultimately show ?thesis by simp
  qed
qed

lemma digit_count_bounds:
  assumes "n < 10 ^ 10"
  shows "1 \<le> digit_count 1 (int n)" and "digit_count 1 (int n) \<le> 10"
proof -
  have "digits n \<le> 10" using digits_le [of n 9] assms by simp
  moreover have "2 \<le> digits n" if "leads10 n"
    using that digits_pos [of "n div 10"] by (subst digits_rec) (auto simp: leads10.simps)
  ultimately show "1 \<le> digit_count 1 (int n)" "digit_count 1 (int n) \<le> 10"
    using digits_pos [of n] by (auto simp: digit_count_eq)
qed

lemma strnumlen_ok:
  assumes "n < 2 ^ 31"
  shows "\<exists>w. strnumlen (int n) = Inr (int w) \<and> w \<le> 13 \<and>
    (0 < n \<longrightarrow> int w = (let l = digit_count 1 (int n) in if l > 3 then l + l div 3 else l))"
proof -
  let ?l = "digit_count 1 (int n)"
  have b: "1 \<le> ?l" "?l \<le> 10" using digit_count_bounds [of n] assms by simp_all
  have d: "?l sdiv 3 = ?l div 3" using b by (simp add: sdiv_pos)
  let ?w = "(if ?l > 3 then ?l + ?l div 3 else ?l) + (if n > 0 then 0 else 1)"
  have one: "n = 0 \<Longrightarrow> ?l = 1" by (subst digit_count.simps) simp
  have "strnumlen (int n) = Inr ?w"
    using d by (auto simp: strnumlen_def Let_def in_int_def INT_MAX_def)
  moreover have "0 \<le> ?w" "?w \<le> 13" using b one by (auto intro: order_trans [of _ "10 + 10 div 3"])
  ultimately show ?thesis using b(1) by (intro exI [of _ "nat ?w"]) (auto simp: Let_def)
qed

lemma length_grouped: "length (grouped n) = digits n + (digits n - 1) div 3"
proof (induction n rule: grouped.induct)
  case (1 n)
  show ?case
  proof (cases "n < 1000")
    case True
    then have "digits n \<le> 3" using digits_le [of n 2] by simp
    with True show ?thesis by (simp add: grouped.simps digits_def [symmetric])
  next
    case False
    have d: "digits n = digits (n div 1000) + 3"
    proof -
      have b: "\<not> n < 10" "\<not> n div 10 < 10" "\<not> n div 10 div 10 < 10" using False by auto
      have "digits n = digits (n div 10 div 10 div 10) + 3"
        by (simp only: digits_rec [of n] digits_rec [of "n div 10"]
            digits_rec [of "n div 10 div 10"] b if_False)
      then show ?thesis by (simp add: div_mult2_eq [symmetric])
    qed
    have "(digits (n div 1000) + 3 - 1) div 3 = (digits (n div 1000) - 1) div 3 + 1"
      using digits_pos [of "n div 1000"] by simp
    with 1(1) [OF False] False d show ?thesis by (subst grouped.simps) simp
  qed
qed

lemma width_right:
  assumes "0 < n" and "n < 2 ^ 31" and "\<not> leads10 n" and "digits n \<noteq> 6" and "digits n \<noteq> 9"
  shows "strnumlen (int n) = Inr (int (length (grouped n)))" and "length (grouped n) \<le> 13"
proof -
  have "digits n \<le> 10" using digits_le [of n 9] assms(2) by simp
  then have "digits n = 1 \<or> digits n = 2 \<or> digits n = 3 \<or> digits n = 4 \<or> digits n = 5 \<or>
      digits n = 7 \<or> digits n = 8 \<or> digits n = 10"
    using digits_pos [of n] assms(4,5) by presburger
  moreover obtain w where "strnumlen (int n) = Inr (int w)" "w \<le> 13"
      "int w = (let l = digit_count 1 (int n) in if l > 3 then l + l div 3 else l)"
    using strnumlen_ok [OF assms(2)] assms(1) by blast
  ultimately show "strnumlen (int n) = Inr (int (length (grouped n)))" "length (grouped n) \<le> 13"
    using assms(3) by (auto simp: digit_count_eq length_grouped)
qed

text \<open>The field as it is written, whatever its width.\<close>

definition shown_size :: "nat \<Rightarrow> nat \<Rightarrow> string" where
  "shown_size w n = replicate (14 - w) (CHR '' '') @ rev (loop_text w 0 n)"

lemma length_shown_size [simp]: "w \<le> 14 \<Longrightarrow> length (shown_size w n) = 14"
  by (simp add: shown_size_def)

lemma format_filesize_text:
  assumes h: "NUL \<notin> set h" and room: "14 \<le> length rest"
    and w: "strnumlen (int n) = Inr (int w)" "w \<le> 13"
  shows "format_filesize (h @ NUL # rest) (int n) = Inr (h @ shown_size w n @ '' '' @ drop 14 rest)"
proof -
  let ?k = "14 - w" and ?sp = "replicate (14 - w) (CHR '' '')"
  define mid where "mid = take w (drop (?k - 1) rest)"
  define last' where "last' = drop 13 rest"
  have k: "0 < ?k" "?k - 1 + w = 13" using w(2) by auto
  have lm: "length mid = w" using room k by (simp add: mid_def)
  have split: "drop (?k - 1) rest = mid @ last'"
    unfolding mid_def last'_def using k by (metis add.commute append_take_drop_id drop_drop)
  obtain c where c: "last' = c # drop 14 rest"
    using room Cons_nth_drop_Suc [of 13 rest, symmetric] by (simp add: last'_def)
  have d: "drop (length h + ?k) (h @ NUL # rest) = mid @ last'"
    using k split by (cases ?k) simp_all
  have f: "fill_at (h @ NUL # rest) (int (length h)) (14 - int w) (CHR '' '') =
      Inr ((h @ ?sp) @ mid @ last')"
    using room w(2) d by (simp add: fill_at_Inr nat_diff_distrib')
  have l: "digits_loop ((h @ ?sp) @ mid @ last') (int (length h)) (14 - int w) w 0 (int n) =
      Inr ((h @ ?sp) @ rev (loop_text w 0 n) @ last')"
    using w(2) lm by (intro digits_loop_text) (simp_all add: nat_add_distrib)
  have e: "write_at ((h @ ?sp) @ rev (loop_text w 0 n) @ last') (int (length h) + 14) '' '' =
      Inr (h @ shown_size w n @ '' '' @ drop 14 rest)"
    using w(2) write_middle [of "(h @ ?sp) @ rev (loop_text w 0 n)" "length h + 14" c "drop 14 rest"]
    by (simp add: c shown_size_def)
  have "(if 14 - int w < 0 then 0 else 14 - int w) = 14 - int w" "nat (14 - (14 - int w)) = w"
    using w(2) by simp_all
  then show ?thesis
    using h w(1) f l e by (simp add: format_filesize_def Let_def)
qed

section \<open>Filling a zeroed block\<close>

lemma strcat_zeroed:
  assumes "NUL \<notin> set h" and "length x < k"
  shows "strcat (h @ replicate k NUL) x = Inr (h @ x @ replicate (k - length x) NUL)"
proof -
  obtain j where k: "k = Suc (length x + j)" using assms(2) less_imp_Suc_add by blast
  have d: "drop (length h + Suc (length x)) (h @ replicate k NUL) = replicate j NUL"
    by (simp add: k drop_replicate)
  show ?thesis
    using assms(1) d by (simp add: strcat_def write_at_Inr k)
qed

text \<open>The line of an entry, with the width the code computes for its size.\<close>

definition size_width :: "stat_buf \<Rightarrow> nat" where
  "size_width st = (case strnumlen (st_size st) of Inl _ \<Rightarrow> 0 | Inr w \<Rightarrow> nat w)"

definition entry_line :: "'w os \<Rightarrow> (string \<Rightarrow> stat_buf) \<Rightarrow> string \<Rightarrow> string" where
  "entry_line os info name =
     ''      '' @ shown_size (size_width (info name)) (nat (st_size (info name))) @ '' '' @
     os_strftime os (st_mtime (info name)) @ name @ [CR, LF]"

lemma dir_marker_never: "dir_marker mode = ''      ''"
  by (simp add: dir_marker_def S_IFMT_def S_IFDIR_def)

lemma format_filesize_zeroed:
  assumes "NUL \<notin> set h" and "15 \<le> k" and "0 \<le> st_size st" and "st_size st < 2 ^ 31"
  shows "format_filesize (h @ replicate k NUL) (st_size st) =
      Inr ((h @ shown_size (size_width st) (nat (st_size st)) @ '' '') @ replicate (k - 15) NUL)"
    and "size_width st \<le> 13"
proof -
  obtain n where n: "st_size st = int n" using assms(3) by (metis nonneg_int_cases)
  obtain w where w: "strnumlen (int n) = Inr (int w)" "w \<le> 13"
    using strnumlen_ok [of n] assms(4) n by auto
  have sw: "size_width st = w" using w(1) n by (simp add: size_width_def)
  obtain j where j: "k = Suc j" "14 \<le> j" using assms(2) by (cases k) auto
  show "format_filesize (h @ replicate k NUL) (st_size st) =
      Inr ((h @ shown_size (size_width st) (nat (st_size st)) @ '' '') @ replicate (k - 15) NUL)"
    using format_filesize_text [OF assms(1) _ w, of "replicate j NUL"] j n sw by (simp add: drop_replicate)
  show "size_width st \<le> 13" using w(2) sw by simp
qed

lemma digit_char:
  fixes m :: nat
  assumes "m < 10"
  shows "char_of (48 + m) \<noteq> NUL"
proof
  assume "char_of (48 + m) = NUL"
  then have "(of_char (char_of (48 + m) :: char) :: nat) = of_char NUL" by simp
  with assms show False by (simp add: of_char_char_of)
qed

lemma loop_text_no_NUL: "NUL \<notin> set (loop_text k count n)"
proof (induction k count n rule: loop_text.induct)
  case (2 k count n)
  then show ?case using digit_char [of "n mod 10"] by auto
qed simp

lemma shown_size_no_NUL: "NUL \<notin> set (shown_size w n)"
  using loop_text_no_NUL by (auto simp: shown_size_def)

lemma format_modifytime_zeroed:
  assumes "NUL \<notin> set h" and "length (os_strftime os t) < 20" and "length (os_strftime os t) < k"
  shows "format_modifytime os (h @ replicate k NUL) t =
    Inr ((h @ os_strftime os t) @ replicate (k - length (os_strftime os t)) NUL)"
  using strcat_zeroed [OF assms(1,3)] assms(1,2)
  by (cases k) (simp_all add: format_modifytime_def strcat_def)

lemma list_entry_run:
  assumes "malloc (allocs s) = (p, m)" and "p \<noteq> 0"
    and "os_stat os (parent @ ''/'' @ name) (world s) = (Some st, w)"
    and "strcat b0 ''      '' = Inr b1" and "format_filesize b1 (st_size st) = Inr b2"
    and "format_modifytime os b2 (st_mtime st) = Inr b3"
    and "strcat b3 name = Inr b4" and "strcat b4 [CR, LF] = Inr b5"
  shows "list_entry os parent name b0 s = Inr (b5, s\<lparr>allocs := m, world := w\<rparr>)"
  using assms by (simp add: list_entry_def sysc_def dir_marker_never)

lemma list_entry_zeroed:
  assumes "never_fails (allocs s)" and st: "\<And>w. fst (os_stat os (parent @ ''/'' @ name) w) = Some (info name)"
    and sz: "0 \<le> st_size (info name)" "st_size (info name) < 2 ^ 31"
    and tm: "length (os_strftime os (st_mtime (info name))) < 20"
      "NUL \<notin> set (os_strftime os (st_mtime (info name)))"
    and h: "NUL \<notin> set name" "NUL \<notin> set h"
    and room: "length (entry_line os info name) < k"
  shows "\<exists>s'. list_entry os parent name (h @ replicate k NUL) s =
      Inr ((h @ entry_line os info name) @ replicate (k - length (entry_line os info name)) NUL, s') \<and>
    never_fails (allocs s')"
proof -
  obtain p m where m: "malloc (allocs s) = (p, m)" "p \<noteq> 0" "never_fails m"
    using assms(1) by (rule never_failsE)
  obtain w where w: "os_stat os (parent @ ''/'' @ name) (world s) = (Some (info name), w)"
    using st [of "world s"] by (cases "os_stat os (parent @ ''/'' @ name) (world s)") auto
  let ?t = "os_strftime os (st_mtime (info name))" and ?st = "info name"
  let ?f = "shown_size (size_width (info name)) (nat (st_size (info name)))"
  let ?h1 = "h @ ''      ''" and ?h2 = "(h @ ''      '') @ ?f @ '' ''"
  have wd: "length ?f = 14"
    using format_filesize_zeroed(2) [of h 15 "info name"] h(2) sz by simp
  have len: "length (entry_line os info name) = 23 + length ?t + length name"
    using wd by (simp add: entry_line_def)
  have s1: "strcat (h @ replicate k NUL) ''      '' = Inr (?h1 @ replicate (k - 6) NUL)"
    using strcat_zeroed [OF h(2), of "''      ''" k] room len by simp
  have n1: "NUL \<notin> set ?h1" using h by simp
  have s2: "format_filesize (?h1 @ replicate (k - 6) NUL) (st_size ?st) = Inr (?h2 @ replicate (k - 6 - 15) NUL)"
    by (rule format_filesize_zeroed(1) [OF n1 _ sz]) (use room len in simp)
  have n2: "NUL \<notin> set ?h2" using n1 shown_size_no_NUL by auto
  have s3: "format_modifytime os (?h2 @ replicate (k - 6 - 15) NUL) (st_mtime ?st) =
      Inr ((?h2 @ ?t) @ replicate (k - 6 - 15 - length ?t) NUL)"
    by (rule format_modifytime_zeroed [OF n2 tm(1)]) (use room len in simp)
  have n3: "NUL \<notin> set (?h2 @ ?t)" using n2 tm(2) by auto
  have s4: "strcat ((?h2 @ ?t) @ replicate (k - 6 - 15 - length ?t) NUL) name =
      Inr (((?h2 @ ?t) @ name) @ replicate (k - 6 - 15 - length ?t - length name) NUL)"
    using strcat_zeroed [OF n3, of name] room len by simp
  have n4: "NUL \<notin> set ((?h2 @ ?t) @ name)" using n3 h(1) by auto
  have s5: "strcat (((?h2 @ ?t) @ name) @ replicate (k - 6 - 15 - length ?t - length name) NUL) [CR, LF] =
      Inr ((((?h2 @ ?t) @ name) @ [CR, LF]) @ replicate (k - 6 - 15 - length ?t - length name - 2) NUL)"
    using strcat_zeroed [OF n4, of "[CR, LF]"] room len by simp
  have "k - 6 - 15 - length ?t - length name - 2 = k - length (entry_line os info name)"
    using len by simp
  moreover have "((?h2 @ ?t) @ name) @ [CR, LF] = h @ entry_line os info name"
    by (simp add: entry_line_def)
  ultimately show ?thesis
    using list_entry_run [OF m(1,2) w s1 s2 s3 s4 s5] m(3) by auto
qed

text \<open>What the platform has to deliver for a listing.\<close>

definition listable :: "'w os \<Rightarrow> string \<Rightarrow> (string \<Rightarrow> stat_buf) \<Rightarrow> string \<Rightarrow> bool" where
  "listable os parent info name \<longleftrightarrow>
     (\<forall>w. fst (os_stat os (parent @ ''/'' @ name) w) = Some (info name)) \<and>
     0 \<le> st_size (info name) \<and> st_size (info name) < 2 ^ 31 \<and>
     length (os_strftime os (st_mtime (info name))) = 18 \<and>
     NUL \<notin> set (os_strftime os (st_mtime (info name))) \<and> NUL \<notin> set name"

lemma entry_line_length: "listable os parent info name \<Longrightarrow> length (entry_line os info name) = 41 + length name"
  using format_filesize_zeroed(2) [of "[]" 15 "info name"]
  by (simp add: listable_def entry_line_def)

lemma entry_line_no_NUL: "listable os parent info name \<Longrightarrow> NUL \<notin> set (entry_line os info name)"
  using shown_size_no_NUL by (auto simp: listable_def entry_line_def)

lemma list_entries_zeroed:
  assumes "never_fails (allocs s)" and "\<And>name. name \<in> set names \<Longrightarrow> listable os parent info name"
    and "NUL \<notin> set h" and "sum_list (map (\<lambda>name. 41 + length name) names) < k"
  shows "\<exists>s'. list_entries os parent names (h @ replicate k NUL) s =
      Inr ((h @ concat (map (entry_line os info) names)) @
        replicate (k - sum_list (map (\<lambda>name. 41 + length name) names)) NUL, s')"
  using assms
proof (induction names arbitrary: s h k)
  case (Cons name names)
  have l: "listable os parent info name" using Cons.prems(2) by simp
  note len = entry_line_length [OF l]
  obtain s1 where s1: "list_entry os parent name (h @ replicate k NUL) s =
      Inr ((h @ entry_line os info name) @ replicate (k - length (entry_line os info name)) NUL, s1)"
      "never_fails (allocs s1)"
    using list_entry_zeroed [OF Cons.prems(1), of os parent name info h k] l Cons.prems(3,4) len
    unfolding listable_def by auto
  have "NUL \<notin> set (h @ entry_line os info name)" using entry_line_no_NUL [OF l] Cons.prems(3) by auto
  from Cons.IH [OF s1(2) _ this, of "k - length (entry_line os info name)"] Cons.prems(2,4) len
  show ?case using s1(1) by auto
qed simp

lemma get_buffer_size_sum:
  assumes "int (sum_list (map (\<lambda>name. 42 + length name) names)) < 2 ^ 31"
  shows "get_buffer_size names = int (sum_list (map (\<lambda>name. 42 + length name) names))"
proof -
  let ?N = "sum_list (map (\<lambda>name. 42 + length name) names)"
  have "foldl (\<lambda>sz name. sz + (of_nat (length name) + 42)) (of_nat a :: u32) names =
      of_nat (a + sum_list (map (\<lambda>name. 42 + length name) names))" for a
  proof (induction names arbitrary: a)
    case (Cons name names)
    have "of_nat a + (of_nat (length name) + 42) = (of_nat (a + (42 + length name)) :: u32)" by simp
    then show ?case
      by (simp only: foldl_Cons list.map sum_list.Cons Cons.IH add.assoc)
  qed simp
  from this [of 0] have "get_buffer_size names = sint (of_nat ?N :: u32)"
    by (simp add: get_buffer_size_def)
  also have "\<dots> = signed_take_bit 31 (int ?N)" by (simp only: signed_of_nat) simp
  also have "\<dots> = int ?N" using assms by (intro signed_take_bit_int_eq_self) auto
  finally show ?thesis .
qed

section \<open>Properties\<close>

text \<open>The size of a file is printed right-justified in fourteen characters with a comma before every
  third digit, for every size below 2 GB except those whose first two digits are 10 and those of
  exactly six or nine digits.\<close>

theorem file_size_field:
  assumes "0 < n" and "n < 2 ^ 31" and "\<not> leads10 n" and "digits n \<noteq> 6" and "digits n \<noteq> 9"
    and "NUL \<notin> set h" and "14 \<le> length rest"
  shows "format_filesize (h @ NUL # rest) (int n) =
    Inr (h @ replicate (14 - length (grouped n)) (CHR '' '') @ grouped n @ '' '' @ drop 14 rest)"
  using format_filesize_text [OF assms(6,7) width_right [OF assms(1-5)]] loop_text_grouped
  by (simp add: shown_size_def)

theorem file_size_field_witness:
  "format_filesize (replicate 16 NUL) 1234567 = Inr (''     1,234,567 '' @ [NUL])"
proof -
  have g: "grouped 1234567 = ''1,234,567''"
    by (simp add: grouped.simps dec_nat.simps char_of_def bit_0)
  have d: "digits 1234567 = 7" "\<not> leads10 1234567"
    by (simp_all add: digits_rec leads10.simps)
  have r: "replicate 16 NUL = [] @ NUL # replicate 15 NUL"
    "replicate 5 (CHR '' '') = ''     ''" by (simp_all add: eval_nat_numeral)
  show ?thesis
    using file_size_field [of 1234567 "[]" "replicate 15 NUL"] d g r by (simp add: drop_replicate)
qed

text \<open>The sizes the listing gets wrong: an empty file is shown as 00, ten bytes as 0, a thousand as
  000, and six or nine digits get a comma in front.\<close>

theorem file_size_field_wrong:
  "format_filesize (replicate 15 NUL) 0 = Inr ''            00 '' \<and>
   format_filesize (replicate 15 NUL) 10 = Inr ''             0 '' \<and>
   format_filesize (replicate 15 NUL) 1000 = Inr ''           000 '' \<and>
   format_filesize (replicate 15 NUL) 123456 = Inr ''      ,123,456 ''"
  by code_simp

text \<open>C13: the listing of a directory, when the block happens to be zeroed and every file can be asked
  for its state: one line per entry, in order, each of six blanks (also for directories), the size,
  the time and the name; the size computed beforehand is enough and leaves a terminator.\<close>

theorem listing_text:
  assumes "never_fails (allocs s)" and "os_opendir os parent (world s) = (Some d, w)"
    and "vfs_path_acquire (os_path_max os) dir (allocs s) = (Some parent, m)" and "never_fails m"
    and "\<And>w. fst (os_readdir os d w) = names" and "names \<noteq> []"
    and "\<And>n w. fst (os_fresh os n w) = replicate (nat n) NUL"
    and "\<And>name. name \<in> set names \<Longrightarrow> listable os parent info name"
    and "int (sum_list (map (\<lambda>name. 42 + length name) names)) < 2 ^ 31"
  shows "\<exists>p k s'. vfs_list_directory os dir s =
    Inr (Some (p, concat (map (entry_line os info) names) @ replicate (Suc k) NUL), s')"
proof -
  let ?n = "sum_list (map (\<lambda>name. 42 + length name) names)"
  let ?u = "sum_list (map (\<lambda>name. 41 + length name) names)"
  have u: "?n = ?u + length names" by (induction names) auto
  obtain p m1 where m1: "malloc m = (p, m1)" "p \<noteq> 0" "never_fails m1" using assms(4) by (rule never_failsE)
  let ?s1 = "snd (sysc (os_readdir os d) (s\<lparr>allocs := m, world := w\<rparr>))"
  let ?s2 = "snd (sysc (os_readdir os d) (snd (sysc (os_fresh os (int ?n)) (?s1\<lparr>allocs := m1\<rparr>))))"
  have nf: "never_fails (allocs ?s2)" using m1(3) by simp
  obtain s3 where s3: "list_entries os parent names ([] @ replicate ?n NUL) ?s2 =
      Inr (([] @ concat (map (entry_line os info) names)) @ replicate (?n - ?u) NUL, s3)"
    using list_entries_zeroed [OF nf assms(8), where h = "[]" and k = ?n and names = names] u assms(6)
    by auto
  obtain k where k: "?n - ?u = Suc k" using u assms(6) by (cases names) auto
  have b: "build_directory_list os d parent (int ?n) ?s1 =
      Inr (Some (p, concat (map (entry_line os info) names) @ replicate (Suc k) NUL), s3)"
    using m1(1,2) s3 k assms(5,7)
    by (simp add: build_directory_list_def Let_def case_prod_beta sysc_def)
  then show ?thesis
    using assms(2,3,5) get_buffer_size_sum [OF assms(9)]
    by (simp add: vfs_list_directory_def Let_def case_prod_beta sysc_def)
qed

text \<open>A directory of one file on the small platform.\<close>

definition pub_os :: "host os" where
  "pub_os = host_os\<lparr>os_readdir := (\<lambda>d w. ([''a.txt''], w)), os_stat := (\<lambda>p w.
     (Some \<lparr>st_mode = 0x81FF, st_size = 4711, st_mtime = 0\<rparr>, w))\<rparr>"

theorem listing_text_witness:
  "\<exists>p k s'. vfs_list_directory pub_os \<lparr>entities = [''pub''], absolute = True\<rparr>
     \<lparr>world = host0, allocs = \<lambda>_. 64\<rparr> =
     Inr (Some (p, ''               4,711 Jan 01 1970 00:00 a.txt'' @ [CR, LF] @ replicate (Suc k) NUL), s')"
proof -
  let ?i = "\<lambda>_ :: string. \<lparr>st_mode = 0x81FF, st_size = 4711, st_mtime = 0\<rparr>"
  let ?s = "\<lparr>world = host0, allocs = \<lambda>_. 64\<rparr>"
  have nf: "never_fails (\<lambda>_. 64)" by (simp add: never_fails_def)
  have l: "listable pub_os ''/pub'' ?i ''a.txt''" by (simp add: listable_def pub_os_def)
  have e: "entry_line pub_os ?i ''a.txt'' =
      ''               4,711 Jan 01 1970 00:00 a.txt'' @ [CR, LF]"
  proof -
    have "digit_count 1 4711 = 4" by (simp add: digit_count.simps)
    then have w: "size_width \<lparr>st_mode = 0x81FF, st_size = 4711, st_mtime = 0\<rparr> = 5"
      by (simp add: size_width_def strnumlen_def)
    have "grouped 4711 = ''4,711''" by (simp add: grouped.simps dec_nat.simps char_of_def bit_0)
    then have "rev (loop_text 5 0 4711) = ''4,711''" using loop_text_grouped [of 5 4711] by simp
    moreover have "replicate 9 (CHR '' '') = ''         ''" by (simp add: eval_nat_numeral)
    ultimately show ?thesis by (simp add: entry_line_def w shown_size_def pub_os_def)
  qed
  have "\<exists>p k s'. vfs_list_directory pub_os \<lparr>entities = [''pub''], absolute = True\<rparr> ?s =
      Inr (Some (p, concat (map (entry_line pub_os ?i) [''a.txt'']) @ replicate (Suc k) NUL), s')"
    by (rule listing_text [where parent = "''/pub''" and d = 6 and w = host0 and m = "\<lambda>_. 64"])
      (use nf l in \<open>auto simp: pub_os_def vfs_path_acquire_def malloc_def\<close>)
  then show ?thesis by (simp add: e)
qed

text \<open>The block of the listing is never cleared. If no byte of what \<open>malloc\<close> returns is zero, the
  first entry that can be asked for its state makes the code search for the end of the text behind
  the block.\<close>

theorem listing_of_a_dirty_block:
  assumes "never_fails (allocs s)" and "NUL \<notin> set blk"
    and "os_stat os (parent @ ''/'' @ name) (world s) = (Some st, w)"
  shows "list_entries os parent (name # names) blk s = Inl Out_of_bounds"
proof -
  have "c_str blk = Inl Out_of_bounds" using assms(2) by (induction blk) auto
  moreover obtain p m where "malloc (allocs s) = (p, m)" "p \<noteq> 0"
    using assms(1) by (rule never_failsE)
  ultimately show ?thesis using assms(3) by (simp add: list_entry_def sysc_def strcat_def)
qed

theorem listing_of_a_dirty_block_witness:
  "list_entries host_os ''/pub'' [''a.txt''] (replicate 47 (CHR ''x''))
     \<lparr>world = host0, allocs = \<lambda>_. 64\<rparr> = Inl Out_of_bounds"
  by (rule listing_of_a_dirty_block) (simp_all add: never_fails_def)

end
