(* ===== verification/Client.thy ===== *)
theory Client
  imports Dtp VfsList
begin

text \<open>
  The clients of \<^verbatim>\<open>ftp.c\<close>: the structure, its creation and release, the replies on the control
  connection and the start of a transfer. Clients live in a store of addresses; the table of 25
  slots holds addresses, and so can the caller after the client is gone.
\<close>

section \<open>State\<close>

record client =
  cfd :: int
  cip :: u32
  cport :: u16
  cstate :: u32
  input_buffer :: "io_buffer option"
  output_buffer :: "io_buffer option"
  cdata :: u32
  cwd :: "vfs_path option"

definition STATE_NONE :: u32 where "STATE_NONE = 0"
definition STATE_USER :: u32 where "STATE_USER = 1"
definition STATE_AUTH :: u32 where "STATE_AUTH = 2"
definition STATE_DATA :: u32 where "STATE_DATA = 8"
definition STATE_DISCONN :: u32 where "STATE_DISCONN = 16"

lemmas client_states = STATE_NONE_def STATE_USER_def STATE_AUTH_def STATE_DATA_def STATE_DISCONN_def

definition IS_AUTHENTICATED :: "client \<Rightarrow> bool" where
  "IS_AUTHENTICATED c \<longleftrightarrow> cstate c \<ge> STATE_AUTH"

definition MAX_CLIENTS :: nat where "MAX_CLIENTS = 25"
definition FTP_BUFFER :: int where "FTP_BUFFER = 1024"

record 'w server = "'w dtp" +
  clients :: "u32 list"
  client_heap :: "u32 \<Rightarrow> client option"

definition get_client :: "u32 \<Rightarrow> ('w, 'z) server_scheme \<Rightarrow> fault + client" where
  "get_client p s =
     (if p = 0 then Inl Null_pointer
      else case client_heap s p of None \<Rightarrow> Inl Use_after_free | Some c \<Rightarrow> Inr c)"

definition put_client :: "u32 \<Rightarrow> client \<Rightarrow> ('w, 'z) server_scheme \<Rightarrow> ('w, 'z) server_scheme" where
  "put_client p c s = s\<lparr>client_heap := (client_heap s)(p := Some c)\<rparr>"

definition the_buffer :: "io_buffer option \<Rightarrow> fault + io_buffer" where
  "the_buffer ob = (case ob of None \<Rightarrow> Inl Null_pointer | Some b \<Rightarrow> Inr b)"

section \<open>Replies\<close>

text \<open>The reply is formatted into memory of its own; a reply that does not fit is dropped.\<close>

definition ftp_response ::
  "int \<Rightarrow> u32 \<Rightarrow> string \<Rightarrow> ('w, 'z) server_scheme \<Rightarrow> fault + ('w, 'z) server_scheme" where
  "ftp_response code p msg s =
     (let (response, m) = malloc (allocs s); s = s\<lparr>allocs := m\<rparr>;
          txt = dec_int code @ '' '' @ msg @ [CR, LF] in
      if response = 0 then Inr s
      else
        bindF (get_client p s) (\<lambda>c.
        bindF (the_buffer (output_buffer c)) (\<lambda>b.
        bindF (iobuffer_append b (Some (txt @ [NUL])) (int (length txt))) (\<lambda>(_, b).
        Inr (put_client p (c\<lparr>output_buffer := Some b\<rparr>) s)))))"

text \<open>The formatted message is the argument.\<close>

definition ftp_responsef ::
  "int \<Rightarrow> u32 \<Rightarrow> string \<Rightarrow> ('w, 'z) server_scheme \<Rightarrow> fault + ('w, 'z) server_scheme" where
  "ftp_responsef code p formatted s =
     (let (q, m) = malloc (allocs s); s = s\<lparr>allocs := m\<rparr> in
      if q = 0 then Inr s else ftp_response code p formatted s)"

section \<open>Creating and releasing a client\<close>

definition free_client :: "'w os \<Rightarrow> u32 \<Rightarrow> ('w, 'z) server_scheme \<Rightarrow> fault + ('w, 'z) server_scheme" where
  "free_client os p s =
     (if p = 0 then Inr s
      else
        bindF (get_client p s) (\<lambda>c.
        let s = (if cfd c \<ge> 0 then snd (sysc (os_socketclose os (cfd c)) s) else s) in
        Inr (s\<lparr>client_heap := (client_heap s)(p := None)\<rparr>)))"

definition new_client :: "'w os \<Rightarrow> ('w, 'z) server_scheme \<Rightarrow> fault + u32 \<times> ('w, 'z) server_scheme" where
  "new_client os s =
     (let (p, m) = malloc (allocs s) in
      if p = 0 then Inr (0, s\<lparr>allocs := m\<rparr>)
      else
        let (ib, m) = new_buffer FTP_BUFFER m; (ob, m) = new_buffer FTP_BUFFER m in
        bindF (new_vfs_path (Some [CHR ''/'', NUL]) m) (\<lambda>(root, m).
        let c = \<lparr>cfd = 0, cip = 0, cport = 0, cstate = 0, input_buffer = ib, output_buffer = ob,
                 cdata = 0, cwd = root\<rparr>;
            s = put_client p c (s\<lparr>allocs := m\<rparr>) in
        if ib = None \<or> ob = None \<or> root = None then
          bindF (free_client os p s) (\<lambda>s. Inr (0, s))
        else Inr (p, s)))"

definition ftp_client_cleanup ::
  "'w os \<Rightarrow> u32 \<Rightarrow> ('w, 'z) server_scheme \<Rightarrow> fault + ('w, 'z) server_scheme" where
  "ftp_client_cleanup os p s =
     free_client os p (s\<lparr>clients := map (\<lambda>q. if q = p then 0 else q) (clients s)\<rparr>)"

section \<open>Starting a transfer\<close>

definition ftp_data_send_buffer ::
  "'w os \<Rightarrow> u32 \<Rightarrow> u32 \<Rightarrow> ('w, 'z) server_scheme \<Rightarrow> fault + ('w, 'z) server_scheme" where
  "ftp_data_send_buffer os p txt s =
     bindF (get_client p s) (\<lambda>c.
     let c = c\<lparr>cstate := cstate c OR STATE_DATA\<rparr>; s = put_client p c s in
     bindF (dtp_channel_init os (cdata c) (cip c) (cport c) s) (\<lambda>(d, s).
     let s = put_client p (c\<lparr>cdata := d\<rparr>) s in
     if d = 0 then Inr s
     else
       bindF (get_channel d s) (\<lambda>ch.
       bindF (cell_get (iface ch)) (\<lambda>i.
       bindF (iface_is_connected i d s) (\<lambda>(connected, s).
       if \<not> connected then ftp_response 425 p ''Failed to connect to client'' s
       else
         bindF (dtp_send_buffer d txt s) (\<lambda>(r, s).
         if r < 0 then ftp_response 425 p ''Failed to connect to client'' s else Inr s))))))"

section \<open>What an operation leaves alone\<close>

text \<open>
  A well-formed client: both buffers are there, the input buffer with its last byte free, and the
  working directory is an absolute path without dot segments.
\<close>

definition sound_dir :: "vfs_path option \<Rightarrow> bool" where
  "sound_dir dir \<longleftrightarrow> (case dir of None \<Rightarrow> False
     | Some d \<Rightarrow> absolute d \<and> normal (entities d) \<and> c_names (entities d))"

definition client_ok :: "client \<Rightarrow> bool" where
  "client_ok c \<longleftrightarrow> (case input_buffer c of None \<Rightarrow> False | Some b \<Rightarrow> iob_input b) \<and>
     (case output_buffer c of None \<Rightarrow> False | Some b \<Rightarrow> iob_wf b) \<and> sound_dir (cwd c)"

text \<open>
  An operation on behalf of client \<open>p\<close> may change that client's own record except its connection
  and the bytes it has received, keeps it well formed, and never touches another client or the table.
\<close>

definition same_connection :: "client \<Rightarrow> client \<Rightarrow> bool" where
  "same_connection c c' \<longleftrightarrow> cfd c' = cfd c \<and> cip c' = cip c \<and> cport c' = cport c \<and>
     input_buffer c' = input_buffer c \<and> (client_ok c \<longrightarrow> client_ok c')"

lemma client_ok_fields [simp]:
  "client_ok (c\<lparr>cstate := st\<rparr>) = client_ok c" "client_ok (c\<lparr>cdata := d\<rparr>) = client_ok c"
  by (simp_all add: client_ok_def)

definition only_client :: "u32 \<Rightarrow> ('w, 'z) server_scheme \<Rightarrow> ('w, 'z) server_scheme \<Rightarrow> bool" where
  "only_client p s s' \<longleftrightarrow> clients s' = clients s \<and>
     (\<forall>q. q \<noteq> p \<longrightarrow> client_heap s' q = client_heap s q) \<and>
     (case client_heap s p of None \<Rightarrow> client_heap s' p = None
      | Some c \<Rightarrow> \<exists>c'. client_heap s' p = Some c' \<and> same_connection c c')"

lemma same_connection_refl [simp]: "same_connection c c"
  by (simp add: same_connection_def)

lemma same_connection_trans:
  "same_connection a b \<Longrightarrow> same_connection b c \<Longrightarrow> same_connection a c"
  by (simp add: same_connection_def)

lemma only_client_refl [simp, intro]: "only_client p s s"
  by (simp add: only_client_def split: option.split)

lemma only_client_trans: "only_client p s s1 \<Longrightarrow> only_client p s1 s2 \<Longrightarrow> only_client p s s2"
  unfolding only_client_def
  by (auto split: option.splits dest: same_connection_trans)

lemma get_put_client [simp]:
  "p \<noteq> 0 \<Longrightarrow> get_client p (put_client p c s) = Inr c"
  "client_heap (put_client p c s) = (client_heap s)(p := Some c)"
  "clients (put_client p c s) = clients s" "allocs (put_client p c s) = allocs s"
  "channels (put_client p c s) = channels s" "strings (put_client p c s) = strings s"
  "world (put_client p c s) = world s" "dtp_list (put_client p c s) = dtp_list s"
  "next_dtp_list (put_client p c s) = next_dtp_list s"
  by (simp_all add: get_client_def put_client_def)

lemma get_client_Inr: "get_client p s = Inr c \<longleftrightarrow> p \<noteq> 0 \<and> client_heap s p = Some c"
  by (auto simp: get_client_def split: option.splits)

lemma only_client_put:
  "client_heap s p = Some c \<Longrightarrow> same_connection c c' \<Longrightarrow> only_client p s (put_client p c' s)"
  by (simp add: only_client_def)

lemma only_client_same:
  "client_heap s' = client_heap s \<Longrightarrow> clients s' = clients s \<Longrightarrow> only_client p s s'"
  by (simp add: only_client_def split: option.split)

text \<open>The layers below know nothing of clients.\<close>

definition same_clients :: "('w, 'z) server_scheme \<Rightarrow> ('w, 'z) server_scheme \<Rightarrow> bool" where
  "same_clients s s' \<longleftrightarrow> client_heap s' = client_heap s \<and> clients s' = clients s"

lemma same_clients_simps [simp]:
  fixes s :: "('w, 'z) server_scheme"
  shows "client_heap (snd (sysc f s)) = client_heap s" "clients (snd (sysc f s)) = clients s"
    "client_heap (sys_do g s) = client_heap s" "clients (sys_do g s) = clients s"
    "client_heap (put_channel p c s) = client_heap s" "clients (put_channel p c s) = clients s"
    "client_heap (snd (network_close os fd s)) = client_heap s"
    "clients (snd (network_close os fd s)) = clients s"
  by (simp_all add: sysc_def sys_do_def put_channel_def network_close_def split: prod.splits)

lemma serversocket_clients:
  fixes s :: "('w, 'z) server_scheme"
  shows "client_heap (snd (network_create_serversocket os port k s)) = client_heap s"
    "clients (snd (network_create_serversocket os port k s)) = clients s"
  by (simp_all add: network_create_serversocket_def setup_server_socket_def bind_to_port_def
      Let_def case_prod_beta)

lemma free_local_clients: "free_local os c s = Inr s' \<Longrightarrow> same_clients s s'"
  by (auto simp: free_local_def same_clients_def split: if_splits option.splits)

lemma free_data_channel_clients:
  assumes "free_data_channel os p s = Inr s'"
  shows "same_clients s s'"
proof (cases "p = 0")
  case True
  then show ?thesis using assms by (simp add: free_data_channel_def same_clients_def)
next
  case False
  then obtain c s1 where "free_local os c s = Inr s1"
      and "same_clients s1 s'"
    using assms by (simp add: free_data_channel_def fault_simps Let_def)
      (auto simp: same_clients_def)
  then show ?thesis using free_local_clients by (metis same_clients_def)
qed

lemma free_unset:
  "p \<noteq> 0 \<Longrightarrow> (case channels s p of None \<Rightarrow> False | Some c \<Rightarrow> listen_fd c = Uninit) \<Longrightarrow>
    free_data_channel os p s \<noteq> Inr s'"
  by (cases "channels s p"; cases "free_local os (the (channels s p)) s")
    (simp_all add: free_data_channel_def get_channel_def)

lemma new_data_channel_clients:
  assumes "new_data_channel os ip port s = Inr (p, s')"
  shows "same_clients s s'"
proof -
  obtain q m where m: "malloc (allocs s) = (q, m)" by fastforce
  obtain ob m' where b: "new_buffer 192000 m = (ob, m')" by fastforce
  consider "q = 0" | "q \<noteq> 0" "ip = 0" | "q \<noteq> 0" "ip \<noteq> 0" "ob = None" | "q \<noteq> 0" "ip \<noteq> 0" "ob \<noteq> None" by blast
  then show ?thesis
  proof cases
    case 1
    then show ?thesis using assms m by (auto simp: new_data_channel_def same_clients_def)
  next
    case 4
    then show ?thesis
      using assms m b by (auto simp: new_data_channel_def same_clients_def Let_def)
  qed (use assms m b in \<open>auto simp: new_data_channel_def Let_def fault_simps free_unset\<close>)
qed

lemma new_passive_channel_clients:
  assumes "new_passive_channel os ip port s = Inr (p, s')"
  shows "same_clients s s'"
proof -
  obtain q s1 where "new_data_channel os ip port s = Inr (q, s1)"
    using assms by (auto simp: new_passive_channel_def fault_simps)
  with assms show ?thesis
    by (auto simp: new_passive_channel_def fault_simps Let_def case_prod_beta same_clients_def
        serversocket_clients dest!: new_data_channel_clients free_data_channel_clients split: if_splits)
qed

lemma new_active_channel_clients:
  "new_active_channel os ip port s = Inr (p, s') \<Longrightarrow> same_clients s s'"
  by (auto simp: new_active_channel_def fault_simps same_clients_def dest!: new_data_channel_clients)

lemma is_connected_clients: "iface_is_connected i p s = Inr (r, s') \<Longrightarrow> same_clients s s'"
  by (cases i) (auto simp: pasv_is_connected_def active_is_connected_def fault_simps same_clients_def
      Let_def split: if_splits)

lemma dtp_send_buffer_clients: "dtp_send_buffer p txt s = Inr (r, s') \<Longrightarrow> same_clients s s'"
  by (auto simp: dtp_send_buffer_def fault_simps same_clients_def split: if_splits)

lemma same_clients_only: "same_clients s s' \<Longrightarrow> only_client p s s'"
  by (simp add: same_clients_def only_client_same)

lemma response_only_client:
  assumes "ftp_response code p msg s = Inr s'"
  shows "only_client p s s'"
proof -
  obtain r m where m: "malloc (allocs s) = (r, m)" by fastforce
  show ?thesis
  proof (cases "r = 0")
    case True
    then show ?thesis using assms m by (auto simp: ftp_response_def intro: only_client_same)
  next
    case False
    then obtain c b n b' data len where c: "client_heap s p = Some c" "output_buffer c = Some b"
        "s' = put_client p (c\<lparr>output_buffer := Some b'\<rparr>) (s\<lparr>allocs := m\<rparr>)"
      and a: "iobuffer_append b data len = Inr (n, b')"
      using assms m
      by (auto simp: ftp_response_def fault_simps Let_def get_client_Inr the_buffer_def
          split: option.splits)
    then show ?thesis
      using append_wf [OF _ a] by (simp add: only_client_def same_connection_def client_ok_def)
  qed
qed

lemma responsef_only_client:
  assumes "ftp_responsef code p msg s = Inr s'"
  shows "only_client p s s'"
proof -
  have "only_client p s (s\<lparr>allocs := m\<rparr>)" for m by (simp add: only_client_same)
  then show ?thesis
    using assms response_only_client only_client_trans
    by (fastforce simp: ftp_responsef_def Let_def case_prod_beta split: if_splits)
qed

lemma data_send_only_client:
  assumes "ftp_data_send_buffer os p txt s = Inr s'"
  shows "only_client p s s'"
proof -
  obtain c d s1 where c: "client_heap s p = Some c" "p \<noteq> 0"
      and d: "dtp_channel_init os (cdata c) (cip c) (cport c)
        (put_client p (c\<lparr>cstate := cstate c OR STATE_DATA\<rparr>) s) = Inr (d, s1)"
    using assms by (auto simp: ftp_data_send_buffer_def fault_simps get_client_Inr Let_def)
  let ?c = "c\<lparr>cstate := cstate c OR STATE_DATA\<rparr>"
  let ?s2 = "put_client p (?c\<lparr>cdata := d\<rparr>) s1"
  have 1: "same_clients (put_client p ?c s) s1"
    using d by (auto simp: dtp_channel_init_def dest!: new_active_channel_clients split: if_splits)
      (simp add: same_clients_def)
  then have 2: "only_client p s ?s2"
    using c by (simp add: only_client_def same_clients_def same_connection_def)
  have "only_client p ?s2 s'"
  proof (cases "d = 0")
    case True
    then show ?thesis using assms c d by (simp add: ftp_data_send_buffer_def get_client_Inr [symmetric] get_client_def)
  next
    case False
    then obtain i r s3 where i: "iface_is_connected i d ?s2 = Inr (r, s3)"
        and k: "(if \<not> r then ftp_response 425 p ''Failed to connect to client'' s3
          else bindF (dtp_send_buffer d txt s3) (\<lambda>(r, s).
            if r < 0 then ftp_response 425 p ''Failed to connect to client'' s else Inr s)) = Inr s'"
      using assms c d
      by (simp add: ftp_data_send_buffer_def get_client_def fault_simps Let_def) blast
    have 3: "only_client p ?s2 s3" using is_connected_clients [OF i] by (rule same_clients_only)
    show ?thesis
    proof (cases r)
      case False
      then show ?thesis using k 3 response_only_client only_client_trans by fastforce
    next
      case True
      then obtain e s4 where e: "dtp_send_buffer d txt s3 = Inr (e, s4)"
          and l: "(if e < 0 then ftp_response 425 p ''Failed to connect to client'' s4 else Inr s4) = Inr s'"
        using k by (auto simp: fault_simps)
      have "only_client p ?s2 s4"
        using 3 same_clients_only [OF dtp_send_buffer_clients [OF e]] by (rule only_client_trans)
      then show ?thesis
        using l response_only_client only_client_trans by (fastforce split: if_splits)
    qed
  qed
  with 2 show ?thesis by (rule only_client_trans)
qed

end
