(* ===== verification/Commands.thy ===== *)
theory Commands
  imports Client
begin

text \<open>
  The command table of \<^verbatim>\<open>commands.c\<close>, its dispatch and the handlers of \<^verbatim>\<open>commands/*.c\<close>. A handler gets
  the address of the client and the pointer to its arguments, which is the rest of the line block.
\<close>

section \<open>Handlers without arguments\<close>

definition do_user :: "u32 \<Rightarrow> ('w, 'z) server_scheme \<Rightarrow> fault + ('w, 'z) server_scheme" where
  "do_user p s =
     bindF (get_client p s) (\<lambda>c.
     ftp_response 331 p ''Username OK. Ready for password.'' (put_client p (c\<lparr>cstate := STATE_USER\<rparr>) s))"

definition do_pass :: "u32 \<Rightarrow> ('w, 'z) server_scheme \<Rightarrow> fault + ('w, 'z) server_scheme" where
  "do_pass p s =
     bindF (get_client p s) (\<lambda>c.
     if cstate c = STATE_NONE then ftp_response 332 p ''Need account for login.'' s
     else if cstate c = STATE_USER then
       ftp_response 230 p ''User logged in successfully.'' (put_client p (c\<lparr>cstate := STATE_AUTH\<rparr>) s)
     else ftp_response 503 p ''Bad sequence of commands.'' s)"

definition do_quit :: "u32 \<Rightarrow> ('w, 'z) server_scheme \<Rightarrow> fault + ('w, 'z) server_scheme" where
  "do_quit p s =
     bindF (get_client p s) (\<lambda>c.
     ftp_response 221 p ''Service closing control connection.''
       (put_client p (c\<lparr>cstate := cstate c OR STATE_DISCONN\<rparr>) s))"

definition do_reinitialize :: "u32 \<Rightarrow> ('w, 'z) server_scheme \<Rightarrow> fault + ('w, 'z) server_scheme" where
  "do_reinitialize p s =
     bindF (get_client p s) (\<lambda>c.
     ftp_response 220 p ''Service ready for new user.'' (put_client p (c\<lparr>cstate := STATE_NONE\<rparr>) s))"

definition do_noop :: "u32 \<Rightarrow> ('w, 'z) server_scheme \<Rightarrow> fault + ('w, 'z) server_scheme" where
  "do_noop p s = ftp_response 200 p ''Okey dokey artichokey!'' s"

definition do_system :: "u32 \<Rightarrow> ('w, 'z) server_scheme \<Rightarrow> fault + ('w, 'z) server_scheme" where
  "do_system p s = ftp_response 215 p ''UNIX Type: L8 Version: FTPservU'' s"

definition do_allocate :: "u32 \<Rightarrow> ('w, 'z) server_scheme \<Rightarrow> fault + ('w, 'z) server_scheme" where
  "do_allocate p s = ftp_response 202 p ''ALLO command ignored.'' s"

section \<open>Directories\<close>

text \<open>The loop over the segments ends at the last but one.\<close>

fun drop_last_ent :: "string list \<Rightarrow> string list" where
  "drop_last_ent [] = []"
| "drop_last_ent [x] = []"
| "drop_last_ent [x, y] = [x]"
| "drop_last_ent (x # y # z # es) = x # drop_last_ent (y # z # es)"

definition detach_last_pathent :: "vfs_path option \<Rightarrow> vfs_path option" where
  "detach_last_pathent dir = map_option (\<lambda>d. d\<lparr>entities := drop_last_ent (entities d)\<rparr>) dir"

definition do_cdup :: "u32 \<Rightarrow> ('w, 'z) server_scheme \<Rightarrow> fault + ('w, 'z) server_scheme" where
  "do_cdup p s =
     bindF (get_client p s) (\<lambda>c.
     ftp_response 250 p ''CWD command successful.''
       (put_client p (c\<lparr>cwd := detach_last_pathent (cwd c)\<rparr>) s))"

definition do_cwd ::
  "'w os \<Rightarrow> u32 \<Rightarrow> char list \<Rightarrow> ('w, 'z) server_scheme \<Rightarrow> fault + ('w, 'z) server_scheme" where
  "do_cwd os p args s =
     bindF (allocating (new_vfs_path (Some args)) s) (\<lambda>(parsed, s).
     bindF (get_client p s) (\<lambda>c.
     bindF (allocating (vfs_path_merge (cwd c) parsed) s) (\<lambda>(result, s).
     bindF (if result = None then Inr (False, s) else vfs_can_chdir os result s) (\<lambda>(ok, s).
     if ok then
       ftp_response 250 p ''CWD command successful.'' (put_client p (c\<lparr>cwd := result\<rparr>) s)
     else ftp_response 550 p ''That directory does not exist.'' s))))"

text \<open>A path that could not be printed is a null pointer for \<open>%s\<close>.\<close>

definition do_pwd :: "'w os \<Rightarrow> u32 \<Rightarrow> ('w, 'z) server_scheme \<Rightarrow> fault + ('w, 'z) server_scheme" where
  "do_pwd os p s =
     bindF (get_client p s) (\<lambda>c.
     case cwd c of
       None \<Rightarrow> Inl Null_pointer
     | Some d \<Rightarrow>
         let (pwd, m) = vfs_path_acquire (os_path_max os) d (allocs s); s = s\<lparr>allocs := m\<rparr> in
         case pwd of
           None \<Rightarrow> Inl Null_pointer
         | Some txt \<Rightarrow> ftp_responsef 257 p ([CHR 0x22] @ txt @ [CHR 0x22] @ '' is current directory.'') s)"

definition do_list :: "'w os \<Rightarrow> u32 \<Rightarrow> ('w, 'z) server_scheme \<Rightarrow> fault + ('w, 'z) server_scheme" where
  "do_list os p s =
     bindF (get_client p s) (\<lambda>c.
     case cwd c of
       None \<Rightarrow> Inl Null_pointer
     | Some d \<Rightarrow>
         bindF (vfs_list_directory os d s) (\<lambda>(listing, s).
         case listing of
           None \<Rightarrow> ftp_data_send_buffer os p 0 s
         | Some (a, blk) \<Rightarrow>
             ftp_data_send_buffer os p a (s\<lparr>strings := (strings s)(a := Some blk)\<rparr>)))"

section \<open>Data connections\<close>

text \<open>\<open>227\<close> with the six numbers of the address.\<close>

definition dec_u32 :: "u32 \<Rightarrow> string" where
  "dec_u32 w = dec_nat (unat w)"

definition pasv_message :: "u32 \<Rightarrow> u16 \<Rightarrow> string" where
  "pasv_message ip port =
     ''Entering passive mode ('' @
     dec_u32 (drop_bit 24 (ip AND 0xff000000)) @ '','' @ dec_u32 (drop_bit 16 (ip AND 0x00ff0000)) @ '','' @
     dec_u32 (drop_bit 8 (ip AND 0x0000ff00)) @ '','' @ dec_u32 (ip AND 0x000000ff) @ '','' @
     dec_nat (unat (drop_bit 8 (port AND 0xff00))) @ '','' @ dec_nat (unat (port AND 0x00ff)) @ '')''"

definition do_passive :: "'w os \<Rightarrow> u32 \<Rightarrow> ('w, 'z) server_scheme \<Rightarrow> fault + ('w, 'z) server_scheme" where
  "do_passive os p s =
     bindF (get_client p s) (\<lambda>c.
     bindF (if cdata c = 0 then Inr s
            else bindF (get_channel (cdata c) s) (\<lambda>ch.
                 bindF (cell_get (iface ch)) (\<lambda>i. iface_free os i (cdata c) s))) (\<lambda>s.
     let (ip, s) = network_get_host_ip os s;
         (port, s) = network_get_ephermal_port s in
     bindF (new_passive_channel os ip port s) (\<lambda>(d, s).
     let s = put_client p (c\<lparr>cdata := d\<rparr>) s in
     bindF (get_channel d s) (\<lambda>ch.
     let (msg, m) = malloc (allocs s); s = s\<lparr>allocs := m\<rparr> in
     if msg = 0 then Inr s else ftp_response 227 p (pasv_message (dip ch) (dport ch)) s))))"

text \<open>
  The loop over the argument: the bytes, the index of the current one and its value so far; \<open>None\<close>
  is a return before the end.
\<close>

fun port_loop :: "char list \<Rightarrow> int list \<Rightarrow> nat \<Rightarrow> int \<Rightarrow> fault + (int list \<times> nat \<times> int) option" where
  "port_loop [] bytes digit segment = Inl Out_of_bounds"
| "port_loop (c # str) bytes digit segment =
     (if c = NUL \<or> \<not> digit < 6 then Inr (Some (bytes, digit, segment))
      else if isspace c then port_loop str bytes digit segment
      else if \<not> isdigit c \<and> c \<noteq> CHR '','' then Inr None
      else if isdigit c then
        bindF (c_int (segment * 10)) (\<lambda>x.
        bindF (c_int (x + int (of_char c - 48))) (\<lambda>segment. port_loop str bytes digit segment))
      else if segment > 255 then Inr None
      else port_loop str (bytes[digit := segment]) (digit + 1) 0)"

text \<open>The shift of a byte into the sign bit is what the compiler makes of it: the bit pattern.\<close>

definition parse_port_args :: "char list \<Rightarrow> fault + u32 \<times> u16" where
  "parse_port_args str =
     bindF (port_loop str [0, 0, 0, 0, 0, 0] 0 0) (\<lambda>r.
     case r of
       None \<Rightarrow> Inr (0, 0)
     | Some (bytes, digit, segment) \<Rightarrow>
         bindF (write_at bytes (int digit) [segment]) (\<lambda>bytes.
         if digit \<noteq> 5 then Inr (0, 0)
         else if \<exists>b \<in> set bytes. b < 0 \<or> b > 255 then Inr (0, 0)
         else
           Inr (push_bit 24 (word_of_int (bytes ! 0)) OR push_bit 16 (word_of_int (bytes ! 1)) OR
                push_bit 8 (word_of_int (bytes ! 2)) OR word_of_int (bytes ! 3),
                push_bit 8 (word_of_int (bytes ! 4)) OR word_of_int (bytes ! 5))))"

definition do_port ::
  "'w os \<Rightarrow> u32 \<Rightarrow> char list \<Rightarrow> ('w, 'z) server_scheme \<Rightarrow> fault + ('w, 'z) server_scheme" where
  "do_port os p args s =
     bindF (parse_port_args args) (\<lambda>(remote_ip, remote_port).
     if remote_ip = 0 \<or> remote_port = 0 then ftp_response 500 p ''Failed to parse parameters.'' s
     else
       bindF (new_active_channel os remote_ip remote_port s) (\<lambda>(d, s).
       bindF (get_client p s) (\<lambda>c. Inr (put_client p (c\<lparr>cdata := d\<rparr>) s))))"

text \<open>APPE, DELE, MKD, MODE, NLST, REST, RETR, RMD, RNFR, RNTO, SITE, SIZE, STOR and TYPE do nothing.\<close>

definition do_append :: "('w, 'z) server_scheme \<Rightarrow> fault + ('w, 'z) server_scheme" where
  "do_append s = Inr s"
definition do_delete :: "('w, 'z) server_scheme \<Rightarrow> fault + ('w, 'z) server_scheme" where
  "do_delete s = Inr s"
definition do_mkdir :: "('w, 'z) server_scheme \<Rightarrow> fault + ('w, 'z) server_scheme" where
  "do_mkdir s = Inr s"
definition do_mode :: "('w, 'z) server_scheme \<Rightarrow> fault + ('w, 'z) server_scheme" where
  "do_mode s = Inr s"
definition do_namelist :: "('w, 'z) server_scheme \<Rightarrow> fault + ('w, 'z) server_scheme" where
  "do_namelist s = Inr s"
definition do_restart :: "('w, 'z) server_scheme \<Rightarrow> fault + ('w, 'z) server_scheme" where
  "do_restart s = Inr s"
definition do_retrieve :: "('w, 'z) server_scheme \<Rightarrow> fault + ('w, 'z) server_scheme" where
  "do_retrieve s = Inr s"
definition do_rmdir :: "('w, 'z) server_scheme \<Rightarrow> fault + ('w, 'z) server_scheme" where
  "do_rmdir s = Inr s"
definition do_rename_from :: "('w, 'z) server_scheme \<Rightarrow> fault + ('w, 'z) server_scheme" where
  "do_rename_from s = Inr s"
definition do_rename_to :: "('w, 'z) server_scheme \<Rightarrow> fault + ('w, 'z) server_scheme" where
  "do_rename_to s = Inr s"
definition do_site :: "('w, 'z) server_scheme \<Rightarrow> fault + ('w, 'z) server_scheme" where
  "do_site s = Inr s"
definition do_size :: "('w, 'z) server_scheme \<Rightarrow> fault + ('w, 'z) server_scheme" where
  "do_size s = Inr s"
definition do_store :: "('w, 'z) server_scheme \<Rightarrow> fault + ('w, 'z) server_scheme" where
  "do_store s = Inr s"
definition do_type :: "('w, 'z) server_scheme \<Rightarrow> fault + ('w, 'z) server_scheme" where
  "do_type s = Inr s"

section \<open>The table\<close>

datatype handler =
    H_user | H_pass | H_quit | H_reinitialize | H_noop | H_list | H_pwd | H_cwd | H_cdup | H_size
  | H_passive | H_port | H_type | H_system | H_mode | H_retrieve | H_store | H_append | H_restart
  | H_delete | H_mkdir | H_rmdir | H_rename_from | H_rename_to | H_namelist | H_site | H_allocate

record command =
  mnemonic :: string
  authentication :: bool
  func :: handler

definition command_row :: "string \<Rightarrow> bool \<Rightarrow> handler \<Rightarrow> command" where
  "command_row m a f = \<lparr>mnemonic = m, authentication = a, func = f\<rparr>"

definition commands :: "command list" where
  "commands =
     [command_row ''USER'' False H_user, command_row ''PASS'' False H_pass,
      command_row ''QUIT'' False H_quit, command_row ''REIN'' False H_reinitialize,
      command_row ''NOOP'' False H_noop, command_row ''LIST'' True H_list,
      command_row ''PWD'' True H_pwd, command_row ''CWD'' True H_cwd,
      command_row ''CDUP'' True H_cdup, command_row ''SIZE'' True H_size,
      command_row ''PASV'' True H_passive, command_row ''PORT'' True H_port,
      command_row ''TYPE'' True H_type, command_row ''SYST'' True H_system,
      command_row ''MODE'' True H_mode, command_row ''RETR'' True H_retrieve,
      command_row ''STOR'' True H_store, command_row ''APPE'' True H_append,
      command_row ''REST'' True H_restart, command_row ''DELE'' True H_delete,
      command_row ''MKD'' True H_mkdir, command_row ''RMD'' True H_rmdir,
      command_row ''RNFR'' True H_rename_from, command_row ''RNTO'' True H_rename_to,
      command_row ''NLST'' True H_namelist, command_row ''SITE'' True H_site,
      command_row ''ALLO'' True H_allocate]"

text \<open>The call through the function pointer.\<close>

fun run_handler ::
  "'w os \<Rightarrow> handler \<Rightarrow> u32 \<Rightarrow> char list \<Rightarrow> ('w, 'z) server_scheme \<Rightarrow> fault + ('w, 'z) server_scheme" where
  "run_handler os H_user p args s = do_user p s"
| "run_handler os H_pass p args s = do_pass p s"
| "run_handler os H_quit p args s = do_quit p s"
| "run_handler os H_reinitialize p args s = do_reinitialize p s"
| "run_handler os H_noop p args s = do_noop p s"
| "run_handler os H_list p args s = do_list os p s"
| "run_handler os H_pwd p args s = do_pwd os p s"
| "run_handler os H_cwd p args s = do_cwd os p args s"
| "run_handler os H_cdup p args s = do_cdup p s"
| "run_handler os H_size p args s = do_size s"
| "run_handler os H_passive p args s = do_passive os p s"
| "run_handler os H_port p args s = do_port os p args s"
| "run_handler os H_type p args s = do_type s"
| "run_handler os H_system p args s = do_system p s"
| "run_handler os H_mode p args s = do_mode s"
| "run_handler os H_retrieve p args s = do_retrieve s"
| "run_handler os H_store p args s = do_store s"
| "run_handler os H_append p args s = do_append s"
| "run_handler os H_restart p args s = do_restart s"
| "run_handler os H_delete p args s = do_delete s"
| "run_handler os H_mkdir p args s = do_mkdir s"
| "run_handler os H_rmdir p args s = do_rmdir s"
| "run_handler os H_rename_from p args s = do_rename_from s"
| "run_handler os H_rename_to p args s = do_rename_to s"
| "run_handler os H_namelist p args s = do_namelist s"
| "run_handler os H_site p args s = do_site s"
| "run_handler os H_allocate p args s = do_allocate p s"

fun find_in :: "command list \<Rightarrow> string \<Rightarrow> command option" where
  "find_in [] m = None"
| "find_in (c # cs) m = (if m = mnemonic c then Some c else find_in cs m)"

definition find_command :: "string \<Rightarrow> command option" where
  "find_command m = find_in commands m"

text \<open>An unknown command is reported as such to a client that has logged in.\<close>

definition command_invoke ::
  "'w os \<Rightarrow> u32 \<Rightarrow> string \<Rightarrow> char list \<Rightarrow> ('w, 'z) server_scheme \<Rightarrow> fault + ('w, 'z) server_scheme" where
  "command_invoke os p m parameter s =
     bindF (get_client p s) (\<lambda>c.
     case find_command m of
       None \<Rightarrow>
         if IS_AUTHENTICATED c then ftp_response 502 p ''Command not implemented.'' s
         else ftp_response 530 p ''Please login with USER and PASS.'' s
     | Some cmd \<Rightarrow>
         if authentication cmd \<and> \<not> IS_AUTHENTICATED c then
           ftp_response 530 p ''Please login with USER and PASS.'' s
         else run_handler os (func cmd) p parameter s)"

section \<open>What every handler promises\<close>

text \<open>
  The contract of a handler, which the dispatch, the control connection and the polling of all
  clients rely on: it works on its own client only and keeps that client's connection and the bytes
  it has sent.
\<close>

locale command_handler =
  fixes run :: "'w os \<Rightarrow> u32 \<Rightarrow> char list \<Rightarrow> ('w, 'z) server_scheme \<Rightarrow> fault + ('w, 'z) server_scheme"
  assumes only_own: "run os p args s = Inr s' \<Longrightarrow> only_client p s s'"
begin

lemma keeps_own:
  "run os p args s = Inr s' \<Longrightarrow> client_heap s p = Some c \<Longrightarrow>
    \<exists>c'. client_heap s' p = Some c' \<and> same_connection c c'"
  using only_own unfolding only_client_def by fastforce

lemma keeps_others:
  "run os p args s = Inr s' \<Longrightarrow> q \<noteq> p \<Longrightarrow> client_heap s' q = client_heap s q \<and> clients s' = clients s"
  using only_own unfolding only_client_def by blast

lemma keeps_all:
  "run os p args s = Inr s' \<Longrightarrow> client_heap s p = Some c \<Longrightarrow> client_heap s' p \<noteq> None \<and>
    (\<forall>q. q \<noteq> p \<longrightarrow> client_heap s' q = client_heap s q)"
  using keeps_own keeps_others by fastforce

end

lemma put_then_response:
  assumes "ftp_response code p msg (put_client p c' s) = Inr s'"
    and "client_heap s p = Some c" and "same_connection c c'"
  shows "only_client p s s'"
  using only_client_trans [OF only_client_put [OF assms(2,3)] response_only_client [OF assms(1)]] .

lemma state_connection [simp]:
  "same_connection c (c\<lparr>cstate := x\<rparr>)" "same_connection c (c\<lparr>cdata := a\<rparr>)"
  by (simp_all add: same_connection_def)

lemma dir_connection:
  "(sound_dir (cwd c) \<Longrightarrow> sound_dir d) \<Longrightarrow> same_connection c (c\<lparr>cwd := d\<rparr>)"
  by (simp add: same_connection_def client_ok_def)

lemma drop_last_butlast: "drop_last_ent es = butlast es"
  by (induction es rule: drop_last_ent.induct) auto

lemma detach_sound: "sound_dir dir \<Longrightarrow> sound_dir (detach_last_pathent dir)"
  by (auto simp: sound_dir_def detach_last_pathent_def drop_last_butlast normal_def c_names_def
      dest: in_set_butlastD split: option.splits)

lemma merge_sound:
  assumes "new_vfs_path args m = Inr (parsed, m1)" and "vfs_path_merge dir parsed m1 = Inr (r, m2)"
    and "r \<noteq> None" and "sound_dir dir"
  shows "sound_dir r"
proof -
  obtain d where d: "dir = Some d" "absolute d" "normal (entities d)" "c_names (entities d)"
    using assms(4) by (auto simp: sound_dir_def split: option.splits)
  obtain q where q: "parsed = Some q" using assms(2,3) by (cases parsed) auto
  note inv = new_vfs_path_inv [OF assms(1) [unfolded q]]
  obtain x where x: "r = Some x" using assms(3) by auto
  have "x = (if absolute q then q else d\<lparr>entities := walk (entities d) (entities q)\<rparr>)"
    using vfs_path_merge_Some [OF assms(2) [unfolded d(1) q x] d(4) inv(1) d(3)] .
  moreover have "c_names (walk (entities d) (entities q))"
    using walk_subset [of "entities d" "entities q"] d(4) inv(1) by (auto simp: c_names_def)
  ultimately show ?thesis
    using d inv normal_walk [OF d(3)] by (simp add: x sound_dir_def)
qed

lemma allocs_only [simp]: "only_client p s (s\<lparr>allocs := m\<rparr>)"
  by (simp add: only_client_same)

interpretation user: command_handler "\<lambda>os p args s. do_user p s"
  by unfold_locales
    (auto simp: do_user_def fault_simps get_client_Inr intro: put_then_response)

interpretation pass: command_handler "\<lambda>os p args s. do_pass p s"
  by unfold_locales
    (auto simp: do_pass_def fault_simps get_client_Inr intro: put_then_response response_only_client
      split: if_splits)

interpretation quit: command_handler "\<lambda>os p args s. do_quit p s"
  by unfold_locales
    (auto simp: do_quit_def fault_simps get_client_Inr intro: put_then_response)

interpretation rein: command_handler "\<lambda>os p args s. do_reinitialize p s"
  by unfold_locales
    (auto simp: do_reinitialize_def fault_simps get_client_Inr intro: put_then_response)

interpretation noop: command_handler "\<lambda>os p args s. do_noop p s"
  by unfold_locales (simp add: do_noop_def response_only_client)

interpretation syst: command_handler "\<lambda>os p args s. do_system p s"
  by unfold_locales (simp add: do_system_def response_only_client)

interpretation allo: command_handler "\<lambda>os p args s. do_allocate p s"
  by unfold_locales (simp add: do_allocate_def response_only_client)

interpretation cdup: command_handler "\<lambda>os p args s. do_cdup p s"
  by unfold_locales
    (auto simp: do_cdup_def fault_simps get_client_Inr
      intro: put_then_response dir_connection detach_sound)

lemma allocating_Inr:
  "allocating f s = Inr (x, s') \<longleftrightarrow> (\<exists>m. f (allocs s) = Inr (x, m) \<and> s' = s\<lparr>allocs := m\<rparr>)"
  by (auto simp: allocating_def fault_simps)

lemma allocating_only: "allocating f s = Inr (x, s') \<Longrightarrow> only_client p s s'"
  by (auto simp: allocating_Inr)

lemma can_chdir_clients: "vfs_can_chdir os path s = Inr (x, s') \<Longrightarrow> same_clients s s'"
  by (auto simp: vfs_can_chdir_def same_clients_def sysc_def Let_def case_prod_beta
      split: option.splits if_splits)

interpretation cwd: command_handler do_cwd
proof
  fix os :: "'a os" and p args and s s' :: "('a, 'b) server_scheme"
  assume run: "do_cwd os p args s = Inr s'"
  then obtain parsed m1 c result m2 ok s3
    where 1: "new_vfs_path (Some args) (allocs s) = Inr (parsed, m1)"
      and c: "client_heap s p = Some c"
      and 2: "vfs_path_merge (cwd c) parsed m1 = Inr (result, m2)"
      and 3: "(if result = None then Inr (False, s\<lparr>allocs := m1, allocs := m2\<rparr>)
        else vfs_can_chdir os result (s\<lparr>allocs := m1, allocs := m2\<rparr>)) = Inr (ok, s3)"
      and 4: "(if ok then ftp_response 250 p ''CWD command successful.'' (put_client p (c\<lparr>cwd := result\<rparr>) s3)
        else ftp_response 550 p ''That directory does not exist.'' s3) = Inr s'"
    by (auto simp: do_cwd_def fault_simps allocating_Inr get_client_Inr)
  have s3: "same_clients s s3"
    using 3 by (auto simp: same_clients_def dest!: can_chdir_clients split: if_splits)
  then have h: "client_heap s3 p = Some c" using c by (simp add: same_clients_def)
  have "only_client p s3 s'"
  proof (cases ok)
    case True
    then have "result \<noteq> None" using 3 by (auto split: if_splits)
    then have "same_connection c (c\<lparr>cwd := result\<rparr>)"
      by (intro dir_connection merge_sound [OF 1 2])
    with True 4 h show ?thesis by (auto intro: put_then_response)
  qed (use 4 response_only_client in auto)
  then show "only_client p s s'" using same_clients_only [OF s3] only_client_trans by blast
qed

interpretation pwd: command_handler "\<lambda>os p args s. do_pwd os p s"
proof
  fix os :: "'a os" and p and args :: "char list" and s s' :: "('a, 'b) server_scheme"
  assume "do_pwd os p s = Inr s'"
  then obtain c :: client where c: "(case cwd c of None \<Rightarrow> Inl Null_pointer | Some d \<Rightarrow>
      let (pwd, m) = vfs_path_acquire (os_path_max os) d (allocs s); s = s\<lparr>allocs := m\<rparr> in
      case pwd of None \<Rightarrow> Inl Null_pointer
      | Some txt \<Rightarrow> ftp_responsef 257 p ([CHR 0x22] @ txt @ [CHR 0x22] @ '' is current directory.'') s) = Inr s'"
    by (auto simp: do_pwd_def fault_simps)
  then obtain m msg where "ftp_responsef 257 p msg (s\<lparr>allocs := m\<rparr>) = Inr s'"
    by (auto simp: Let_def case_prod_beta split: option.splits)
  then show "only_client p s s'"
    using only_client_trans [OF allocs_only responsef_only_client] by blast
qed

lemma list_entry_clients: "list_entry os parent name buf s = Inr (buf', s') \<Longrightarrow> same_clients s s'"
  by (auto simp: list_entry_def same_clients_def sysc_def fault_simps Let_def case_prod_beta
      split: option.splits if_splits)

lemma list_entries_clients: "list_entries os parent names buf s = Inr (buf', s') \<Longrightarrow> same_clients s s'"
proof (induction names arbitrary: buf s)
  case (Cons name names)
  then show ?case
    by (auto simp: fault_simps same_clients_def dest!: list_entry_clients)
qed (simp add: same_clients_def)

lemma build_list_clients:
  "build_directory_list os dir parent sz s = Inr (r, s') \<Longrightarrow> same_clients s s'"
  by (auto simp: build_directory_list_def same_clients_def fault_simps Let_def case_prod_beta
      dest!: list_entries_clients split: if_splits)

lemma list_directory_clients: "vfs_list_directory os dir s = Inr (r, s') \<Longrightarrow> same_clients s s'"
  by (auto simp: vfs_list_directory_def same_clients_def fault_simps Let_def case_prod_beta
      dest!: build_list_clients split: option.splits)

interpretation list: command_handler "\<lambda>os p args s. do_list os p s"
proof
  fix os :: "'a os" and p and args :: "char list" and s s' :: "('a, 'b) server_scheme"
  assume "do_list os p s = Inr s'"
  then obtain d r s1 a txts where d: "vfs_list_directory os d s = Inr (r, s1)"
      and s': "ftp_data_send_buffer os p a (s1\<lparr>strings := txts\<rparr>) = Inr s'"
  proof -
    assume run: "do_list os p s = Inr s'"
      and thesis: "\<And>d r s1 a txts. vfs_list_directory os d s = Inr (r, s1) \<Longrightarrow>
        ftp_data_send_buffer os p a (s1\<lparr>strings := txts\<rparr>) = Inr s' \<Longrightarrow> thesis"
    obtain d r s1 where d: "vfs_list_directory os d s = Inr (r, s1)"
        and r: "(case r of None \<Rightarrow> ftp_data_send_buffer os p 0 s1
          | Some (a, blk) \<Rightarrow> ftp_data_send_buffer os p a (s1\<lparr>strings := (strings s1)(a := Some blk)\<rparr>)) = Inr s'"
      using run by (auto simp: do_list_def fault_simps split: option.splits)
    show thesis
    proof (cases r)
      case None
      with r have "ftp_data_send_buffer os p 0 (s1\<lparr>strings := strings s1\<rparr>) = Inr s'" by simp
      then show thesis by (rule thesis [OF d])
    next
      case (Some x)
      with r thesis [OF d] show thesis by (cases x) simp
    qed
  qed
  have "only_client p s (s1\<lparr>strings := txts\<rparr>)"
    using list_directory_clients [OF d] by (simp add: same_clients_def only_client_same)
  then show "only_client p s s'" using data_send_only_client [OF s'] by (rule only_client_trans)
qed

interpretation port: command_handler do_port
proof
  fix os :: "'a os" and p args and s s' :: "('a, 'b) server_scheme"
  assume "do_port os p args s = Inr s'"
  then consider "ftp_response 500 p ''Failed to parse parameters.'' s = Inr s'"
    | ip port d s1 c where "new_active_channel os ip port s = Inr (d, s1)" "client_heap s1 p = Some c"
        "s' = put_client p (c\<lparr>cdata := d\<rparr>) s1"
    by (auto simp: do_port_def fault_simps get_client_Inr split: if_splits)
  then show "only_client p s s'"
  proof cases
    case 1
    then show ?thesis by (rule response_only_client)
  next
    case 2
    have "only_client p s1 s'" unfolding 2(3) by (rule only_client_put [OF 2(2)]) simp
    with same_clients_only [OF new_active_channel_clients [OF 2(1)]] show ?thesis
      by (rule only_client_trans)
  qed
qed

lemma network_state_clients [simp]:
  "client_heap (snd (network_get_host_ip os s)) = client_heap s"
  "clients (snd (network_get_host_ip os s)) = clients s"
  "client_heap (snd (network_get_ephermal_port s)) = client_heap s"
  "clients (snd (network_get_ephermal_port s)) = clients s"
  by (simp_all add: network_get_host_ip_def network_get_ephermal_port_def Let_def case_prod_beta)

interpretation passive_mode: command_handler "\<lambda>os p args s. do_passive os p s"
proof
  fix os :: "'a os" and p and args :: "char list" and s s' :: "('a, 'b) server_scheme"
  assume "do_passive os p s = Inr s'"
  then obtain c s1 where c: "client_heap s p = Some c" "p \<noteq> 0"
      and 1: "(if cdata c = 0 then Inr s else bindF (get_channel (cdata c) s) (\<lambda>ch.
        bindF (cell_get (iface ch)) (\<lambda>i. iface_free os i (cdata c) s))) = Inr s1"
    by (auto simp: do_passive_def fault_simps get_client_Inr)
  let ?s2 = "snd (network_get_ephermal_port (snd (network_get_host_ip os s1)))"
  let ?ip = "fst (network_get_host_ip os s1)"
    and ?port = "fst (network_get_ephermal_port (snd (network_get_host_ip os s1)))"
  note run = \<open>do_passive os p s = Inr s'\<close>
  obtain d s3 where 3: "new_passive_channel os ?ip ?port ?s2 = Inr (d, s3)"
    using run c 1 by (cases "new_passive_channel os ?ip ?port ?s2")
      (auto simp: do_passive_def get_client_def Let_def case_prod_beta)
  have 4: "bindF (get_channel d (put_client p (c\<lparr>cdata := d\<rparr>) s3)) (\<lambda>ch.
        let (msg, m) = malloc (allocs (put_client p (c\<lparr>cdata := d\<rparr>) s3));
            s = (put_client p (c\<lparr>cdata := d\<rparr>) s3)\<lparr>allocs := m\<rparr> in
        if msg = 0 then Inr s else ftp_response 227 p (pasv_message (dip ch) (dport ch)) s) = Inr s'"
    using run c 1 3
    by (simp add: do_passive_def get_client_def Let_def case_prod_beta cong: if_cong)
  have h: "same_clients s s3"
    using 1 new_passive_channel_clients [OF 3]
    by (auto simp: same_clients_def iface_free_def fault_simps dest!: free_data_channel_clients
        split: if_splits)
  then have o1: "only_client p s (put_client p (c\<lparr>cdata := d\<rparr>) s3)"
    using c by (simp add: only_client_def same_clients_def)
  have "only_client p (put_client p (c\<lparr>cdata := d\<rparr>) s3) s'"
    using 4 only_client_trans [OF allocs_only response_only_client]
    by (auto simp: fault_simps Let_def case_prod_beta split: if_splits)
  with o1 show "only_client p s s'" by (rule only_client_trans)
qed

lemmas do_nothing = do_append_def do_delete_def do_mkdir_def do_mode_def do_namelist_def
  do_restart_def do_retrieve_def do_rmdir_def do_rename_from_def do_rename_to_def do_site_def
  do_size_def do_store_def do_type_def

text \<open>So does the call through the table.\<close>

interpretation table: command_handler "\<lambda>os. run_handler os h" for h
proof
  show "only_client p s s'" if "run_handler os h p args s = Inr s'"
    for os :: "'a os" and p args and s s' :: "('a, 'b) server_scheme"
    using that
    by (cases h)
      (auto simp: do_nothing intro: user.only_own pass.only_own quit.only_own rein.only_own
        noop.only_own syst.only_own allo.only_own cdup.only_own cwd.only_own pwd.only_own
        list.only_own port.only_own passive_mode.only_own)
qed

lemma invoke_only_client:
  assumes "command_invoke os p m parameter s = Inr s'"
  shows "only_client p s s'"
  using assms
  by (auto simp: command_invoke_def fault_simps intro: response_only_client table.only_own
      split: option.splits if_splits)

section \<open>What a reply changes\<close>

lemma response_effect:
  assumes "ftp_response code p msg s = Inr s'" and "client_heap s p = Some c"
  shows "\<exists>ob m. s' = (put_client p (c\<lparr>output_buffer := ob\<rparr>) s)\<lparr>allocs := m\<rparr>"
proof -
  obtain r m where m: "malloc (allocs s) = (r, m)" by fastforce
  have same: "put_client p (c\<lparr>output_buffer := output_buffer c\<rparr>) s = s"
    using assms(2) by (cases s) (simp add: put_client_def fun_upd_idem)
  show ?thesis
  proof (cases "r = 0")
    case True
    then show ?thesis using assms(1) m same
      by (intro exI [of _ "output_buffer c"] exI [of _ m]) (simp add: ftp_response_def)
  next
    case False
    have "(put_client p x (s\<lparr>allocs := m\<rparr>)) = (put_client p x s)\<lparr>allocs := m\<rparr>" for x
      by (simp add: put_client_def)
    with False show ?thesis using assms m
      by (auto simp: ftp_response_def fault_simps Let_def get_client_Inr the_buffer_def
          split: option.splits)
  qed
qed

lemma response_client:
  assumes "ftp_response code p msg s = Inr s'" and "client_heap s p = Some c"
  shows "\<exists>ob. client_heap s' p = Some (c\<lparr>output_buffer := ob\<rparr>)"
  using response_effect [OF assms] by auto

text \<open>Everything a client can see of the world outside its own record.\<close>

definition outside :: "('w, 'z) server_scheme \<Rightarrow>
    'w \<times> u32 \<times> (u32 \<Rightarrow> data_channel option) \<times> (u32 \<Rightarrow> char list option) \<times> u32 \<times> u32 \<times> u32 list" where
  "outside s = (world s, next_ephermal_port s, channels s, strings s, dtp_list s, next_dtp_list s, clients s)"

lemma outside_simps [simp]:
  "outside (put_client p c s) = outside s" "outside (s\<lparr>allocs := m\<rparr>) = outside s"
  by (simp_all add: outside_def put_client_def)

lemma response_outside: "ftp_response code p msg s = Inr s' \<Longrightarrow> outside s' = outside s"
  by (auto simp: ftp_response_def fault_simps Let_def case_prod_beta split: if_splits)

section \<open>The login session\<close>

text \<open>
  The abstract session: the login state after a command, for a client that is not logged in and has
  no transfer. Only USER, PASS, QUIT and REIN move it.
\<close>

definition session_next :: "string \<Rightarrow> u32 \<Rightarrow> u32" where
  "session_next m st =
     (if m = ''USER'' then STATE_USER
      else if m = ''PASS'' \<and> st = STATE_USER then STATE_AUTH
      else if m = ''QUIT'' then st OR STATE_DISCONN
      else if m = ''REIN'' then STATE_NONE
      else st)"

lemma find_in_Some: "find_in cs m = Some c \<Longrightarrow> c \<in> set cs \<and> mnemonic c = m"
  by (induction cs) (auto split: if_splits)

lemma find_in_mem: "distinct (map mnemonic cs) \<Longrightarrow> c \<in> set cs \<Longrightarrow> find_in cs (mnemonic c) = Some c"
  by (induction cs) (auto simp: image_iff)

lemma distinct_commands: "distinct (map mnemonic commands)"
  by code_simp

lemma find_command_iff: "find_command m = Some c \<longleftrightarrow> c \<in> set commands \<and> mnemonic c = m"
  unfolding find_command_def using find_in_Some find_in_mem [OF distinct_commands] by blast

text \<open>The commands that need no login.\<close>

definition open_commands :: "(string \<times> handler) list" where
  "open_commands = [(''USER'', H_user), (''PASS'', H_pass), (''QUIT'', H_quit),
     (''REIN'', H_reinitialize), (''NOOP'', H_noop)]"

lemma open_command_cases:
  assumes "find_command m = Some x" and "\<not> authentication x"
  shows "(m, func x) \<in> set open_commands"
proof -
  have "\<forall>x \<in> set commands. authentication x \<or> (mnemonic x, func x) \<in> set open_commands"
    by code_simp
  then show ?thesis using assms by (auto simp: find_command_iff)
qed

lemma closed_command:
  assumes "find_command m = None \<or> (\<exists>x. find_command m = Some x \<and> authentication x)"
  shows "m \<notin> {''USER'', ''PASS'', ''QUIT'', ''REIN'', ''NOOP''}"
proof -
  have "\<forall>k \<in> {''USER'', ''PASS'', ''QUIT'', ''REIN'', ''NOOP''}. \<exists>x. find_command k = Some x \<and> \<not> authentication x"
    by (simp add: find_command_def commands_def command_row_def)
  then show ?thesis using assms by fastforce
qed

lemma unauth_states: "st < STATE_AUTH \<Longrightarrow> st = STATE_NONE \<or> st = STATE_USER"
  unfolding client_states by (simp add: word_less_nat_alt word_unat_eq_iff) arith

lemma unauth_invoke:
  assumes run: "command_invoke os p m args s = Inr s'" and c: "client_heap s p = Some c"
    and st: "cstate c < STATE_AUTH"
  shows "\<exists>c'. client_heap s' p = Some c' \<and> cstate c' = session_next m (cstate c) \<and>
    cwd c' = cwd c \<and> cdata c' = cdata c \<and> outside s' = outside s"
proof -
  have auth: "\<not> IS_AUTHENTICATED c" using st by (simp add: IS_AUTHENTICATED_def)
  have resp: ?thesis
    if "ftp_response code p msg (put_client p c1 s) = Inr s'"
      "cstate c1 = session_next m (cstate c)" "cwd c1 = cwd c" "cdata c1 = cdata c" for code msg c1
    using response_client [OF that(1), of c1] response_outside [OF that(1)] that(2-4) by auto
  have same: "put_client p c s = s"
    using c by (cases s) (simp add: put_client_def fun_upd_idem)
  have p: "get_client p s = Inr c" using run c by (auto simp: command_invoke_def get_client_Inr fault_simps)
  show ?thesis
  proof (cases "find_command m = None \<or> (\<exists>x. find_command m = Some x \<and> authentication x)")
    case True
    then have "ftp_response 530 p ''Please login with USER and PASS.'' (put_client p c s) = Inr s'"
      using run p auth same by (auto simp: command_invoke_def)
    then show ?thesis
      by (rule resp) (use closed_command [OF True] in \<open>auto simp: session_next_def\<close>)
  next
    case False
    then obtain x where x: "find_command m = Some x" "\<not> authentication x" by auto
    then have h: "run_handler os (func x) p args s = Inr s'"
      using run p by (simp add: command_invoke_def)
    note st2 = unauth_states [OF st]
    from open_command_cases [OF x] consider
        (user) "m = ''USER''" "func x = H_user" | (pass) "m = ''PASS''" "func x = H_pass"
      | (quit) "m = ''QUIT''" "func x = H_quit" | (rein) "m = ''REIN''" "func x = H_reinitialize"
      | (noop) "m = ''NOOP''" "func x = H_noop"
      by (auto simp: open_commands_def)
    then show ?thesis
    proof cases
      case user
      then have "ftp_response 331 p ''Username OK. Ready for password.'' (put_client p (c\<lparr>cstate := STATE_USER\<rparr>) s) = Inr s'"
        using h p by (simp add: do_user_def)
      then show ?thesis by (rule resp) (simp_all add: session_next_def user)
    next
      case pass
      show ?thesis
      proof (cases "cstate c = STATE_USER")
        case True
        moreover have "STATE_USER \<noteq> STATE_NONE" by (simp add: client_states)
        ultimately have "ftp_response 230 p ''User logged in successfully.'' (put_client p (c\<lparr>cstate := STATE_AUTH\<rparr>) s) = Inr s'"
          using h p pass by (simp add: do_pass_def)
        then show ?thesis by (rule resp) (simp_all add: session_next_def pass True)
      next
        case False
        then have "ftp_response 332 p ''Need account for login.'' (put_client p c s) = Inr s'"
          using h p pass st2 same by (simp add: do_pass_def)
        then show ?thesis by (rule resp) (simp_all add: session_next_def pass False)
      qed
    next
      case quit
      then have "ftp_response 221 p ''Service closing control connection.''
          (put_client p (c\<lparr>cstate := cstate c OR STATE_DISCONN\<rparr>) s) = Inr s'"
        using h p by (simp add: do_quit_def)
      then show ?thesis by (rule resp) (simp_all add: session_next_def quit)
    next
      case rein
      then have "ftp_response 220 p ''Service ready for new user.'' (put_client p (c\<lparr>cstate := STATE_NONE\<rparr>) s) = Inr s'"
        using h p by (simp add: do_reinitialize_def)
      then show ?thesis by (rule resp) (simp_all add: session_next_def rein)
    next
      case noop
      then have "ftp_response 200 p ''Okey dokey artichokey!'' (put_client p c s) = Inr s'"
        using h p same by (simp add: do_noop_def)
      then show ?thesis by (rule resp) (simp_all add: session_next_def noop)
    qed
  qed
qed

section \<open>Replies that arrive\<close>

lemma response_ok:
  assumes c: "client_heap s p = Some c" "p \<noteq> 0" and b: "output_buffer c = Some b" "iob_wf b"
    and len: "length (dec_int code @ '' '' @ msg @ [CR, LF]) \<le> 2 ^ 30"
  shows "\<exists>b' m. ftp_response code p msg s =
      Inr ((put_client p (c\<lparr>output_buffer := Some b'\<rparr>) s)\<lparr>allocs := m\<rparr>) \<and> iob_wf b' \<and>
    (never_fails (allocs s) \<longrightarrow> never_fails m \<and>
     (int (length (contents b @ dec_int code @ '' '' @ msg @ [CR, LF])) \<le> bsize b \<longrightarrow>
       contents b' = contents b @ dec_int code @ '' '' @ msg @ [CR, LF]))"
proof -
  let ?t = "dec_int code @ '' '' @ msg @ [CR, LF]"
  obtain r m where m: "malloc (allocs s) = (r, m)" by fastforce
  have same: "put_client p (c\<lparr>output_buffer := Some b\<rparr>) s = s"
    using c(1) b(1) by (cases s) (simp add: put_client_def fun_upd_idem)
  have swap: "put_client p x (s\<lparr>allocs := m\<rparr>) = (put_client p x s)\<lparr>allocs := m\<rparr>" for x
    by (simp add: put_client_def)
  have nf: "never_fails (allocs s) \<Longrightarrow> r \<noteq> 0 \<and> never_fails m"
    using malloc_never_fails [of "allocs s"] m by auto
  obtain n b' where p: "put_string b ?t = Inr (n, b')" "iob_wf b'"
      "int (length (contents b @ ?t)) \<le> bsize b \<longrightarrow> contents b' = contents b @ ?t"
  proof (cases "int (length (contents b @ ?t)) \<le> bsize b")
    case True
    then show ?thesis using out_lines.put_fits [of b ?t] b(2) that by auto
  next
    case False
    then have "put_string b ?t = Inr (-1, b)" using put_string_full [OF b(2)] len by auto
    then show ?thesis using that b(2) False by blast
  qed
  show ?thesis
  proof (cases "r = 0")
    case True
    then have "ftp_response code p msg s = Inr ((put_client p (c\<lparr>output_buffer := Some b\<rparr>) s)\<lparr>allocs := m\<rparr>)"
      using m same by (simp add: ftp_response_def)
    then show ?thesis using b(2) nf True by blast
  next
    case False
    then have "ftp_response code p msg s = Inr ((put_client p (c\<lparr>output_buffer := Some b'\<rparr>) s)\<lparr>allocs := m\<rparr>)"
      using m c b(1) p(1) by (simp add: ftp_response_def get_client_def the_buffer_def put_string_def swap)
    then show ?thesis using p(2,3) nf by blast
  qed
qed

section \<open>A sequence of commands\<close>

fun invoke_all ::
  "'w os \<Rightarrow> u32 \<Rightarrow> (string \<times> char list) list \<Rightarrow> ('w, 'z) server_scheme \<Rightarrow> fault + ('w, 'z) server_scheme" where
  "invoke_all os p [] s = Inr s"
| "invoke_all os p ((m, args) # cmds) s = bindF (command_invoke os p m args s) (invoke_all os p cmds)"

lemma login_trace:
  assumes "invoke_all os p cmds s = Inr s'" and "client_heap s p = Some c" and "cstate c < STATE_AUTH"
    and "client_heap s' p = Some c'" and "IS_AUTHENTICATED c'" and "''QUIT'' \<notin> set (map fst cmds)"
  shows "(cstate c = STATE_USER \<and> (\<exists>ys zs. map fst cmds = ys @ ''PASS'' # zs \<and> ''REIN'' \<notin> set ys)) \<or>
    (\<exists>xs ys zs. map fst cmds = xs @ ''USER'' # ys @ ''PASS'' # zs \<and> ''REIN'' \<notin> set ys)"
  using assms(1-3,6)
proof (induction cmds arbitrary: s c)
  case Nil
  then show ?case using assms(4,5) by (auto simp: IS_AUTHENTICATED_def)
next
  case (Cons x cmds)
  obtain m args where x: "x = (m, args)" by (cases x)
  with Cons.prems(1) obtain s1 where s1: "command_invoke os p m args s = Inr s1"
      "invoke_all os p cmds s1 = Inr s'" by (auto simp: fault_simps)
  obtain c1 where c1: "client_heap s1 p = Some c1" "cstate c1 = session_next m (cstate c)"
    using unauth_invoke [OF s1(1) Cons.prems(2,3)] by blast
  have q: "m \<noteq> ''QUIT''" "''QUIT'' \<notin> set (map fst cmds)" using Cons.prems(4) x by auto
  have st: "cstate c = STATE_NONE \<or> cstate c = STATE_USER" by (rule unauth_states [OF Cons.prems(3)])
  show ?case
  proof (cases "m = ''PASS'' \<and> cstate c = STATE_USER")
    case True
    then show ?thesis using x by (intro disjI1) (auto intro: exI [of _ "[]"])
  next
    case False
    have lt: "STATE_NONE < STATE_AUTH" "STATE_USER < STATE_AUTH" "STATE_NONE \<noteq> STATE_USER"
      by (simp_all add: client_states)
    then have "cstate c1 < STATE_AUTH"
      using c1(2) False q(1) st by (auto simp: session_next_def)
    from Cons.IH [OF s1(2) c1(1) this q(2)] show ?thesis
    proof
      assume "cstate c1 = STATE_USER \<and> (\<exists>ys zs. map fst cmds = ys @ ''PASS'' # zs \<and> ''REIN'' \<notin> set ys)"
      then obtain ys zs where y: "cstate c1 = STATE_USER" "map fst cmds = ys @ ''PASS'' # zs" "''REIN'' \<notin> set ys"
        by blast
      show ?thesis
      proof (cases "m = ''USER''")
        case True
        then have "map fst (x # cmds) = [] @ ''USER'' # ys @ ''PASS'' # zs" using x y(2) by simp
        then show ?thesis using y(3) by blast
      next
        case other: False
        then have "m \<noteq> ''REIN''" "cstate c = STATE_USER"
          using y(1) c1(2) lt q(1) False st by (auto simp: session_next_def split: if_splits)
        moreover have "map fst (x # cmds) = (m # ys) @ ''PASS'' # zs" using x y(2) by simp
        ultimately show ?thesis using y(3)
          by (metis (no_types, lifting) set_ConsD)
      qed
    next
      assume "\<exists>xs ys zs. map fst cmds = xs @ ''USER'' # ys @ ''PASS'' # zs \<and> ''REIN'' \<notin> set ys"
      then obtain xs ys zs where "map fst (x # cmds) = (m # xs) @ ''USER'' # ys @ ''PASS'' # zs" "''REIN'' \<notin> set ys"
        using x by auto
      then show ?thesis by blast
    qed
  qed
qed

section \<open>Numbers in the argument of PORT\<close>

text \<open>Six numbers as the reply to PASV prints them.\<close>

definition port_text :: "u32 \<Rightarrow> u16 \<Rightarrow> string" where
  "port_text ip port =
     dec_nat (unat (take_bit 8 (drop_bit 24 ip))) @ '','' @ dec_nat (unat (take_bit 8 (drop_bit 16 ip))) @ '','' @
     dec_nat (unat (take_bit 8 (drop_bit 8 ip))) @ '','' @ dec_nat (unat (take_bit 8 ip)) @ '','' @
     dec_nat (unat (take_bit 8 (drop_bit 8 port))) @ '','' @ dec_nat (unat (take_bit 8 port))"

lemma pasv_message_text: "pasv_message ip port = ''Entering passive mode ('' @ port_text ip port @ '')''"
  by (simp add: pasv_message_def port_text_def dec_u32_def bytes32 bytes16)

lemma digit_classes:
  fixes d :: nat
  assumes "d < 10"
  shows "char_of (48 + d) \<noteq> NUL" "\<not> isspace (char_of (48 + d))" "isdigit (char_of (48 + d))"
    "of_char (char_of (48 + d) :: char) = 48 + d" "char_of (48 + d) \<noteq> CHR '',''"
proof -
  show o: "of_char (char_of (48 + d) :: char) = 48 + d" using assms by (simp add: of_char_char_of)
  show "char_of (48 + d) \<noteq> NUL" by (rule digit_char [OF assms])
  show "\<not> isspace (char_of (48 + d))" "isdigit (char_of (48 + d))"
    using o assms by (simp_all add: isspace_def isdigit_def)
  show "char_of (48 + d) \<noteq> CHR '',''"
  proof
    assume "char_of (48 + d) = CHR '',''"
    then have "(of_char (char_of (48 + d) :: char) :: nat) = of_char (CHR '','')" by simp
    then show False using o by simp
  qed
qed

lemma port_loop_digit:
  assumes "d < 10" and "k < 6" and "0 \<le> seg" and "seg < 1000000"
  shows "port_loop (char_of (48 + d) # rest) bytes k seg = port_loop rest bytes k (seg * 10 + int d)"
proof -
  have "int (of_char (char_of (48 + d) :: char) - 48) = int d"
    unfolding digit_classes(4) [OF assms(1)] by simp
  moreover have "c_int (seg * 10) = Inr (seg * 10)" "c_int (seg * 10 + int d) = Inr (seg * 10 + int d)"
    using assms by (simp_all add: in_int_def INT_MAX_def)
  ultimately show ?thesis using digit_classes [OF assms(1)] assms(2) by simp
qed

lemma port_loop_number:
  assumes "n < 1000" and "k < 6"
  shows "port_loop (dec_nat n @ rest) bytes k 0 = port_loop rest bytes k (int n)"
  using assms(1)
proof (induction n arbitrary: rest rule: dec_nat.induct)
  case (1 n)
  show ?case
  proof (cases "n < 10")
    case True
    then show ?thesis using port_loop_digit [of n k 0] assms(2) by (subst dec_nat.simps) simp
  next
    case False
    have "port_loop (dec_nat (n div 10) @ char_of (48 + n mod 10) # rest) bytes k 0 =
        port_loop (char_of (48 + n mod 10) # rest) bytes k (int (n div 10))"
      using 1 False by simp
    also have "\<dots> = port_loop rest bytes k (int (n div 10) * 10 + int (n mod 10))"
      using "1.prems" assms(2) by (intro port_loop_digit) auto
    also have "int (n div 10) * 10 + int (n mod 10) = int n" by presburger
    finally show ?thesis using False by (subst dec_nat.simps) simp
  qed
qed

lemma port_loop_comma:
  "k < 6 \<Longrightarrow> seg \<le> 255 \<Longrightarrow> port_loop (CHR '','' # rest) bytes k seg = port_loop rest (bytes[k := seg]) (k + 1) 0"
  by (simp add: isspace_def isdigit_def)

lemma port_loop_field:
  "n < 256 \<Longrightarrow> k < 6 \<Longrightarrow>
    port_loop (dec_nat n @ CHR '','' # rest) bytes k 0 = port_loop rest (bytes[k := int n]) (k + 1) 0"
  using port_loop_number [of n k "CHR '','' # rest" bytes] port_loop_comma [of k "int n" rest bytes] by simp

lemma parse_six:
  assumes "a < 256" "b < 256" "c < 256" "d < 256" "e < 256" "f < 256"
  shows "port_loop (dec_nat a @ '','' @ dec_nat b @ '','' @ dec_nat c @ '','' @ dec_nat d @ '','' @
      dec_nat e @ '','' @ dec_nat f @ NUL # rest) [0, 0, 0, 0, 0, 0] 0 0 =
    Inr (Some ([int a, int b, int c, int d, int e, 0], 5, int f))"
proof -
  let ?r5 = "dec_nat f @ NUL # rest"
  let ?r4 = "dec_nat e @ CHR '','' # ?r5"
  let ?r3 = "dec_nat d @ CHR '','' # ?r4"
  let ?r2 = "dec_nat c @ CHR '','' # ?r3"
  let ?r1 = "dec_nat b @ CHR '','' # ?r2"
  have 0: "port_loop (dec_nat a @ CHR '','' # ?r1) [0, 0, 0, 0, 0, 0] 0 0 = port_loop ?r1 [int a, 0, 0, 0, 0, 0] 1 0"
    using port_loop_field [OF assms(1), of 0] by simp
  have 1: "port_loop ?r1 [int a, 0, 0, 0, 0, 0] 1 0 = port_loop ?r2 [int a, int b, 0, 0, 0, 0] 2 0"
    using port_loop_field [OF assms(2), of 1] by (simp add: numeral_2_eq_2)
  have 2: "port_loop ?r2 [int a, int b, 0, 0, 0, 0] 2 0 = port_loop ?r3 [int a, int b, int c, 0, 0, 0] 3 0"
    using port_loop_field [OF assms(3), of 2] by (simp add: eval_nat_numeral)
  have 3: "port_loop ?r3 [int a, int b, int c, 0, 0, 0] 3 0 = port_loop ?r4 [int a, int b, int c, int d, 0, 0] 4 0"
    using port_loop_field [OF assms(4), of 3] by (simp add: eval_nat_numeral)
  have 4: "port_loop ?r4 [int a, int b, int c, int d, 0, 0] 4 0 = port_loop ?r5 [int a, int b, int c, int d, int e, 0] 5 0"
    using port_loop_field [OF assms(5), of 4] by (simp add: eval_nat_numeral)
  have 5: "port_loop ?r5 [int a, int b, int c, int d, int e, 0] 5 0 =
      Inr (Some ([int a, int b, int c, int d, int e, 0], 5, int f))"
    using port_loop_number [of f 5] assms(6) by simp
  show ?thesis using 0 1 2 3 4 5 by simp
qed

lemma byte_bound_uint: "uint (take_bit 8 x) \<le> 255"
proof -
  have "int (unat (take_bit 8 x)) < int 256" using byte_bound [of x] by (simp only: of_nat_less_iff)
  then show ?thesis by simp
qed

lemma parse_port_ok:
  assumes "port_loop str [0, 0, 0, 0, 0, 0] 0 0 = Inr (Some ([a, b, c, d, e, 0], 5, f))"
    and "\<forall>x \<in> {a, b, c, d, e, f}. 0 \<le> x \<and> x \<le> 255"
  shows "parse_port_args str =
    Inr (push_bit 24 (word_of_int a) OR push_bit 16 (word_of_int b) OR push_bit 8 (word_of_int c) OR
      word_of_int d, push_bit 8 (word_of_int e) OR word_of_int f)"
proof -
  have "write_at [a, b, c, d, e, 0] (int 5) [f] = Inr [a, b, c, d, e, f]" by (simp add: write_at_def)
  moreover have "\<not> (\<exists>x \<in> set [a, b, c, d, e, f]. x < 0 \<or> x > 255)" using assms(2) by auto
  ultimately show ?thesis by (simp add: parse_port_args_def assms(1))
qed

section \<open>A server to run the commands on\<close>

definition buf0 :: io_buffer where
  "buf0 = \<lparr>buffer = replicate 128 NUL, line = replicate 128 NUL, bsize = 128, head = 0\<rparr>"

definition client0 :: client where
  "client0 = \<lparr>cfd = 4, cip = 0x7F000001, cport = 5000, cstate = STATE_NONE, input_buffer = Some buf0,
     output_buffer = Some buf0, cdata = 0, cwd = Some \<lparr>entities = [''a'', ''b''], absolute = True\<rparr>\<rparr>"

definition server0 :: "host \<Rightarrow> client \<Rightarrow> host server" where
  "server0 w c = \<lparr>world = w, allocs = (\<lambda>_. 64), next_ephermal_port = 1024, channels = Map.empty,
     strings = Map.empty, dtp_list = 0, next_dtp_list = 0, clients = 640 # replicate 24 0,
     client_heap = [640 \<mapsto> c]\<rparr>"

lemma buf0_ok: "iob_wf buf0" "iob_input buf0" "contents buf0 = []"
  by (simp_all add: buf0_def iob_wf_def iob_input_def contents_def)

lemma client0_ok: "client_ok client0"
  using buf0_ok by (simp add: client_ok_def client0_def sound_dir_def normal_def c_names_def)

lemma invoke_open:
  assumes "find_command m = Some x" and "\<not> authentication x" and "client_heap s p = Some c" and "p \<noteq> 0"
  shows "command_invoke os p m args s = run_handler os (func x) p args s"
  using assms by (simp add: command_invoke_def get_client_def)

lemma find_USER: "find_command ''USER'' = Some (command_row ''USER'' False H_user)"
  and find_PASS: "find_command ''PASS'' = Some (command_row ''PASS'' False H_pass)"
  and find_QUIT: "find_command ''QUIT'' = Some (command_row ''QUIT'' False H_quit)"
  by (simp_all add: find_command_def commands_def command_row_def)

lemma quit_ok:
  assumes "client_heap s p = Some c" and "p \<noteq> 0" and "client_ok c"
  shows "\<exists>ob m. command_invoke os p ''QUIT'' a s =
    Inr ((put_client p (c\<lparr>cstate := cstate c OR STATE_DISCONN, output_buffer := ob\<rparr>) s)\<lparr>allocs := m\<rparr>)"
proof -
  let ?c = "c\<lparr>cstate := cstate c OR STATE_DISCONN\<rparr>" and ?s = "put_client p (c\<lparr>cstate := cstate c OR STATE_DISCONN\<rparr>) s"
  obtain b where b: "output_buffer ?c = Some b" "iob_wf b"
    using assms(3) by (auto simp: client_ok_def split: option.splits)
  have "length (dec_int 221 @ '' '' @ ''Service closing control connection.'' @ [CR, LF]) \<le> 2 ^ 30"
    by (simp add: dec_int_def dec_nat.simps)
  from response_ok [OF _ assms(2) b this, of ?s] obtain b' m where
    "ftp_response 221 p ''Service closing control connection.'' ?s =
      Inr ((put_client p (?c\<lparr>output_buffer := Some b'\<rparr>) ?s)\<lparr>allocs := m\<rparr>)" by auto
  moreover have "put_client p x ?s = put_client p x s" for x by (simp add: put_client_def)
  ultimately show ?thesis
    using assms invoke_open [OF find_QUIT _ assms(1,2), of os a]
    by (auto simp: command_row_def do_quit_def get_client_def)
qed

text \<open>A path of two dots alone is normalised to the empty path.\<close>

lemma dots_vanish:
  assumes "new_vfs_path (Some (''..'' @ NUL # rest)) m = Inr (Some q, m')"
  shows "entities q = [] \<and> \<not> absolute q"
proof -
  have g: "isgraph (CHR ''.'')" by (simp add: isgraph_def)
  have l: "parse_loop (''..'' @ NUL # rest) 0 0 [] m = Inr ((Some [], 0), m)" for m
    using g by (simp add: parse_loop.simps [of _ 0] parse_loop.simps [of _ "Suc 0"] parse_loop.simps [of _ "Suc (Suc 0)"])
  have "es = [] \<or> es = [''..'']" if "vfs_pathent_parse (Some (''..'' @ NUL # rest)) m = Inr (es, m1)" for es m m1
    using that l by (auto simp: vfs_pathent_parse_def read_at_def pathent_list_append_def new_vfs_pathent_def
        fault_simps case_prod_beta Let_def split: option.splits if_splits)
  then have "walk [] es = []" if "vfs_pathent_parse (Some (''..'' @ NUL # rest)) m = Inr (es, m1)" for es m m1
    using that by (fastforce simp: walk_step_def)
  then show ?thesis
    using assms by (auto simp: new_vfs_path_def new_vfs_path_internal_def read_at_def fault_simps
        entities_resolve case_prod_beta Let_def split: option.splits if_splits)
qed

section \<open>Changing the data channel\<close>

lemma free_removes:
  assumes "free_data_channel os p s = Inr s'" and "p \<noteq> 0"
  shows "channels s' p = None \<and> dtp_list s' = dtp_list s"
proof -
  obtain c s1 where "free_local os c s = Inr s1" "channels s' p = None" "dtp_list s' = dtp_list s1"
    using assms by (simp add: free_data_channel_def fault_simps Let_def) auto
  then show ?thesis by (auto simp: free_local_def split: if_splits option.splits)
qed

lemma new_data_effect:
  assumes "new_data_channel os ip port s = Inr (p, s')"
  shows "dtp_list s' = dtp_list s \<and> (\<forall>q. q \<noteq> p \<longrightarrow> channels s' q = channels s q)"
proof -
  obtain q m where m: "malloc (allocs s) = (q, m)" by fastforce
  obtain ob m' where b: "new_buffer 192000 m = (ob, m')" by fastforce
  consider "q = 0" | "q \<noteq> 0" "ip = 0" | "q \<noteq> 0" "ip \<noteq> 0" "ob = None" | "q \<noteq> 0" "ip \<noteq> 0" "ob \<noteq> None" by blast
  then show ?thesis
  proof cases
    case 1
    then show ?thesis using assms m by (auto simp: new_data_channel_def)
  next
    case 4
    then show ?thesis using assms m b by (auto simp: new_data_channel_def Let_def)
  qed (use assms m b in \<open>auto simp: new_data_channel_def Let_def fault_simps free_unset\<close>)
qed

lemma serversocket_dtp:
  fixes s :: "('w, 'z) dtp_scheme"
  shows "channels (snd (network_create_serversocket os port k s)) = channels s"
    "dtp_list (snd (network_create_serversocket os port k s)) = dtp_list s"
  by (simp_all add: network_create_serversocket_def setup_server_socket_def bind_to_port_def
      Let_def case_prod_beta)

lemma new_passive_effect:
  assumes "new_passive_channel os ip port s = Inr (d, s')" and "d \<noteq> 0"
  shows "dtp_list s' = dtp_list s \<and> (\<forall>q. q \<noteq> d \<longrightarrow> channels s' q = channels s q)"
proof -
  obtain s1 where "new_data_channel os ip port s = Inr (d, s1)"
      and "dtp_list s' = dtp_list s1" "\<forall>q. q \<noteq> d \<longrightarrow> channels s' q = channels s1 q"
    using assms by (auto simp: new_passive_channel_def fault_simps Let_def case_prod_beta serversocket_dtp
        split: if_splits)
  with new_data_effect show ?thesis by metis
qed

lemma network_state_dtp [simp]:
  fixes s :: "('w, 'z) dtp_scheme"
  shows "channels (snd (network_get_host_ip os s)) = channels s"
    "dtp_list (snd (network_get_host_ip os s)) = dtp_list s"
    "channels (snd (network_get_ephermal_port s)) = channels s"
    "dtp_list (snd (network_get_ephermal_port s)) = dtp_list s"
  by (simp_all add: network_get_host_ip_def network_get_ephermal_port_def Let_def case_prod_beta)

lemma response_dtp:
  "ftp_response code p msg s = Inr s' \<Longrightarrow> channels s' = channels s \<and> dtp_list s' = dtp_list s"
  using response_outside [of code p msg s s'] by (simp add: outside_def)

lemma passive_effect:
  assumes run: "do_passive os p s = Inr s'" and c: "client_heap s p = Some c" and old: "cdata c \<noteq> 0"
    and c': "client_heap s' p = Some c'" and new: "cdata c' \<noteq> cdata c"
  shows "channels s' (cdata c) = None \<and> dtp_list s' = dtp_list s"
proof -
  have p: "get_client p s = Inr c" using run c by (auto simp: do_passive_def fault_simps get_client_Inr)
  then obtain ch i s1 where 1: "iface_free os i (cdata c) s = Inr s1" "get_channel (cdata c) s = Inr ch"
      "cell_get (iface ch) = Inr i"
    using run old by (auto simp: do_passive_def fault_simps)
  let ?s2 = "snd (network_get_ephermal_port (snd (network_get_host_ip os s1)))"
  let ?ip = "fst (network_get_host_ip os s1)"
    and ?port = "fst (network_get_ephermal_port (snd (network_get_host_ip os s1)))"
  obtain d s3 where 3: "new_passive_channel os ?ip ?port ?s2 = Inr (d, s3)"
    using run old 1 p by (cases "new_passive_channel os ?ip ?port ?s2")
      (auto simp: do_passive_def Let_def case_prod_beta)
  let ?s4 = "put_client p (c\<lparr>cdata := d\<rparr>) s3"
  have 4: "bindF (get_channel d ?s4) (\<lambda>ch.
        let (msg, m) = malloc (allocs ?s4); s = ?s4\<lparr>allocs := m\<rparr> in
        if msg = 0 then Inr s else ftp_response 227 p (pasv_message (dip ch) (dport ch)) s) = Inr s'"
    using run old 1 3 p by (simp add: do_passive_def Let_def case_prod_beta cong: if_cong)
  then have d: "d \<noteq> 0" by (auto simp: get_channel_def)
  consider m where "s' = ?s4\<lparr>allocs := m\<rparr>"
    | m msg where "ftp_response 227 p msg (?s4\<lparr>allocs := m\<rparr>) = Inr s'"
    using 4 by (auto simp: fault_simps Let_def case_prod_beta split: if_splits)
  then have s': "channels s' = channels s3 \<and> dtp_list s' = dtp_list s3 \<and> cdata c' = d"
  proof cases
    case 1
    then show ?thesis using c' by auto
  next
    case 2
    have "client_heap (?s4\<lparr>allocs := m\<rparr>) p = Some (c\<lparr>cdata := d\<rparr>)" by simp
    from response_client [OF 2 this] response_dtp [OF 2] c' show ?thesis by auto
  qed
  have "channels s3 (cdata c) = channels s1 (cdata c)" "dtp_list s3 = dtp_list s1"
    using new_passive_effect [OF 3 d] new s' by simp_all
  then show ?thesis using free_removes [of os "cdata c" s s1] 1(1) old s' by (simp add: iface_free_def)
qed

text \<open>A client whose data channel is in the poll list, and the run of PASV there.\<close>

lemma new_data_run:
  assumes "never_fails (allocs s)" and "ip \<noteq> 0"
  shows "\<exists>p c s'. new_data_channel os ip port s = Inr (p, s') \<and> p = allocs s 0 \<and> p \<noteq> 0 \<and>
    channels s' = (channels s)(p := Some c) \<and> dip c = ip \<and> dport c = port \<and> never_fails (allocs s')"
proof -
  obtain p m where m: "malloc (allocs s) = (p, m)" by fastforce
  have nf: "p \<noteq> 0" "never_fails m" using malloc_never_fails [OF assms(1)] m by auto
  obtain b m' where b: "new_buffer 192000 m = (Some b, m')" "never_fails m'"
    using new_buffer_never_fails [OF nf(2)] by blast
  have "p = allocs s 0" using m by (simp add: malloc_def)
  then show ?thesis
    using nf m b assms(2) by (auto simp: new_data_channel_def Let_def)
qed

definition dangling0 :: "host server" where
  "dangling0 = (server0 host0 (client0\<lparr>cdata := 128\<rparr>))\<lparr>channels := [128 \<mapsto> chan0], dtp_list := 128\<rparr>"

lemma dangling0_run:
  "\<exists>s' c'. do_passive host_os 640 dangling0 = Inr s' \<and> client_heap s' 640 = Some c' \<and> cdata c' = 64"
proof -
  let ?c = "client0\<lparr>cdata := 128\<rparr>"
  let ?f = "(dangling0\<lparr>world := host0\<lparr>shut := [7]\<rparr>, channels := Map.empty\<rparr>)"
  have lb: "dstate chan0 AND DTP_LOCAL_BUF = 0" by (simp add: chan0_def DTP_PENDING_def)
  have 1: "free_data_channel host_os 128 dangling0 = Inr ?f"
    using lb by (simp add: free_data_channel_def free_local_def get_channel_def dangling0_def server0_def
        Let_def sysc_def host0_def) (simp add: chan0_def sysc_def)
  let ?n = "?f\<lparr>next_ephermal_port := 1025\<rparr>"
  have nf: "never_fails (allocs ?n)" by (simp add: dangling0_def server0_def never_fails_def)
  from new_data_run [OF nf, where ip = "0xC0A80002" and os = host_os and port = 1024]
  obtain c s3 where 3: "new_data_channel host_os 0xC0A80002 1024 ?n = Inr (64, s3)"
     "channels s3 = (channels ?n)(64 := Some c)" "dip c = 0xC0A80002" "dport c = 1024" "never_fails (allocs s3)"
    by (auto simp: dangling0_def server0_def)
  have ip: "network_get_host_ip host_os ?f = (0xC0A80002, ?f)"
    by (simp add: network_get_host_ip_def sysc_def dangling0_def)
  have port: "network_get_ephermal_port ?f = (1024, ?n)"
    by (simp add: network_get_ephermal_port_def dangling0_def server0_def Let_def)
  have sock: "network_create_serversocket host_os q 1 x = (3, x)" for q and x :: "host server"
    by (simp add: network_create_serversocket_def setup_server_socket_def bind_to_port_def sysc_def sys_do_def
       Let_def)
  have 4: "new_passive_channel host_os 0xC0A80002 1024 ?n = Inr (64, put_channel 64 (c\<lparr>listen_fd := Init 3, iface := Init Passive\<rparr>) (put_channel 64 (c\<lparr>listen_fd := Init 3\<rparr>) s3))"
    (is "_ = Inr (64, ?s4)")
    using 3 by (simp add: new_passive_channel_def get_channel_def sock Let_def)
  have h: "client_heap ?s4 = [640 \<mapsto> ?c]"
    using new_passive_channel_clients [OF 4] by (simp add: same_clients_def dangling0_def server0_def)
  let ?s5 = "put_client 640 (?c\<lparr>cdata := 64\<rparr>) ?s4"
  obtain q m where m: "malloc (allocs ?s5) = (q, m)" "q \<noteq> 0"
    using malloc_never_fails [of "allocs ?s5"] 3(5) by (cases "malloc (allocs ?s5)") auto
  have len: "length (dec_int 227 @ '' '' @ pasv_message 0xC0A80002 1024 @ [CR, LF]) \<le> 2 ^ 30"
    by (simp add: dec_int_def dec_nat.simps pasv_message_text port_text_def)
  have ob: "output_buffer (?c\<lparr>cdata := 64\<rparr>) = Some buf0" by (simp add: client0_def)
  obtain b' m' where r: "ftp_response 227 640 (pasv_message 0xC0A80002 1024) (?s5\<lparr>allocs := m\<rparr>) =
      Inr ((put_client 640 (?c\<lparr>cdata := 64, output_buffer := Some b'\<rparr>) (?s5\<lparr>allocs := m\<rparr>))\<lparr>allocs := m'\<rparr>)"
    using response_ok [OF _ _ ob buf0_ok(1) len, of "?s5\<lparr>allocs := m\<rparr>" 640] by auto
  have c: "get_client 640 dangling0 = Inr ?c" "get_channel 128 dangling0 = Inr chan0" "iface chan0 = Init Passive"
    by (simp_all add: get_client_def get_channel_def dangling0_def server0_def chan0_def)
  have "do_passive host_os 640 dangling0 =
      ftp_response 227 640 (pasv_message 0xC0A80002 1024) (?s5\<lparr>allocs := m\<rparr>)"
    using c 1 ip port 4 m 3(3,4) by (simp add: do_passive_def iface_free_def get_channel_def)
  with r show ?thesis by simp
qed

section \<open>Properties\<close>

text \<open>C10: the address in the reply to PASV is one that PORT understands: parsing the six numbers gives
  the address and the port back, for every address and port.\<close>

theorem port_args_roundtrip:
  "pasv_message ip port = ''Entering passive mode ('' @ port_text ip port @ '')'' \<and>
   parse_port_args (port_text ip port @ NUL # rest) = Inr (ip, port)"
proof -
  have "port_loop (port_text ip port @ NUL # rest) [0, 0, 0, 0, 0, 0] 0 0 =
      Inr (Some ([int (unat (take_bit 8 (drop_bit 24 ip))), int (unat (take_bit 8 (drop_bit 16 ip))),
        int (unat (take_bit 8 (drop_bit 8 ip))), int (unat (take_bit 8 ip)),
        int (unat (take_bit 8 (drop_bit 8 port))), 0], 5, int (unat (take_bit 8 port))))"
    unfolding port_text_def using parse_six by (simp add: byte_bound)
  from parse_port_ok [OF this] have "parse_port_args (port_text ip port @ NUL # rest) = Inr
      (push_bit 24 (take_bit 8 (drop_bit 24 ip)) OR push_bit 16 (take_bit 8 (drop_bit 16 ip)) OR
       push_bit 8 (take_bit 8 (drop_bit 8 ip)) OR take_bit 8 ip,
       push_bit 8 (take_bit 8 (drop_bit 8 port)) OR take_bit 8 port)"
    by (simp add: byte_bound_uint)
  then show ?thesis by (simp add: join32 join16 pasv_message_text)
qed

text \<open>C1: what a client that has not logged in can do with any command at all: its login state moves as
  in the abstract session, and otherwise only its replies change. No system call is made, no data
  channel, text or other client is touched, and its working directory and data channel stay.\<close>

theorem unauthenticated_commands:
  assumes "command_invoke os p m args s = Inr s'" and "client_heap s p = Some c"
    and "cstate c < STATE_AUTH"
  shows "\<exists>c'. client_heap s' p = Some c' \<and> cstate c' = session_next m (cstate c) \<and>
    cwd c' = cwd c \<and> cdata c' = cdata c \<and> outside s' = outside s \<and>
    (\<forall>q. q \<noteq> p \<longrightarrow> client_heap s' q = client_heap s q)"
  using unauth_invoke [OF assms] invoke_only_client [OF assms(1)]
  unfolding only_client_def by blast

theorem unauthenticated_commands_witness:
  "\<exists>s'. command_invoke host_os 640 ''LIST'' [NUL] (server0 host0 client0) = Inr s' \<and> world s' = host0"
proof -
  have c: "client_heap (server0 host0 client0) 640 = Some client0" by (simp add: server0_def)
  have "find_command ''LIST'' = Some (command_row ''LIST'' True H_list)"
    by (simp add: find_command_def commands_def command_row_def)
  moreover have len: "length (dec_int 530 @ '' '' @ ''Please login with USER and PASS.'' @ [CR, LF]) \<le> 2 ^ 30"
    by (simp add: dec_int_def dec_nat.simps)
  then obtain s' where "ftp_response 530 640 ''Please login with USER and PASS.'' (server0 host0 client0) = Inr s'"
    using response_ok [OF c _ _ buf0_ok(1) len] by (auto simp: client0_def)
  ultimately have run: "command_invoke host_os 640 ''LIST'' [NUL] (server0 host0 client0) = Inr s'"
    using c by (simp add: command_invoke_def command_row_def get_client_def IS_AUTHENTICATED_def
        client0_def client_states)
  have "cstate client0 < STATE_AUTH" by (simp add: client0_def client_states)
  from unauthenticated_commands [OF run c this] have "outside s' = outside (server0 host0 client0)"
    by blast
  then have "world s' = host0" by (simp add: outside_def server0_def)
  with run show ?thesis by blast
qed

text \<open>C11: logging in takes a user name and then a password. In any sequence of commands without QUIT that
  takes a fresh client to the authenticated state there is a USER and later a PASS with no REIN in
  between.\<close>

theorem login_needs_user_and_password:
  assumes "invoke_all os p cmds s = Inr s'" and "client_heap s p = Some c" and "cstate c = STATE_NONE"
    and "client_heap s' p = Some c'" and "IS_AUTHENTICATED c'" and "''QUIT'' \<notin> set (map fst cmds)"
  shows "\<exists>xs ys zs. map fst cmds = xs @ ''USER'' # ys @ ''PASS'' # zs \<and> ''REIN'' \<notin> set ys"
proof -
  have "STATE_NONE < STATE_AUTH" "STATE_NONE \<noteq> STATE_USER" by (simp_all add: client_states)
  with login_trace [OF assms(1,2) _ assms(4-6)] assms(3) show ?thesis by auto
qed

text \<open>C12: QUIT sets a state bit above the one of a logged in client, so after QUIT every command that needs
  a login is run, although no user name or password was given.\<close>

theorem quit_opens_the_commands:
  assumes "client_heap s p = Some c" and "p \<noteq> 0" and "client_ok c" and "find_command m = Some x"
  shows "\<exists>s1. command_invoke os p ''QUIT'' a s = Inr s1 \<and>
    command_invoke os p m args s1 = run_handler os (func x) p args s1"
proof -
  obtain ob al where q: "command_invoke os p ''QUIT'' a s =
      Inr ((put_client p (c\<lparr>cstate := cstate c OR STATE_DISCONN, output_buffer := ob\<rparr>) s)\<lparr>allocs := al\<rparr>)"
      (is "_ = Inr ?s1")
    using quit_ok [OF assms(1-3)] by blast
  have "STATE_AUTH \<le> STATE_DISCONN" by (simp add: client_states)
  also have "\<dots> \<le> cstate c OR STATE_DISCONN" 
    using le_word_or2 [of STATE_DISCONN "cstate c"] by (simp only: or.commute)
  finally have "command_invoke os p m args ?s1 = run_handler os (func x) p args ?s1"
    using assms(2,4) by (simp add: command_invoke_def get_client_def IS_AUTHENTICATED_def)
  with q show ?thesis by blast
qed

theorem login_needs_user_and_password_witness:
  "\<exists>s' c'. invoke_all host_os 640 [(''USER'', [NUL]), (''PASS'', [NUL])] (server0 host0 client0) = Inr s' \<and>
    client_heap s' 640 = Some c' \<and> IS_AUTHENTICATED c' \<and>
    (\<exists>xs ys zs. [''USER'', ''PASS''] = xs @ ''USER'' # ys @ ''PASS'' # zs \<and> ''REIN'' \<notin> set ys)"
proof -
  let ?s = "server0 host0 client0" and ?u = "client0\<lparr>cstate := STATE_USER\<rparr>"
  have l: "length (dec_int 331 @ '' '' @ ''Username OK. Ready for password.'' @ [CR, LF]) \<le> 2 ^ 30"
    "length (dec_int 230 @ '' '' @ ''User logged in successfully.'' @ [CR, LF]) \<le> 2 ^ 30"
    by (simp_all add: dec_int_def dec_nat.simps)
  have c: "client_heap ?s 640 = Some client0" "cstate client0 = STATE_NONE"
    by (simp_all add: server0_def client0_def)
  have ob: "output_buffer ?u = Some buf0" by (simp add: client0_def)
  obtain b1 m1 where 1: "ftp_response 331 640 ''Username OK. Ready for password.'' (put_client 640 ?u ?s) =
      Inr ((put_client 640 (?u\<lparr>output_buffer := Some b1\<rparr>) (put_client 640 ?u ?s))\<lparr>allocs := m1\<rparr>)" "iob_wf b1"
    using response_ok [OF _ _ ob buf0_ok(1) l(1), of "put_client 640 ?u ?s" 640] by auto
  let ?c1 = "?u\<lparr>output_buffer := Some b1\<rparr>"
  let ?s1 = "(put_client 640 ?c1 (put_client 640 ?u ?s))\<lparr>allocs := m1\<rparr>"
  let ?c2 = "?c1\<lparr>cstate := STATE_AUTH\<rparr>"
  have ob1: "output_buffer ?c2 = Some b1" by simp
  obtain b2 m2 where 2: "ftp_response 230 640 ''User logged in successfully.'' (put_client 640 ?c2 ?s1) =
      Inr ((put_client 640 (?c2\<lparr>output_buffer := Some b2\<rparr>) (put_client 640 ?c2 ?s1))\<lparr>allocs := m2\<rparr>)"
    using response_ok [OF _ _ ob1 1(2) l(2), of "put_client 640 ?c2 ?s1" 640] by auto
  have u: "command_invoke host_os 640 ''USER'' [NUL] ?s = Inr ?s1"
    using c 1(1) by (subst invoke_open [OF find_USER])
      (simp_all add: command_row_def do_user_def get_client_def)
  have ne: "STATE_USER \<noteq> STATE_NONE" "STATE_AUTH \<le> STATE_AUTH" by (simp_all add: client_states)
  have pw: "command_invoke host_os 640 ''PASS'' [NUL] ?s1 =
      Inr ((put_client 640 (?c2\<lparr>output_buffer := Some b2\<rparr>) (put_client 640 ?c2 ?s1))\<lparr>allocs := m2\<rparr>)" (is "_ = Inr ?s2")
    using 2 ne by (subst invoke_open [OF find_PASS])
      (simp_all add: command_row_def do_pass_def get_client_def)
  have run: "invoke_all host_os 640 [(''USER'', [NUL]), (''PASS'', [NUL])] ?s = Inr ?s2"
    using u pw by simp
  have h: "client_heap ?s2 640 = Some (?c2\<lparr>output_buffer := Some b2\<rparr>)" "IS_AUTHENTICATED (?c2\<lparr>output_buffer := Some b2\<rparr>)"
    by (simp_all add: IS_AUTHENTICATED_def)
  from login_needs_user_and_password [OF run c(1,2) h] run h show ?thesis by auto
qed

theorem quit_opens_the_commands_witness:
  "\<exists>s1. command_invoke host_os 640 ''QUIT'' [NUL] (server0 host0 client0) = Inr s1 \<and>
    command_invoke host_os 640 ''LIST'' [NUL] s1 = do_list host_os 640 s1"
proof -
  have f: "find_command ''LIST'' = Some (command_row ''LIST'' True H_list)"
    by (simp add: find_command_def commands_def command_row_def)
  have "client_heap (server0 host0 client0) 640 = Some client0" by (simp add: server0_def)
  from quit_opens_the_commands [OF this _ client0_ok f, of host_os "[NUL]" "[NUL]"] show ?thesis
    by (simp add: command_row_def)
qed

text \<open>C2: every command keeps to its own client and keeps it well formed: the connection, the address and
  the received bytes stay, the working directory stays absolute and without dot segments, the buffers
  stay sound; all other clients and the table of slots are as before.\<close>

theorem commands_keep_clients_sound:
  assumes "command_invoke os p m args s = Inr s'" and "client_heap s p = Some c" and "client_ok c"
  shows "(\<exists>c'. client_heap s' p = Some c' \<and> client_ok c' \<and> cfd c' = cfd c \<and> cip c' = cip c \<and>
      input_buffer c' = input_buffer c) \<and>
    (\<forall>q. q \<noteq> p \<longrightarrow> client_heap s' q = client_heap s q) \<and> clients s' = clients s"
proof -
  obtain c' where "client_heap s' p = Some c'" "same_connection c c'"
    using invoke_only_client [OF assms(1)] assms(2) by (auto simp: only_client_def)
  with invoke_only_client [OF assms(1)] assms(3) show ?thesis
    by (auto simp: only_client_def same_connection_def)
qed

theorem commands_keep_clients_sound_witness:
  "\<exists>s' c'. command_invoke host_os 640 ''QUIT'' [NUL] (server0 host0 client0) = Inr s' \<and>
    client_heap s' 640 = Some c' \<and> client_ok c'"
proof -
  have c: "client_heap (server0 host0 client0) 640 = Some client0" by (simp add: server0_def)
  obtain s' where run: "command_invoke host_os 640 ''QUIT'' [NUL] (server0 host0 client0) = Inr s'"
    using quit_ok [OF c _ client0_ok] by auto
  from commands_keep_clients_sound [OF run c client0_ok] run show ?thesis by blast
qed

text \<open>CDUP goes to the parent, CWD with two dots does not go anywhere: the path is normalised before it
  is merged into the working directory, so the dots are gone by then.\<close>

theorem cdup_goes_up_cwd_does_not:
  assumes "client_heap s p = Some c" and "cwd c = Some d" and "sound_dir (cwd c)"
  shows "(\<forall>s'. do_cdup p s = Inr s' \<longrightarrow> (\<exists>c'. client_heap s' p = Some c' \<and>
      cwd c' = Some (d\<lparr>entities := walk (entities d) [''..'']\<rparr>))) \<and>
    (\<forall>s'. do_cwd os p (''..'' @ NUL # rest) s = Inr s' \<longrightarrow> (\<exists>c'. client_heap s' p = Some c' \<and>
      cwd c' = Some d))"
proof (intro conjI allI impI)
  fix s' assume "do_cdup p s = Inr s'"
  then have "ftp_response 250 p ''CWD command successful.''
      (put_client p (c\<lparr>cwd := detach_last_pathent (cwd c)\<rparr>) s) = Inr s'"
    using assms(1) by (auto simp: do_cdup_def fault_simps get_client_Inr)
  from response_client [OF this] show "\<exists>c'. client_heap s' p = Some c' \<and>
      cwd c' = Some (d\<lparr>entities := walk (entities d) [''..'']\<rparr>)"
    using assms(2) by (auto simp: detach_last_pathent_def drop_last_butlast walk_step_def)
next
  fix s' assume run: "do_cwd os p (''..'' @ NUL # rest) s = Inr s'"
  then obtain parsed m1 result m2 ok s3
    where 1: "new_vfs_path (Some (''..'' @ NUL # rest)) (allocs s) = Inr (parsed, m1)"
      and 2: "vfs_path_merge (cwd c) parsed m1 = Inr (result, m2)"
      and 3: "(if result = None then Inr (False, s\<lparr>allocs := m1, allocs := m2\<rparr>)
        else vfs_can_chdir os result (s\<lparr>allocs := m1, allocs := m2\<rparr>)) = Inr (ok, s3)"
      and 4: "(if ok then ftp_response 250 p ''CWD command successful.'' (put_client p (c\<lparr>cwd := result\<rparr>) s3)
        else ftp_response 550 p ''That directory does not exist.'' s3) = Inr s'"
    using assms(1) by (auto simp: do_cwd_def fault_simps allocating_Inr get_client_Inr)
  have h: "client_heap s3 p = Some c"
    using 3 assms(1) by (auto simp: same_clients_def dest!: can_chdir_clients split: if_splits)
  show "\<exists>c'. client_heap s' p = Some c' \<and> cwd c' = Some d"
  proof (cases ok)
    case False
    with 4 response_client [OF _ h, of 550] assms(2) show ?thesis by fastforce
  next
    case True
    then obtain x where x: "result = Some x" using 3 by (auto split: if_splits)
    obtain q where q: "parsed = Some q" using 2 x by (cases parsed) auto
    have e: "entities q = []" "\<not> absolute q"
      using dots_vanish [OF 1 [unfolded q]] by auto
    have "x = d"
      using vfs_path_merge_Some [OF 2 [unfolded assms(2) q x]] assms(2,3) e by (simp add: sound_dir_def c_names_def)
    then have "ftp_response 250 p ''CWD command successful.'' (put_client p (c\<lparr>cwd := Some d\<rparr>) s3) = Inr s'"
      using 4 True x by simp
    from response_client [OF this] show ?thesis by auto
  qed
qed

theorem cdup_goes_up_cwd_does_not_witness:
  "\<exists>s' c'. do_cdup 640 (server0 host0 client0) = Inr s' \<and> client_heap s' 640 = Some c' \<and>
    cwd c' = Some \<lparr>entities = [''a''], absolute = True\<rparr>"
proof -
  let ?d = "\<lparr>entities = [''a'', ''b''], absolute = True\<rparr>" and ?s = "server0 host0 client0"
  let ?c = "client0\<lparr>cwd := detach_last_pathent (cwd client0)\<rparr>"
  have c: "client_heap ?s 640 = Some client0" "cwd client0 = Some ?d" "sound_dir (cwd client0)"
    using client0_ok by (simp_all add: server0_def client0_def client_ok_def)
  have l: "length (dec_int 250 @ '' '' @ ''CWD command successful.'' @ [CR, LF]) \<le> 2 ^ 30"
    by (simp add: dec_int_def dec_nat.simps)
  have ob: "output_buffer ?c = Some buf0" by (simp add: client0_def)
  obtain s' where "do_cdup 640 ?s = Inr s'"
    using response_ok [OF _ _ ob buf0_ok(1) l, of "put_client 640 ?c ?s" 640] c(1)
    by (auto simp: do_cdup_def get_client_def)
  with cdup_goes_up_cwd_does_not [OF c, of host_os "[]"] show ?thesis
    by (auto simp: walk_step_def)
qed

text \<open>The argument of PORT can leave the array of its six bytes and the range of its numbers: a comma
  after the sixth number writes behind the array, and a long number overflows the signed addition.\<close>

theorem port_args_undefined:
  "parse_port_args (''127,0,0,1,4,0,'' @ NUL # rest) = Inl Out_of_bounds \<and>
   parse_port_args (''99999999999'' @ NUL # rest) = Inl Int_overflow"
  by code_simp

text \<open>A second PASV frees the data channel of the first one while it is still in the poll list: if the
  new channel gets another address, the next poll follows the freed pointer.\<close>

theorem second_pasv_dangles:
  assumes "do_passive os p s = Inr s'" and "client_heap s p = Some c" and "cdata c \<noteq> 0"
    and "dtp_list s = cdata c" and "client_heap s' p = Some c'" and "cdata c' \<noteq> cdata c"
  shows "dtp_poll os s' = Some (Inl Use_after_free)"
proof -
  have "channels s' (dtp_list s') = None" "dtp_list s' \<noteq> 0"
    using passive_effect [OF assms(1-3,5,6)] assms(3,4) by simp_all
  then have "dtp_poll_turn os s' = Inl Use_after_free" "dtp_list s' \<noteq> 0"
    by (simp_all add: dtp_poll_turn_def get_channel_def)
  then have "dtp_poll_loop os s' = Some (Inl Use_after_free)" by (subst dtp_poll_loop.simps) simp
  then show ?thesis by (simp add: dtp_poll_def)
qed

theorem second_pasv_dangles_witness:
  "\<exists>s'. do_passive host_os 640 dangling0 = Inr s' \<and> dtp_poll host_os s' = Some (Inl Use_after_free)"
proof -
  obtain s' c' where r: "do_passive host_os 640 dangling0 = Inr s'" "client_heap s' 640 = Some c'" "cdata c' = 64"
    using dangling0_run by blast
  have c: "client_heap dangling0 640 = Some (client0\<lparr>cdata := 128\<rparr>)" "dtp_list dangling0 = 128"
    by (simp_all add: dangling0_def server0_def)
  from second_pasv_dangles [OF r(1) c(1) _ _ r(2)] r(1,3) c(2) show ?thesis by simp
qed

end
