(* ===== verification/Ftp.thy ===== *)
theory Ftp
  imports Commands
begin

text \<open>
  The rest of \<^verbatim>\<open>ftp.c\<close>: how a received line becomes a command, what one poll does for one client
  (data events, control events, output, disconnection), the table of clients, accepting a
  connection, and the handler the main loop calls. What the code prints for debugging is left out.
\<close>

section \<open>From a line to a command\<close>

text \<open>The two scanning loops of \<open>get_mnemonic\<close>, as the number of bytes they step over.\<close>

fun skip_spaces :: "char list \<Rightarrow> fault + nat" where
  "skip_spaces [] = Inl Out_of_bounds"
| "skip_spaces (c # cs) = (if isspace c then mapF Suc (skip_spaces cs) else Inr 0)"

text \<open>\<open>None\<close>: a byte that is no letter.\<close>

fun scan_word :: "char list \<Rightarrow> fault + nat option" where
  "scan_word [] = Inl Out_of_bounds"
| "scan_word (c # cs) =
     (if c = NUL \<or> isspace c then Inr (Some 0)
      else if \<not> isalpha c then Inr None
      else mapF (map_option Suc) (scan_word cs))"

text \<open>
  The position of the mnemonic in the line, the position \<open>*buffer\<close> is left at, and the line with the
  terminator written behind the mnemonic; \<open>None\<close> is the null pointer.
\<close>

definition get_mnemonic :: "char list \<Rightarrow> fault + (nat \<times> nat \<times> char list) option" where
  "get_mnemonic ln =
     bindF (skip_spaces ln) (\<lambda>i.
     bindF (read_at ln (int i)) (\<lambda>c.
     if c = NUL then Inr None
     else
       bindF (scan_word (drop i ln)) (\<lambda>w.
       case w of
         None \<Rightarrow> Inr None
       | Some n \<Rightarrow>
           let j = i + n in
           bindF (read_at ln (int j)) (\<lambda>c.
           if c = NUL then Inr (Some (i, j, ln))
           else
             bindF (write_at ln (int j) [NUL]) (\<lambda>ln.
             bindF (skip_spaces (drop (j + 1) ln)) (\<lambda>k.
             Inr (Some (i, j + 1 + k, ln))))))))"

text \<open>The loop that puts the mnemonic in upper case, up to its terminator.\<close>

fun upper_case :: "char list \<Rightarrow> fault + char list" where
  "upper_case [] = Inl Out_of_bounds"
| "upper_case (c # cs) =
     (if c = NUL then Inr (c # cs) else mapF ((#) (toupper c)) (upper_case cs))"

text \<open>The line is part of the client's input buffer and changes there.\<close>

definition ftp_process_command ::
  "'w os \<Rightarrow> u32 \<Rightarrow> char list \<Rightarrow> ('w, 'z) server_scheme \<Rightarrow> fault + ('w, 'z) server_scheme" where
  "ftp_process_command os p ln s =
     bindF (get_mnemonic ln) (\<lambda>r.
     case r of
       None \<Rightarrow> Inr s
     | Some (i, j, ln) \<Rightarrow>
         bindF (upper_case (drop i ln)) (\<lambda>upper.
         let ln = take i ln @ upper in
         bindF (get_client p s) (\<lambda>c.
         bindF (the_buffer (input_buffer c)) (\<lambda>b.
         let s = put_client p (c\<lparr>input_buffer := Some (b\<lparr>line := ln\<rparr>)\<rparr>) s in
         bindF (c_str (drop i ln)) (\<lambda>m.
         command_invoke os p m (drop j ln) s)))))"

section \<open>Control events\<close>

text \<open>One turn of the command loop: the next line and its command; \<open>False\<close> when there is no line.\<close>

definition next_command ::
  "'w os \<Rightarrow> u32 \<Rightarrow> ('w, 'z) server_scheme \<Rightarrow> fault + bool \<times> ('w, 'z) server_scheme" where
  "next_command os p s =
     bindF (get_client p s) (\<lambda>c.
     bindF (the_buffer (input_buffer c)) (\<lambda>b.
     bindF (iobuffer_next_line b) (\<lambda>(ln, b).
     let s = put_client p (c\<lparr>input_buffer := Some b\<rparr>) s in
     case ln of
       None \<Rightarrow> Inr (False, s)
     | Some blk \<Rightarrow> bindF (ftp_process_command os p blk s) (\<lambda>s. Inr (True, s)))))"

text \<open>The bytes a client has sent and the server has not yet taken up.\<close>

definition pending :: "u32 \<Rightarrow> ('w, 'z) server_scheme \<Rightarrow> nat" where
  "pending p s = (case client_heap s p of None \<Rightarrow> 0
     | Some c \<Rightarrow> (case input_buffer c of None \<Rightarrow> 0 | Some b \<Rightarrow> nat (head b)))"

lemma process_input:
  assumes run: "ftp_process_command os p ln s = Inr s'" and c: "client_heap s p = Some c" "input_buffer c = Some b"
  shows "\<exists>c' ln'. client_heap s' p = Some c' \<and> input_buffer c' = Some (b\<lparr>line := ln'\<rparr>)"
proof -
  obtain r where r: "get_mnemonic ln = Inr r" using run by (auto simp: ftp_process_command_def fault_simps)
  show ?thesis
  proof (cases r)
    case None
    then show ?thesis using run r c by (auto simp: ftp_process_command_def intro: exI [of _ "line b"])
  next
    case (Some x)
    obtain i j ln1 where x: "x = (i, j, ln1)" by (cases x)
    obtain u where u: "upper_case (drop i ln1) = Inr u"
      using run r Some x by (auto simp: ftp_process_command_def fault_simps)
    let ?ln = "take i ln1 @ u"
    let ?c = "c\<lparr>input_buffer := Some (b\<lparr>line := ?ln\<rparr>)\<rparr>"
    have p: "get_client p s = Inr c"
      using run r Some x u c by (auto simp: ftp_process_command_def fault_simps get_client_Inr)
    obtain m where "command_invoke os p m (drop j ?ln) (put_client p ?c s) = Inr s'"
      using run r Some x u p c(2)
      by (auto simp: ftp_process_command_def fault_simps the_buffer_def Let_def)
    then obtain c' where "client_heap s' p = Some c'" "same_connection ?c c'"
      using invoke_only_client [of os p m _ "put_client p ?c s" s'] unfolding only_client_def by auto
    then show ?thesis by (auto simp: same_connection_def)
  qed
qed

lemma next_command_progress:
  assumes "next_command os p s = Inr (True, s')"
  shows "pending p s' < pending p s"
proof -
  obtain c b blk b' where c: "client_heap s p = Some c" "input_buffer c = Some b"
      "iobuffer_next_line b = Inr (Some blk, b')"
      "ftp_process_command os p blk (put_client p (c\<lparr>input_buffer := Some b'\<rparr>) s) = Inr s'"
    using assms
    by (auto simp: next_command_def fault_simps get_client_Inr the_buffer_def Let_def split: option.splits)
  obtain c' ln' where "client_heap s' p = Some c'" "input_buffer c' = Some (b'\<lparr>line := ln'\<rparr>)"
    using process_input [OF c(4), of "c\<lparr>input_buffer := Some b'\<rparr>" b'] by auto
  moreover have "nat (head b') < nat (head b)"
    using c(3) next_line_progress by (simp add: iobuffer_next_line_def)
  ultimately show ?thesis using c by (simp add: pending_def)
qed

text \<open>The loop ends because every command takes its bytes out of the buffer.\<close>

function command_loop ::
  "'w os \<Rightarrow> u32 \<Rightarrow> ('w, 'z) server_scheme \<Rightarrow> fault + ('w, 'z) server_scheme" where
  "command_loop os p s =
     bindF (next_command os p s) (\<lambda>(more, s'). if more then command_loop os p s' else Inr s')"
  by pat_completeness auto
termination
  by (relation "measure (\<lambda>(os, p, s). pending p s)") (auto simp: next_command_progress)

declare command_loop.simps [simp del]

definition handle_control_events ::
  "'w os \<Rightarrow> u32 \<Rightarrow> ('w, 'z) server_scheme \<Rightarrow> fault + ('w, 'z) server_scheme" where
  "handle_control_events os p s =
     bindF (get_client p s) (\<lambda>c.
     if cstate c AND STATE_DATA \<noteq> 0 then Inr s
     else
       bindF (the_buffer (input_buffer c)) (\<lambda>b.
       bindF (network_read_buffer os (cfd c) b s) (\<lambda>(nread, b, s).
       let s = put_client p (c\<lparr>input_buffer := Some b\<rparr>) s in
       if nread = - EAGAIN then Inr s
       else if nread \<le> 0 then ftp_client_cleanup os p s
       else command_loop os p s)))"

section \<open>Data events and output\<close>

definition handle_data_events :: "u32 \<Rightarrow> ('w, 'z) server_scheme \<Rightarrow> fault + ('w, 'z) server_scheme" where
  "handle_data_events p s =
     (if p = 0 then Inr s
      else
        bindF (get_client p s) (\<lambda>c.
        if cstate c AND STATE_DATA = 0 then Inr s
        else if cdata c = 0 then Inr (put_client p (c\<lparr>cstate := cstate c AND NOT STATE_DATA\<rparr>) s)
        else
          bindF (get_channel (cdata c) s) (\<lambda>ch.
          if GET_STATE ch \<ge> DTP_CLOSED then
            bindF (if GET_STATE ch = DTP_CLOSED then ftp_response 226 p ''Transfer complete.'' s
                   else ftp_response 420 p ''Transfer failed due to a network error.'' s) (\<lambda>s.
            bindF (get_client p s) (\<lambda>c.
            bindF (get_channel (cdata c) s) (\<lambda>ch.
            let s = put_channel (cdata c) (SET_STATE ch DTP_FREE) s in
            Inr (put_client p (c\<lparr>cdata := 0, cstate := cstate c AND NOT STATE_DATA\<rparr>) s))))
          else Inr s)))"

text \<open>One turn of the output loop; the number of bytes sent is not looked at.\<close>

definition next_output ::
  "'w os \<Rightarrow> u32 \<Rightarrow> ('w, 'z) server_scheme \<Rightarrow> fault + bool \<times> ('w, 'z) server_scheme" where
  "next_output os p s =
     bindF (get_client p s) (\<lambda>c.
     bindF (the_buffer (output_buffer c)) (\<lambda>b.
     bindF (iobuffer_next_line_eol b) (\<lambda>(ln, b).
     let s = put_client p (c\<lparr>output_buffer := Some b\<rparr>) s in
     case ln of
       None \<Rightarrow> Inr (False, s)
     | Some blk \<Rightarrow> bindF (network_writeln os (cfd c) blk s) (\<lambda>(_, s). Inr (True, s)))))"

definition unsent :: "u32 \<Rightarrow> ('w, 'z) server_scheme \<Rightarrow> nat" where
  "unsent p s = (case client_heap s p of None \<Rightarrow> 0
     | Some c \<Rightarrow> (case output_buffer c of None \<Rightarrow> 0 | Some b \<Rightarrow> nat (head b)))"

lemma sysc_clients: "sysc f s = (x, s') \<Longrightarrow> same_clients s s'" for s :: "('w, 'z) server_scheme"
  by (auto simp: sysc_def same_clients_def split: prod.splits)

lemma same_clients_trans: "same_clients s s1 \<Longrightarrow> same_clients s1 s2 \<Longrightarrow> same_clients s s2"
  by (simp add: same_clients_def)

lemma same_clients_refl [simp]: "same_clients s s"
  by (simp add: same_clients_def)

lemma writeln_clients:
  fixes s :: "('w, 'z) server_scheme"
  assumes "network_writeln os fd ln s = Inr (n, s')"
  shows "same_clients s s'"
  using assms
  by (auto simp: network_writeln_def fault_simps Let_def dest: sysc_clients same_clients_trans
      split: if_splits prod.splits)

lemma next_output_progress:
  assumes "next_output os p s = Inr (True, s')"
  shows "unsent p s' < unsent p s"
proof -
  obtain c b blk b' n where c: "client_heap s p = Some c" "output_buffer c = Some b"
      "iobuffer_next_line_eol b = Inr (Some blk, b')"
      "network_writeln os (cfd c) blk (put_client p (c\<lparr>output_buffer := Some b'\<rparr>) s) = Inr (n, s')"
    using assms
    by (auto simp: next_output_def fault_simps get_client_Inr the_buffer_def Let_def split: option.splits)
  have "client_heap s' p = Some (c\<lparr>output_buffer := Some b'\<rparr>)"
    using writeln_clients [OF c(4)] by (simp add: same_clients_def)
  moreover have "nat (head b') < nat (head b)"
    using c(3) next_line_progress by (simp add: iobuffer_next_line_eol_def)
  ultimately show ?thesis using c by (simp add: unsent_def)
qed

function output_loop ::
  "'w os \<Rightarrow> u32 \<Rightarrow> ('w, 'z) server_scheme \<Rightarrow> fault + ('w, 'z) server_scheme" where
  "output_loop os p s =
     bindF (next_output os p s) (\<lambda>(more, s'). if more then output_loop os p s' else Inr s')"
  by pat_completeness auto
termination
  by (relation "measure (\<lambda>(os, p, s). unsent p s)") (auto simp: next_output_progress)

declare output_loop.simps [simp del]

definition handle_output ::
  "'w os \<Rightarrow> u32 \<Rightarrow> ('w, 'z) server_scheme \<Rightarrow> fault + ('w, 'z) server_scheme" where
  "handle_output os p s =
     (if p = 0 then Inr s
      else
        bindF (get_client p s) (\<lambda>c.
        bindF (the_buffer (output_buffer c)) (\<lambda>b.
        if head b = 0 then Inr s else output_loop os p s)))"

section \<open>One client\<close>

definition handle_client ::
  "'w os \<Rightarrow> u32 \<Rightarrow> ('w, 'z) server_scheme \<Rightarrow> fault + ('w, 'z) server_scheme" where
  "handle_client os p s =
     (if p = 0 then Inr s
      else
        bindF (get_client p s) (\<lambda>c.
        bindF (if cstate c AND STATE_DATA \<noteq> 0 then handle_data_events p s else Inr s) (\<lambda>s.
        bindF (get_client p s) (\<lambda>c.
        bindF (if cstate c AND STATE_DATA = 0 then handle_control_events os p s else Inr s) (\<lambda>s.
        bindF (handle_output os p s) (\<lambda>s.
        bindF (get_client p s) (\<lambda>c.
        if cstate c AND STATE_DISCONN \<noteq> 0 then ftp_client_cleanup os p s else Inr s)))))))"

section \<open>The table of clients\<close>

fun open_slot_from :: "int \<Rightarrow> u32 list \<Rightarrow> int" where
  "open_slot_from i [] = -1"
| "open_slot_from i (q # qs) = (if q = 0 then i else open_slot_from (i + 1) qs)"

definition find_open_client_slot :: "u32 list \<Rightarrow> int" where
  "find_open_client_slot table = open_slot_from 0 table"

definition ftp_accept_handler ::
  "'w os \<Rightarrow> int \<Rightarrow> u32 \<Rightarrow> u16 \<Rightarrow> ('w, 'z) server_scheme \<Rightarrow> fault + ('w, 'z) server_scheme" where
  "ftp_accept_handler os fd ip port s =
     (let slot = find_open_client_slot (clients s) in
      if slot < 0 then Inr (snd (network_close os fd s))
      else
        bindF (new_client os s) (\<lambda>(p, s).
        if p = 0 then Inr (snd (network_close os fd s))
        else
          bindF (ftp_response 220 p ''FTPservU, here to serve you!'' s) (\<lambda>s.
          bindF (get_client p s) (\<lambda>c.
          bindF (write_at (clients s) slot [p]) (\<lambda>table.
          Inr ((put_client p (c\<lparr>cfd := fd, cip := ip, cport := port\<rparr>) s)\<lparr>clients := table\<rparr>))))))"

text \<open>The loop over the slots reads each slot when it gets there.\<close>

fun handle_slots ::
  "'w os \<Rightarrow> nat list \<Rightarrow> ('w, 'z) server_scheme \<Rightarrow> fault + ('w, 'z) server_scheme" where
  "handle_slots os [] s = Inr s"
| "handle_slots os (i # is) s =
     bindF (read_at (clients s) (int i)) (\<lambda>p.
     bindF (handle_client os p s) (handle_slots os is))"

text \<open>\<open>None\<close>: polling the data channels never ends.\<close>

definition ftp_network_handler ::
  "'w os \<Rightarrow> int \<Rightarrow> ('w, 'z) server_scheme \<Rightarrow> (fault + int \<times> ('w, 'z) server_scheme) option" where
  "ftp_network_handler os sock s =
     (case network_accept_poll os sock (Some (ftp_accept_handler os)) s of
        Inl e \<Rightarrow> Some (Inl e)
      | Inr (r, s) \<Rightarrow>
          if r < 0 then Some (Inr (-1, s))
          else map_option (\<lambda>t. bindF t (\<lambda>s.
                 bindF (handle_slots os [0..<MAX_CLIENTS] s) (\<lambda>s. Inr (0, s)))) (dtp_poll os s))"

fun deinit_slots ::
  "'w os \<Rightarrow> nat list \<Rightarrow> ('w, 'z) server_scheme \<Rightarrow> fault + ('w, 'z) server_scheme" where
  "deinit_slots os [] s = Inr s"
| "deinit_slots os (i # is) s =
     bindF (read_at (clients s) (int i)) (\<lambda>p.
     bindF (if p \<noteq> 0 then
              bindF (free_client os p s) (\<lambda>s.
              bindF (write_at (clients s) (int i) [0]) (\<lambda>table. Inr (s\<lparr>clients := table\<rparr>)))
            else Inr s) (deinit_slots os is))"

definition ftp_deinit :: "'w os \<Rightarrow> ('w, 'z) server_scheme \<Rightarrow> fault + ('w, 'z) server_scheme" where
  "ftp_deinit os s = deinit_slots os [0..<MAX_CLIENTS] s"

section \<open>What the scanner accepts\<close>

text \<open>The reference: leading blanks, a word of letters, blanks, and the arguments.\<close>

definition split_command :: "string \<Rightarrow> (string \<times> string) option" where
  "split_command t =
     (let u = dropWhile isspace t; w = takeWhile (\<lambda>c. \<not> isspace c) u in
      if u = [] \<or> \<not> list_all isalpha w then None
      else Some (map toupper w, dropWhile isspace (drop (length w) u)))"

lemma skip_spaces_text: "NUL \<notin> set t \<Longrightarrow> skip_spaces (t @ NUL # r) = Inr (length (takeWhile isspace t))"
  by (induction t) auto

lemma scan_word_text:
  "NUL \<notin> set t \<Longrightarrow> scan_word (t @ NUL # r) =
    (let w = takeWhile (\<lambda>c. \<not> isspace c) t in Inr (if list_all isalpha w then Some (length w) else None))"
  by (induction t) (auto simp: Let_def)

lemma upper_case_text: "NUL \<notin> set w \<Longrightarrow> upper_case (w @ NUL # r) = Inr (map toupper w @ NUL # r)"
  by (induction w) auto

lemma toupper_not_NUL: "c \<noteq> NUL \<Longrightarrow> toupper c \<noteq> NUL"
proof (cases "isalpha c")
  case False
  moreover assume "c \<noteq> NUL"
  ultimately show ?thesis by (auto simp: toupper_def isalpha_def Let_def)
qed (use isalpha_toupper isalpha_not_NUL in blast)

lemma map_toupper_not_NUL: "NUL \<notin> set w \<Longrightarrow> NUL \<notin> set (map toupper w)"
proof (induction w)
  case (Cons c w)
  then show ?case using toupper_not_NUL [of c] by (metis list.set_intros list.simps(9) set_ConsD)
qed simp

lemma read_at_text:
  assumes "blk = xs @ u @ NUL # r"
  shows "read_at blk (int (length xs)) = Inr (hd (u @ [NUL]))"
  using assms by (cases u) (simp_all add: read_at_def)

lemma get_mnemonic_text:
  assumes "NUL \<notin> set t"
  shows "case split_command t of
      None \<Rightarrow> get_mnemonic (t @ NUL # r) = Inr None
    | Some (m, args) \<Rightarrow> \<exists>a w z. get_mnemonic (t @ NUL # r) =
          Inr (Some (length a, length a + length w + length z, a @ w @ z @ args @ NUL # r)) \<and>
        map toupper w = m \<and> NUL \<notin> set w \<and> (z = [] \<and> args = [] \<or> z \<noteq> [] \<and> hd z = NUL) \<and>
        length (a @ w @ z @ args) = length t"
proof -
  let ?a = "takeWhile isspace t" and ?u = "dropWhile isspace t"
  let ?w = "takeWhile (\<lambda>c. \<not> isspace c) ?u" and ?v = "dropWhile (\<lambda>c. \<not> isspace c) ?u"
  have t: "t = ?a @ ?w @ ?v" by simp
  have nul: "NUL \<notin> set ?u" "NUL \<notin> set ?w" "NUL \<notin> set ?v"
    using assms by (auto dest: set_dropWhileD set_takeWhileD)
  have i: "skip_spaces (t @ NUL # r) = Inr (length ?a)" by (rule skip_spaces_text [OF assms])
  have d: "drop (length ?a) (t @ NUL # r) = ?u @ NUL # r"
    by (metis append_assoc append_eq_conv_conj takeWhile_dropWhile_id)
  have goal: ?thesis
    if "split_command t = Some (map toupper w, args)" and "get_mnemonic (t @ NUL # r) =
          Inr (Some (length a, length a + length w + length z, a @ w @ z @ args @ NUL # r))"
      and "NUL \<notin> set w" and "z = [] \<and> args = [] \<or> z \<noteq> [] \<and> hd z = NUL"
      and "length (a @ w @ z @ args) = length t" for a w z args
    unfolding that(1) option.case prod.case using that(2-) by blast
  have c: "read_at (t @ NUL # r) (int (length ?a)) = Inr (hd (?u @ [NUL]))"
    by (rule read_at_text [of _ _ _ r]) simp
  show ?thesis
  proof (cases "?u = []")
    case True
    then have "read_at (t @ NUL # r) (int (length ?a)) = Inr NUL" using c unfolding True by simp
    moreover have "split_command t = None" unfolding split_command_def Let_def True by simp
    ultimately show ?thesis using i by (simp add: get_mnemonic_def)
  next
    case u: False
    then have c0: "hd (?u @ [NUL]) \<noteq> NUL" using nul(1) by (cases ?u) auto
    show ?thesis
    proof (cases "list_all isalpha ?w")
      case False
      then show ?thesis using i c c0 u d scan_word_text [OF nul(1), of r]
        by (simp add: split_command_def get_mnemonic_def Let_def)
    next
      case True
      have sw: "scan_word (drop (length ?a) (t @ NUL # r)) = Inr (Some (length ?w))"
        using d scan_word_text [OF nul(1), of r] True by (simp add: Let_def)
      have split: "split_command t = Some (map toupper ?w, dropWhile isspace ?v)"
        using u True by (simp add: split_command_def Let_def dropWhile_eq_drop [symmetric])
      have j: "read_at (t @ NUL # r) (int (length ?a + length ?w)) = Inr (hd (?v @ [NUL]))"
        using read_at_text [of "t @ NUL # r" "?a @ ?w" ?v r] by simp
      show ?thesis
      proof (cases ?v)
        case Nil
        have "read_at (t @ NUL # r) (int (length ?a + length ?w)) = Inr NUL" using j unfolding Nil by simp
        then have "get_mnemonic (t @ NUL # r) = Inr (Some (length ?a, length ?a + length ?w, t @ NUL # r))"
          using i c c0 sw by (simp add: get_mnemonic_def Let_def)
        moreover have ta: "?a @ ?w = t" using t unfolding Nil by simp
        moreover have "length (?a @ ?w @ [] @ []) = length t" using ta by simp
        ultimately show ?thesis
          using split nul(2) Nil by (intro goal [of ?w "[]" ?a "[]"]) (simp_all del: dropWhile_eq_Nil_conv)
      next
        case (Cons x v)
        have nv: "NUL \<notin> set v" "x \<noteq> NUL" "isspace x"
          using nul(3) Cons hd_dropWhile [of "\<lambda>c. \<not> isspace c" ?u] by auto
        have t2: "t = ?a @ ?w @ x # v" using t Cons by simp
        have wr: "write_at (t @ NUL # r) (int (length ?a + length ?w)) [NUL] = Inr (?a @ ?w @ NUL # v @ NUL # r)"
          by (subst t2) (simp add: write_at_def nat_add_distrib)
        have sk: "skip_spaces (drop (length ?a + length ?w + 1) (?a @ ?w @ NUL # v @ NUL # r)) =
            Inr (length (takeWhile isspace v))"
          using skip_spaces_text [OF nv(1)] by simp
        have "get_mnemonic (t @ NUL # r) = Inr (Some (length ?a,
            length ?a + length ?w + length (NUL # takeWhile isspace v), ?a @ ?w @ NUL # v @ NUL # r))"
          using i c c0 sw j wr sk Cons nv(2) by (simp add: get_mnemonic_def Let_def)
        moreover have "NUL # v = (NUL # takeWhile isspace v) @ dropWhile isspace ?v"
          using nv(3) Cons by simp
        moreover have "length t = length ?a + length ?w + Suc (length v)" by (subst t2) simp
        moreover have "length v = length (takeWhile isspace v) + length (dropWhile isspace v)"
          by (metis length_append takeWhile_dropWhile_id)
        moreover have "dropWhile isspace ?v = dropWhile isspace v" using nv(3) Cons by simp
        ultimately show ?thesis
          using split nul(2)
          by (intro goal [of ?w "dropWhile isspace v" ?a "NUL # takeWhile isspace v"]) simp_all
      qed
    qed
  qed
qed

lemma process_text:
  assumes "NUL \<notin> set t" and c: "client_heap s p = Some c" "p \<noteq> 0" "input_buffer c = Some b"
  shows "case split_command t of
      None \<Rightarrow> ftp_process_command os p (t @ NUL # r) s = Inr s
    | Some (m, args) \<Rightarrow> \<exists>ln. ftp_process_command os p (t @ NUL # r) s =
        command_invoke os p m (args @ NUL # r) (put_client p (c\<lparr>input_buffer := Some (b\<lparr>line := ln\<rparr>)\<rparr>) s) \<and>
        length ln = length (t @ NUL # r)"
proof (cases "split_command t")
  case None
  then show ?thesis using get_mnemonic_text [OF assms(1), of r] by (simp add: ftp_process_command_def)
next
  case (Some x)
  obtain m args where x: "x = (m, args)" by (cases x)
  obtain a w z where g: "get_mnemonic (t @ NUL # r) =
        Inr (Some (length a, length a + length w + length z, a @ w @ z @ args @ NUL # r))"
      "map toupper w = m" "NUL \<notin> set w" "z = [] \<and> args = [] \<or> z \<noteq> [] \<and> hd z = NUL"
      "length (a @ w @ z @ args) = length t"
    using get_mnemonic_text [OF assms(1), of r] Some x by auto
  obtain q where q: "z @ args @ NUL # r = NUL # q" using g(4) by (cases z) auto
  have u: "upper_case (w @ z @ args @ NUL # r) = Inr (m @ z @ args @ NUL # r)"
    unfolding q g(2) [symmetric] by (rule upper_case_text [OF g(3)])
  have m: "NUL \<notin> set m" unfolding g(2) [symmetric] by (rule map_toupper_not_NUL [OF g(3)])
  have s: "c_str (m @ z @ args @ NUL # r) = Inr m" unfolding q by (rule c_str_append [OF m])
  have l: "length m = length w" using g(2) by auto
  let ?ln = "a @ m @ z @ args @ NUL # r"
  have "ftp_process_command os p (t @ NUL # r) s =
      command_invoke os p m (args @ NUL # r) (put_client p (c\<lparr>input_buffer := Some (b\<lparr>line := ?ln\<rparr>)\<rparr>) s)"
    using c by (simp add: ftp_process_command_def g(1) u s get_client_def the_buffer_def Let_def l [symmetric])
  moreover have "length ?ln = length (t @ NUL # r)" using g(5) l by simp
  ultimately show ?thesis unfolding Some x option.case prod.case by blast
qed

section \<open>The commands of a received text\<close>

text \<open>
  The reference for the command loop: a line is looked up and run on a state in which only the
  client's input buffer has changed; a line that is no command does nothing.
\<close>

definition rebuffered :: "u32 \<Rightarrow> ('w, 'z) server_scheme \<Rightarrow> ('w, 'z) server_scheme \<Rightarrow> bool" where
  "rebuffered p s s' \<longleftrightarrow> (\<exists>c ib. client_heap s p = Some c \<and> s' = put_client p (c\<lparr>input_buffer := ib\<rparr>) s)"

definition serves_line ::
  "'w os \<Rightarrow> u32 \<Rightarrow> string \<Rightarrow> ('w, 'z) server_scheme \<Rightarrow> ('w, 'z) server_scheme \<Rightarrow> bool" where
  "serves_line os p t s s' \<longleftrightarrow> (\<exists>s1. rebuffered p s s1 \<and>
     (case split_command t of None \<Rightarrow> s' = s1
      | Some (m, args) \<Rightarrow> \<exists>stale. command_invoke os p m (args @ NUL # stale) s1 = Inr s'))"

inductive serves ::
  "'w os \<Rightarrow> u32 \<Rightarrow> string list \<Rightarrow> ('w, 'z) server_scheme \<Rightarrow> ('w, 'z) server_scheme \<Rightarrow> bool" for os p where
  no_line: "serves os p [] s s"
| a_line: "serves_line os p t s s1 \<Longrightarrow> serves os p ts s1 s' \<Longrightarrow> serves os p (t # ts) s s'"

inductive_cases serves_ConsE: "serves os p (t # ts) s s'"

definition holds_input :: "u32 \<Rightarrow> string \<Rightarrow> ('w, 'z) server_scheme \<Rightarrow> bool" where
  "holds_input p txt s \<longleftrightarrow> p \<noteq> 0 \<and> (\<exists>c b. client_heap s p = Some c \<and> client_ok c \<and>
     input_buffer c = Some b \<and> contents b = txt)"

lemma next_line_block: "iobuffer_next_line b = Inr (Some blk, b') \<Longrightarrow> line b' = blk"
  by (auto simp: iobuffer_next_line_def iobuffer_next_line_internal_def fault_simps Let_def split: if_splits)

lemma put_client_same:
  "client_heap s p = Some c \<Longrightarrow> put_client p c s = s" for s :: "('w, 'z) server_scheme"
  by (cases s) (simp add: put_client_def fun_upd_idem)

lemma put_client_twice [simp]: "put_client p c (put_client p d s) = put_client p c s"
  by (simp add: put_client_def)

lemma no_more_commands:
  assumes "holds_input p txt s" and "LF \<notin> set txt"
  shows "next_command os p s = Inr (False, s)"
proof -
  obtain c b where c: "client_heap s p = Some c" "client_ok c" "input_buffer c = Some b" "contents b = txt" "p \<noteq> 0"
    using assms(1) by (auto simp: holds_input_def)
  then have "iob_wf b" by (simp add: client_ok_def iob_input_def)
  then have "iobuffer_next_line b = Inr (None, b)"
    using next_line_none [of b False] c(4) assms(2) by (simp add: iobuffer_next_line_def)
  moreover have "put_client p (c\<lparr>input_buffer := Some b\<rparr>) s = s"
    using put_client_same [OF c(1)] c(3) by (cases c) simp
  ultimately show ?thesis using c
    by (simp add: next_command_def get_client_def the_buffer_def)
qed

lemma next_command_line:
  assumes h: "holds_input p (l @ LF # r) s" and l: "proper_line l"
    and run: "next_command os p s = Inr (again, s')"
  shows "again \<and> holds_input p r s' \<and> serves_line os p (strip_cr l) s s'"
proof -
  obtain c b where c: "client_heap s p = Some c" "client_ok c" "input_buffer c = Some b"
      "contents b = l @ LF # r" "p \<noteq> 0"
    using h by (auto simp: holds_input_def)
  have b: "iob_wf b" "head b < bsize b" using c(2,3) by (simp_all add: client_ok_def iob_input_def)
  have "int (length l) + 1 < bsize b" using contents_length [OF b(1)] c(4) b(2) by simp
  from in_lines.get_some [OF b(1) c(4) l this] obtain blk b' where g:
      "iobuffer_next_line b = Inr (Some blk, b')" "c_str blk = Inr (strip_cr l)" "iob_wf b'"
      "contents b' = r" "bsize b' = bsize b"
    by (auto simp: line_text_def)
  obtain stale where blk: "blk = strip_cr l @ NUL # stale" "NUL \<notin> set (strip_cr l)"
    using g(2) by (auto simp: c_str_Inr_iff)
  let ?s1 = "put_client p (c\<lparr>input_buffer := Some b'\<rparr>) s"
  have pr: "ftp_process_command os p blk ?s1 = Inr s'" and again
    using run c g(1) by (auto simp: next_command_def get_client_def the_buffer_def Let_def fault_simps)
  have small: "head b' < bsize b'"
    using contents_length [OF g(3)] contents_length [OF b(1)] g(4,5) c(4) b(2) by simp
  have ok: "client_ok (c\<lparr>input_buffer := Some (b'\<lparr>line := ln\<rparr>)\<rparr>)" if "length ln = length blk" for ln
    using g(3) small that next_line_block [OF g(1)] c(2)
    by (auto simp: client_ok_def iob_input_def iob_wf_def)
  have h1: "client_heap ?s1 p = Some (c\<lparr>input_buffer := Some b'\<rparr>)" "input_buffer (c\<lparr>input_buffer := Some b'\<rparr>) = Some b'"
    by simp_all
  note pt = process_text [OF blk(2) h1(1) c(5) h1(2), of os stale, folded blk(1)]
  show ?thesis
  proof (cases "split_command (strip_cr l)")
    case None
    have "s' = ?s1" using pt pr None by simp
    moreover have "b'\<lparr>line := line b'\<rparr> = b'" by (cases b') simp
    then have "client_ok (c\<lparr>input_buffer := Some b'\<rparr>)"
      using ok [of "line b'"] next_line_block [OF g(1)] by metis
    then have "holds_input p r ?s1" using g(4) c(5) by (simp add: holds_input_def)
    ultimately show ?thesis using None \<open>again\<close> c(1)
      by (auto simp: serves_line_def rebuffered_def)
  next
    case (Some x)
    obtain m args where x: "x = (m, args)" by (cases x)
    obtain ln where ln: "command_invoke os p m (args @ NUL # stale)
        (put_client p (c\<lparr>input_buffer := Some (b'\<lparr>line := ln\<rparr>)\<rparr>) s) = Inr s'" "length ln = length blk"
      using pt pr Some x by auto
    let ?c = "c\<lparr>input_buffer := Some (b'\<lparr>line := ln\<rparr>)\<rparr>"
    obtain c' where c': "client_heap s' p = Some c'" "same_connection ?c c'"
      using invoke_only_client [OF ln(1)] unfolding only_client_def by auto
    then have "client_ok c'" "input_buffer c' = Some (b'\<lparr>line := ln\<rparr>)"
      using ok [OF ln(2)] by (auto simp: same_connection_def)
    then have "holds_input p r s'"
      using c'(1) g(4) c(5) by (simp add: holds_input_def contents_def)
    moreover have "serves_line os p (strip_cr l) s s'"
      unfolding serves_line_def Some x option.case prod.case rebuffered_def using ln(1) c(1) by blast
    ultimately show ?thesis using \<open>again\<close> by blast
  qed
qed

lemma command_loop_serves:
  assumes "holds_input p (terminated ls @ r) s" and "LF \<notin> set r" and "\<forall>l \<in> set ls. proper_line l"
    and "command_loop os p s = Inr s'"
  shows "serves os p (map strip_cr ls) s s' \<and> holds_input p r s'"
  using assms
proof (induction ls arbitrary: s)
  case Nil
  then have "next_command os p s = Inr (False, s)" by (intro no_more_commands) auto
  then have "s' = s" using Nil.prems(4) by (simp add: command_loop.simps)
  then show ?case using Nil.prems(1) by (simp add: serves.no_line)
next
  case (Cons l ls)
  obtain again s1 where n: "next_command os p s = Inr (again, s1)"
      "(if again then command_loop os p s1 else Inr s1) = Inr s'"
    using Cons.prems(4) by (subst (asm) command_loop.simps) (auto simp: fault_simps)
  have "holds_input p (l @ LF # (terminated ls @ r)) s" "proper_line l"
    using Cons.prems(1,3) by auto
  from next_command_line [OF this n(1)] have
    1: "again" "holds_input p (terminated ls @ r) s1" "serves_line os p (strip_cr l) s s1" by auto
  then show ?case using Cons.IH [OF 1(2) Cons.prems(2)] Cons.prems(3) n(2)
    by (auto intro: serves.a_line)
qed


section \<open>The output of a client\<close>

text \<open>What the platform sees when lines are sent one by one.\<close>

fun send_lines :: "'w os \<Rightarrow> int \<Rightarrow> string list \<Rightarrow> 'w \<Rightarrow> 'w" where
  "send_lines os fd [] w = w"
| "send_lines os fd (t # ts) w =
     (let (n, w) = os_send os fd t w in
      send_lines os fd ts (if n < 0 then snd (os_socketlasterr os w) else w))"

lemma writeln_sends:
  assumes "c_str blk = Inr t" and "t \<noteq> []" and "0 \<le> fd"
  shows "\<exists>n. network_writeln os fd blk s = Inr (n, s\<lparr>world := send_lines os fd [t] (world s)\<rparr>)"
  using assms by (auto simp: network_writeln_def sysc_def split: prod.splits)

lemma next_output_line:
  assumes c: "client_heap s p = Some c" "p \<noteq> 0" "0 \<le> cfd c" and b: "output_buffer c = Some b" "iob_wf b"
    and t: "contents b = l @ LF # r" "proper_line l" "int (length l) + 1 < bsize b"
  shows "\<exists>b'. next_output os p s = Inr (True, (put_client p (c\<lparr>output_buffer := Some b'\<rparr>) s)
      \<lparr>world := send_lines os (cfd c) [l @ [LF]] (world s)\<rparr>) \<and>
    iob_wf b' \<and> contents b' = r \<and> bsize b' = bsize b"
proof -
  obtain blk b' where g: "iobuffer_next_line_eol b = Inr (Some blk, b')" "c_str blk = Inr (l @ [LF])"
      "iob_wf b'" "contents b' = r" "bsize b' = bsize b"
    using out_lines.get_some [OF b(2) t] by (auto simp: line_text_def)
  let ?s = "put_client p (c\<lparr>output_buffer := Some b'\<rparr>) s"
  obtain n where "network_writeln os (cfd c) blk ?s = Inr (n, ?s\<lparr>world := send_lines os (cfd c) [l @ [LF]] (world ?s)\<rparr>)"
    using writeln_sends [OF g(2) _ c(3)] by blast
  then show ?thesis
    using c(1,2) b(1) g by (intro exI [of _ b']) (simp add: next_output_def get_client_def the_buffer_def)
qed

lemma put_client_world [simp]:
  "put_client p c (s\<lparr>world := w\<rparr>) = (put_client p c s)\<lparr>world := w\<rparr>"
  by (simp add: put_client_def)

lemma no_more_output:
  assumes "client_heap s p = Some c" "p \<noteq> 0" "output_buffer c = Some b" "iob_wf b" "LF \<notin> set (contents b)"
  shows "next_output os p s = Inr (False, s)"
proof -
  have "iobuffer_next_line_eol b = Inr (None, b)"
    using next_line_none [OF assms(4,5)] by (simp add: iobuffer_next_line_eol_def)
  moreover have "put_client p (c\<lparr>output_buffer := Some b\<rparr>) s = s"
    using put_client_same [OF assms(1)] assms(3) by (cases c) simp
  ultimately show ?thesis using assms(1-3)
    by (simp add: next_output_def get_client_def the_buffer_def)
qed

lemma output_loop_sends:
  fixes s :: "('w, 'z) server_scheme"
  assumes "client_heap s p = Some c" "p \<noteq> 0" "0 \<le> cfd c" "output_buffer c = Some b" "iob_wf b"
    and "contents b = terminated ls @ r" "LF \<notin> set r"
    and "\<forall>l \<in> set ls. proper_line l \<and> int (length l) + 1 < bsize b"
  shows "\<exists>b'. output_loop os p s = Inr ((put_client p (c\<lparr>output_buffer := Some b'\<rparr>) s)
      \<lparr>world := send_lines os (cfd c) (map (\<lambda>l. l @ [LF]) ls) (world s)\<rparr>) \<and>
    iob_wf b' \<and> contents b' = r"
  using assms
proof (induction ls arbitrary: s c b)
  case Nil
  then have "next_output os p s = Inr (False, s)" by (intro no_more_output) auto
  moreover have "put_client p (c\<lparr>output_buffer := Some b\<rparr>) s = s"
    using put_client_same [OF Nil.prems(1)] Nil.prems(4) by (cases c) simp
  ultimately show ?case using Nil.prems(5,6)
    by (intro exI [of _ b]) (simp add: output_loop.simps)
next
  case (Cons l ls)
  define w where "w = send_lines os (cfd c) [l @ [LF]] (world s)"
  have l: "contents b = l @ LF # (terminated ls @ r)" "proper_line l" "int (length l) + 1 < bsize b"
    using Cons.prems by auto
  obtain b1 where n: "next_output os p s = Inr (True, (put_client p (c\<lparr>output_buffer := Some b1\<rparr>) s)\<lparr>world := w\<rparr>)"
      and b1: "iob_wf b1" "contents b1 = terminated ls @ r" "bsize b1 = bsize b"
    using next_output_line [OF Cons.prems(1-5) l] unfolding w_def by blast
  let ?s1 = "(put_client p (c\<lparr>output_buffer := Some b1\<rparr>) s)\<lparr>world := w\<rparr>"
  have "\<exists>b'. output_loop os p ?s1 = Inr ((put_client p ((c\<lparr>output_buffer := Some b1\<rparr>)\<lparr>output_buffer := Some b'\<rparr>) ?s1)
      \<lparr>world := send_lines os (cfd (c\<lparr>output_buffer := Some b1\<rparr>)) (map (\<lambda>l. l @ [LF]) ls) (world ?s1)\<rparr>) \<and>
    iob_wf b' \<and> contents b' = r"
    by (rule Cons.IH) (use Cons.prems b1 in auto)
  then obtain b' where "output_loop os p ?s1 = Inr ((put_client p (c\<lparr>output_buffer := Some b'\<rparr>) s)
      \<lparr>world := send_lines os (cfd c) (map (\<lambda>l. l @ [LF]) ls) w\<rparr>)" "iob_wf b'" "contents b' = r"
    by auto
  moreover have "output_loop os p s = output_loop os p ?s1"
    by (subst output_loop.simps) (simp add: n)
  moreover have "send_lines os (cfd c) (map (\<lambda>l. l @ [LF]) (l # ls)) (world s) =
      send_lines os (cfd c) (map (\<lambda>l. l @ [LF]) ls) w"
    by (simp add: w_def case_prod_beta)
  ultimately show ?case by auto
qed


section \<open>Properties\<close>

text \<open>C17: how a line becomes a command. The scanner accepts exactly the lines of the reference: leading
  blanks, a word of letters, blanks, and the arguments; the word is looked up in upper case and the
  handler sees the arguments where they stand in the line, with the bytes left behind them. Any other
  line is ignored without a reply.\<close>

theorem lines_are_commands:
  assumes "NUL \<notin> set t" and "client_heap s p = Some c" and "p \<noteq> 0" and "input_buffer c = Some b"
  shows "case split_command t of
      None \<Rightarrow> ftp_process_command os p (t @ NUL # r) s = Inr s
    | Some (m, args) \<Rightarrow> \<exists>ln. ftp_process_command os p (t @ NUL # r) s =
        command_invoke os p m (args @ NUL # r) (put_client p (c\<lparr>input_buffer := Some (b\<lparr>line := ln\<rparr>)\<rparr>) s) \<and>
        length ln = length (t @ NUL # r)"
  by (rule process_text [OF assms])

theorem lines_are_commands_witness:
  "\<exists>ln. ftp_process_command host_os 640 ('' user  Bob B'' @ [NUL]) (server0 host0 client0) =
    command_invoke host_os 640 ''USER'' (''Bob B'' @ [NUL]) (put_client 640
      (client0\<lparr>input_buffer := Some (buf0\<lparr>line := ln\<rparr>)\<rparr>) (server0 host0 client0))"
proof -
  have "split_command '' user  Bob B'' = Some (''USER'', ''Bob B'')" by code_simp
  then show ?thesis
    using lines_are_commands [of "'' user  Bob B''" "server0 host0 client0" 640 client0 buf0 host_os "[]"]
    by (auto simp: server0_def) (auto simp: client0_def)
qed

text \<open>C16: the commands of a client are run in the order it sent them. When the bytes just received
  complete a number of lines, handling the control connection runs the commands of exactly these
  lines, one after the other and nothing else, and keeps the unfinished rest for the next time.\<close>

theorem commands_in_order:
  assumes "handle_control_events os p s = Inr s'" and "client_heap s p = Some c" and "client_ok c"
    and "input_buffer c = Some b" and "cstate c AND STATE_DATA = 0" and "0 \<le> cfd c"
    and "os_recv os (cfd c) (iobuffer_remaining b) (world s) = (Some bytes, w)"
    and "bytes \<noteq> []" and "int (length bytes) \<le> iobuffer_remaining b"
    and "contents b @ bytes = terminated ls @ r" and "LF \<notin> set r" and "\<forall>l \<in> set ls. proper_line l"
  shows "\<exists>s1. rebuffered p (s\<lparr>world := w\<rparr>) s1 \<and> serves os p (map strip_cr ls) s1 s' \<and> holds_input p r s'"
proof -
  have p: "get_client p s = Inr c" "p \<noteq> 0"
    using assms(1,2) by (auto simp: handle_control_events_def fault_simps get_client_Inr)
  have ib: "iob_input b" using assms(3,4) by (simp add: client_ok_def)
  have "iobuffer_remaining b \<noteq> 0" using assms(8,9) by auto
  from network_read_ok [OF ib this assms(6,7,9)] obtain b' where
    b': "network_read_buffer os (cfd c) b s = Inr (int (length bytes), b', s\<lparr>world := w\<rparr>)"
      "iob_input b'" "contents b' = contents b @ bytes" by blast
  let ?s1 = "put_client p (c\<lparr>input_buffer := Some b'\<rparr>) (s\<lparr>world := w\<rparr>)"
  have "command_loop os p ?s1 = Inr s'"
    using assms(1,4,5,8) p b'(1) by (simp add: handle_control_events_def the_buffer_def EAGAIN_def)
  moreover have "holds_input p (terminated ls @ r) ?s1"
    using assms(3,10) b'(2,3) p(2) by (simp add: holds_input_def client_ok_def)
  moreover have "rebuffered p (s\<lparr>world := w\<rparr>) ?s1" using assms(2) by (auto simp: rebuffered_def)
  ultimately show ?thesis using command_loop_serves assms(11,12) by blast
qed

theorem commands_in_order_witness:
  "\<exists>s1 s'. handle_control_events host_os 640
      (server0 (host0\<lparr>inbox := [''USER x'' @ [LF] @ ''PASS y'' @ [CR, LF] @ ''LI'']\<rparr>) client0) = Inr s' \<and>
    serves host_os 640 [''USER x'', ''PASS y''] s1 s' \<and> holds_input 640 ''LI'' s'"
proof -
  let ?bytes = "''USER x'' @ [LF] @ ''PASS y'' @ [CR, LF] @ ''LI''"
  let ?s = "server0 (host0\<lparr>inbox := [?bytes]\<rparr>) client0"
  have "case handle_control_events host_os 640 ?s of Inr s' \<Rightarrow> True | Inl _ \<Rightarrow> False" by code_simp
  then obtain s' where s': "handle_control_events host_os 640 ?s = Inr s'"
    by (cases "handle_control_events host_os 640 ?s") auto
  have "\<exists>s1. rebuffered 640 (?s\<lparr>world := host0\<rparr>) s1 \<and>
      serves host_os 640 (map strip_cr [''USER x'', ''PASS y'' @ [CR]]) s1 s' \<and> holds_input 640 ''LI'' s'"
    by (rule commands_in_order [OF s', where c = client0 and b = buf0 and bytes = ?bytes])
      (use client0_ok in \<open>simp_all add: server0_def client0_def buf0_def client_states iobuffer_remaining_def
         pop_inbox_def contents_def proper_line_def host0_def\<close>)
  then show ?thesis using s' by (auto simp: strip_cr_def)
qed

text \<open>Output is sent completely and in order: every complete line of the output buffer goes out as
  one send with its line end, in the order the replies were queued, and only an unfinished last line
  stays. Nothing but the world and this client's output buffer changes.\<close>

theorem output_sent_in_order:
  assumes "client_heap s p = Some c" and "p \<noteq> 0" and "0 \<le> cfd c" and "output_buffer c = Some b"
    and "iob_wf b" and "contents b = terminated ls @ r" and "LF \<notin> set r"
    and "\<forall>l \<in> set ls. proper_line l \<and> int (length l) + 1 < bsize b"
  shows "\<exists>b'. handle_output os p s = Inr ((put_client p (c\<lparr>output_buffer := Some b'\<rparr>) s)
      \<lparr>world := send_lines os (cfd c) (map (\<lambda>l. l @ [LF]) ls) (world s)\<rparr>) \<and>
    iob_wf b' \<and> contents b' = r"
proof (cases "head b = 0")
  case True
  then have "ls = []" "r = []"
    using assms(6) contents_length [OF assms(5)] by (cases ls; simp)+
  moreover have "put_client p (c\<lparr>output_buffer := Some b\<rparr>) s = s"
    using put_client_same [OF assms(1)] assms(4) by (cases c) simp
  ultimately show ?thesis using True assms(1,2,4-6)
    by (intro exI [of _ b]) (simp add: handle_output_def get_client_def the_buffer_def)
next
  case False
  then show ?thesis using output_loop_sends [OF assms] assms(1,2,4)
    by (simp add: handle_output_def get_client_def the_buffer_def)
qed

theorem output_sent_in_order_witness:
  "\<exists>b'. handle_output host_os 640 (server0 host0 (client0\<lparr>output_buffer := Some
      (buf0\<lparr>buffer := ''220 hi'' @ [LF] @ ''221 by'' @ [LF] @ replicate 114 NUL, head := 14\<rparr>)\<rparr>)) =
    Inr (server0 (host0\<lparr>outbox := [''220 hi'' @ [LF], ''221 by'' @ [LF]]\<rparr>) (client0\<lparr>output_buffer := Some b'\<rparr>))"
proof -
  let ?b = "buf0\<lparr>buffer := ''220 hi'' @ [LF] @ ''221 by'' @ [LF] @ replicate 114 NUL, head := 14\<rparr>"
  let ?c = "client0\<lparr>output_buffer := Some ?b\<rparr>"
  have "\<exists>b'. handle_output host_os 640 (server0 host0 ?c) =
      Inr ((put_client 640 (?c\<lparr>output_buffer := Some b'\<rparr>) (server0 host0 ?c))
        \<lparr>world := send_lines host_os (cfd ?c) (map (\<lambda>l. l @ [LF]) [''220 hi'', ''221 by'']) (world (server0 host0 ?c))\<rparr>) \<and>
      iob_wf b' \<and> contents b' = []"
    by (rule output_sent_in_order [where b = ?b])
      (simp_all add: server0_def client0_def buf0_def iob_wf_def contents_def proper_line_def)
  then show ?thesis by (auto simp: server0_def host0_def put_client_def)
qed


end
