(* ===== verification/Sessions.thy ===== *)
theory Sessions
  imports Ftp
begin

text \<open>
  The table of client slots over time: what one poll does to it, the invariant that ties the table to
  the allocated clients, the states the server can reach, and the life of one connection from accept
  to its end.
\<close>

section \<open>Operations of one client\<close>

text \<open>
  Handling a client changes no other client and no slot, and keeps its own record well formed.
\<close>

definition steady :: "u32 \<Rightarrow> ('w, 'z) server_scheme \<Rightarrow> ('w, 'z) server_scheme \<Rightarrow> bool" where
  "steady p s s' \<longleftrightarrow> clients s' = clients s \<and> (\<forall>q. q \<noteq> p \<longrightarrow> client_heap s' q = client_heap s q) \<and>
     (case client_heap s p of None \<Rightarrow> client_heap s' p = None
      | Some c \<Rightarrow> \<exists>c'. client_heap s' p = Some c' \<and> (client_ok c \<longrightarrow> client_ok c'))"

lemma steady_refl [simp, intro]: "steady p s s"
  by (simp add: steady_def split: option.split)

lemma steady_trans: "steady p s s1 \<Longrightarrow> steady p s1 s2 \<Longrightarrow> steady p s s2"
  unfolding steady_def by (auto split: option.splits)

lemma only_client_steady: "only_client p s s' \<Longrightarrow> steady p s s'"
  unfolding only_client_def steady_def by (fastforce simp: same_connection_def split: option.splits)

lemma same_clients_steady: "same_clients s s' \<Longrightarrow> steady p s s'"
  by (simp add: same_clients_only only_client_steady)

lemma put_steady:
  "client_heap s p = Some c \<Longrightarrow> (client_ok c \<Longrightarrow> client_ok c') \<Longrightarrow> steady p s (put_client p c' s)"
  by (simp add: steady_def)

lemma next_line_input:
  assumes "iobuffer_next_line b = Inr (x, b')" and "iob_input b"
  shows "iob_input b'"
proof -
  have "iob_wf b'" "bsize b' = bsize b"
    using next_line_wf [of b False x b'] assms by (auto simp: iobuffer_next_line_def iob_input_def)
  moreover have "head b' \<le> head b"
  proof (cases x)
    case None
    then have "b' = b" using assms(1)
      by (auto simp: iobuffer_next_line_def iobuffer_next_line_internal_def fault_simps Let_def split: if_splits)
    then show ?thesis by simp
  next
    case (Some blk)
    then show ?thesis using assms next_line_progress [of b False blk b'] by (simp add: iobuffer_next_line_def)
  qed
  ultimately show ?thesis using assms(2) by (simp add: iob_input_def)
qed

lemma upper_case_length: "upper_case blk = Inr blk' \<Longrightarrow> length blk' = length blk"
proof (induction blk arbitrary: blk')
  case (Cons c cs)
  then show ?case by (cases "upper_case cs") (auto split: if_splits)
qed simp

lemma get_mnemonic_length: "get_mnemonic ln = Inr (Some (i, j, ln')) \<Longrightarrow> length ln' = length ln"
  by (auto simp: get_mnemonic_def fault_simps Let_def length_write_at split: if_splits option.splits)

lemma line_input: "length ln = length (line b) \<Longrightarrow> iob_input (b\<lparr>line := ln\<rparr>) = iob_input b"
  by (simp add: iob_input_def iob_wf_def)

lemma process_steady:
  assumes run: "ftp_process_command os p ln s = Inr s'" and c: "client_heap s p = Some c"
    and b: "input_buffer c = Some b" "length ln = length (line b)"
  shows "steady p s s'"
proof -
  obtain r where r: "get_mnemonic ln = Inr r" using run by (auto simp: ftp_process_command_def fault_simps)
  show ?thesis
  proof (cases r)
    case None
    then show ?thesis using run r by (simp add: ftp_process_command_def)
  next
    case (Some x)
    obtain i j ln1 where x: "x = (i, j, ln1)" by (cases x)
    obtain u where u: "upper_case (drop i ln1) = Inr u"
      using run r Some x by (auto simp: ftp_process_command_def fault_simps)
    let ?ln = "take i ln1 @ u"
    let ?c = "c\<lparr>input_buffer := Some (b\<lparr>line := ?ln\<rparr>)\<rparr>"
    have p: "get_client p s = Inr c"
      using run r Some x u c by (auto simp: ftp_process_command_def fault_simps get_client_Inr)
    obtain m where m: "command_invoke os p m (drop j ?ln) (put_client p ?c s) = Inr s'"
      using run r Some x u p b by (auto simp: ftp_process_command_def fault_simps the_buffer_def Let_def)
    have "length ?ln = length (line b)"
      using get_mnemonic_length [of ln i j ln1] upper_case_length [OF u] r Some x b(2) by auto
    then have "client_ok c \<Longrightarrow> client_ok ?c"
      using b(1) by (auto simp: client_ok_def line_input)
    then have "steady p s (put_client p ?c s)" by (rule put_steady [OF c])
    then show ?thesis using only_client_steady [OF invoke_only_client [OF m]] by (rule steady_trans)
  qed
qed

lemma next_command_steady:
  assumes "next_command os p s = Inr (again, s')"
  shows "steady p s s'"
proof -
  obtain c b x b' where c: "client_heap s p = Some c" "input_buffer c = Some b" "iobuffer_next_line b = Inr (x, b')"
      and k: "(case x of None \<Rightarrow> Inr (False, put_client p (c\<lparr>input_buffer := Some b'\<rparr>) s)
        | Some blk \<Rightarrow> bindF (ftp_process_command os p blk (put_client p (c\<lparr>input_buffer := Some b'\<rparr>) s))
            (\<lambda>s. Inr (True, s))) = Inr (again, s')"
    using assms
    by (auto simp: next_command_def fault_simps get_client_Inr the_buffer_def Let_def split: option.splits)
  let ?s = "put_client p (c\<lparr>input_buffer := Some b'\<rparr>) s"
  have 1: "steady p s ?s"
    using c next_line_input by (intro put_steady) (auto simp: client_ok_def)
  show ?thesis
  proof (cases x)
    case None
    then show ?thesis using k 1 by simp
  next
    case (Some blk)
    then have "ftp_process_command os p blk ?s = Inr s'" using k by (auto simp: fault_simps)
    then have "steady p ?s s'"
      using next_line_block [of b blk b'] c(3) Some
      by (intro process_steady [of os p blk ?s s' "c\<lparr>input_buffer := Some b'\<rparr>" b']) auto
    with 1 show ?thesis by (rule steady_trans)
  qed
qed

lemma command_loop_steady: "command_loop os p s = Inr s' \<Longrightarrow> steady p s s'"
proof (induction os p s rule: command_loop.induct)
  case (1 os p s)
  obtain again s1 where n: "next_command os p s = Inr (again, s1)"
      "(if again then command_loop os p s1 else Inr s1) = Inr s'"
    using 1(2) by (subst (asm) command_loop.simps) (auto simp: fault_simps)
  note st = next_command_steady [OF n(1)]
  show ?case
  proof (cases again)
    case True
    then have "steady p s1 s'" using 1(1) [OF n(1) refl] n(2) by simp
    with st show ?thesis by (rule steady_trans)
  qed (use n(2) st in simp)
qed

lemma read_input:
  fixes s :: "('w, 'z) server_scheme"
  assumes "network_read_buffer os fd b s = Inr (n, b', s')"
  shows "same_clients s s'" and "iob_input b \<Longrightarrow> recv_within os \<Longrightarrow> iob_input b'"
proof -
  show "same_clients s s'"
    using assms
    by (auto simp: network_read_buffer_def fault_simps Let_def case_prod_beta
        dest: sysc_clients same_clients_trans split: if_splits option.splits prod.splits)
      (simp_all add: same_clients_def)
  show "iob_input b'" if "iob_input b" "recv_within os"
    using network_read_cases [OF that, of fd s] assms by auto
qed

text \<open>Releasing a client takes it out of the table and the store.\<close>

definition gone :: "u32 \<Rightarrow> ('w, 'z) server_scheme \<Rightarrow> ('w, 'z) server_scheme \<Rightarrow> bool" where
  "gone p s s' \<longleftrightarrow> clients s' = map (\<lambda>q. if q = p then 0 else q) (clients s) \<and>
     client_heap s' = (client_heap s)(p := None)"

lemma cleanup_gone:
  assumes "ftp_client_cleanup os p s = Inr s'" and "p \<noteq> 0"
  shows "gone p s s'"
  using assms by (auto simp: ftp_client_cleanup_def free_client_def fault_simps Let_def gone_def)

lemma control_steady:
  assumes run: "handle_control_events os p s = Inr s'" and r: "recv_within os"
  shows "p \<noteq> 0 \<and> (steady p s s' \<or> (\<exists>s1. steady p s s1 \<and> gone p s1 s'))"
proof -
  obtain c where c: "client_heap s p = Some c" "p \<noteq> 0"
    using run by (auto simp: handle_control_events_def fault_simps get_client_Inr)
  show ?thesis
  proof (cases "cstate c AND STATE_DATA = 0")
    case False
    then show ?thesis using run c by (simp add: handle_control_events_def get_client_def)
  next
    case True
    then obtain b n b' s1 where b: "input_buffer c = Some b" "network_read_buffer os (cfd c) b s = Inr (n, b', s1)"
        "(let s = put_client p (c\<lparr>input_buffer := Some b'\<rparr>) s1 in
          if n = - EAGAIN then Inr s else if n \<le> 0 then ftp_client_cleanup os p s
          else command_loop os p s) = Inr s'"
      using run c by (auto simp: handle_control_events_def get_client_def the_buffer_def fault_simps split: option.splits)
    let ?s = "put_client p (c\<lparr>input_buffer := Some b'\<rparr>) s1"
    have "client_ok c \<Longrightarrow> client_ok (c\<lparr>input_buffer := Some b'\<rparr>)"
      using read_input(2) [OF b(2) _ r] b(1) by (simp add: client_ok_def)
    then have 1: "steady p s ?s"
      using read_input(1) [OF b(2)] c(1) by (simp add: steady_def same_clients_def)
    consider "s' = ?s" | "ftp_client_cleanup os p ?s = Inr s'" | "command_loop os p ?s = Inr s'"
      using b(3) unfolding Let_def by (metis sum.inject(2))
    then show ?thesis
      using 1 cleanup_gone [of os p ?s s'] command_loop_steady [of os p ?s s'] steady_trans [OF 1] c(2)
      by cases auto
  qed
qed

lemma response_steady: "ftp_response code p msg s = Inr s' \<Longrightarrow> steady p s s'"
  by (rule only_client_steady [OF response_only_client])

lemma data_events_steady:
  assumes run: "handle_data_events p s = Inr s'"
  shows "steady p s s'"
proof (cases "p = 0")
  case True
  then show ?thesis using run by (simp add: handle_data_events_def)
next
  case p: False
  then obtain c where c: "client_heap s p = Some c" "get_client p s = Inr c"
    using run by (auto simp: handle_data_events_def fault_simps get_client_Inr)
  have put: "steady p s (put_client p (c\<lparr>cstate := x\<rparr>) s)" for x by (rule put_steady [OF c(1)]) simp
  consider "s' = s" | "s' = put_client p (c\<lparr>cstate := cstate c AND NOT STATE_DATA\<rparr>) s"
    | s1 code msg d a ch where "ftp_response code p msg s = Inr s1" "client_heap s1 p = Some d"
       "s' = put_client p (d\<lparr>cdata := 0, cstate := cstate d AND NOT STATE_DATA\<rparr>) (put_channel a ch s1)"
    using run p c
    by (auto simp: handle_data_events_def fault_simps get_client_Inr Let_def split: if_splits)
  then show ?thesis
  proof cases
    case 3
    have "steady p s1 s'" using 3(2,3) by (simp add: steady_def)
    with response_steady [OF 3(1)] show ?thesis by (rule steady_trans)
  qed (use put in simp_all)
qed

lemma next_output_steady:
  assumes "next_output os p s = Inr (again, s')"
  shows "steady p s s'"
proof -
  obtain c b x b' where c: "client_heap s p = Some c" "output_buffer c = Some b" "iobuffer_next_line_eol b = Inr (x, b')"
      and k: "(case x of None \<Rightarrow> Inr (False, put_client p (c\<lparr>output_buffer := Some b'\<rparr>) s)
        | Some blk \<Rightarrow> bindF (network_writeln os (cfd c) blk (put_client p (c\<lparr>output_buffer := Some b'\<rparr>) s))
            (\<lambda>(_, s). Inr (True, s))) = Inr (again, s')"
    using assms
    by (auto simp: next_output_def fault_simps get_client_Inr the_buffer_def Let_def split: option.splits)
  let ?s = "put_client p (c\<lparr>output_buffer := Some b'\<rparr>) s"
  have 1: "steady p s ?s"
    using c next_line_wf [of b True x b'] by (intro put_steady) (auto simp: client_ok_def iobuffer_next_line_eol_def)
  show ?thesis
  proof (cases x)
    case None
    then show ?thesis using k 1 by simp
  next
    case (Some blk)
    then obtain n where "network_writeln os (cfd c) blk ?s = Inr (n, s')" using k by (auto simp: fault_simps)
    from same_clients_steady [OF writeln_clients [OF this]] 1 show ?thesis by (blast intro: steady_trans)
  qed
qed

lemma output_loop_steady: "output_loop os p s = Inr s' \<Longrightarrow> steady p s s'"
proof (induction os p s rule: output_loop.induct)
  case (1 os p s)
  obtain again s1 where n: "next_output os p s = Inr (again, s1)"
      "(if again then output_loop os p s1 else Inr s1) = Inr s'"
    using 1(2) by (subst (asm) output_loop.simps) (auto simp: fault_simps)
  note st = next_output_steady [OF n(1)]
  show ?case
  proof (cases again)
    case True
    then have "steady p s1 s'" using 1(1) [OF n(1) refl] n(2) by simp
    with st show ?thesis by (rule steady_trans)
  qed (use n(2) st in simp)
qed

lemma handle_output_steady: "handle_output os p s = Inr s' \<Longrightarrow> steady p s s'"
  by (auto simp: handle_output_def fault_simps intro: output_loop_steady split: if_splits)

text \<open>Whatever is done with a client that is gone is undefined.\<close>

lemma gone_output: "gone p s s' \<Longrightarrow> p \<noteq> 0 \<Longrightarrow> handle_output os p s' = Inl Use_after_free"
  by (simp add: gone_def handle_output_def get_client_def)

lemma handle_client_steady:
  assumes run: "handle_client os p s = Inr s'" and r: "recv_within os"
  shows "steady p s s' \<or> (p \<noteq> 0 \<and> (\<exists>s1. steady p s s1 \<and> gone p s1 s'))"
proof (cases "p = 0")
  case True
  then show ?thesis using run by (simp add: handle_client_def)
next
  case p: False
  then obtain c c1 c3 :: client and s1 s2 s3 where
    1: "(if cstate c AND STATE_DATA \<noteq> 0 then handle_data_events p s else Inr s) = Inr s1"
    and 2: "(if cstate c1 AND STATE_DATA = 0 then handle_control_events os p s1 else Inr s1) = Inr s2"
    and 3: "handle_output os p s2 = Inr s3"
    and 4: "(if cstate c3 AND STATE_DISCONN \<noteq> 0 then ftp_client_cleanup os p s3 else Inr s3) = Inr s'"
    using run unfolding handle_client_def if_not_P [OF p] bindF_eq_Inr by blast
  have a: "steady p s s1" using 1 data_events_steady by (auto split: if_splits)
  have "steady p s1 s2"
  proof (cases "cstate c1 AND STATE_DATA = 0")
    case True
    then have "handle_control_events os p s1 = Inr s2" using 2 by simp
    from control_steady [OF this r] 3 gone_output p show ?thesis by fastforce
  qed (use 2 in simp)
  then have b: "steady p s s3"
    using a handle_output_steady [OF 3] steady_trans by blast
  show ?thesis
  proof (cases "cstate c3 AND STATE_DISCONN = 0")
    case True
    then show ?thesis using 4 b by simp
  next
    case False
    then have "ftp_client_cleanup os p s3 = Inr s'" using 4 by simp
    then show ?thesis using cleanup_gone [OF _ p] b p by blast
  qed
qed

section \<open>The invariant of the table\<close>

text \<open>
  Twenty-five slots, no client in two of them, exactly the allocated clients in them, each of them
  well formed.
\<close>

definition table_ok :: "('w, 'z) server_scheme \<Rightarrow> bool" where
  "table_ok s \<longleftrightarrow> length (clients s) = MAX_CLIENTS \<and> distinct (filter (\<lambda>p. p \<noteq> 0) (clients s)) \<and>
     (\<forall>p. p \<noteq> 0 \<and> p \<in> set (clients s) \<longleftrightarrow> client_heap s p \<noteq> None) \<and>
     (\<forall>p c. client_heap s p = Some c \<longrightarrow> client_ok c)"

lemma table_ok_steady:
  assumes "table_ok s" and "steady p s s'"
  shows "table_ok s'"
proof -
  have h: "client_heap s' q \<noteq> None \<longleftrightarrow> client_heap s q \<noteq> None" for q
    using assms(2) unfolding steady_def by (cases "q = p") (auto split: option.splits)
  moreover have "client_ok c" if live: "client_heap s' q = Some c" for q c
  proof (cases "q = p")
    case True
    then obtain c0 where "client_heap s p = Some c0" using h [of p] live by auto
    with assms live True show ?thesis unfolding steady_def table_ok_def by auto
  next
    case False
    then show ?thesis using assms live unfolding steady_def table_ok_def by metis
  qed
  moreover have "clients s' = clients s" using assms(2) by (simp add: steady_def)
  ultimately show ?thesis using assms(1) unfolding table_ok_def by metis
qed

lemma filter_slots:
  "p \<noteq> 0 \<Longrightarrow> filter (\<lambda>q. q \<noteq> 0) (map (\<lambda>q. if q = p then 0 else q) qs) =
    filter (\<lambda>q. q \<noteq> p) (filter (\<lambda>q. q \<noteq> 0) qs)"
  by (induction qs) auto

lemma table_ok_gone:
  assumes "table_ok s" and "gone p s s'" and "p \<noteq> 0"
  shows "table_ok s'"
proof -
  have "distinct (filter (\<lambda>q. q \<noteq> p) (filter (\<lambda>q. q \<noteq> 0) (clients s)))"
    using assms(1) by (intro distinct_filter [of "filter (\<lambda>q. q \<noteq> 0) (clients s)"]) (simp add: table_ok_def)
  then have "distinct (filter (\<lambda>q. q \<noteq> 0) (clients s'))"
    using assms(2) filter_slots [OF assms(3)] by (simp add: gone_def)
  moreover have "q \<noteq> 0 \<and> q \<in> set (clients s') \<longleftrightarrow> client_heap s' q \<noteq> None" for q
    using assms by (cases "q = p") (auto simp: gone_def table_ok_def)
  ultimately show ?thesis using assms by (auto simp: gone_def table_ok_def)
qed

lemma handle_client_table:
  "handle_client os p s = Inr s' \<Longrightarrow> recv_within os \<Longrightarrow> table_ok s \<Longrightarrow> table_ok s'"
  using handle_client_steady table_ok_steady table_ok_gone by metis

lemma handle_slots_table:
  "handle_slots os is s = Inr s' \<Longrightarrow> recv_within os \<Longrightarrow> table_ok s \<Longrightarrow> table_ok s'"
proof (induction "is" arbitrary: s)
  case (Cons i "is")
  then show ?case by (auto simp: fault_simps dest: handle_client_table)
qed simp


section \<open>Polling the data channels leaves the clients alone\<close>

lemma get_channel_clients [simp]:
  fixes s :: "('w, 'z) server_scheme"
  shows "client_heap (s\<lparr>dtp_list := n\<rparr>) = client_heap s" "clients (s\<lparr>dtp_list := n\<rparr>) = clients s"
    "client_heap (s\<lparr>next_dtp_list := n\<rparr>) = client_heap s" "clients (s\<lparr>next_dtp_list := n\<rparr>) = clients s"
  by simp_all

lemma copy_data_clients:
  fixes s :: "('w, 'z) server_scheme"
  assumes "dtp_copy_data os dir c b n s = Inr (r, s')"
  shows "same_clients s s'"
proof -
  have w: "same_clients t t'" if "dtp_write_buffered_data_to_fd os fd ob k t = Inr (x, b', t')"
    for fd ob k x b' and t t' :: "('w, 'z) server_scheme"
    using that
    by (auto simp: dtp_write_buffered_data_to_fd_def fault_simps Let_def case_prod_beta same_clients_def
        split: if_splits option.splits)
  have f: "same_clients t t'" if "dtp_fill_buffer_from_fd os b fd t = Inr (x, b', t')"
    for fd b x b' and t t' :: "('w, 'z) server_scheme"
    using that
    by (auto simp: dtp_fill_buffer_from_fd_def fault_simps Let_def case_prod_beta same_clients_def
        split: if_splits option.splits)
  show ?thesis using assms
    by (auto simp: dtp_copy_data_def fault_simps Let_def dest!: w f split: if_splits)
      (auto simp: same_clients_def)
qed

lemma move_clients:
  fixes s :: "('w, 'z) server_scheme"
  shows "dtp_move os dir n p s = Inr s' \<Longrightarrow> same_clients s s'"
  by (auto simp: dtp_move_def fault_simps Let_def dest!: copy_data_clients split: if_splits option.splits)
    (auto simp: same_clients_def)


lemma accept_poll_clients:
  fixes s :: "('w, 'z) server_scheme"
  assumes "network_accept_poll os sock (Some cb) s = Inr (r, s')"
    and "\<And>fd ip port t t'. cb fd ip port t = Inr t' \<Longrightarrow> same_clients t t'"
  shows "same_clients s s'"
  using assms(1)
  by (auto simp: network_accept_poll_def fault_simps Let_def case_prod_beta split: if_splits
      dest!: assms(2)) (auto simp: same_clients_def)

lemma try_accept_clients:
  fixes s :: "('w, 'z) server_scheme"
  assumes "pasv_try_accept os p s = Inr s'"
  shows "same_clients s s'"
proof -
  have h: "same_clients t t'" if "pasv_accept_handler os p fd ip port t = Inr t'"
    for fd ip port and t t' :: "('w, 'z) server_scheme"
    using that by (auto simp: pasv_accept_handler_def fault_simps Let_def case_prod_beta same_clients_def)
  show ?thesis using assms
    by (auto simp: pasv_try_accept_def fault_simps dest!: accept_poll_clients [OF _ h] split: if_splits)
      (auto simp: same_clients_def)
qed

lemma service_clients:
  fixes s :: "('w, 'z) server_scheme"
  assumes "dtp_service os p s = Inr s'"
  shows "same_clients s s'"
proof -
  have a: "same_clients s s'" if "iface_accept os i p s = Inr s'" for i
    using that by (cases i) (auto simp: active_try_connect_def dest: try_accept_clients)
  show ?thesis using assms
    by (auto simp: dtp_service_def fault_simps iface_send_def iface_recv_def dtp_send_data_def
        dtp_receive_data_def dest: a move_clients split: if_splits)
      (auto simp: same_clients_def)
qed

lemma poll_turn_clients:
  fixes s :: "('w, 'z) server_scheme"
  assumes "dtp_poll_turn os s = Inr s'"
  shows "same_clients s s'"
proof -
  obtain c n s1 where s1: "dtp_service os (dtp_list s)
      (put_channel (dtp_list s) (c\<lparr>nxt := Init 0\<rparr>) (s\<lparr>dtp_list := n\<rparr>)) = Inr s1"
    and k: "free_data_channel os (dtp_list s) s1 = Inr s' \<or> same_clients s1 s'"
    using assms
    by (auto simp: dtp_poll_turn_def fault_simps Let_def iface_free_def same_clients_def split: if_splits)
  have "same_clients s s1" using service_clients [OF s1] by (simp add: same_clients_def)
  moreover have "same_clients s1 s'"
    using k by (auto dest: free_data_channel_clients)
  ultimately show ?thesis by (rule same_clients_trans)
qed

lemma poll_loop_clients:
  fixes s :: "('w, 'z) server_scheme"
  assumes "dtp_poll_loop os s = Some r"
  shows "\<forall>s'. r = Inr s' \<longrightarrow> same_clients s s'"
proof (rule dtp_poll_loop.raw_induct [where P = "\<lambda>os s r. \<forall>s'. r = Inr s' \<longrightarrow> same_clients s s'", OF _ assms])
  fix loop :: "'w os \<Rightarrow> ('w, 'z) server_scheme \<Rightarrow> (fault + ('w, 'z) server_scheme) option"
    and os s and r :: "fault + ('w, 'z) server_scheme"
  assume IH: "\<And>os s r. loop os s = Some r \<Longrightarrow> \<forall>s'. r = Inr s' \<longrightarrow> same_clients s s'"
    and r: "(if dtp_list s = 0 then Some (Inr s)
      else case dtp_poll_turn os s of Inl e \<Rightarrow> Some (Inl e) | Inr s' \<Rightarrow> loop os s') = Some r"
  show "\<forall>s'. r = Inr s' \<longrightarrow> same_clients s s'"
  proof (cases "dtp_list s = 0")
    case False
    then show ?thesis
      using r IH poll_turn_clients same_clients_trans by (cases "dtp_poll_turn os s") fastforce+
  qed (use r in auto)
qed

lemma dtp_poll_clients:
  fixes s :: "('w, 'z) server_scheme"
  assumes "dtp_poll os s = Some (Inr s')"
  shows "same_clients s s'"
  using assms poll_loop_clients
  by (fastforce simp: dtp_poll_def fault_simps same_clients_def)

section \<open>Accepting a connection\<close>

text \<open>The allocator never hands out the address of a live client.\<close>

definition fresh_client :: "('w, 'z) server_scheme \<Rightarrow> bool" where
  "fresh_client s \<longleftrightarrow> client_heap s (allocs s 0) = None"

lemma open_slot_from_spec:
  "open_slot_from i qs = (if 0 \<in> set qs then i + int (length (takeWhile (\<lambda>q. q \<noteq> 0) qs)) else -1)"
  by (induction qs arbitrary: i) auto

lemma root_path:
  "new_vfs_path (Some [CHR ''/'', NUL]) m =
    Inr (let (q, m) = malloc m in (if q = 0 then None else Some \<lparr>entities = [], absolute = True\<rparr>, m))"
  by (simp add: new_vfs_path_def new_vfs_path_internal_def read_at_def vfs_pathent_parse_def
      parse_loop.simps vfs_path_resolve_def Let_def case_prod_beta)

definition new_client_ok :: "client \<Rightarrow> bool" where
  "new_client_ok c \<longleftrightarrow> client_ok c \<and> cstate c = STATE_NONE \<and> cdata c = 0 \<and>
     (case output_buffer c of None \<Rightarrow> False | Some b \<Rightarrow> contents b = [] \<and> 1024 < bsize b)"

lemma new_client_run:
  assumes fresh: "fresh_client s"
  shows "\<exists>p s1. new_client os s = Inr (p, s1) \<and> clients s1 = clients s \<and>
    (if p = 0 then client_heap s1 = client_heap s
     else p = allocs s 0 \<and> (\<exists>c. client_heap s1 = (client_heap s)(p := Some c) \<and> new_client_ok c)) \<and>
    (never_fails (allocs s) \<longrightarrow> p \<noteq> 0 \<and> never_fails (allocs s1) \<and> world s1 = world s)"
proof -
  obtain p m where m: "malloc (allocs s) = (p, m)" by fastforce
  have p: "p = allocs s 0" using m by (simp add: malloc_def)
  have nf: "never_fails (allocs s) \<Longrightarrow> p \<noteq> 0 \<and> never_fails m"
    using malloc_never_fails [of "allocs s"] m by auto
  show ?thesis
  proof (cases "p = 0")
    case True
    then show ?thesis using m nf by (auto simp: new_client_def)
  next
    case p0: False
    obtain ib m1 where ib: "new_buffer FTP_BUFFER m = (ib, m1)" by fastforce
    obtain ob m2 where ob: "new_buffer FTP_BUFFER m1 = (ob, m2)" by fastforce
    obtain q m3 where q: "malloc m2 = (q, m3)" by fastforce
    let ?r = "if q = 0 then None else Some \<lparr>entities = [], absolute = True\<rparr>"
    let ?c = "\<lparr>cfd = 0, cip = 0, cport = 0, cstate = 0, input_buffer = ib, output_buffer = ob,
                 cdata = 0, cwd = ?r\<rparr>"
    have run: "new_client os s =
        (if ib = None \<or> ob = None \<or> ?r = None then
           bindF (free_client os p (put_client p ?c (s\<lparr>allocs := m3\<rparr>))) (\<lambda>s. Inr (0, s))
         else Inr (p, put_client p ?c (s\<lparr>allocs := m3\<rparr>)))"
      using m p0 ib ob q by (simp add: new_client_def root_path Let_def)
    have nf2: "ib \<noteq> None \<and> ob \<noteq> None \<and> q \<noteq> 0 \<and> never_fails m3" if "never_fails (allocs s)"
      using nf [OF that] new_buffer_never_fails [of m FTP_BUFFER] new_buffer_never_fails [of m1 FTP_BUFFER]
        malloc_never_fails [of m2] ib ob q by auto
    show ?thesis
    proof (cases "ib = None \<or> ob = None \<or> ?r = None")
      case True
      then have "\<not> never_fails (allocs s)" using nf2 by (auto split: if_splits)
      moreover have "\<exists>s1. new_client os s = Inr (0, s1) \<and> clients s1 = clients s \<and> client_heap s1 = client_heap s"
        using True run p0 fresh p
        by (auto simp: free_client_def fresh_client_def fun_upd_idem)
      ultimately show ?thesis by auto
    next
      case False
      then obtain b1 b2 where b: "ib = Some b1" "ob = Some b2" "q \<noteq> 0" by (auto split: if_splits)
      have size: "0 \<le> FTP_BUFFER" "FTP_BUFFER \<le> 2 ^ 20 - 64" by (simp_all add: FTP_BUFFER_def)
      note w1 = new_buffer_wf [OF ib [unfolded b(1)] size] and w2 = new_buffer_wf [OF ob [unfolded b(2)] size]
      have "iob_input b1" using w1 contents_length [OF w1(1)] by (simp add: iob_input_def FTP_BUFFER_def)
      then have "new_client_ok ?c"
        using b w2 by (simp add: new_client_ok_def client_ok_def sound_dir_def normal_def c_names_def
            STATE_NONE_def FTP_BUFFER_def)
      then show ?thesis using False run p p0 nf2 by auto
    qed
  qed
qed

lemma table_ok_insert:
  assumes t: "table_ok s" and p: "p \<noteq> 0" "client_heap s p = None" and c: "client_ok c"
    and slot: "i < length (clients s)" "clients s ! i = 0"
    and s': "clients s' = (clients s)[i := p]" "client_heap s' = (client_heap s)(p := Some c)"
  shows "table_ok s'"
proof -
  have notin: "p \<notin> set (clients s)" using t p unfolding table_ok_def by blast
  let ?xs = "take i (clients s)" and ?ys = "drop (Suc i) (clients s)"
  have x: "clients s = ?xs @ 0 # ?ys" using slot by (metis id_take_nth_drop)
  have y: "clients s' = ?xs @ p # ?ys" using slot s'(1) by (simp add: upd_conv_take_nth_drop)
  have f: "filter (\<lambda>q. q \<noteq> 0) (clients s) = filter (\<lambda>q. q \<noteq> 0) ?xs @ filter (\<lambda>q. q \<noteq> 0) ?ys"
    by (subst x) simp
  have n: "p \<notin> set ?xs" "p \<notin> set ?ys"
    using notin by (meson in_set_takeD in_set_dropD)+
  have "distinct (filter (\<lambda>q. q \<noteq> 0) (clients s'))"
    using t p(1) f n unfolding y table_ok_def by auto
  moreover have "set (clients s) = insert 0 (set ?xs \<union> set ?ys)" by (subst x) auto
  then have "q \<noteq> 0 \<and> q \<in> set (clients s') \<longleftrightarrow> client_heap s' q \<noteq> None" for q
    using t p unfolding y table_ok_def s'(2) by (cases "q = p") auto
  moreover have "client_ok d" if "client_heap s' q = Some d" for q d
    using that t c unfolding table_ok_def s'(2) by (auto split: if_splits)
  ultimately show ?thesis using t s'(1) by (simp add: table_ok_def)
qed

lemma network_close_clients:
  fixes s :: "('w, 'z) server_scheme"
  shows "same_clients s (snd (network_close os fd s))"
  by (simp add: same_clients_def)

lemma open_slot_found:
  assumes "0 \<in> set qs"
  shows "find_open_client_slot qs = int (length (takeWhile (\<lambda>q. q \<noteq> 0) qs))"
    "length (takeWhile (\<lambda>q. q \<noteq> 0) qs) < length qs" "qs ! length (takeWhile (\<lambda>q. q \<noteq> 0) qs) = 0"
proof -
  show "length (takeWhile (\<lambda>q. q \<noteq> 0) qs) < length qs"
    using assms by (induction qs) auto
  then show "qs ! length (takeWhile (\<lambda>q. q \<noteq> 0) qs) = 0" using nth_length_takeWhile by fastforce
qed (simp add: find_open_client_slot_def open_slot_from_spec assms)

lemma only_client_clients: "only_client p s s' \<Longrightarrow> clients s' = clients s"
  by (simp add: only_client_def)

lemma accept_table:
  assumes run: "ftp_accept_handler os fd ip port s = Inr s'" and fresh: "fresh_client s" and t: "table_ok s"
  shows "table_ok s'"
proof (cases "0 \<in> set (clients s)")
  case False
  then have "s' = snd (network_close os fd s)"
    using run by (simp add: ftp_accept_handler_def find_open_client_slot_def open_slot_from_spec)
  then show ?thesis
    using table_ok_steady [OF t same_clients_steady [OF network_close_clients]] by blast
next
  case True
  let ?i = "length (takeWhile (\<lambda>q. q \<noteq> 0) (clients s))"
  note slot = open_slot_found [OF True]
  obtain p s1 where n: "new_client os s = Inr (p, s1)" "clients s1 = clients s"
     "if p = 0 then client_heap s1 = client_heap s
      else p = allocs s 0 \<and> (\<exists>c. client_heap s1 = (client_heap s)(p := Some c) \<and> new_client_ok c)"
    using new_client_run [OF fresh] by blast
  show ?thesis
  proof (cases "p = 0")
    case True
    then have "s' = snd (network_close os fd s1)" using run slot n by (simp add: ftp_accept_handler_def)
    moreover have "same_clients s s1" using n True by (simp add: same_clients_def)
    ultimately show ?thesis
      using table_ok_steady [OF t same_clients_steady [OF same_clients_trans [OF _ network_close_clients]]] by blast
  next
    case False
    then obtain c where c: "client_heap s1 = (client_heap s)(p := Some c)" "client_ok c" "p = allocs s 0"
      using n(3) False unfolding new_client_ok_def if_not_P [OF False] by blast
    define i where "i = ?i"
    have "bindF (ftp_response 220 p ''FTPservU, here to serve you!'' s1) (\<lambda>s.
          bindF (get_client p s) (\<lambda>c.
          bindF (write_at (clients s) (int i) [p]) (\<lambda>table.
          Inr ((put_client p (c\<lparr>cfd := fd, cip := ip, cport := port\<rparr>) s)\<lparr>clients := table\<rparr>)))) = Inr s'"
      using run slot(1) n(1) False by (simp add: ftp_accept_handler_def i_def)
    then obtain s2 d tb where 2: "ftp_response 220 p ''FTPservU, here to serve you!'' s1 = Inr s2"
        "get_client p s2 = Inr d" "write_at (clients s2) (int i) [p] = Inr tb"
        "s' = (put_client p (d\<lparr>cfd := fd, cip := ip, cport := port\<rparr>) s2)\<lparr>clients := tb\<rparr>"
      unfolding bindF_eq_Inr by blast
    have 3: "only_client p s1 s2" by (rule response_only_client [OF 2(1)])
    have tb: "tb = (clients s)[i := p]"
      using 2(3) only_client_clients [OF 3] n(2) slot(2)
      by (simp add: write_at_Inr_iff upd_conv_take_nth_drop i_def)
    obtain d' where "client_heap s2 p = Some d'" "same_connection c d'"
      using 3 c(1) unfolding only_client_def by auto
    then have ok: "client_ok (d\<lparr>cfd := fd, cip := ip, cport := port\<rparr>)"
      using c(2) 2(2) by (auto simp: same_connection_def get_client_Inr client_ok_def)
    have "client_heap s2 q = client_heap s q" if "q \<noteq> p" for q
      using 3 c(1) that by (simp add: only_client_def)
    then have "client_heap s' = (client_heap s)(p := Some (d\<lparr>cfd := fd, cip := ip, cport := port\<rparr>))"
      by (auto simp: 2(4))
    moreover have "clients s' = (clients s)[?i := p]" by (simp add: 2(4) tb i_def)
    ultimately show ?thesis
      using table_ok_insert [OF t False _ ok slot(2,3)] fresh c(3) by (simp add: fresh_client_def)
  qed
qed


section \<open>Reachable states\<close>

lemma network_handler_table:
  fixes s :: "('w, 'z) server_scheme"
  assumes run: "ftp_network_handler os sock s = Some (Inr (r, s'))" and fresh: "fresh_client s"
    and t: "table_ok s" and w: "recv_within os"
  shows "table_ok s'"
proof -
  obtain n s1 where 1: "network_accept_poll os sock (Some (ftp_accept_handler os)) s = Inr (n, s1)"
    using run by (cases "network_accept_poll os sock (Some (ftp_accept_handler os)) s")
      (auto simp: ftp_network_handler_def)
  have t1: "table_ok s1"
  proof -
    obtain fd ip port s0 where a: "sysc (os_accept os sock) s = ((fd, ip, port), s0)"
      by (metis prod.exhaust)
    have c0: "same_clients s s0" "allocs s0 = allocs s"
      using sysc_clients [OF a] sysc_allocs [of "os_accept os sock" s] a by auto
    then have t0: "table_ok s0" and f0: "fresh_client s0"
      using t fresh table_ok_steady same_clients_steady
      by (blast, simp add: fresh_client_def same_clients_def)
    show ?thesis
    proof (cases "fd < 0")
      case True
      obtain e s2 where e: "sysc (os_socketlasterr os) s0 = (e, s2)" by fastforce
      then have "network_accept_poll os sock (Some (ftp_accept_handler os)) s =
          Inr (if e = EAGAIN \<or> e = EWOULDBLOCK then 0 else -1, s2)"
        using a True by (simp add: network_accept_poll_def)
      then have "s1 = s2" using 1 by simp
      then show ?thesis using table_ok_steady [OF t0 same_clients_steady [OF sysc_clients [OF e]]] by simp
    next
      case False
      then have "ftp_accept_handler os fd ip port s0 = Inr s1"
        using 1 a by (auto simp: network_accept_poll_def fault_simps)
      then show ?thesis using accept_table f0 t0 by blast
    qed
  qed
  show ?thesis
  proof (cases "n < 0")
    case True
    then show ?thesis using run 1 t1 by (simp add: ftp_network_handler_def)
  next
    case False
    then obtain s2 where 2: "dtp_poll os s1 = Some (Inr s2)" "handle_slots os [0..<MAX_CLIENTS] s2 = Inr s'"
      using run 1 by (auto simp: ftp_network_handler_def fault_simps)
    show ?thesis
      using handle_slots_table [OF 2(2) w] table_ok_steady [OF t1 same_clients_steady [OF dtp_poll_clients [OF 2(1)]]]
      by blast
  qed
qed

lemma clear_slot:
  fixes p :: u32
  assumes "distinct (filter (\<lambda>q. q \<noteq> 0) xs)" and "i < length xs" and "xs ! i = p" and "p \<noteq> 0"
  shows "xs[i := 0] = map (\<lambda>q. if q = p then 0 else q) xs"
proof -
  let ?a = "take i xs" and ?b = "drop (Suc i) xs"
  have x: "xs = ?a @ p # ?b" using assms(2,3) by (metis id_take_nth_drop)
  have "distinct (filter (\<lambda>q. q \<noteq> 0) (?a @ p # ?b))" using assms(1) x by metis
  then have n: "p \<notin> set ?a" "p \<notin> set ?b" using assms(4) by auto
  have "map (\<lambda>q. if q = p then 0 else q) (?a @ p # ?b) = ?a @ 0 # ?b"
    using n by (auto intro!: map_idI)
  then show ?thesis using assms(2) x by (metis upd_conv_take_nth_drop)
qed

lemma free_client_run:
  assumes "client_heap s p = Some c" and "p \<noteq> 0"
  shows "\<exists>t. free_client os p s = Inr t \<and> clients t = clients s \<and> client_heap t = (client_heap s)(p := None)"
  using assms by (simp add: free_client_def get_client_def Let_def)

lemma deinit_slots_clears:
  assumes "table_ok s" and "i \<le> MAX_CLIENTS" and "\<forall>j < i. clients s ! j = 0"
  shows "\<exists>s'. deinit_slots os [i..<MAX_CLIENTS] s = Inr s' \<and> table_ok s' \<and> (\<forall>j < MAX_CLIENTS. clients s' ! j = 0)"
  using assms
proof (induction "MAX_CLIENTS - i" arbitrary: i s)
  case 0
  then show ?case by simp
next
  case (Suc k)
  let ?p = "clients s ! i"
  have i: "i < MAX_CLIENTS" "length (clients s) = MAX_CLIENTS" "[i..<MAX_CLIENTS] = i # [Suc i..<MAX_CLIENTS]"
    using Suc by (auto simp: table_ok_def upt_conv_Cons)
  have rd: "read_at (clients s) (int i) = Inr ?p" using i by simp
  obtain s1 where s1: "(if ?p \<noteq> 0 then bindF (free_client os ?p s) (\<lambda>s.
        bindF (write_at (clients s) (int i) [0]) (\<lambda>table. Inr (s\<lparr>clients := table\<rparr>))) else Inr s) = Inr s1"
      "table_ok s1" "clients s1 = (clients s)[i := 0]"
  proof (cases "?p = 0")
    case True
    then have "(clients s)[i := 0] = clients s" by (metis list_update_id)
    with True Suc.prems(1) show thesis by (intro that [of s]) simp_all
  next
    case False
    moreover have "?p \<in> set (clients s)" using i by simp
    ultimately have "client_heap s ?p \<noteq> None" using Suc.prems(1) unfolding table_ok_def by blast
    then obtain c where "client_heap s ?p = Some c" by blast
    then obtain t where t: "free_client os ?p s = Inr t" "clients t = clients s"
        "client_heap t = (client_heap s)(?p := None)"
      using free_client_run False by blast
    have w: "write_at (clients t) (int i) [0] = Inr ((clients s)[i := 0])"
      using i t(2) by (simp add: write_at_Inr_iff upd_conv_take_nth_drop)
    have "gone ?p s (t\<lparr>clients := (clients s)[i := 0]\<rparr>)"
      using clear_slot [of "clients s" i ?p] Suc.prems(1) i False t(3) by (simp add: gone_def table_ok_def)
    then have "table_ok (t\<lparr>clients := (clients s)[i := 0]\<rparr>)" using table_ok_gone Suc.prems(1) False by blast
    then show thesis
      using t(1) w False by (intro that [of "t\<lparr>clients := (clients s)[i := 0]\<rparr>"]) simp_all
  qed
  have "\<exists>s'. deinit_slots os [Suc i..<MAX_CLIENTS] s1 = Inr s' \<and> table_ok s' \<and> (\<forall>j < MAX_CLIENTS. clients s' ! j = 0)"
  proof (rule Suc.hyps(1))
    show "k = MAX_CLIENTS - Suc i" using Suc.hyps(2) by simp
    show "\<forall>j < Suc i. clients s1 ! j = 0" using Suc.prems(3) s1(3) i by (auto simp: less_Suc_eq nth_list_update)
  qed (use i s1(2) in auto)
  then show ?case using rd s1(1) by (simp add: i(3))
qed

text \<open>
  A run of the server as far as its clients are concerned: it starts with an empty table; the main
  loop calls the network handler, and other parts of the program change only the rest of the state.
\<close>

inductive reaches :: "'w os \<Rightarrow> int \<Rightarrow> ('w, 'z) server_scheme \<Rightarrow> bool" for os sock where
  boot: "clients s = replicate MAX_CLIENTS 0 \<Longrightarrow> client_heap s = Map.empty \<Longrightarrow> reaches os sock s"
| poll: "reaches os sock s \<Longrightarrow> fresh_client s \<Longrightarrow> ftp_network_handler os sock s = Some (Inr (r, s')) \<Longrightarrow>
    reaches os sock s'"
| deinit: "reaches os sock s \<Longrightarrow> ftp_deinit os s = Inr s' \<Longrightarrow> reaches os sock s'"
| other: "reaches os sock s \<Longrightarrow> same_clients s s' \<Longrightarrow> reaches os sock s'"

lemma reaches_table_ok:
  assumes "reaches os sock s" and "recv_within os"
  shows "table_ok s"
  using assms(1)
proof induction
  case (boot s)
  have "filter (\<lambda>p. p \<noteq> 0) (replicate n 0) = ([] :: u32 list)" for n by (induction n) auto
  with boot show ?case by (simp add: table_ok_def)
next
  case (poll s r s')
  then show ?case using network_handler_table assms(2) by blast
next
  case (deinit s s')
  then show ?case using deinit_slots_clears [of s 0 os] by (auto simp: ftp_deinit_def)
next
  case (other s s')
  then show ?case using table_ok_steady same_clients_steady by blast
qed


section \<open>A transfer in active mode\<close>

text \<open>A client waiting for a transfer on a channel of active mode that is not connected.\<close>

definition wedged :: "u32 \<Rightarrow> ('w, 'z) server_scheme \<Rightarrow> bool" where
  "wedged p s \<longleftrightarrow> p \<noteq> 0 \<and> (\<exists>c ch. client_heap s p = Some c \<and> cstate c AND STATE_DATA \<noteq> 0 \<and>
     cstate c AND STATE_DISCONN = 0 \<and> cdata c \<noteq> 0 \<and> channels s (cdata c) = Some ch \<and>
     GET_STATE ch = DTP_PENDING \<and> iface ch = Init Active)"

definition received :: "u32 \<Rightarrow> ('w, 'z) server_scheme \<Rightarrow> string" where
  "received p s = (case client_heap s p of None \<Rightarrow> []
     | Some c \<Rightarrow> (case input_buffer c of None \<Rightarrow> [] | Some b \<Rightarrow> contents b))"

lemma output_keeps:
  fixes s :: "('w, 'z) server_scheme"
  assumes "next_output os p s = Inr (again, s')" and "client_heap s p = Some c"
  shows "\<exists>ob. client_heap s' p = Some (c\<lparr>output_buffer := ob\<rparr>) \<and> channels s' = channels s"
proof -
  obtain b x b' where "output_buffer c = Some b" and "iobuffer_next_line_eol b = Inr (x, b')" and k: "(case x of None \<Rightarrow> Inr (False, put_client p (c\<lparr>output_buffer := Some b'\<rparr>) s)
        | Some blk \<Rightarrow> bindF (network_writeln os (cfd c) blk (put_client p (c\<lparr>output_buffer := Some b'\<rparr>) s))
            (\<lambda>(_, s). Inr (True, s))) = Inr (again, s')"
    using assms
    by (auto simp: next_output_def fault_simps get_client_Inr the_buffer_def Let_def split: option.split_asm prod.split_asm)
  have w: "channels t' = channels t" if "network_writeln os fd blk t = Inr (n, t')"
    for fd blk n and t t' :: "('w, 'z) server_scheme"
    using that by (auto simp: network_writeln_def fault_simps Let_def sysc_def split: if_splits prod.splits)
  show ?thesis
  proof (cases x)
    case (Some blk)
    then obtain n where n: "network_writeln os (cfd c) blk (put_client p (c\<lparr>output_buffer := Some b'\<rparr>) s) = Inr (n, s')"
      using k by (auto simp: fault_simps)
    from w [OF n] writeln_clients [OF n] show ?thesis by (auto simp: same_clients_def)
  qed (use k in auto)
qed

lemma output_loop_keeps:
  fixes s :: "('w, 'z) server_scheme"
  shows "output_loop os p s = Inr s' \<Longrightarrow> client_heap s p = Some c \<Longrightarrow>
    \<exists>ob. client_heap s' p = Some (c\<lparr>output_buffer := ob\<rparr>) \<and> channels s' = channels s"
proof (induction os p s arbitrary: c rule: output_loop.induct)
  case (1 os p s)
  obtain again s1 where n: "next_output os p s = Inr (again, s1)"
      "(if again then output_loop os p s1 else Inr s1) = Inr s'"
    using 1(2) by (subst (asm) output_loop.simps) (auto simp: fault_simps)
  obtain ob where k: "client_heap s1 p = Some (c\<lparr>output_buffer := ob\<rparr>)" "channels s1 = channels s"
    using output_keeps [OF n(1) 1(3)] by blast
  show ?case
  proof (cases again)
    case True
    then show ?thesis using 1(1) [OF n(1) refl True _ k(1)] n(2) k(2) by auto
  qed (use n(2) k in auto)
qed

lemma wedged_handle:
  assumes w: "wedged p s" and run: "handle_client os p s = Inr s'"
  shows "wedged p s' \<and> received p s' = received p s \<and> handle_output os p s = Inr s'"
proof -
  obtain c ch where c: "p \<noteq> 0" "client_heap s p = Some c" "cstate c AND STATE_DATA \<noteq> 0"
      "cstate c AND STATE_DISCONN = 0" "cdata c \<noteq> 0" "channels s (cdata c) = Some ch"
      "GET_STATE ch = DTP_PENDING" "iface ch = Init Active"
    using w by (auto simp: wedged_def)
  have g: "get_client p s = Inr c" using c by (simp add: get_client_def)
  have d: "handle_data_events p s = Inr s"
    using c g by (simp add: handle_data_events_def get_channel_def dtp_states)
  have k: "bindF (handle_output os p s) (\<lambda>s. bindF (get_client p s) (\<lambda>c.
      if cstate c AND STATE_DISCONN \<noteq> 0 then ftp_client_cleanup os p s else Inr s)) = Inr s'"
    using run c g d by (simp add: handle_client_def)
  then obtain s1 where s1: "handle_output os p s = Inr s1" by (auto simp: fault_simps)
  obtain b where "output_buffer c = Some b" and "(if head b = 0 then Inr s else output_loop os p s) = Inr s1"
    using s1 c g by (auto simp: handle_output_def fault_simps the_buffer_def split: option.splits)
  then have "\<exists>ob. client_heap s1 p = Some (c\<lparr>output_buffer := ob\<rparr>) \<and> channels s1 = channels s"
    using output_loop_keeps [of os p s s1 c] c(2) by (cases "head b = 0") (auto intro: exI [of _ "output_buffer c"])
  then obtain ob where o1: "client_heap s1 p = Some (c\<lparr>output_buffer := ob\<rparr>)" "channels s1 = channels s"
    by blast
  then have "s' = s1" using k s1 c(1,4) by (simp add: get_client_def)
  then show ?thesis using o1 c s1 by (auto simp: wedged_def received_def)
qed

lemma wedged_service:
  assumes "wedged p s" and "client_heap s p = Some c"
  shows "dtp_service os (cdata c) s = Inr s"
  using assms by (auto simp: wedged_def dtp_service_def get_channel_def active_try_connect_def)

lemma response_channels:
  "ftp_response code p msg s = Inr s' \<Longrightarrow> channels s' = channels s"
  using response_dtp by blast

lemma data_flag:
  "(x OR STATE_DATA) AND STATE_DATA = STATE_DATA" "(x OR STATE_DATA) AND STATE_DISCONN = x AND STATE_DISCONN"
proof -
  have "STATE_DATA AND STATE_DISCONN = 0" by (simp add: client_states)
  then show "(x OR STATE_DATA) AND STATE_DISCONN = x AND STATE_DISCONN"
    by (simp add: bit.conj_disj_distrib2)
  show "(x OR STATE_DATA) AND STATE_DATA = STATE_DATA"
    by (auto intro!: bit_word_eqI simp: bit_simps)
qed

lemma new_active_run:
  fixes s :: "('w, 'z) server_scheme"
  assumes "never_fails (allocs s)" and "ip \<noteq> 0"
  shows "\<exists>d ch s1. new_active_channel os ip port s = Inr (d, s1) \<and> d \<noteq> 0 \<and>
    channels s1 = (channels s)(d := Some ch) \<and> GET_STATE ch = DTP_PENDING \<and> iface ch = Init Active"
proof -
  obtain p m where m: "malloc (allocs s) = (p, m)" by fastforce
  have nf: "p \<noteq> 0" "never_fails m" using malloc_never_fails [OF assms(1)] m by auto
  obtain b m' where b: "new_buffer 192000 m = (Some b, m')" using new_buffer_never_fails [OF nf(2)] by blast
  show ?thesis
    using nf m b assms(2)
    by (intro exI [of _ p] exI [of _ "\<lparr>nxt = Init (next_dtp_list s), dstate = DTP_PENDING, dlocal = -1,
          remote_fd = -1, listen_fd = Uninit, dip = ip, dport = port, dbuffer = Init (Some b),
          iface = Init Active\<rparr>"])
      (simp add: new_active_channel_def new_data_channel_def get_channel_def Let_def GET_STATE_def DTP_PENDING_def)
qed

lemma active_send_wedges:
  assumes c: "client_heap s p = Some c" "p \<noteq> 0" and b: "output_buffer c = Some b" "iob_wf b"
    and "cdata c = 0" and "cip c \<noteq> 0" and "never_fails (allocs s)" and "cstate c AND STATE_DISCONN = 0"
  shows "\<exists>s'. ftp_data_send_buffer os p txt s = Inr s' \<and> wedged p s'"
proof -
  let ?c = "c\<lparr>cstate := cstate c OR STATE_DATA\<rparr>" and ?s = "put_client p (c\<lparr>cstate := cstate c OR STATE_DATA\<rparr>) s"
  have nf: "never_fails (allocs ?s)" using assms(7) by simp
  obtain d ch s1 where n: "new_active_channel os (cip c) (cport c) ?s = Inr (d, s1)" "d \<noteq> 0"
      "channels s1 = (channels ?s)(d := Some ch)" "GET_STATE ch = DTP_PENDING" "iface ch = Init Active"
    using new_active_run [OF nf assms(6)] by blast
  let ?s2 = "put_client p (?c\<lparr>cdata := d\<rparr>) s1" and ?ch = "ch\<lparr>remote_fd := -1\<rparr>"
  have "GET_STATE ch \<noteq> DTP_ESTABLISHED" using n(4) by (simp add: dtp_states)
  then have a: "active_is_connected d ?s2 = Inr (False, put_channel d ?ch ?s2)"
    using n(2,3) by (simp add: active_is_connected_def get_channel_def network_connect_def Let_def)
  have r: "ftp_data_send_buffer os p txt s =
      ftp_response 425 p ''Failed to connect to client'' (put_channel d ?ch ?s2)"
    using c n(1,2,3,5) a assms(5)
    by (simp add: ftp_data_send_buffer_def get_client_def dtp_channel_init_def get_channel_def Let_def)
  have len: "length (dec_int 425 @ '' '' @ ''Failed to connect to client'' @ [CR, LF]) \<le> 2 ^ 30"
    by (simp add: dec_int_def dec_nat.simps)
  have c2: "client_heap (put_channel d ?ch ?s2) p = Some (?c\<lparr>cdata := d\<rparr>)" by simp
  have b2: "output_buffer (?c\<lparr>cdata := d\<rparr>) = Some b" using b(1) by simp
  obtain b' m where "ftp_response 425 p ''Failed to connect to client'' (put_channel d ?ch ?s2) =
      Inr ((put_client p (?c\<lparr>cdata := d, output_buffer := Some b'\<rparr>) (put_channel d ?ch ?s2))\<lparr>allocs := m\<rparr>)"
    using response_ok [OF c2 c(2) b2 b(2) len] by auto
  with r show ?thesis
    using n(2,4,5) c(2) assms(8) data_flag [of "cstate c"]
    by (auto simp: wedged_def put_channel_def GET_STATE_def client_states)
qed

section \<open>Properties\<close>

definition boot0 :: "host \<Rightarrow> host server" where
  "boot0 w = \<lparr>world = w, allocs = allocs0, next_ephermal_port = 1024, channels = Map.empty,
     strings = Map.empty, dtp_list = 0, next_dtp_list = 0, clients = replicate MAX_CLIENTS 0,
     client_heap = Map.empty\<rparr>"

lemma boot_poll:
  "\<exists>s. ftp_network_handler host_os 3 (boot0 host0) = Some (Inr (0, s)) \<and> allocs s 0 = 64 \<and> allocs s 1 = 128"
proof -
  have "case network_accept_poll host_os 3 (Some (ftp_accept_handler host_os)) (boot0 host0) of
      Inr (r, s1) \<Rightarrow> r = 0 \<and> dtp_list s1 = 0 \<and>
        (case handle_slots host_os [0..<MAX_CLIENTS] (s1\<lparr>dtp_list := next_dtp_list s1, next_dtp_list := 0\<rparr>) of
          Inr s \<Rightarrow> allocs s 0 = 64 \<and> allocs s 1 = 128 | Inl _ \<Rightarrow> False)
    | Inl _ \<Rightarrow> False"
    by code_simp
  then obtain s1 where 1: "network_accept_poll host_os 3 (Some (ftp_accept_handler host_os)) (boot0 host0) = Inr (0, s1)"
      "dtp_list s1 = 0"
      "case handle_slots host_os [0..<MAX_CLIENTS] (s1\<lparr>dtp_list := next_dtp_list s1, next_dtp_list := 0\<rparr>) of
        Inr s \<Rightarrow> allocs s 0 = 64 \<and> allocs s 1 = 128 | Inl _ \<Rightarrow> False"
    by (cases "network_accept_poll host_os 3 (Some (ftp_accept_handler host_os)) (boot0 host0)") auto
  then obtain s where "handle_slots host_os [0..<MAX_CLIENTS]
      (s1\<lparr>dtp_list := next_dtp_list s1, next_dtp_list := 0\<rparr>) = Inr s" "allocs s 0 = 64 \<and> allocs s 1 = 128"
    by (cases "handle_slots host_os [0..<MAX_CLIENTS] (s1\<lparr>dtp_list := next_dtp_list s1, next_dtp_list := 0\<rparr>)") auto
  with 1(1,2) show ?thesis
    by (simp add: ftp_network_handler_def dtp_poll_def dtp_poll_loop.simps)
qed

text \<open>C14: the table of clients is sound in every state the server reaches: twenty-five slots, no client in
  two of them, exactly the allocated clients in them and none forgotten, and every client with both
  buffers and an absolute working directory without dot segments.\<close>

theorem table_invariant:
  assumes "reaches os sock s" and "recv_within os"
  shows "table_ok s"
  by (rule reaches_table_ok [OF assms])

theorem table_invariant_witness:
  "\<exists>s. ftp_network_handler host_os 3 (boot0 host0) = Some (Inr (0, s)) \<and> table_ok s"
proof -
  from boot_poll obtain s where s: "ftp_network_handler host_os 3 (boot0 host0) = Some (Inr (0, s))" by blast
  have "reaches host_os 3 (boot0 host0)" by (rule reaches.boot) (simp_all add: boot0_def)
  then have "reaches host_os 3 s"
    by (rule reaches.poll [OF _ _ s]) (simp add: fresh_client_def boot0_def)
  from table_invariant [OF this host_recv_within] s show ?thesis by blast
qed

text \<open>C15: clients are isolated: handling one client leaves the records of all others and their slots as
  they were, whatever the client sends; at most its own slot is cleared.\<close>

theorem clients_are_isolated:
  assumes "handle_client os p s = Inr s'" and "recv_within os"
  shows "(\<forall>q. q \<noteq> p \<longrightarrow> client_heap s' q = client_heap s q) \<and> length (clients s') = length (clients s) \<and>
    (\<forall>i < length (clients s). clients s' ! i = clients s ! i \<or> clients s ! i = p \<and> clients s' ! i = 0)"
  using handle_client_steady [OF assms] by (auto simp: steady_def gone_def split: if_split_asm)

theorem clients_are_isolated_witness:
  "\<exists>s'. handle_client host_os 640 (server0 (host0\<lparr>inbox := [''QUIT'' @ [LF]]\<rparr>) client0) = Inr s' \<and>
    length (clients s') = 25"
proof -
  let ?s = "server0 (host0\<lparr>inbox := [''QUIT'' @ [LF]]\<rparr>) client0"
  have "case handle_client host_os 640 ?s of Inr s' \<Rightarrow> True | Inl _ \<Rightarrow> False" by code_simp
  then obtain s' where "handle_client host_os 640 ?s = Inr s'" by (cases "handle_client host_os 640 ?s") auto
  moreover have "length (clients ?s) = 25" by (simp add: server0_def)
  ultimately show ?thesis using clients_are_isolated host_recv_within by metis
qed

text \<open>Accepting a connection. With a free slot, a working allocator and no allocation of a live
  address, the new client takes the first free slot, is not logged in, has the connection's
  descriptor and address, the root as its directory, and the greeting as its only output; every other
  slot and client is untouched. With a full table the connection is closed at once and nothing else
  changes.\<close>

theorem accept_outcomes:
  assumes "fresh_client s" and "never_fails (allocs s)"
  shows "if 0 \<in> set (clients s)
    then \<exists>p c b s'. ftp_accept_handler os fd ip port s = Inr s' \<and> p \<noteq> 0 \<and> p = allocs s 0 \<and>
      clients s' = (clients s)[length (takeWhile (\<lambda>q. q \<noteq> 0) (clients s)) := p] \<and>
      client_heap s' = (client_heap s)(p := Some c) \<and> client_ok c \<and> cstate c = STATE_NONE \<and>
      cfd c = fd \<and> cip c = ip \<and> cport c = port \<and> output_buffer c = Some b \<and>
      contents b = ''220 FTPservU, here to serve you!'' @ [CR, LF]
    else ftp_accept_handler os fd ip port s = Inr (snd (network_close os fd s))"
proof (cases "0 \<in> set (clients s)")
  case False
  then show ?thesis by (simp add: ftp_accept_handler_def find_open_client_slot_def open_slot_from_spec)
next
  case True
  let ?i = "length (takeWhile (\<lambda>q. q \<noteq> 0) (clients s))"
  note slot = open_slot_found [OF True]
  obtain p s1 c where n: "new_client os s = Inr (p, s1)" "clients s1 = clients s" "p \<noteq> 0" "p = allocs s 0"
      "client_heap s1 = (client_heap s)(p := Some c)" "new_client_ok c" "never_fails (allocs s1)"
    using new_client_run [OF assms(1), of os] assms(2) by (metis (no_types, lifting))
  obtain b where b: "output_buffer c = Some b" "iob_wf b" "contents b = []" "1024 < bsize b"
    using n(6) by (auto simp: new_client_ok_def client_ok_def split: option.splits)
  have code220: "dec_int 220 = ''220''" by code_simp
  have c1: "client_heap s1 p = Some c" using n(5) by simp
  from response_ok [OF c1 n(3) b(1,2), of 220 "''FTPservU, here to serve you!''"] obtain b' m where r:
      "ftp_response 220 p ''FTPservU, here to serve you!'' s1 =
        Inr ((put_client p (c\<lparr>output_buffer := Some b'\<rparr>) s1)\<lparr>allocs := m\<rparr>)"
      "iob_wf b'" "contents b' = ''220 FTPservU, here to serve you!'' @ [CR, LF]"
    using n(7) b(3,4) by (auto simp: code220)
  let ?s2 = "(put_client p (c\<lparr>output_buffer := Some b'\<rparr>) s1)\<lparr>allocs := m\<rparr>"
  let ?c = "c\<lparr>output_buffer := Some b', cfd := fd, cip := ip, cport := port\<rparr>"
  have w: "write_at (clients ?s2) (int ?i) [p] = Inr ((clients s)[?i := p])"
    using slot n(2) by (simp add: write_at_Inr_iff upd_conv_take_nth_drop)
  have g: "get_client p ?s2 = Inr (c\<lparr>output_buffer := Some b'\<rparr>)" using n(3) by (simp add: get_client_def)
  have "ftp_accept_handler os fd ip port s =
      Inr ((put_client p ?c ?s2)\<lparr>clients := (clients s)[?i := p]\<rparr>)"
    using slot(1) n(1,3) r(1) g w by (simp add: ftp_accept_handler_def)
  moreover have "client_heap ((put_client p ?c ?s2)\<lparr>clients := (clients s)[?i := p]\<rparr>) = (client_heap s)(p := Some ?c)"
    by (simp add: n(5))
  moreover have "client_ok ?c" "cstate ?c = STATE_NONE"
    using n(6) r(2) by (simp_all add: new_client_ok_def client_ok_def)
  ultimately show ?thesis using True n(3,4) r(3) by (auto intro!: exI [of _ b'])
qed

theorem accept_outcomes_witness:
  "\<exists>s'. ftp_accept_handler host_os 7 0x7F000001 5000 (server0 host0 client0) = Inr s' \<and>
    clients s' ! 0 = 640 \<and> clients s' ! 1 = 64"
proof -
  let ?s = "server0 host0 client0"
  have "never_fails (allocs ?s)" "fresh_client ?s" "allocs ?s 0 = 64" "clients ?s = 640 # replicate 24 0"
    by (simp_all add: never_fails_def fresh_client_def server0_def)
  then show ?thesis
    using accept_outcomes [of ?s host_os 7 "0x7F000001" 5000] by auto
qed

text \<open>Shutting down releases every client, whatever state each is in: afterwards the table is empty
  and no client is allocated.\<close>

theorem deinit_releases_all:
  assumes "table_ok s"
  shows "\<exists>s'. ftp_deinit os s = Inr s' \<and> clients s' = replicate MAX_CLIENTS 0 \<and> client_heap s' = Map.empty"
proof -
  obtain s' where s': "ftp_deinit os s = Inr s'" "table_ok s'" "\<forall>j < MAX_CLIENTS. clients s' ! j = 0"
    using deinit_slots_clears [OF assms, of 0 os] by (auto simp: ftp_deinit_def)
  have "clients s' = replicate MAX_CLIENTS 0"
    using s'(2,3) by (intro nth_equalityI) (auto simp: table_ok_def)
  moreover from this have "client_heap s' p = None" for p
    using s'(2) unfolding table_ok_def by (metis in_set_replicate)
  ultimately show ?thesis using s'(1) by blast
qed

theorem deinit_releases_all_witness:
  "\<exists>s'. ftp_deinit host_os (server0 host0 client0) = Inr s' \<and> clients s' = replicate MAX_CLIENTS 0"
proof -
  have "table_ok (server0 host0 client0)"
    using client0_ok by (auto simp: table_ok_def server0_def MAX_CLIENTS_def)
  from deinit_releases_all [OF this] show ?thesis by blast
qed

text \<open>A client that closes its connection without QUIT makes the server use the client after freeing
  it: reading the end of the stream releases the client, and the very next step of the same turn reads
  its output buffer.\<close>

theorem end_of_stream_uses_freed_client:
  assumes "client_heap s p = Some c" and "p \<noteq> 0" and "client_ok c" and "input_buffer c = Some b"
    and "cstate c AND STATE_DATA = 0" and "0 \<le> cfd c" and "iobuffer_remaining b \<noteq> 0"
    and "os_recv os (cfd c) (iobuffer_remaining b) (world s) = (Some [], w)"
  shows "handle_client os p s = Inl Use_after_free"
proof -
  have ib: "iob_input b" using assms(3,4) by (simp add: client_ok_def)
  then have "0 \<le> iobuffer_remaining b" by (simp add: iob_input_def iobuffer_remaining_def)
  with network_read_ok [OF ib assms(7,6,8)] obtain b' where
    b': "network_read_buffer os (cfd c) b s = Inr (0, b', s\<lparr>world := w\<rparr>)" by auto
  let ?s = "put_client p (c\<lparr>input_buffer := Some b'\<rparr>) (s\<lparr>world := w\<rparr>)"
  obtain s2 where s2: "ftp_client_cleanup os p ?s = Inr s2"
    using assms(2) by (simp add: ftp_client_cleanup_def free_client_def get_client_def Let_def put_client_def)
  have g: "get_client p s = Inr c" using assms(1,2) by (simp add: get_client_def)
  have "handle_control_events os p s = Inr s2"
    using g assms(4,5) b' s2 by (simp add: handle_control_events_def the_buffer_def EAGAIN_def)
  then show ?thesis
    using g assms(2,5) gone_output [OF cleanup_gone [OF s2 assms(2)] assms(2)]
    by (simp add: handle_client_def)
qed

theorem end_of_stream_uses_freed_client_witness:
  "handle_client host_os 640 (server0 (host0\<lparr>inbox := [[]]\<rparr>) client0) = Inl Use_after_free"
  by (rule end_of_stream_uses_freed_client [where c = client0 and b = buf0 and w = host0])
    (use client0_ok in \<open>simp_all add: server0_def client0_def buf0_def client_states iobuffer_remaining_def
       pop_inbox_def host0_def\<close>)



end
