(* ===== verification/FatDevice.thy ===== *)
theory FatDevice
  imports Platform
begin

text \<open>
  The table of devices through which the C library reaches the SD card: \<open>fs/sd_fat_devoptab.c\<close>
  (looking a device up, adding and removing one, mounting and unmounting) and the mounting functions
  of \<open>fs/fs_utils.c\<close>. The calls of the console's file system service are the fields of a record; the
  table, the device records and the mutexes are part of the state.
\<close>

section \<open>The file system service\<close>

text \<open>Every call names the client and the command block it runs with.\<close>

type_synonym session = "u32 \<times> u32"

record FSStat__ =
  fss_flag :: u32
  fss_permission :: u32
  fss_owner_id :: u32
  fss_group_id :: u32
  fss_size :: u32
  fss_alloc_size :: u32
  fss_quota_size :: "64 word"
  fss_ent_id :: u32
  fss_ctime :: "64 word"
  fss_mtime :: "64 word"

record FSDirEntry =
  ent_stat :: FSStat__
  ent_name :: "char list"                                \<comment> \<open>the 256 bytes of the name field\<close>

record 'w fs =
  fs_init :: "'w \<Rightarrow> 'w"
  fs_init_cmd_block :: "u32 \<Rightarrow> 'w \<Rightarrow> 'w"
  fs_add_client :: "u32 \<Rightarrow> 'w \<Rightarrow> 'w"
  fs_del_client :: "u32 \<Rightarrow> 'w \<Rightarrow> 'w"
  fs_get_mount_source :: "session \<Rightarrow> int \<Rightarrow> 'w \<Rightarrow> (int \<times> char list) \<times> 'w"
  fs_mount :: "session \<Rightarrow> char list \<Rightarrow> int \<Rightarrow> 'w \<Rightarrow> (int \<times> char list) \<times> 'w"  \<comment> \<open>and the bytes it writes\<close>
  fs_unmount :: "session \<Rightarrow> string option \<Rightarrow> 'w \<Rightarrow> int \<times> 'w"
  fs_open_file :: "session \<Rightarrow> string option \<Rightarrow> string \<Rightarrow> 'w \<Rightarrow> (int \<times> int) \<times> 'w"  \<comment> \<open>status, handle\<close>
  fs_close_file :: "session \<Rightarrow> int \<Rightarrow> 'w \<Rightarrow> int \<times> 'w"
  fs_get_stat_file :: "session \<Rightarrow> int \<Rightarrow> 'w \<Rightarrow> (int \<times> FSStat__) \<times> 'w"
  fs_set_pos_file :: "session \<Rightarrow> int \<Rightarrow> u32 \<Rightarrow> 'w \<Rightarrow> int \<times> 'w"
  fs_read_file :: "session \<Rightarrow> u32 \<Rightarrow> int \<Rightarrow> 'w \<Rightarrow> (int \<times> char list) \<times> 'w"  \<comment> \<open>status, bytes delivered\<close>
  fs_write_file :: "session \<Rightarrow> char list \<Rightarrow> int \<Rightarrow> 'w \<Rightarrow> int \<times> 'w"
  fs_truncate_file :: "session \<Rightarrow> int \<Rightarrow> 'w \<Rightarrow> int \<times> 'w"
  fs_flush_file :: "session \<Rightarrow> int \<Rightarrow> 'w \<Rightarrow> int \<times> 'w"
  fs_get_stat :: "session \<Rightarrow> string \<Rightarrow> 'w \<Rightarrow> (int \<times> FSStat__) \<times> 'w"
  fs_remove :: "session \<Rightarrow> string \<Rightarrow> 'w \<Rightarrow> int \<times> 'w"
  fs_change_dir :: "session \<Rightarrow> string \<Rightarrow> 'w \<Rightarrow> int \<times> 'w"
  fs_rename :: "session \<Rightarrow> string \<Rightarrow> string \<Rightarrow> 'w \<Rightarrow> int \<times> 'w"
  fs_make_dir :: "session \<Rightarrow> string \<Rightarrow> 'w \<Rightarrow> int \<times> 'w"
  fs_get_free_space :: "session \<Rightarrow> string \<Rightarrow> 'w \<Rightarrow> (int \<times> 64 word) \<times> 'w"
  fs_open_dir :: "session \<Rightarrow> string \<Rightarrow> 'w \<Rightarrow> (int \<times> int) \<times> 'w"  \<comment> \<open>status, handle\<close>
  fs_close_dir :: "session \<Rightarrow> int \<Rightarrow> 'w \<Rightarrow> int \<times> 'w"
  fs_rewind_dir :: "session \<Rightarrow> int \<Rightarrow> 'w \<Rightarrow> int \<times> 'w"
  fs_read_dir :: "session \<Rightarrow> int \<Rightarrow> bool \<Rightarrow> 'w \<Rightarrow> (int \<times> FSDirEntry) \<times> 'w"  \<comment> \<open>whether a buffer is given\<close>
  fs_fresh :: "int \<Rightarrow> 'w \<Rightarrow> char list \<times> 'w"              \<comment> \<open>what a block from \<open>memalign\<close> holds\<close>

section \<open>State\<close>

text \<open>
  The error number of the calling thread: \<open>r->_errno\<close> and \<open>errno\<close> are the same variable. Negative
  results of the service are stored in it as they are.
\<close>

datatype errno = ENODEV | EACCES | ENOMEM | EINVAL | ENOTSUP | EADDRNOTAVAIL | FS_error int

record sd_fat_private =
  mount_path :: string
  pClient :: u32
  pCmd :: u32
  pMutex :: u32

record sd_fat_file_state =
  fdev :: u32
  fhandle :: int
  fflags :: u32
  freadable :: bool
  fwritable :: bool
  fappend :: bool
  fpos :: "64 word"
  flen :: "64 word"

record sd_fat_dir_entry =
  ddev :: u32
  dirHandle :: int

text \<open>An entry of the device table: its name and its data (of the SD driver or of another one).\<close>

record devoptab =
  dev_name :: "string option"
  deviceData :: u32

text \<open>The memory behind the pointers, one store for each type; mutexes hold how often they are locked.\<close>

record 'w fatfs = "'w sys" +
  devoptab_list :: "u32 list"
  devoptabs :: "u32 \<Rightarrow> devoptab option"
  privates :: "u32 \<Rightarrow> sd_fat_private option"
  mutexes :: "u32 \<Rightarrow> nat option"
  files :: "u32 \<Rightarrow> sd_fat_file_state option"
  dirs :: "u32 \<Rightarrow> sd_fat_dir_entry option"
  errno :: errno

definition deref :: "(u32 \<Rightarrow> 'a option) \<Rightarrow> u32 \<Rightarrow> fault + 'a" where
  "deref h p =
     (if p = 0 then Inl Null_pointer
      else case h p of None \<Rightarrow> Inl Use_after_free | Some x \<Rightarrow> Inr x)"

lemma deref_Inr: "deref h p = Inr x \<longleftrightarrow> p \<noteq> 0 \<and> h p = Some x"
  by (auto simp: deref_def split: option.splits)

definition session_of :: "sd_fat_private \<Rightarrow> session" where
  "session_of d = (pClient d, pCmd d)"

definition set_errno :: "errno \<Rightarrow> ('w, 'z) fatfs_scheme \<Rightarrow> ('w, 'z) fatfs_scheme" where
  "set_errno e s = s\<lparr>errno := e\<rparr>"

definition alloc :: "('w, 'z) fatfs_scheme \<Rightarrow> u32 \<times> ('w, 'z) fatfs_scheme" where
  "alloc s = (let (p, m) = malloc (allocs s) in (p, s\<lparr>allocs := m\<rparr>))"

definition OSLockMutex :: "u32 \<Rightarrow> ('w, 'z) fatfs_scheme \<Rightarrow> fault + ('w, 'z) fatfs_scheme" where
  "OSLockMutex p s = bindF (deref (mutexes s) p) (\<lambda>n. Inr (s\<lparr>mutexes := (mutexes s)(p \<mapsto> Suc n)\<rparr>))"

definition OSUnlockMutex :: "u32 \<Rightarrow> ('w, 'z) fatfs_scheme \<Rightarrow> fault + ('w, 'z) fatfs_scheme" where
  "OSUnlockMutex p s = bindF (deref (mutexes s) p) (\<lambda>n. Inr (s\<lparr>mutexes := (mutexes s)(p \<mapsto> n - 1)\<rparr>))"

section \<open>Looking a device up\<close>

text \<open>
  \<open>strtok\<close> on the first 127 bytes: it skips the delimiters in front and cuts behind the first piece,
  but the code reads the buffer from its start, so delimiters in front stay.
\<close>

definition device_name :: "string \<Rightarrow> string" where
  "device_name path =
     (let name = take 127 path; delim = (\<lambda>c. c = CHR '':'' \<or> c = CHR ''/'') in
      takeWhile delim name @ takeWhile (\<lambda>c. \<not> delim c) (dropWhile delim name))"

fun device_slot ::
  "string \<Rightarrow> nat \<Rightarrow> u32 list \<Rightarrow> ('w, 'z) fatfs_scheme \<Rightarrow> fault + (nat \<times> u32) option" where
  "device_slot name i [] s = Inr None"
| "device_slot name i (p # ps) s =
     (if p = 0 then device_slot name (Suc i) ps s
      else
        bindF (deref (devoptabs s) p) (\<lambda>d.
        if dev_name d = Some name then Inr (Some (i, p)) else device_slot name (Suc i) ps s))"

definition sd_fat_get_device_data :: "string \<Rightarrow> ('w, 'z) fatfs_scheme \<Rightarrow> fault + u32" where
  "sd_fat_get_device_data path s =
     bindF (device_slot (device_name path) 3 (drop 3 (devoptab_list s)) s) (\<lambda>found.
     case found of
       None \<Rightarrow> Inr 0
     | Some (i, p) \<Rightarrow> bindF (deref (devoptabs s) p) (\<lambda>d. Inr (deviceData d)))"

text \<open>The path behind the first colon, appended to the mount path.\<close>

definition local_path :: "string \<Rightarrow> string" where
  "local_path path =
     (if CHR '':'' \<in> set path then tl (dropWhile (\<lambda>c. c \<noteq> CHR '':'') path) else path)"

definition sd_fat_real_path ::
  "string option \<Rightarrow> u32 \<Rightarrow> ('w, 'z) fatfs_scheme \<Rightarrow> fault + string option \<times> ('w, 'z) fatfs_scheme" where
  "sd_fat_real_path path dev s =
     (case path of
        None \<Rightarrow> Inr (None, s)
      | Some path \<Rightarrow>
          bindF (deref (privates s) dev) (\<lambda>d.
          let (new_name, s) = alloc s in
          Inr (if new_name = 0 then None else Some (mount_path d @ local_path path), s)))"

section \<open>Adding and removing a device\<close>

text \<open>A slot is free when it holds what slot 0 holds.\<close>

fun free_slot :: "u32 \<Rightarrow> nat \<Rightarrow> u32 list \<Rightarrow> nat option" where
  "free_slot e i [] = None"
| "free_slot e i (p # ps) = (if p = e then Some i else free_slot e (Suc i) ps)"

definition sd_fat_add_device ::
  "string option \<Rightarrow> string option \<Rightarrow> u32 \<Rightarrow> u32 \<Rightarrow> ('w, 'z) fatfs_scheme \<Rightarrow>
   fault + int \<times> ('w, 'z) fatfs_scheme" where
  "sd_fat_add_device name mpath client cmd s =
     (case name of
        None \<Rightarrow> Inr (-1, set_errno EINVAL s)
      | Some name \<Rightarrow>
          let (dev, s) = alloc s in
          if dev = 0 then Inr (-1, set_errno ENOMEM s)
          else
            case mpath of
              None \<Rightarrow> Inl Null_pointer
            | Some mp \<Rightarrow>
                let (priv, s) = alloc s in
                if priv = 0 then Inr (-1, set_errno ENOMEM s)
                else
                  let (mutex, s) = alloc s in
                  if mutex = 0 then Inr (-1, set_errno ENOMEM s)
                  else
                    let s = s\<lparr>privates := (privates s)(priv \<mapsto>
                                \<lparr>mount_path = mp, pClient = client, pCmd = cmd, pMutex = mutex\<rparr>),
                              mutexes := (mutexes s)(mutex \<mapsto> 0),
                              devoptabs := (devoptabs s)(dev \<mapsto>
                                \<lparr>dev_name = Some name, deviceData = priv\<rparr>)\<rparr> in
                    bindF (read_at (devoptab_list s) 0) (\<lambda>e.
                    case free_slot e 3 (drop 3 (devoptab_list s)) of
                      Some i \<Rightarrow> Inr (0, s\<lparr>devoptab_list := (devoptab_list s)[i := dev]\<rparr>)
                    | None \<Rightarrow>
                        Inr (-1, set_errno EADDRNOTAVAIL
                          (s\<lparr>privates := (privates s)(priv := None),
                             devoptabs := (devoptabs s)(dev := None)\<rparr>))))"

text \<open>The result with the client, the command block and a copy of the mount path of the device.\<close>

definition sd_fat_remove_device ::
  "string \<Rightarrow> ('w, 'z) fatfs_scheme \<Rightarrow> fault + (int \<times> u32 \<times> u32 \<times> string option) \<times> ('w, 'z) fatfs_scheme" where
  "sd_fat_remove_device path s =
     bindF (device_slot (device_name path) 3 (drop 3 (devoptab_list s)) s) (\<lambda>found.
     case found of
       None \<Rightarrow> Inr ((-1, 0, 0, None), s)
     | Some (i, p) \<Rightarrow>
         bindF (deref (devoptabs s) p) (\<lambda>d.
         bindF (read_at (devoptab_list s) 0) (\<lambda>e.
         let s = s\<lparr>devoptab_list := (devoptab_list s)[i := e]\<rparr> in
         if deviceData d = 0 then
           Inr ((0, 0, 0, None), s\<lparr>devoptabs := (devoptabs s)(p := None)\<rparr>)
         else
           bindF (deref (privates s) (deviceData d)) (\<lambda>priv.
           let (copy, s) = alloc s;
               s = (if pMutex priv = 0 then s
                    else s\<lparr>mutexes := (mutexes s)(pMutex priv := None)\<rparr>) in
           Inr ((0, pClient priv, pCmd priv, if copy = 0 then None else Some (mount_path priv)),
                s\<lparr>privates := (privates s)(deviceData d := None),
                  devoptabs := (devoptabs s)(p := None)\<rparr>)))))"

section \<open>Mounting\<close>

definition FS_MOUNT_SOURCE_SIZE :: int where "FS_MOUNT_SOURCE_SIZE = 0x300"
definition FS_MAX_MOUNTPATH_SIZE :: int where "FS_MAX_MOUNTPATH_SIZE = 128"
definition FS_SOURCETYPE_EXTERNAL :: int where "FS_SOURCETYPE_EXTERNAL = 0"

text \<open>The result and what is stored at \<open>mount_path\<close>, \<open>None\<close> when nothing or a null pointer is.\<close>

definition MountFS ::
  "'w fs \<Rightarrow> session \<Rightarrow> bool \<Rightarrow> ('w, 'z) fatfs_scheme \<Rightarrow>
   fault + (int \<times> string option) \<times> ('w, 'z) fatfs_scheme" where
  "MountFS fs c want s =
     (let (mountSrc, s) = alloc s in
      if mountSrc = 0 then Inr ((-3, None), s)
      else
        let (mountPath, s) = alloc s in
        if mountPath = 0 then Inr ((-4, None), s)
        else
          let ((r, src), s) = sysc (fs_get_mount_source fs c FS_SOURCETYPE_EXTERNAL) s in
          bindF (write_at (replicate (nat FS_MOUNT_SOURCE_SIZE) NUL) 0 src) (\<lambda>source.
          if r \<noteq> 0 then Inr ((-1, None), s)
          else
            let ((result, out), s) = sysc (fs_mount fs c source FS_MAX_MOUNTPATH_SIZE) s in
            bindF (write_at (replicate (nat FS_MAX_MOUNTPATH_SIZE) NUL) 0 out) (\<lambda>path.
            if result = 0 \<and> want then
              bindF (c_str path) (\<lambda>t.
              let (copy, s) = alloc s in
              Inr ((result, if copy = 0 then None else Some t), s))
            else Inr ((result, None), s))))"

definition UmountFS ::
  "'w fs \<Rightarrow> session \<Rightarrow> string option \<Rightarrow> ('w, 'z) fatfs_scheme \<Rightarrow> int \<times> ('w, 'z) fatfs_scheme" where
  "UmountFS fs c mountPath s = sysc (fs_unmount fs c mountPath) s"

definition mount_sd_fat ::
  "'w fs \<Rightarrow> string \<Rightarrow> ('w, 'z) fatfs_scheme \<Rightarrow> fault + int \<times> ('w, 'z) fatfs_scheme" where
  "mount_sd_fat fs path s =
     (let (client, s) = alloc s; (cmd, s) = alloc s in
      if client = 0 \<or> cmd = 0 then Inr (-2, s)
      else
        let s = sys_do (fs_add_client fs client) (sys_do (fs_init_cmd_block fs cmd) (sys_do (fs_init fs) s)) in
        bindF (MountFS fs (client, cmd) True s) (\<lambda>((r, mountPath), s).
        if r = 0 then sd_fat_add_device (Some path) mountPath client cmd s else Inr (-1, s)))"

definition unmount_sd_fat ::
  "'w fs \<Rightarrow> string \<Rightarrow> ('w, 'z) fatfs_scheme \<Rightarrow> fault + int \<times> ('w, 'z) fatfs_scheme" where
  "unmount_sd_fat fs path s =
     bindF (sd_fat_remove_device path s) (\<lambda>((result, client, cmd, mountPath), s).
     if result = 0 then
       let (_, s) = UmountFS fs (client, cmd) mountPath s in
       Inr (result, sys_do (fs_del_client fs client) s)
     else Inr (result, s))"


section \<open>Names and slots\<close>

definition plain_name :: "string \<Rightarrow> bool" where
  "plain_name n \<longleftrightarrow> n \<noteq> [] \<and> length n \<le> 127 \<and> CHR '':'' \<notin> set n \<and> CHR ''/'' \<notin> set n"

lemma device_name_plain:
  assumes "plain_name n"
  shows "device_name n = n" "device_name (n @ CHR '':'' # rest) = n"
proof -
  let ?delim = "\<lambda>c. c = CHR '':'' \<or> c = CHR ''/''"
  obtain c cs where n: "n = c # cs" using assms by (cases n) (auto simp: plain_name_def)
  have nd: "\<forall>c \<in> set n. \<not> ?delim c" using assms by (auto simp: plain_name_def)
  have t: "takeWhile ?delim (n @ r) = []" "dropWhile ?delim (n @ r) = n @ r" for r
    using nd n by auto
  have w: "takeWhile (\<lambda>c. \<not> ?delim c) n = n" using nd by (simp add: takeWhile_eq_all_conv)
  show "device_name n = n" using assms t [of "[]"] w by (simp add: device_name_def plain_name_def Let_def)
  have "takeWhile (\<lambda>c. \<not> ?delim c) (n @ take k (CHR '':'' # rest)) = n" for k
    using nd by (subst takeWhile_append2) (auto simp: take_Cons split: nat.split)
  moreover have "take 127 (n @ CHR '':'' # rest) = n @ take (127 - length n) (CHR '':'' # rest)"
    using assms by (simp add: plain_name_def)
  ultimately show "device_name (n @ CHR '':'' # rest) = n"
    using t by (simp add: device_name_def Let_def)
qed

lemma local_path_plain: "plain_name n \<Longrightarrow> local_path (n @ CHR '':'' # rest) = rest"
proof -
  assume "plain_name n"
  then have "dropWhile (\<lambda>c. c \<noteq> CHR '':'') (n @ CHR '':'' # rest) = CHR '':'' # rest"
    by (subst dropWhile_append2) (auto simp: plain_name_def)
  then show ?thesis by (simp add: local_path_def)
qed

lemma free_slot_spec:
  "free_slot e i ps = Some k \<Longrightarrow> i \<le> k \<and> k - i < length ps \<and> ps ! (k - i) = e"
proof (induction ps arbitrary: i)
  case (Cons p ps)
  show ?case
  proof (cases "p = e")
    case False
    with Cons.IH [of "Suc i"] Cons.prems show ?thesis
      by (auto simp: nth_Cons' Suc_diff_le)
  qed (use Cons.prems in auto)
qed simp

lemma device_slot_spec:
  "device_slot name i ps s = Inr (Some (k, p)) \<Longrightarrow>
   i \<le> k \<and> k - i < length ps \<and> ps ! (k - i) = p \<and> p \<noteq> 0 \<and> (\<exists>d. devoptabs s p = Some d \<and> dev_name d = Some name)"
proof (induction ps arbitrary: i)
  case (Cons q ps)
  show ?case
  proof (cases "q = 0")
    case True
    with Cons.IH [of "Suc i"] Cons.prems show ?thesis by (auto simp: nth_Cons' Suc_diff_le)
  next
    case False
    then obtain d where d: "devoptabs s q = Some d" using Cons.prems by (auto simp: fault_simps deref_Inr)
    show ?thesis
    proof (cases "dev_name d = Some name")
      case True
      with Cons.prems d False show ?thesis by (auto simp: deref_def)
    next
      case n: False
      with Cons.IH [of "Suc i"] Cons.prems d False show ?thesis
        by (auto simp: nth_Cons' Suc_diff_le deref_def)
    qed
  qed
qed simp

lemma device_slot_insert:
  assumes "device_slot name i ps s = Inr None" and "k < length ps" and "p \<noteq> 0" and "p \<notin> set ps"
    and "devoptabs s' = (devoptabs s)(p \<mapsto> d)" and "dev_name d = Some name"
  shows "device_slot name i (ps[k := p]) s' = Inr (Some (i + k, p))"
  using assms
proof (induction ps arbitrary: i k)
  case (Cons q ps)
  show ?case
  proof (cases k)
    case 0
    then show ?thesis using Cons.prems by (simp add: deref_def)
  next
    case (Suc j)
    have "device_slot name (Suc i) ps s = Inr None"
      using Cons.prems(1) by (cases "q = 0") (auto simp: fault_simps split: if_splits)
    with Cons.IH [of "Suc i" j] Cons.prems Suc
    have ih: "device_slot name (Suc i) (ps[j := p]) s' = Inr (Some (i + k, p))" by simp
    show ?thesis
    proof (cases "q = 0")
      case False
      then obtain d' where "devoptabs s q = Some d'" "dev_name d' \<noteq> Some name"
        using Cons.prems(1) by (auto simp: fault_simps deref_Inr split: if_splits)
      then show ?thesis using ih Cons.prems Suc by (auto simp: deref_def)
    qed (use ih Suc in simp)
  qed
qed simp


section \<open>What mounting and unmounting do\<close>

lemma add_device_run:
  assumes "sd_fat_add_device (Some n) mp client cmd s = Inr (0, s')"
  obtains i m k where "mp = Some m" and "free_slot (devoptab_list s ! 0) 3 (drop 3 (devoptab_list s)) = Some i"
    and "devoptab_list s' = (devoptab_list s)[i := allocs s 0]"
    and "devoptabs s' = (devoptabs s)(allocs s 0 \<mapsto> \<lparr>dev_name = Some n, deviceData = allocs s 1\<rparr>)"
    and "privates s' = (privates s)(allocs s 1 \<mapsto>
           \<lparr>mount_path = m, pClient = client, pCmd = cmd, pMutex = allocs s 2\<rparr>)"
    and "mutexes s' = (mutexes s)(allocs s 2 \<mapsto> 0)"
    and "allocs s 0 \<noteq> 0" "allocs s 1 \<noteq> 0" "allocs s 2 \<noteq> 0" and "files s' = files s" "dirs s' = dirs s"
  using assms
  by (auto simp: sd_fat_add_device_def alloc_def malloc_def Let_def fault_simps read_at_def numeral_2_eq_2
      split: if_splits option.split_asm)

text \<open>Everything but the outside world, the coming addresses and the error number is kept.\<close>

definition same_tables :: "('w, 'z) fatfs_scheme \<Rightarrow> ('w, 'z) fatfs_scheme \<Rightarrow> bool" where
  "same_tables s s' \<longleftrightarrow> devoptab_list s' = devoptab_list s \<and> devoptabs s' = devoptabs s \<and>
     privates s' = privates s \<and> mutexes s' = mutexes s \<and> files s' = files s \<and> dirs s' = dirs s"

lemma same_tables_refl [simp]: "same_tables s s"
  by (simp add: same_tables_def)

lemma same_tables_trans: "same_tables s s1 \<Longrightarrow> same_tables s1 s2 \<Longrightarrow> same_tables s s2"
  by (simp add: same_tables_def)

lemma MountFS_tables:
  "MountFS fs c w s = Inr (r, s') \<Longrightarrow> same_tables s s'"
  by (auto simp: MountFS_def alloc_def malloc_def Let_def fault_simps sysc_def same_tables_def
      split: if_splits option.split_asm prod.split_asm)

lemma MountFS_allocs:
  "MountFS fs c w s = Inr (r, s') \<Longrightarrow> range (allocs s') \<subseteq> range (allocs s)"
  by (auto simp: MountFS_def alloc_def malloc_def Let_def fault_simps sysc_def
      split: if_splits option.split_asm prod.split_asm)

lemma mount_run:
  assumes "mount_sd_fat fs n s = Inr (0, s')"
  obtains client cmd m i dev priv mutex where "client \<noteq> 0" and "cmd \<noteq> 0" and "dev \<noteq> 0" and "priv \<noteq> 0" and "mutex \<noteq> 0"
    and "free_slot (devoptab_list s ! 0) 3 (drop 3 (devoptab_list s)) = Some i"
    and "devoptab_list s' = (devoptab_list s)[i := dev]"
    and "devoptabs s' = (devoptabs s)(dev \<mapsto> \<lparr>dev_name = Some n, deviceData = priv\<rparr>)"
    and "privates s' = (privates s)(priv \<mapsto>
           \<lparr>mount_path = m, pClient = client, pCmd = cmd, pMutex = mutex\<rparr>)"
    and "mutexes s' = (mutexes s)(mutex \<mapsto> 0)" and "files s' = files s" and "dirs s' = dirs s"
    and "{dev, priv, mutex} \<subseteq> range (allocs s)"
proof -
  let ?s1 = "sys_do (fs_add_client fs (allocs s 0)) (sys_do (fs_init_cmd_block fs (allocs s 1))
    (sys_do (fs_init fs) (snd (alloc (snd (alloc s))))))"
  obtain mp s2 where m: "MountFS fs (allocs s 0, allocs s 1) True ?s1 = Inr ((0, mp), s2)"
      "sd_fat_add_device (Some n) mp (allocs s 0) (allocs s 1) s2 = Inr (0, s')"
      "allocs s 0 \<noteq> 0" "allocs s 1 \<noteq> 0"
    using assms by (auto simp: mount_sd_fat_def alloc_def malloc_def Let_def fault_simps split: if_splits)
  have t: "same_tables s s2" using MountFS_tables [OF m(1)]
    by (simp add: same_tables_def alloc_def malloc_def Let_def sys_do_def)
  have "range (allocs ?s1) \<subseteq> range (allocs s)"
    by (auto simp: alloc_def malloc_def Let_def)
  then have a: "range (allocs s2) \<subseteq> range (allocs s)" using MountFS_allocs [OF m(1)] by blast
  show ?thesis
    by (rule add_device_run [OF m(2)], rule that [OF m(3,4)]) (use t a in \<open>auto simp: same_tables_def\<close>)
qed

lemma find_mounted:
  assumes "devoptab_list s' = (devoptab_list s)[i := dev]"
    and "free_slot (devoptab_list s ! 0) 3 (drop 3 (devoptab_list s)) = Some i"
    and "devoptabs s' = (devoptabs s)(dev \<mapsto> d)" and "dev_name d = Some n" and "dev \<noteq> 0"
    and "dev \<notin> set (devoptab_list s)" and "device_slot n 3 (drop 3 (devoptab_list s)) s = Inr None"
  shows "device_slot n 3 (drop 3 (devoptab_list s')) s' = Inr (Some (i, dev))"
proof -
  have i: "3 \<le> i" "i - 3 < length (drop 3 (devoptab_list s))" using free_slot_spec [OF assms(2)] by auto
  have "dev \<notin> set (drop 3 (devoptab_list s))" using assms(6) by (meson in_set_dropD)
  from device_slot_insert [OF assms(7) i(2) assms(5) this assms(3,4)] i(1) assms(1)
  show ?thesis by (simp add: drop_update_swap)
qed


text \<open>No address that is still to be handed out is in use.\<close>

definition unused_ahead :: "('w, 'z) fatfs_scheme \<Rightarrow> bool" where
  "unused_ahead s \<longleftrightarrow> (\<forall>p \<in> range (allocs s). p \<noteq> 0 \<longrightarrow> p \<notin> set (devoptab_list s) \<and>
     devoptabs s p = None \<and> privates s p = None \<and> mutexes s p = None)"

section \<open>Properties\<close>

text \<open>C19: mounting the SD card and unmounting it are inverse: after a successful mount every path under the
  device name leads to the new device, and unmounting then succeeds and puts the device table, the
  device records and the mutexes back to what they were.\<close>

theorem mount_then_unmount:
  assumes "mount_sd_fat fs n s = Inr (0, s1)" and "plain_name n" and "unused_ahead s"
    and "device_slot n 3 (drop 3 (devoptab_list s)) s = Inr None"
  shows "(\<exists>dev d. privates s dev = None \<and> privates s1 dev = Some d \<and> mutexes s1 (pMutex d) = Some 0 \<and>
      (\<forall>rest. sd_fat_get_device_data (n @ CHR '':'' # rest) s1 = Inr dev)) \<and>
    (\<exists>s2. unmount_sd_fat fs n s1 = Inr (0, s2) \<and> same_tables s s2)"
proof -
  obtain client cmd m i dev priv mutex where r: "dev \<noteq> 0" "priv \<noteq> 0" "mutex \<noteq> 0"
    "free_slot (devoptab_list s ! 0) 3 (drop 3 (devoptab_list s)) = Some i"
    "devoptab_list s1 = (devoptab_list s)[i := dev]"
    "devoptabs s1 = (devoptabs s)(dev \<mapsto> \<lparr>dev_name = Some n, deviceData = priv\<rparr>)"
    "privates s1 = (privates s)(priv \<mapsto> \<lparr>mount_path = m, pClient = client, pCmd = cmd, pMutex = mutex\<rparr>)"
    "mutexes s1 = (mutexes s)(mutex \<mapsto> 0)" "files s1 = files s" "dirs s1 = dirs s"
    "{dev, priv, mutex} \<subseteq> range (allocs s)"
    by (rule mount_run [OF assms(1)])
  have new: "dev \<notin> set (devoptab_list s)" "devoptabs s dev = None" "privates s priv = None" "mutexes s mutex = None"
    using assms(3) r(1-3,11) by (auto simp: unused_ahead_def)
  have i: "3 \<le> i" "i < length (devoptab_list s)" "devoptab_list s ! i = devoptab_list s ! 0"
    using free_slot_spec [OF r(4)] by auto
  have f: "device_slot n 3 (drop 3 (devoptab_list s1)) s1 = Inr (Some (i, dev))"
    using find_mounted [OF r(5,4,6) _ r(1) new(1) assms(4)] by simp
  have "sd_fat_get_device_data (n @ CHR '':'' # rest) s1 = Inr priv" for rest
    using f r(1,6) assms(2) by (simp add: sd_fat_get_device_data_def device_name_plain deref_def)
  moreover have "\<exists>s2. unmount_sd_fat fs n s1 = Inr (0, s2) \<and> same_tables s s2"
  proof -
    have h: "deref (devoptabs s1) dev = Inr \<lparr>dev_name = Some n, deviceData = priv\<rparr>"
        "deref (privates s1) priv = Inr \<lparr>mount_path = m, pClient = client, pCmd = cmd, pMutex = mutex\<rparr>"
        "read_at (devoptab_list s1) 0 = Inr (devoptab_list s ! 0)"
      using r(1,2,5-7) i by (auto simp: deref_def read_at_def)
    have "(devoptab_list s)[i := devoptab_list s ! 0] = devoptab_list s"
      using i(3) by (metis list_update_id)
    then show ?thesis
      using h r f new assms(2)
      by (simp add: unmount_sd_fat_def sd_fat_remove_device_def device_name_plain alloc_def malloc_def Let_def
          UmountFS_def sysc_def sys_do_def same_tables_def fun_upd_idem split: prod.splits)
  qed
  ultimately show ?thesis using new(3) r(7,8) by (intro conjI exI [of _ priv]) auto
qed

section \<open>A small service to run the model on\<close>

text \<open>
  One file and one directory, in memory: the world is what is left to read, what was written, the
  handles that are closed and the paths of the other calls. The card is mounted at \<open>/vol/sd\<close>.
\<close>

record card =
  unread :: "char list"
  written :: "char list"
  calls :: "string list"

definition card_stat :: FSStat__ where
  "card_stat = \<lparr>fss_flag = 0x80000000, fss_permission = 0, fss_owner_id = 1, fss_group_id = 2, fss_size = 700,
     fss_alloc_size = 1024, fss_quota_size = 0, fss_ent_id = 9, fss_ctime = 5, fss_mtime = 6\<rparr>"

definition noted :: "string \<Rightarrow> card \<Rightarrow> int \<times> card" where
  "noted t w = (0, w\<lparr>calls := calls w @ [t]\<rparr>)"

definition card_fs :: "card fs" where
  "card_fs = \<lparr>
     fs_init = (\<lambda>w. w), fs_init_cmd_block = (\<lambda>p w. w), fs_add_client = (\<lambda>p w. w), fs_del_client = (\<lambda>p w. w),
     fs_get_mount_source = (\<lambda>c t w. ((0, []), w)),
     fs_mount = (\<lambda>c src n w. ((0, ''/vol/sd'' @ [NUL]), w)),
     fs_unmount = (\<lambda>c t w. (0, w)),
     fs_open_file = (\<lambda>c p mode w. ((if p = None then -1 else 0, 5), w)),
     fs_close_file = (\<lambda>c h w. (0, w)),
     fs_get_stat_file = (\<lambda>c h w. ((0, card_stat), w)),
     fs_set_pos_file = (\<lambda>c h p w. (0, w)),
     fs_read_file = (\<lambda>c n h w. let k = min (unat n) (length (unread w)) in
        ((int k, take k (unread w)), w\<lparr>unread := drop k (unread w)\<rparr>)),
     fs_write_file = (\<lambda>c bs h w. (int (length bs), w\<lparr>written := written w @ bs\<rparr>)),
     fs_truncate_file = (\<lambda>c h w. (0, w)),
     fs_flush_file = (\<lambda>c h w. (0, w)),
     fs_get_stat = (\<lambda>c p w. ((0, card_stat), w)),
     fs_remove = (\<lambda>c p. noted p), fs_change_dir = (\<lambda>c p. noted p),
     fs_rename = (\<lambda>c p q. noted p), fs_make_dir = (\<lambda>c p. noted p),
     fs_get_free_space = (\<lambda>c p w. ((0, 4096), w)),
     fs_open_dir = (\<lambda>c p w. ((0, 6), w)),
     fs_close_dir = (\<lambda>c h w. (0, w)),
     fs_rewind_dir = (\<lambda>c h w. (0, w)),
     fs_read_dir = (\<lambda>c h given w. ((0, \<lparr>ent_stat = card_stat, ent_name = ''pub'' @ replicate 253 NUL\<rparr>), w)),
     fs_fresh = (\<lambda>n w. (replicate (nat n) NUL, w))\<rparr>"

text \<open>A table of six slots, of which the last three are free; addresses ahead are multiples of 64.\<close>

definition unmounted0 :: "card fatfs" where
  "unmounted0 = \<lparr>world = \<lparr>unread = [], written = [], calls = []\<rparr>, allocs = (\<lambda>k. 64 + 64 * of_nat k),
     devoptab_list = [1, 2, 2, 1, 1, 1], devoptabs = [1 \<mapsto> \<lparr>dev_name = Some ''stdnull'', deviceData = 0\<rparr>],
     privates = Map.empty, mutexes = Map.empty, files = Map.empty, dirs = Map.empty, errno = FS_error 0\<rparr>"

lemma multiple_of_64: "(64 + 64 * x :: u32) \<noteq> 1" "(64 + 64 * x :: u32) \<noteq> 2"
proof -
  have "64 + 64 * x = push_bit 6 (1 + x)" by (simp add: push_bit_eq_mult algebra_simps)
  moreover have "push_bit 6 (1 + x) AND mask 2 = 0"
    by (rule bit_word_eqI) (auto simp: bit_simps)
  ultimately have m: "(64 + 64 * x) AND 3 = 0" by (simp add: mask_eq_exp_minus_1)
  show "64 + 64 * x \<noteq> 1"
  proof
    assume "64 + 64 * x = 1"
    from m [unfolded this] show False by simp
  qed
  show "64 + 64 * x \<noteq> 2"
  proof
    assume "64 + 64 * x = 2"
    from m [unfolded this] show False by simp
  qed
qed

theorem mount_then_unmount_witness:
  "\<exists>s1 s2. mount_sd_fat card_fs ''sd'' unmounted0 = Inr (0, s1) \<and> unmount_sd_fat card_fs ''sd'' s1 = Inr (0, s2) \<and>
     devoptab_list s2 = [1, 2, 2, 1, 1, 1]"
proof -
  have "defined (mount_sd_fat card_fs ''sd'' unmounted0)" by code_simp
  then obtain r s1 where m: "mount_sd_fat card_fs ''sd'' unmounted0 = Inr (r, s1)" unfolding defined_iff by auto
  have "mapF fst (mount_sd_fat card_fs ''sd'' unmounted0) = Inr 0" by code_simp
  with m have m: "mount_sd_fat card_fs ''sd'' unmounted0 = Inr (0, s1)" by simp
  have "plain_name ''sd''" by (simp add: plain_name_def)
  moreover have "unused_ahead unmounted0"
    using multiple_of_64 by (auto simp: unused_ahead_def unmounted0_def)
  moreover have "device_slot ''sd'' 3 (drop 3 (devoptab_list unmounted0)) unmounted0 = Inr None"
    by (simp add: unmounted0_def deref_def)
  ultimately show ?thesis
    using mount_then_unmount [OF m] m by (auto simp: same_tables_def unmounted0_def)
qed

end
