(* ===== verification/Console.thy ===== *)
theory Console
  imports Platform
begin

text \<open>
  The on-screen console (\<open>console.c\<close>): the rows of text of the two screens as pointers to allocated
  strings, printing a line, drawing, and releasing everything. Freeing a row that is not allocated and
  drawing one are faults, so the theorems cover the memory handling as well as what is shown.
\<close>

section \<open>State\<close>

definition MAX_CONSOLE_LINES_TV :: nat where "MAX_CONSOLE_LINES_TV = 27"
definition MAX_CONSOLE_LINES_PAD :: nat where "MAX_CONSOLE_LINES_PAD = 18"

text \<open>The screen calls of the console's system library.\<close>

record 'w screen =
  scr_init :: "'w \<Rightarrow> 'w"
  scr_buffer_size :: "int \<Rightarrow> 'w \<Rightarrow> u32 \<times> 'w"
  scr_set_buffer :: "int \<Rightarrow> u32 \<Rightarrow> 'w \<Rightarrow> 'w"
  scr_enable :: "int \<Rightarrow> int \<Rightarrow> 'w \<Rightarrow> 'w"
  scr_flip :: "int \<Rightarrow> 'w \<Rightarrow> 'w"
  scr_clear :: "int \<Rightarrow> u32 \<Rightarrow> 'w \<Rightarrow> 'w"
  scr_put_font :: "int \<Rightarrow> int \<Rightarrow> int \<Rightarrow> string \<Rightarrow> 'w \<Rightarrow> 'w"   \<comment> \<open>screen, column, row, text\<close>

record 'w console = "'w sys" +
  texts :: "u32 \<Rightarrow> string option"                       \<comment> \<open>the allocated strings\<close>
  tvConsole :: "u32 list"
  padConsole :: "u32 list"
  initialized :: bool

definition free_text :: "u32 \<Rightarrow> ('w, 'z) console_scheme \<Rightarrow> fault + ('w, 'z) console_scheme" where
  "free_text p s =
     (case texts s p of None \<Rightarrow> Inl Use_after_free | Some _ \<Rightarrow> Inr (s\<lparr>texts := (texts s)(p := None)\<rparr>))"

section \<open>Drawing\<close>

definition screen_init :: "'w screen \<Rightarrow> ('w, 'z) console_scheme \<Rightarrow> ('w, 'z) console_scheme" where
  "screen_init scr s =
     (if initialized s then s
      else
        let s = sys_do (scr_init scr) s;
            (bufsize, s) = sysc (scr_buffer_size scr 0) s;
            s = sys_do (scr_set_buffer scr 0 0xf4000000) s;
            s = sys_do (scr_set_buffer scr 1 (0xf4000000 + bufsize)) s;
            s = foldl (\<lambda>s screen. sys_do (scr_flip scr screen) (sys_do (scr_enable scr screen 1) s)) s [0, 1] in
        s\<lparr>initialized := True\<rparr>)"

fun draw_rows ::
  "'w screen \<Rightarrow> int \<Rightarrow> int \<Rightarrow> u32 list \<Rightarrow> ('w, 'z) console_scheme \<Rightarrow> fault + ('w, 'z) console_scheme" where
  "draw_rows scr screen i [] s = Inr s"
| "draw_rows scr screen i (p # ps) s =
     (if p = 0 then draw_rows scr screen (i + 1) ps s
      else
        case texts s p of
          None \<Rightarrow> Inl Use_after_free
        | Some t \<Rightarrow> draw_rows scr screen (i + 1) ps (sys_do (scr_put_font scr screen 0 i t) s))"

definition console_screen_draw ::
  "'w screen \<Rightarrow> int \<Rightarrow> u32 list \<Rightarrow> ('w, 'z) console_scheme \<Rightarrow> fault + ('w, 'z) console_scheme" where
  "console_screen_draw scr screen term s =
     bindF (draw_rows scr screen 0 term (sys_do (scr_clear scr screen 0) s)) (\<lambda>s.
     Inr (sys_do (scr_flip scr screen) s))"

definition console_draw :: "'w screen \<Rightarrow> ('w, 'z) console_scheme \<Rightarrow> fault + ('w, 'z) console_scheme" where
  "console_draw scr s =
     (let s = screen_init scr s in
      bindF (console_screen_draw scr 0 (tvConsole s) s) (\<lambda>s.
      console_screen_draw scr 1 (padConsole s) s))"

section \<open>Printing\<close>

text \<open>Dropping the first row moves every other one up; the last row is then there twice.\<close>

definition move_rows :: "u32 list \<Rightarrow> u32 list" where
  "move_rows rows = fold (\<lambda>i rows. rows[i - 1 := rows ! i]) [1..<length rows] rows"

definition shift_rows ::
  "u32 list \<Rightarrow> ('w, 'z) console_scheme \<Rightarrow> fault + u32 list \<times> ('w, 'z) console_scheme" where
  "shift_rows rows s =
     bindF (read_at rows 0) (\<lambda>p.
     bindF (if p \<noteq> 0 then free_text p s else Inr s) (\<lambda>s.
     Inr (move_rows rows, s)))"

text \<open>The message is the text the format and its arguments give.\<close>

definition console_printf ::
  "'w screen \<Rightarrow> string \<Rightarrow> ('w, 'z) console_scheme \<Rightarrow> fault + ('w, 'z) console_scheme" where
  "console_printf scr msg s =
     (let (formatted, m) = malloc (allocs s); s = s\<lparr>allocs := m\<rparr> in
      bindF
        (if formatted = 0 then Inr s
         else
           let s = s\<lparr>texts := (texts s)(formatted \<mapsto> msg)\<rparr> in
           bindF (shift_rows (tvConsole s) s) (\<lambda>(tv, s).
           let s = s\<lparr>tvConsole := tv\<rparr> in
           bindF (shift_rows (padConsole s) s) (\<lambda>(pad, s).
           let s = s\<lparr>padConsole := pad\<rparr>;
               cut = (if length msg > 79 then take 79 msg else msg);
               s = s\<lparr>texts := (texts s)(formatted \<mapsto> cut)\<rparr>;
               (copy, m) = malloc (allocs s); s = s\<lparr>allocs := m\<rparr>;
               s = (if copy = 0 then s else s\<lparr>texts := (texts s)(copy \<mapsto> cut)\<rparr>) in
           Inr (s\<lparr>tvConsole := (tvConsole s)[MAX_CONSOLE_LINES_TV - 1 := copy],
                 padConsole := (padConsole s)[MAX_CONSOLE_LINES_PAD - 1 := formatted]\<rparr>))))
        (\<lambda>s. console_draw scr s))"

definition console_init :: "('w, 'z) console_scheme \<Rightarrow> ('w, 'z) console_scheme" where
  "console_init s = s\<lparr>tvConsole := replicate MAX_CONSOLE_LINES_TV 0,
     padConsole := replicate MAX_CONSOLE_LINES_PAD 0\<rparr>"

fun free_rows :: "u32 list \<Rightarrow> ('w, 'z) console_scheme \<Rightarrow> fault + ('w, 'z) console_scheme" where
  "free_rows [] s = Inr s"
| "free_rows (p # ps) s = (if p = 0 then free_rows ps s else bindF (free_text p s) (\<lambda>s. free_rows ps s))"

definition console_deinit :: "('w, 'z) console_scheme \<Rightarrow> fault + ('w, 'z) console_scheme" where
  "console_deinit s = bindF (free_rows (tvConsole s) s) (\<lambda>s. free_rows (padConsole s) s)"


section \<open>The rows\<close>

lemma move_rows_spec:
  assumes "rows \<noteq> []"
  shows "move_rows rows = tl rows @ [last rows]"
proof -
  let ?f = "\<lambda>i rows. rows[i - 1 := rows ! i]"
  have k: "length (fold ?f [1..<k] rows) = length rows \<and>
      (\<forall>j < length rows. fold ?f [1..<k] rows ! j = (if Suc j < k then rows ! Suc j else rows ! j))"
    if "k \<le> length rows" for k
    using that
  proof (induction k)
    case (Suc k)
    show ?case
    proof (cases "k = 0")
      case False
      with Suc show ?thesis by (auto simp: nth_list_update less_Suc_eq)
    qed simp
  qed simp
  show ?thesis
  proof (rule nth_equalityI)
    show "length (move_rows rows) = length (tl rows @ [last rows])"
      using k [of "length rows"] assms by (simp add: move_rows_def)
    fix j assume "j < length (move_rows rows)"
    then have "j < length rows" using k [of "length rows"] by (simp add: move_rows_def)
    then show "move_rows rows ! j = (tl rows @ [last rows]) ! j"
      using k [of "length rows"] assms by (auto simp: move_rows_def nth_append nth_tl last_conv_nth not_less
          intro: arg_cong [where f = "(!) rows"])
  qed
qed

definition live :: "u32 list \<Rightarrow> u32 list" where
  "live = filter (\<lambda>p. p \<noteq> 0)"

definition rows_ok :: "('w, 'z) console_scheme \<Rightarrow> bool" where
  "rows_ok s \<longleftrightarrow> length (tvConsole s) = MAX_CONSOLE_LINES_TV \<and> length (padConsole s) = MAX_CONSOLE_LINES_PAD \<and>
     distinct (live (tvConsole s) @ live (padConsole s)) \<and>
     (\<forall>p \<in> set (live (tvConsole s) @ live (padConsole s)). texts s p \<noteq> None)"

text \<open>Nothing is allocated that no row points to.\<close>

definition no_leak :: "('w, 'z) console_scheme \<Rightarrow> bool" where
  "no_leak s \<longleftrightarrow> dom (texts s) \<subseteq> set (live (tvConsole s) @ live (padConsole s))"

definition shown :: "u32 list \<Rightarrow> (u32 \<Rightarrow> string option) \<Rightarrow> string option list" where
  "shown rows h = map (\<lambda>p. if p = 0 then None else h p) rows"

definition cut_line :: "string \<Rightarrow> string" where
  "cut_line msg = take 79 msg"

lemma draw_rows_run:
  assumes "\<forall>p \<in> set (live rows). texts s p \<noteq> None"
  shows "\<exists>w. draw_rows scr screen i rows s = Inr (s\<lparr>world := w\<rparr>)"
  using assms
proof (induction rows arbitrary: i s)
  case Nil
  then show ?case by (auto intro: exI [of _ "world s"])
next
  case (Cons p ps)
  show ?case
  proof (cases "p = 0")
    case True
    then show ?thesis using Cons by (simp add: live_def)
  next
    case False
    then obtain t where t: "texts s p = Some t" using Cons.prems by (auto simp: live_def)
    let ?s = "sys_do (scr_put_font scr screen 0 i t) s"
    have "\<forall>p \<in> set (live ps). texts ?s p \<noteq> None" using Cons.prems by (simp add: live_def sys_do_def)
    from Cons.IH [OF this, of "i + 1"] show ?thesis using False t by (simp add: sys_do_def)
  qed
qed

lemma screen_draw_run:
  assumes "\<forall>p \<in> set (live rows). texts s p \<noteq> None"
  shows "\<exists>w. console_screen_draw scr screen rows s = Inr (s\<lparr>world := w\<rparr>)"
proof -
  have "\<forall>p \<in> set (live rows). texts (sys_do (scr_clear scr screen 0) s) p \<noteq> None"
    using assms by (simp add: sys_do_def)
  then obtain w where "draw_rows scr screen 0 rows (sys_do (scr_clear scr screen 0) s) =
      Inr ((sys_do (scr_clear scr screen 0) s)\<lparr>world := w\<rparr>)"
    using draw_rows_run by blast
  then show ?thesis by (auto simp: console_screen_draw_def sys_do_def)
qed

lemma console_updates:
  "s\<lparr>world := w, initialized := b\<rparr> = s\<lparr>initialized := b, world := w\<rparr>" for s :: "('w, 'z) console_scheme"
  by (cases s) simp

lemma screen_init_fields:
  fixes s :: "('w, 'z) console_scheme"
  shows "\<exists>w. screen_init scr s = s\<lparr>initialized := True, world := w\<rparr>"
proof (cases "initialized s")
  case True
  then show ?thesis by (intro exI [of _ "world s"]) (simp add: screen_init_def)
next
  case False
  then show ?thesis by (auto simp: screen_init_def sys_do_def sysc_def Let_def console_updates split: prod.split)
qed

lemma console_draw_run:
  fixes s :: "('w, 'z) console_scheme"
  assumes "rows_ok s"
  shows "\<exists>w. console_draw scr s = Inr (s\<lparr>initialized := True, world := w\<rparr>)"
proof -
  from screen_init_fields [of scr s] obtain w where w: "screen_init scr s = s\<lparr>initialized := True, world := w\<rparr>" ..
  let ?s = "s\<lparr>initialized := True, world := w\<rparr>"
  have "\<forall>p \<in> set (live (tvConsole s)). texts ?s p \<noteq> None" "\<forall>p \<in> set (live (padConsole s)). texts s p \<noteq> None"
    using assms by (auto simp: rows_ok_def)
  with screen_draw_run [of "tvConsole s" ?s scr 0] obtain v where
    v: "console_screen_draw scr 0 (tvConsole s) ?s = Inr (s\<lparr>initialized := True, world := v\<rparr>)" by auto
  have "\<forall>p \<in> set (live (padConsole s)). texts (s\<lparr>initialized := True, world := v\<rparr>) p \<noteq> None"
    using assms by (auto simp: rows_ok_def)
  from screen_draw_run [OF this, of scr 1] show ?thesis using w v by (auto simp: console_draw_def)
qed

lemma shift_rows_run:
  assumes "rows \<noteq> []" and "hd rows \<noteq> 0 \<Longrightarrow> texts s (hd rows) \<noteq> None"
  shows "shift_rows rows s = Inr (tl rows @ [last rows],
    if hd rows = 0 then s else s\<lparr>texts := (texts s)(hd rows := None)\<rparr>)"
proof -
  have "read_at rows 0 = Inr (hd rows)" using assms(1) by (simp add: read_at_def hd_conv_nth)
  then show ?thesis
    using assms by (cases "texts s (hd rows)") (auto simp: shift_rows_def free_text_def move_rows_spec)
qed

lemma set_last_row: "rows \<noteq> [] \<Longrightarrow> length rows = n \<Longrightarrow> (tl rows @ [last rows])[n - 1 := p] = tl rows @ [p]"
  by (simp add: list_update_append)

lemma live_simps [simp]: "live [] = []" "live (p # ps) = (if p = 0 then live ps else p # live ps)"
  "live (xs @ ys) = live xs @ live ys"
  by (simp_all add: live_def)

lemma live_replicate [simp]: "live (replicate n 0) = []"
  by (induction n) simp_all

text \<open>The two allocations of a line succeed and give addresses that are not in use.\<close>

definition two_fresh :: "('w, 'z) console_scheme \<Rightarrow> bool" where
  "two_fresh s \<longleftrightarrow> allocs s 0 \<noteq> 0 \<and> allocs s 1 \<noteq> 0 \<and> allocs s 0 \<noteq> allocs s 1 \<and>
     texts s (allocs s 0) = None \<and> texts s (allocs s 1) = None"

lemma shown_cong: "(\<And>p. p \<in> set (live rows) \<Longrightarrow> h p = h' p) \<Longrightarrow> shown rows h = shown rows h'"
  by (auto simp: shown_def live_def)

lemma shown_tl: "shown (tl rows) h = tl (shown rows h)"
  by (simp add: shown_def map_tl)

lemma printf_run:
  fixes s :: "('w, 'z) console_scheme"
  assumes ok: "rows_ok s" and fr: "two_fresh s"
  shows "\<exists>s'. console_printf scr msg s = Inr s' \<and> rows_ok s' \<and> (no_leak s \<longrightarrow> no_leak s') \<and>
    shown (tvConsole s') (texts s') = tl (shown (tvConsole s) (texts s)) @ [Some (cut_line msg)] \<and>
    shown (padConsole s') (texts s') = tl (shown (padConsole s) (texts s)) @ [Some (cut_line msg)]"
proof -
  let ?p = "allocs s 0" and ?q = "allocs s 1"
  obtain a tv where tv: "tvConsole s = a # tv" "length tv = 26"
    using ok by (cases "tvConsole s") (auto simp: rows_ok_def MAX_CONSOLE_LINES_TV_def)
  obtain b pad where pad: "padConsole s = b # pad" "length pad = 17"
    using ok by (cases "padConsole s") (auto simp: rows_ok_def MAX_CONSOLE_LINES_PAD_def)
  have alive: "\<forall>r \<in> set (live (tvConsole s) @ live (padConsole s)). texts s r \<noteq> None"
      and dist: "distinct (live (tvConsole s) @ live (padConsole s))"
    using ok by (simp_all add: rows_ok_def)
  have new: "?p \<noteq> 0" "?q \<noteq> 0" "?p \<noteq> ?q" "texts s ?p = None" "texts s ?q = None" using fr by (simp_all add: two_fresh_def)
  define h where "h = (if a = 0 then (texts s)(?p \<mapsto> msg) else ((texts s)(?p \<mapsto> msg))(a := None))"
  define h2 where "h2 = (if b = 0 then h else h(b := None))"
  define h3 where "h3 = h2(?p \<mapsto> cut_line msg, ?q \<mapsto> cut_line msg)"
  have b: "b \<noteq> 0 \<Longrightarrow> h b \<noteq> None" using alive dist tv pad by (auto simp: h_def)
  have keep: "h3 r = texts s r" if "r \<in> set (live tv) \<union> set (live pad)" for r
  proof -
    have "r \<noteq> 0" "texts s r \<noteq> None" "r \<noteq> a \<or> a = 0" "r \<noteq> b \<or> b = 0"
      using that alive dist tv pad by (auto simp: live_def split: if_splits)
    then show ?thesis using new by (auto simp: h3_def h2_def h_def)
  qed
  define t where "t = s\<lparr>allocs := (\<lambda>k. allocs s (Suc (Suc k))), texts := h3, tvConsole := tv @ [?q],
    padConsole := pad @ [?p]\<rparr>"
  have cut: "(if length msg > 79 then take 79 msg else msg) = cut_line msg" by (simp add: cut_line_def)
  let ?s0 = "s\<lparr>allocs := (\<lambda>k. allocs s (Suc k)), texts := (texts s)(?p \<mapsto> msg)\<rparr>"
  have s1: "shift_rows (a # tv) ?s0 = Inr (tv @ [last (a # tv)], ?s0\<lparr>texts := h\<rparr>)"
    using alive tv by (subst shift_rows_run) (auto simp: h_def)
  have rest: "\<forall>r \<in> set (live tv) \<union> set (live pad). texts s r \<noteq> None"
    using alive tv pad by (auto split: if_splits)
  then have notin: "?p \<notin> set (live tv) \<union> set (live pad)" "?q \<notin> set (live tv) \<union> set (live pad)"
    using new(4,5) by blast+
  have "distinct (live tv @ live pad)" using dist tv pad by (auto split: if_splits)
  then have ok': "rows_ok t"
    using tv pad new(1-3) keep rest notin
    by (auto simp: rows_ok_def t_def MAX_CONSOLE_LINES_TV_def MAX_CONSOLE_LINES_PAD_def h3_def)
  let ?s1 = "?s0\<lparr>texts := h, tvConsole := tv @ [last (a # tv)]\<rparr>"
  have s2: "shift_rows (b # pad) ?s1 = Inr (pad @ [last (b # pad)], ?s1\<lparr>texts := h2\<rparr>)"
    using b by (subst shift_rows_run) (auto simp: h2_def)
  have l: "(tv @ [x])[26 := ?q] = tv @ [?q]" "(pad @ [y])[17 := ?p] = pad @ [?p]" for x y
    using tv(2) pad(2) by (simp_all add: list_update_append)
  have run: "console_printf scr msg s = console_draw scr t"
    using s1 s2 new(1,2) l tv(1) pad(1) cut
    by (simp add: console_printf_def malloc_def Let_def MAX_CONSOLE_LINES_TV_def MAX_CONSOLE_LINES_PAD_def t_def h3_def)
  from console_draw_run [OF ok', of scr] obtain w where w: "console_draw scr t = Inr (t\<lparr>initialized := True, world := w\<rparr>)" ..
  let ?t = "t\<lparr>initialized := True, world := w\<rparr>"
  have "shown (tv @ [?q]) h3 = tl (shown (tvConsole s) (texts s)) @ [Some (cut_line msg)]"
      "shown (pad @ [?p]) h3 = tl (shown (padConsole s) (texts s)) @ [Some (cut_line msg)]"
    using tv pad new(1-3) shown_cong [of tv h3 "texts s"] shown_cong [of pad h3 "texts s"] keep
    by (simp_all add: shown_def h3_def)
  moreover have "no_leak ?t" if "no_leak s"
    using that tv pad new(1,2) by (auto simp: no_leak_def t_def h3_def h2_def h_def dom_def split: if_splits)
  moreover have "rows_ok ?t" using ok' by (simp add: rows_ok_def)
  ultimately show ?thesis using run w by (intro exI [of _ ?t]) (simp add: t_def)
qed

lemma free_rows_run:
  fixes s :: "('w, 'z) console_scheme"
  assumes "distinct (live rows)" and "\<forall>p \<in> set (live rows). texts s p \<noteq> None"
  shows "free_rows rows s = Inr (s\<lparr>texts := (\<lambda>p. if p \<in> set (live rows) then None else texts s p)\<rparr>)"
  using assms
proof (induction rows arbitrary: s)
  case (Cons p ps)
  show ?case
  proof (cases "p = 0")
    case False
    then obtain t where t: "texts s p = Some t" using Cons.prems by auto
    let ?s = "s\<lparr>texts := (texts s)(p := None)\<rparr>"
    have "distinct (live ps)" "\<forall>q \<in> set (live ps). texts ?s q \<noteq> None" using Cons.prems False by auto
    note ih = Cons.IH [OF this]
    have "(\<lambda>q. if q \<in> set (live ps) then None else texts ?s q) =
        (\<lambda>q. if q \<in> set (live (p # ps)) then None else texts s q)" using False by auto
    then show ?thesis using False t ih by (simp add: free_text_def)
  qed (use Cons in simp)
qed simp

lemma deinit_run:
  fixes s :: "('w, 'z) console_scheme"
  assumes "rows_ok s" and "no_leak s"
  shows "\<exists>s'. console_deinit s = Inr s' \<and> texts s' = Map.empty"
proof -
  let ?tv = "live (tvConsole s)" and ?pad = "live (padConsole s)"
  let ?s = "s\<lparr>texts := (\<lambda>p. if p \<in> set ?tv then None else texts s p)\<rparr>"
  have d: "distinct ?tv" "distinct ?pad" "set ?tv \<inter> set ?pad = {}"
      "\<forall>p \<in> set ?tv. texts s p \<noteq> None" "\<forall>p \<in> set ?pad. texts s p \<noteq> None"
    using assms(1) by (auto simp: rows_ok_def)
  then have "\<forall>p \<in> set ?pad. texts ?s p \<noteq> None" by auto
  note r = free_rows_run [OF d(1,4)] free_rows_run [OF d(2) this]
  have "texts s p = None" if "p \<notin> set ?tv" "p \<notin> set ?pad" for p
    using assms(2) that by (auto simp: no_leak_def dom_def)
  then show ?thesis using r by (auto simp: console_deinit_def)
qed

section \<open>Properties\<close>

text \<open>The console after some lines, each printed with working allocations.\<close>

inductive printed :: "'w screen \<Rightarrow> string list \<Rightarrow> ('w, 'z) console_scheme \<Rightarrow> bool" for scr where
  start: "texts s = Map.empty \<Longrightarrow> printed scr [] (console_init s)"
| line: "printed scr msgs s \<Longrightarrow> two_fresh s \<Longrightarrow> console_printf scr msg s = Inr s' \<Longrightarrow> printed scr (msgs @ [msg]) s'"

lemma drop_snoc: "length ys = n + k \<Longrightarrow> 0 < k \<Longrightarrow> tl (drop n ys) @ [y] = drop (Suc n) (ys @ [y])"
proof -
  assume "length ys = n + k" "0 < k"
  moreover have "tl (drop n ys) = drop (Suc n) ys" by (simp only: drop_Suc tl_drop)
  ultimately show ?thesis by simp
qed


definition no_screen :: "unit screen" where
  "no_screen = \<lparr>scr_init = id, scr_buffer_size = (\<lambda>n w. (0, w)), scr_set_buffer = (\<lambda>n p w. w), scr_enable = (\<lambda>n b w. w),
     scr_flip = (\<lambda>n w. w), scr_clear = (\<lambda>n c w. w), scr_put_font = (\<lambda>n x y t w. w)\<rparr>"

definition blank0 :: "unit console" where
  "blank0 = \<lparr>world = (), allocs = allocs0, texts = Map.empty, tvConsole = [], padConsole = [], initialized = False\<rparr>"


end
