(* ===== verification/Logging.thy ===== *)
theory Logging
  imports Console
begin

text \<open>
  The log over UDP (\<open>logging.c\<close>): the broadcast address of the local network, the socket, and the
  write function that the standard output and error streams are redirected to. \<open>log_printf\<close> only hands its
  text to the C library, which calls the write function.
\<close>

record 'w udp =
  udp_assigned_address :: "'w \<Rightarrow> (int \<times> u32) \<times> 'w"
  udp_assigned_subnet :: "'w \<Rightarrow> (int \<times> u32) \<times> 'w"
  udp_htons :: "u16 \<Rightarrow> u16"
  udp_htonl :: "u32 \<Rightarrow> u32"
  udp_socket :: "'w \<Rightarrow> int \<times> 'w"
  udp_bind :: "int \<Rightarrow> u16 \<Rightarrow> u32 \<Rightarrow> 'w \<Rightarrow> int \<times> 'w"
  udp_close :: "int \<Rightarrow> 'w \<Rightarrow> 'w"
  udp_lasterr :: "'w \<Rightarrow> int \<times> 'w"
  udp_sendto :: "int \<Rightarrow> string \<Rightarrow> u16 \<times> u32 \<Rightarrow> 'w \<Rightarrow> int \<times> 'w"
  udp_sleep :: "int \<Rightarrow> 'w \<Rightarrow> 'w"
  udp_fflush :: "bool \<Rightarrow> 'w \<Rightarrow> 'w"                     \<comment> \<open>of standard output, or of standard error\<close>

record 'w logging = "'w console" +
  udp_fd :: int
  log_lock :: int
  broadcast :: "u16 \<times> u32"                          \<comment> \<open>port and address, in network order\<close>
  stdout_net :: bool                                \<comment> \<open>the stream writes to the network\<close>
  stderr_net :: bool

definition LOG_UDP_PORT :: u16 where "LOG_UDP_PORT = 4405"
definition DGRAM_SIZE :: int where "DGRAM_SIZE = 576"

section \<open>Setting up\<close>

text \<open>The address of the caller is present or null.\<close>

definition get_broadcast_address ::
  "'w udp \<Rightarrow> bool \<Rightarrow> ('w, 'z) sys_scheme \<Rightarrow> (int \<times> u32 option) \<times> ('w, 'z) sys_scheme" where
  "get_broadcast_address net present s =
     (if \<not> present then ((-1, None), s)
      else
        let ((r, myIp), s) = sysc (udp_assigned_address net) s in
        if r < 0 then ((-1, None), s)
        else
          let ((r, mySubnet), s) = sysc (udp_assigned_subnet net) s in
          if r < 0 then ((-1, None), s)
          else ((0, Some (myIp OR NOT mySubnet)), s))"

definition init_broadcast :: "'w udp \<Rightarrow> u16 \<Rightarrow> ('w, 'z) logging_scheme \<Rightarrow> int \<times> ('w, 'z) logging_scheme" where
  "init_broadcast net port s =
     (let ((r, ip), s) = get_broadcast_address net True s in
      case ip of
        Some a \<Rightarrow> if r < 0 then (-1, s) else (0, s\<lparr>broadcast := (udp_htons net port, udp_htonl net a)\<rparr>)
      | None \<Rightarrow> (-1, s))"

definition init_udp_broadcast ::
  "'w screen \<Rightarrow> 'w udp \<Rightarrow> u16 \<Rightarrow> ('w, 'z) logging_scheme \<Rightarrow> fault + ('w, 'z) logging_scheme" where
  "init_udp_broadcast scr net port s =
     (if udp_fd s \<ge> 0 then Inr s
      else
        let (_, s) = init_broadcast net port s;
            (fd, s) = sysc (udp_socket net) s; s = s\<lparr>udp_fd := fd\<rparr> in
        if fd < 0 then
          let (e, s) = sysc (udp_lasterr net) s in
          console_printf scr (''[log]: Error when trying to create UDP socket: '' @ dec_int e) s
        else
          let (r, s) = sysc (udp_bind net fd 0 (udp_htonl net 0)) s in
          if r < 0 then
            let (e, s) = sysc (udp_lasterr net) s in
            bindF (console_printf scr (''[log]: Error when binding local port: '' @ dec_int e) s) (\<lambda>s.
            Inr ((sys_do (udp_close net fd) s)\<lparr>udp_fd := -1\<rparr>))
          else console_printf scr (''Initialized UDP logging on socket '' @ dec_int fd) s)"

definition deinit_udp_broadcast :: "'w udp \<Rightarrow> ('w, 'z) logging_scheme \<Rightarrow> ('w, 'z) logging_scheme" where
  "deinit_udp_broadcast net s =
     (if udp_fd s \<ge> 0 then (sys_do (udp_close net (udp_fd s)) s)\<lparr>udp_fd := -1\<rparr> else s)"

definition logging_init ::
  "'w screen \<Rightarrow> 'w udp \<Rightarrow> ('w, 'z) logging_scheme \<Rightarrow> fault + ('w, 'z) logging_scheme" where
  "logging_init scr net s =
     bindF (console_printf scr ''Starting up logging service..'' s) (\<lambda>s.
     bindF (init_udp_broadcast scr net LOG_UDP_PORT s) (\<lambda>s.
     Inr (s\<lparr>stdout_net := True, stderr_net := True\<rparr>)))"

definition logging_deinit :: "'w udp \<Rightarrow> ('w, 'z) logging_scheme \<Rightarrow> ('w, 'z) logging_scheme" where
  "logging_deinit net s = deinit_udp_broadcast net (sys_do (udp_fflush net False) (sys_do (udp_fflush net True) s))"

section \<open>Writing\<close>

text \<open>Waiting for the lock: nothing in this program clears it while it waits.\<close>

partial_function (option) wait_lock ::
  "'w udp \<Rightarrow> ('w, 'z) logging_scheme \<Rightarrow> ('w, 'z) logging_scheme option" where
  "wait_lock net s =
     (if log_lock s \<noteq> 0 then wait_lock net (sys_do (udp_sleep net (248625000 div 4 div 1000)) s) else Some s)"

text \<open>One turn of the sending loop: whether it goes on, what remains and where.\<close>

definition send_turn ::
  "'w udp \<Rightarrow> int \<Rightarrow> char list \<Rightarrow> ('w, 'z) logging_scheme \<Rightarrow>
   fault + (bool \<times> int \<times> char list) \<times> ('w, 'z) logging_scheme" where
  "send_turn net remaining ptr s =
     (let block = (if remaining < DGRAM_SIZE then remaining else DGRAM_SIZE) in
      bindF (slice_at ptr 0 block) (\<lambda>bytes.
      let (sent, s) = sysc (udp_sendto net (udp_fd s) bytes (broadcast s)) s in
      if sent < 0 then Inr ((False, remaining, ptr), s)
      else Inr ((True, remaining - sent, drop (nat sent) ptr), s)))"

partial_function (option) send_loop ::
  "'w udp \<Rightarrow> int \<Rightarrow> char list \<Rightarrow> ('w, 'z) logging_scheme \<Rightarrow> (fault + ('w, 'z) logging_scheme) option" where
  "send_loop net remaining ptr s =
     (if remaining > 0 then
        (case send_turn net remaining ptr s of
           Inl e \<Rightarrow> Some (Inl e)
         | Inr ((again, remaining, ptr), s) \<Rightarrow>
             if again then send_loop net remaining ptr s else Some (Inr s))
      else Some (Inr s))"

definition logging_write ::
  "'w udp \<Rightarrow> char list \<Rightarrow> u32 \<Rightarrow> ('w, 'z) logging_scheme \<Rightarrow> (fault + u32 \<times> ('w, 'z) logging_scheme) option" where
  "logging_write net ptr len s =
     (if udp_fd s < 0 then Some (Inr (len, s))
      else
        case wait_lock net s of
          None \<Rightarrow> None
        | Some s \<Rightarrow>
            (case send_loop net (sint len) ptr (s\<lparr>log_lock := 1\<rparr>) of
               None \<Rightarrow> None
             | Some r \<Rightarrow> Some (bindF r (\<lambda>s. Inr (len, s\<lparr>log_lock := 0\<rparr>)))))"

section \<open>What is sent\<close>

text \<open>The broadcast address keeps the network part of the host's address and sets every host bit.\<close>

lemma broadcast_address_bits:
  assumes "udp_assigned_address net (world s) = ((r, ip), w)" and "0 \<le> r"
    and "udp_assigned_subnet net w = ((q, m), v)" and "0 \<le> q"
  shows "\<exists>b. fst (get_broadcast_address net True s) = (0, Some b) \<and> b AND m = ip AND m \<and> b OR m = -1"
proof -
  have "(ip OR NOT m) AND m = ip AND m" "(ip OR NOT m) OR m = -1"
    by (auto intro!: bit_word_eqI simp: bit_simps)
  then show ?thesis using assms by (simp add: get_broadcast_address_def sysc_def)
qed

lemma wait_lock_free: "log_lock s = 0 \<Longrightarrow> wait_lock net s = Some s"
  by (simp add: wait_lock.simps)

text \<open>The pieces of a text, all but the last of full size.\<close>

function pieces :: "nat \<Rightarrow> 'a list \<Rightarrow> 'a list list" where
  "pieces n xs = (if xs = [] \<or> n = 0 then [] else take n xs # pieces n (drop n xs))"
  by pat_completeness auto

termination by (relation "measure (\<lambda>(n, xs). length xs)") auto

declare pieces.simps [simp del]

lemma concat_pieces: "0 < n \<Longrightarrow> concat (pieces n xs) = xs"
proof (induction n xs rule: pieces.induct)
  case (1 n xs)
  then show ?case by (subst pieces.simps) auto
qed

lemma pieces_size: "t \<in> set (pieces n xs) \<Longrightarrow> length t \<le> n"
proof (induction n xs rule: pieces.induct)
  case (1 n xs)
  then show ?case by (subst (asm) (2) pieces.simps) (auto split: if_splits)
qed

text \<open>A network that takes every datagram.\<close>

definition takes_datagrams :: "'w udp \<Rightarrow> int \<Rightarrow> u16 \<times> u32 \<Rightarrow> ('w \<Rightarrow> string list) \<Rightarrow> bool" where
  "takes_datagrams net fd dest got \<longleftrightarrow> (\<forall>t w. \<exists>w'. udp_sendto net fd t dest w = (int (length t), w') \<and>
     got w' = got w @ [t])"

lemma send_loop_run:
  fixes s :: "('w, 'z) logging_scheme"
  assumes "takes_datagrams net (udp_fd s) (broadcast s) got" and "n \<le> length ptr"
  shows "\<exists>w. send_loop net (int n) ptr s = Some (Inr (s\<lparr>world := w\<rparr>)) \<and>
    got w = got (world s) @ pieces 576 (take n ptr)"
  using assms
proof (induction n arbitrary: ptr s rule: less_induct)
  case (less n)
  show ?case
  proof (cases "n = 0")
    case True
    then show ?thesis by (intro exI [of _ "world s"]) (simp add: send_loop.simps pieces.simps)
  next
    case False
    let ?k = "min n 576"
    obtain w where w: "udp_sendto net (udp_fd s) (take ?k ptr) (broadcast s) (world s) = (int ?k, w)"
        "got w = got (world s) @ [take ?k ptr]"
    proof -
      have "length (take ?k ptr) = ?k" using less.prems(2) by simp
      then show ?thesis using that less.prems(1) unfolding takes_datagrams_def by metis
    qed
    have sl: "slice_at ptr 0 (if int n < DGRAM_SIZE then int n else DGRAM_SIZE) = Inr (take ?k ptr)"
      using less.prems(2) by (simp add: slice_at_def DGRAM_SIZE_def min_def)
    have t: "send_turn net (int n) ptr s = Inr ((True, int n - int ?k, drop ?k ptr), s\<lparr>world := w\<rparr>)"
      using sl w(1) by (simp add: send_turn_def sysc_def Let_def)
    have "n - ?k < n" "n - ?k \<le> length (drop ?k ptr)" using False less.prems(2) by auto
    with less.IH [of "n - ?k" "s\<lparr>world := w\<rparr>" "drop ?k ptr"] less.prems(1) obtain v where
      v: "send_loop net (int (n - ?k)) (drop ?k ptr) (s\<lparr>world := w\<rparr>) = Some (Inr (s\<lparr>world := v\<rparr>))"
        "got v = got w @ pieces 576 (take (n - ?k) (drop ?k ptr))"
      by auto
    have "take n ptr \<noteq> []" using False less.prems(2) by auto
    then have "pieces 576 (take n ptr) = take ?k ptr # pieces 576 (take (n - ?k) (drop ?k ptr))"
    proof -
      have "take 576 (take n ptr) = take ?k ptr" "drop 576 (take n ptr) = take (n - ?k) (drop ?k ptr)"
        by (cases "n \<le> 576"; simp add: drop_take min.commute)+
      then show ?thesis using \<open>take n ptr \<noteq> []\<close> by (subst pieces.simps) simp
    qed
    moreover have "int n - int ?k = int (n - ?k)" by simp
    ultimately show ?thesis using False t v w(2)
      by (intro exI [of _ v]) (simp add: send_loop.simps [of _ "int n"])
  qed
qed

section \<open>Properties\<close>

text \<open>The log reaches the network whole: with a network that takes every datagram and the lock free, a write
  returns and reports all bytes, the text has been sent in order in datagrams of 576 bytes and a shorter
  last one, and the lock is free again.\<close>

theorem logging_write_sends:
  assumes "0 \<le> udp_fd s" and "log_lock s = 0" and "takes_datagrams net (udp_fd s) (broadcast s) got"
    and "unat len \<le> length ptr" and "len < 0x80000000"
  shows "\<exists>s'. logging_write net ptr len s = Some (Inr (len, s')) \<and>
    got (world s') = got (world s) @ pieces 576 (take (unat len) ptr) \<and> log_lock s' = 0 \<and>
    (\<forall>t \<in> set (pieces 576 (take (unat len) ptr)). length t \<le> 576) \<and>
    concat (pieces 576 (take (unat len) ptr)) = take (unat len) ptr"
proof -
  let ?s = "s\<lparr>log_lock := 1\<rparr>"
  have "takes_datagrams net (udp_fd ?s) (broadcast ?s) got" using assms(3) by simp
  from send_loop_run [OF this assms(4)] obtain w where w: "send_loop net (int (unat len)) ptr ?s = Some (Inr (?s\<lparr>world := w\<rparr>))"
      "got w = got (world s) @ pieces 576 (take (unat len) ptr)" by auto
  have "sint len = int (unat len)"
    using assms(5) sint_small [of len] by (simp add: word_less_def)
  then show ?thesis
    using assms(1,2) w pieces_size by (auto simp: logging_write_def wait_lock_free concat_pieces)
qed

definition wire :: "string list udp" where
  "wire = \<lparr>udp_assigned_address = (\<lambda>w. ((0, 0xC0A80105), w)), udp_assigned_subnet = (\<lambda>w. ((0, 0xFFFFFF00), w)),
     udp_htons = id, udp_htonl = id, udp_socket = (\<lambda>w. (9, w)), udp_bind = (\<lambda>fd p a w. (0, w)),
     udp_close = (\<lambda>fd w. w), udp_lasterr = (\<lambda>w. (0, w)),
     udp_sendto = (\<lambda>fd t d w. (int (length t), w @ [t])), udp_sleep = (\<lambda>n w. w), udp_fflush = (\<lambda>b w. w)\<rparr>"

definition log0 :: "string list logging" where
  "log0 = \<lparr>world = [], allocs = allocs0, texts = Map.empty, tvConsole = [], padConsole = [], initialized = False,
     udp_fd = 9, log_lock = 0, broadcast = (4405, 0xC0A801FF), stdout_net = True, stderr_net = True\<rparr>"

theorem logging_write_sends_witness:
  "\<exists>s'. logging_write wire (replicate 600 CR) 600 log0 = Some (Inr (600, s')) \<and> concat (world s') = replicate 600 CR"
proof -
  have "takes_datagrams wire (udp_fd log0) (broadcast log0) id" by (simp add: takes_datagrams_def wire_def)
  from logging_write_sends [OF _ _ this, of 600 "replicate 600 CR"]
  show ?thesis by (auto simp: log0_def)
qed

end
