(* ===== verification/Server.thy ===== *)
theory Server
  imports Sessions FatDevice Logging
begin

text \<open>
  The program as a whole: the pad's buttons (\<open>input.c\<close>), mounting and unmounting of the file systems,
  the main loop and \<open>main\<close> (\<open>ftpservu.c\<close>), and the taking over of the system process that gives access
  to the internal storage (\<open>main.c\<close>). The state puts the server, the device table and the console side by
  side; each component runs on the same outside world and the same allocator.
\<close>

section \<open>State\<close>

text \<open>The libraries for the internal storage, and the other system calls.\<close>

record 'w iosu =
  ios_fatInitDefault :: "'w \<Rightarrow> 'w"
  ios_fatUnmount :: "string \<Rightarrow> 'w \<Rightarrow> 'w"
  ios_FSA_Open :: "'w \<Rightarrow> int \<times> 'w"
  ios_FSA_Close :: "int \<Rightarrow> 'w \<Rightarrow> 'w"
  ios_mount_fs :: "string \<Rightarrow> int \<Rightarrow> string option \<Rightarrow> string \<Rightarrow> 'w \<Rightarrow> 'w"
  ios_unmount_fs :: "string \<Rightarrow> 'w \<Rightarrow> 'w"
  ios_IOSUHAX_Open :: "string option \<Rightarrow> 'w \<Rightarrow> int \<times> 'w"
  ios_IOSUHAX_Close :: "'w \<Rightarrow> 'w"
  ios_Open :: "string \<Rightarrow> 'w \<Rightarrow> int \<times> 'w"
  ios_IoctlAsync :: "int \<Rightarrow> int \<Rightarrow> 'w \<Rightarrow> 'w"
  ios_Close :: "int \<Rightarrow> 'w \<Rightarrow> 'w"
  ios_usleep :: "int \<Rightarrow> 'w \<Rightarrow> 'w"
  ios_VPADInit :: "'w \<Rightarrow> 'w"
  ios_VPADRead :: "'w \<Rightarrow> (u32 \<times> int) \<times> 'w"              \<comment> \<open>the buttons held and the error\<close>
  ios_ACInitialize :: "'w \<Rightarrow> 'w"
  ios_ACConnect :: "'w \<Rightarrow> 'w"
  ios_socket_lib_init :: "'w \<Rightarrow> 'w"

record 'w env =
  e_os :: "'w os"
  e_fs :: "'w fs"
  e_scr :: "'w screen"
  e_udp :: "'w udp"
  e_ios :: "'w iosu"

record 'w machine = "'w sys" +
  srv :: "'w server"
  fat :: "'w fatfs"
  con :: "'w logging"
  buttons :: u32
  fs_mounted :: bool
  fsa_fd :: int
  iosuhaxMount :: bool
  mcp_hook_fd :: int

text \<open>Running a component.\<close>

definition with_server ::
  "('w server \<Rightarrow> fault + 'a \<times> 'w server) \<Rightarrow> 'w machine \<Rightarrow> fault + 'a \<times> 'w machine" where
  "with_server f s =
     bindF (f ((srv s)\<lparr>world := world s, allocs := allocs s\<rparr>)) (\<lambda>(x, a).
     Inr (x, s\<lparr>srv := a, world := world a, allocs := allocs a\<rparr>))"

definition with_fat ::
  "('w fatfs \<Rightarrow> fault + 'a \<times> 'w fatfs) \<Rightarrow> 'w machine \<Rightarrow> fault + 'a \<times> 'w machine" where
  "with_fat f s =
     bindF (f ((fat s)\<lparr>world := world s, allocs := allocs s\<rparr>)) (\<lambda>(x, a).
     Inr (x, s\<lparr>fat := a, world := world a, allocs := allocs a\<rparr>))"

definition with_console :: "('w logging \<Rightarrow> fault + 'w logging) \<Rightarrow> 'w machine \<Rightarrow> fault + 'w machine" where
  "with_console f s =
     bindF (f ((con s)\<lparr>world := world s, allocs := allocs s\<rparr>)) (\<lambda>a.
     Inr (s\<lparr>con := a, world := world a, allocs := allocs a\<rparr>))"

definition say :: "'w env \<Rightarrow> string \<Rightarrow> 'w machine \<Rightarrow> fault + 'w machine" where
  "say env msg = with_console (console_printf (e_scr env) msg)"

section \<open>The pad\<close>

definition VPAD_BUTTON_HOME :: u32 where "VPAD_BUTTON_HOME = 0x00000002"
definition VPAD_BUTTON_Y :: u32 where "VPAD_BUTTON_Y = 0x00001000"
definition VPAD_CMD_EXIT :: int where "VPAD_CMD_EXIT = 1"
definition VPAD_CMD_REMOUNT :: int where "VPAD_CMD_REMOUNT = 2"

text \<open>The command and the buttons remembered.\<close>

definition get_command :: "u32 \<Rightarrow> u32 \<Rightarrow> int \<times> u32" where
  "get_command held old =
     (if held AND VPAD_BUTTON_HOME \<noteq> 0 \<and> old AND VPAD_BUTTON_HOME = 0 then VPAD_CMD_EXIT
      else if held AND VPAD_BUTTON_Y \<noteq> 0 \<and> old AND VPAD_BUTTON_Y = 0 then VPAD_CMD_REMOUNT
      else 0, held)"

definition input_handler :: "'w env \<Rightarrow> 'w machine \<Rightarrow> int \<times> 'w machine" where
  "input_handler env s =
     (let ((hold, vpadError), s) = sysc (ios_VPADRead (e_ios env)) s in
      if vpadError = 0 then
        let (command, held) = get_command hold (buttons s) in (command, s\<lparr>buttons := held\<rparr>)
      else (0, s))"

section \<open>File systems\<close>

text \<open>The eight storages: device name, device and path.\<close>

definition storages :: "(string \<times> string option \<times> string) list" where
  "storages =
     [(''slccmpt01'', Some ''/dev/slccmpt01'', ''/vol/storage_slccmpt01''),
      (''storage_odd_tickets'', Some ''/dev/odd01'', ''/vol/storage_odd_tickets''),
      (''storage_odd_updates'', Some ''/dev/odd02'', ''/vol/storage_odd_updates''),
      (''storage_odd_content'', Some ''/dev/odd03'', ''/vol/storage_odd_content''),
      (''storage_odd_content2'', Some ''/dev/odd04'', ''/vol/storage_odd_content2''),
      (''storage_slc'', None, ''/vol/system''),
      (''storage_mlc'', None, ''/vol/storage_mlc01''),
      (''storage_usb'', None, ''/vol/storage_usb01'')]"

definition unmount_names :: "string list" where
  "unmount_names = [''slccmpt01'', ''storage_odd_tickets'', ''storage_odd_updates'', ''storage_odd_content'',
     ''storage_odd_content2'', ''storage_slc'', ''storage_mlc'', ''storage_usb'']"

definition mount_filesystems :: "'w env \<Rightarrow> 'w machine \<Rightarrow> fault + 'w machine" where
  "mount_filesystems env s =
     (if fs_mounted s then Inr s
      else
        bindF
          (if iosuhaxMount s then
             let s = sys_do (ios_fatInitDefault (e_ios env)) s;
                 (fd, s) = sysc (ios_FSA_Open (e_ios env)) s; s = s\<lparr>fsa_fd := fd\<rparr> in
             Inr (if fd \<ge> 0 then
                    foldl (\<lambda>s (name, dev, path). sys_do (ios_mount_fs (e_ios env) name fd dev path) s) s storages
                  else s)
           else bindF (with_fat (mount_sd_fat (e_fs env) ''sd'') s) (\<lambda>(_, s). Inr s))
          (\<lambda>s. Inr (s\<lparr>fs_mounted := True\<rparr>)))"

definition unmount_filesystems :: "'w env \<Rightarrow> 'w machine \<Rightarrow> fault + 'w machine" where
  "unmount_filesystems env s =
     (if \<not> fs_mounted s then Inr s
      else
        bindF
          (if iosuhaxMount s then
             let s = sys_do (ios_fatUnmount (e_ios env) ''sd'') s;
                 s = sys_do (ios_fatUnmount (e_ios env) ''usb'') s in
             Inr (if fsa_fd s \<ge> 0 then
                    let s = foldl (\<lambda>s name. sys_do (ios_unmount_fs (e_ios env) name) s) s unmount_names in
                    (sys_do (ios_FSA_Close (e_ios env) (fsa_fd s)) s)\<lparr>fsa_fd := -1\<rparr>
                  else s)
           else bindF (with_fat (unmount_sd_fat (e_fs env) ''sd'') s) (\<lambda>(_, s). Inr s))
          (\<lambda>s. Inr (s\<lparr>fs_mounted := False\<rparr>)))"

definition remount_filesystems :: "'w env \<Rightarrow> 'w machine \<Rightarrow> fault + 'w machine" where
  "remount_filesystems env s = bindF (unmount_filesystems env s) (mount_filesystems env)"

section \<open>The main loop\<close>

definition TCP_PORT :: int where "TCP_PORT = 21"
definition FTP_SOCKET_BACKLOG :: int where "FTP_SOCKET_BACKLOG = 10"

text \<open>One turn: whether the network counts as down afterwards.\<close>

definition main_turn :: "'w env \<Rightarrow> int \<Rightarrow> 'w machine \<Rightarrow> (fault + bool \<times> 'w machine) option" where
  "main_turn env sock s =
     (case ftp_network_handler (e_os env) sock ((srv s)\<lparr>world := world s, allocs := allocs s\<rparr>) of
        None \<Rightarrow> None
      | Some handled \<Rightarrow> Some (
          bindF (with_server (\<lambda>_. handled) s) (\<lambda>(r, s).
          let network_down = (r \<noteq> 0) in
          bindF (if network_down then say env ''encountered a fatal network error, terminating...'' s else Inr s) (\<lambda>s.
          let (cmd, s) = input_handler env s in
          if cmd = VPAD_CMD_EXIT then
            bindF (say env ''Executing shutdown command'' s) (\<lambda>s. Inr (True, s))
          else if cmd = VPAD_CMD_REMOUNT then
            bindF (say env ''Remounting filesystems'' s) (\<lambda>s.
            bindF (remount_filesystems env s) (\<lambda>s. Inr (network_down, s)))
          else Inr (network_down, s)))))"

partial_function (option) main_loop :: "'w env \<Rightarrow> int \<Rightarrow> 'w machine \<Rightarrow> (fault + 'w machine) option" where
  "main_loop env sock s =
     (case main_turn env sock s of
        None \<Rightarrow> None
      | Some (Inl e) \<Rightarrow> Some (Inl e)
      | Some (Inr (network_down, s)) \<Rightarrow> if network_down then Some (Inr s) else main_loop env sock s)"

definition ftpserver_main_loop :: "'w env \<Rightarrow> 'w machine \<Rightarrow> (fault + 'w machine) option" where
  "ftpserver_main_loop env s =
     (let (serverSocket, s) = network_create_serversocket (e_os env) TCP_PORT FTP_SOCKET_BACKLOG s in
      if serverSocket \<ge> 0 then
        (case say env (''Listening on port '' @ dec_int TCP_PORT) s of
           Inl e \<Rightarrow> Some (Inl e)
         | Inr s \<Rightarrow> main_loop env serverSocket s)
      else
        Some (say env (''Failed to create server socket ('' @ dec_int serverSocket @ ''), terminating...'') s))"

definition network_init :: "'w env \<Rightarrow> 'w machine \<Rightarrow> 'w machine" where
  "network_init env s =
     (let s = sys_do (ios_ACInitialize (e_ios env)) s;
          s = sys_do (ios_ACConnect (e_ios env)) s in
      sys_do (ios_socket_lib_init (e_ios env)) s)"

text \<open>\<open>version\<close> is the version the build defines.\<close>

definition ftpservu_main :: "'w env \<Rightarrow> string \<Rightarrow> 'w machine \<Rightarrow> (fault + 'w machine) option" where
  "ftpservu_main env version s =
     (let s = s\<lparr>con := console_init (con s)\<rparr>; s = network_init env s in
      case bindF (with_console (logging_init (e_scr env) (e_udp env)) s) (\<lambda>s.
           say env (''Starting FTPServU v'' @ version) (sys_do (ios_VPADInit (e_ios env)) s)) of
        Inl e \<Rightarrow> Some (Inl e)
      | Inr s \<Rightarrow>
          map_option (\<lambda>r.
            bindF r (\<lambda>s.
            bindF (say env ''Shutting down.'' s) (\<lambda>s.
            bindF (with_server (\<lambda>a. bindF (ftp_deinit (e_os env) a) (\<lambda>a. Inr ((), a))) s) (\<lambda>(_, s).
            bindF (with_console console_deinit s) (\<lambda>s.
            with_console (\<lambda>a. Inr (logging_deinit (e_udp env) a)) s)))))
            (ftpserver_main_loop env s))"

section \<open>Access to the internal storage\<close>

definition MCPHookOpen :: "'w env \<Rightarrow> 'w machine \<Rightarrow> int \<times> 'w machine" where
  "MCPHookOpen env s =
     (let (fd, s) = sysc (ios_Open (e_ios env) ''/dev/mcp'') s; s = s\<lparr>mcp_hook_fd := fd\<rparr> in
      if fd < 0 then (-1, s)
      else
        let s = sys_do (ios_IoctlAsync (e_ios env) fd 0x62) s;
            s = sys_do (ios_usleep (e_ios env) 1000) s;
            (r, s) = sysc (ios_IOSUHAX_Open (e_ios env) (Some ''/dev/mcp'')) s in
        if r < 0 then (-1, (sys_do (ios_Close (e_ios env) fd) s)\<lparr>mcp_hook_fd := -1\<rparr>)
        else (0, s))"

definition MCPHookClose :: "'w env \<Rightarrow> 'w machine \<Rightarrow> 'w machine" where
  "MCPHookClose env s =
     (if mcp_hook_fd s < 0 then s
      else
        let s = sys_do (ios_IOSUHAX_Close (e_ios env)) s;
            s = sys_do (ios_usleep (e_ios env) 1000) s in
        (sys_do (ios_Close (e_ios env) (mcp_hook_fd s)) s)\<lparr>mcp_hook_fd := -1\<rparr>)"

definition try_init_iosuhax :: "'w env \<Rightarrow> 'w machine \<Rightarrow> bool \<times> 'w machine" where
  "try_init_iosuhax env s =
     (let (result, s) = sysc (ios_IOSUHAX_Open (e_ios env) None) s;
          (result, s) = (if result < 0 then MCPHookOpen env s else (result, s)) in
      (\<not> result < 0, s))"

definition try_shutdown_iosuhax :: "'w env \<Rightarrow> 'w machine \<Rightarrow> 'w machine" where
  "try_shutdown_iosuhax env s =
     (if \<not> iosuhaxMount s then s
      else
        let s = (if mcp_hook_fd s \<ge> 0 then MCPHookClose env s else sys_do (ios_IOSUHAX_Close (e_ios env)) s) in
        s\<lparr>iosuhaxMount := False\<rparr>)"

definition fsdev_init :: "'w env \<Rightarrow> 'w machine \<Rightarrow> fault + 'w machine" where
  "fsdev_init env s =
     (let (r, s) = try_init_iosuhax env s in mount_filesystems env (s\<lparr>iosuhaxMount := r\<rparr>))"

definition fsdev_exit :: "'w env \<Rightarrow> 'w machine \<Rightarrow> fault + 'w machine" where
  "fsdev_exit env s = bindF (unmount_filesystems env s) (\<lambda>s. Inr (try_shutdown_iosuhax env s))"


text \<open>The components are records over the same world; these equations are not found automatically.\<close>

lemma machine_parts [simp]:
  fixes s :: "'w machine"
  shows "srv (s\<lparr>world := w\<rparr>) = srv s" "fat (s\<lparr>world := w\<rparr>) = fat s" "con (s\<lparr>world := w\<rparr>) = con s"
    "srv (s\<lparr>allocs := m\<rparr>) = srv s" "fat (s\<lparr>allocs := m\<rparr>) = fat s" "con (s\<lparr>allocs := m\<rparr>) = con s"
  by (cases s; simp)+

section \<open>Mounting\<close>

lemma mount_mounted: "mount_filesystems env s = Inr s' \<Longrightarrow> fs_mounted s' \<and> (fs_mounted s \<longrightarrow> s' = s)"
  by (auto simp: mount_filesystems_def fault_simps split: if_splits)

lemma unmount_unmounted: "unmount_filesystems env s = Inr s' \<Longrightarrow> \<not> fs_mounted s' \<and> (\<not> fs_mounted s \<longrightarrow> s' = s)"
  by (auto simp: unmount_filesystems_def fault_simps split: if_splits)

text \<open>
  What the libraries promise of the set of mounted storages: mounting adds a name, unmounting removes
  one, and the other calls leave the set alone.
\<close>

definition keeps_mounts :: "'w iosu \<Rightarrow> ('w \<Rightarrow> string set) \<Rightarrow> bool" where
  "keeps_mounts ios mnt \<longleftrightarrow>
     (\<forall>w. mnt (ios_fatInitDefault ios w) = mnt w) \<and> (\<forall>n w. mnt (ios_fatUnmount ios n w) = mnt w) \<and>
     (\<forall>w. mnt (snd (ios_FSA_Open ios w)) = mnt w) \<and> (\<forall>fd w. mnt (ios_FSA_Close ios fd w) = mnt w) \<and>
     (\<forall>n fd dev p w. mnt (ios_mount_fs ios n fd dev p w) = insert n (mnt w)) \<and>
     (\<forall>n w. mnt (ios_unmount_fs ios n w) = mnt w - {n})"

lemma mount_all:
  assumes "keeps_mounts (e_ios env) mnt"
  shows "mnt (world (foldl (\<lambda>s (n, dev, path). sys_do (ios_mount_fs (e_ios env) n fd dev path) s) s xs)) =
    mnt (world s) \<union> fst ` set xs"
  using assms by (induction xs arbitrary: s) (auto simp: keeps_mounts_def sys_do_def)

lemma unmount_all:
  assumes "keeps_mounts (e_ios env) mnt"
  shows "mnt (world (foldl (\<lambda>s n. sys_do (ios_unmount_fs (e_ios env) n) s) s xs)) = mnt (world s) - set xs"
  using assms by (induction xs arbitrary: s) (auto simp: keeps_mounts_def sys_do_def)

lemma unmount_names_storages: "unmount_names = map fst storages"
  by (simp add: unmount_names_def storages_def)

lemma sys_do_machine [simp]:
  "fsa_fd (sys_do f s) = fsa_fd s" "iosuhaxMount (sys_do f s) = iosuhaxMount s" "fs_mounted (sys_do f s) = fs_mounted s"
  "mcp_hook_fd (sys_do f s) = mcp_hook_fd s" "world (sys_do f s) = f (world s)" for s :: "'w machine"
  by (simp_all add: sys_do_def)

lemma mount_fold_fields:
  "fs_mounted (foldl (\<lambda>s (n, dev, path). sys_do (g n dev path) s) s xs) = fs_mounted s"
  "iosuhaxMount (foldl (\<lambda>s (n, dev, path). sys_do (g n dev path) s) s xs) = iosuhaxMount s"
  "fsa_fd (foldl (\<lambda>s (n, dev, path). sys_do (g n dev path) s) s xs) = fsa_fd s" for s :: "'w machine"
  by (induction xs arbitrary: s) (auto simp: sys_do_def)

lemma unmount_fold_iosuhaxMount:
  "iosuhaxMount (foldl (\<lambda>s n. sys_do (g n) s) s xs) = iosuhaxMount s" for s :: "'w machine"
  by (induction xs arbitrary: s) (auto simp: sys_do_def)

lemma keeps_mountsD:
  assumes "keeps_mounts ios mnt"
  shows "mnt (ios_fatInitDefault ios w) = mnt w" "mnt (ios_fatUnmount ios n w) = mnt w"
    "ios_FSA_Open ios w = (fd, w') \<Longrightarrow> mnt w' = mnt w" "mnt (ios_FSA_Close ios fd w) = mnt w"
  using assms unfolding keeps_mounts_def by (auto dest!: spec [of _ w])

lemma storage_mount:
  assumes k: "keeps_mounts (e_ios env) mnt" and i: "iosuhaxMount s" "\<not> fs_mounted s"
  obtains s1 where "mount_filesystems env s = Inr s1" and "fs_mounted s1" and "iosuhaxMount s1"
    and "mnt (world s1) = mnt (world s) \<union> (if 0 \<le> fsa_fd s1 then set unmount_names else {})"
proof -
  let ?s = "sys_do (ios_fatInitDefault (e_ios env)) s"
  obtain fd w where fd: "ios_FSA_Open (e_ios env) (world ?s) = (fd, w)" by fastforce
  let ?t = "?s\<lparr>world := w, fsa_fd := fd\<rparr>"
  let ?u = "if 0 \<le> fd then foldl (\<lambda>s (n, dev, path). sys_do (ios_mount_fs (e_ios env) n fd dev path) s) ?t storages else ?t"
  have w: "mnt w = mnt (world s)"
    using keeps_mountsD(3) [OF k fd] keeps_mountsD(1) [OF k] by (simp add: sys_do_def)
  have run: "mount_filesystems env s = Inr (?u\<lparr>fs_mounted := True\<rparr>)"
    using i fd by (simp add: mount_filesystems_def sysc_def)
  have f: "fsa_fd ?u = fd" "iosuhaxMount ?u" using i(1) by (simp_all add: mount_fold_fields)
  have m: "mnt (world ?u) = mnt (world s) \<union> (if 0 \<le> fd then set unmount_names else {})"
    using mount_all [OF k, of fd ?t storages] w by (simp add: unmount_names_storages)
  show ?thesis by (rule that [OF run]) (use f m in simp_all)
qed

lemma storage_unmount:
  assumes k: "keeps_mounts (e_ios env) mnt" and i: "iosuhaxMount s" "fs_mounted s"
  obtains s1 where "unmount_filesystems env s = Inr s1" and "\<not> fs_mounted s1" and "fsa_fd s1 < 0"
    and "mnt (world s1) = mnt (world s) - (if 0 \<le> fsa_fd s then set unmount_names else {})" and "iosuhaxMount s1"
proof -
  let ?s = "sys_do (ios_fatUnmount (e_ios env) ''usb'') (sys_do (ios_fatUnmount (e_ios env) ''sd'') s)"
  let ?t = "foldl (\<lambda>s n. sys_do (ios_unmount_fs (e_ios env) n) s) ?s unmount_names"
  let ?u = "if 0 \<le> fsa_fd ?s then (sys_do (ios_FSA_Close (e_ios env) (fsa_fd ?t)) ?t)\<lparr>fsa_fd := -1\<rparr> else ?s"
  have w: "mnt (world ?s) = mnt (world s)" using keeps_mountsD(2) [OF k] by (simp add: sys_do_def)
  have run: "unmount_filesystems env s = Inr (?u\<lparr>fs_mounted := False\<rparr>)"
    using i by (simp add: unmount_filesystems_def Let_def)
  have "fsa_fd ?s = fsa_fd s" by (simp add: sys_do_def)
  moreover have "mnt (world ?u) = mnt (world s) - (if 0 \<le> fsa_fd s then set unmount_names else {})"
    using unmount_all [OF k, of ?s unmount_names] w keeps_mountsD(4) [OF k] by (simp add: sys_do_def)
  ultimately show ?thesis using i(1) by (intro that [OF run]) (simp_all add: unmount_fold_iosuhaxMount)
qed

section \<open>Taking over the system process\<close>

text \<open>The libraries, for a count of open connections to the service and a set of open handles.\<close>

definition counts_opens :: "'w iosu \<Rightarrow> ('w \<Rightarrow> int) \<Rightarrow> ('w \<Rightarrow> int set) \<Rightarrow> bool" where
  "counts_opens ios conns handles \<longleftrightarrow>
     (\<forall>d w r w'. ios_IOSUHAX_Open ios d w = (r, w') \<longrightarrow> conns w' = conns w + (if r < 0 then 0 else 1) \<and> handles w' = handles w) \<and>
     (\<forall>w. conns (ios_IOSUHAX_Close ios w) = conns w - 1 \<and> handles (ios_IOSUHAX_Close ios w) = handles w) \<and>
     (\<forall>p w r w'. ios_Open ios p w = (r, w') \<longrightarrow> conns w' = conns w \<and>
        (if r < 0 then handles w' = handles w else r \<notin> handles w \<and> handles w' = insert r (handles w))) \<and>
     (\<forall>fd w. conns (ios_Close ios fd w) = conns w \<and> handles (ios_Close ios fd w) = handles w - {fd}) \<and>
     (\<forall>fd n w. conns (ios_IoctlAsync ios fd n w) = conns w \<and> handles (ios_IoctlAsync ios fd n w) = handles w) \<and>
     (\<forall>n w. conns (ios_usleep ios n w) = conns w \<and> handles (ios_usleep ios n w) = handles w)"

lemma hook_open:
  assumes c: "counts_opens (e_ios env) conns handles" and run: "MCPHookOpen env s = (r, s')" and "mcp_hook_fd s = -1"
  shows "(r < 0 \<longrightarrow> conns (world s') = conns (world s) \<and> handles (world s') = handles (world s) \<and> mcp_hook_fd s' < 0) \<and>
    (\<not> r < 0 \<longrightarrow> conns (world s') = conns (world s) + 1 \<and> 0 \<le> mcp_hook_fd s' \<and>
       mcp_hook_fd s' \<notin> handles (world s) \<and> handles (world s') = insert (mcp_hook_fd s') (handles (world s))) \<and>
    fs_mounted s' = fs_mounted s \<and> fsa_fd s' = fsa_fd s"
proof -
  obtain fd w where fd: "ios_Open (e_ios env) ''/dev/mcp'' (world s) = (fd, w)" by fastforce
  let ?w = "ios_usleep (e_ios env) 1000 (ios_IoctlAsync (e_ios env) fd 0x62 w)"
  obtain q v where q: "ios_IOSUHAX_Open (e_ios env) (Some ''/dev/mcp'') ?w = (q, v)" by fastforce
  have "conns w = conns (world s)" "if fd < 0 then handles w = handles (world s) else
      fd \<notin> handles (world s) \<and> handles w = insert fd (handles (world s))"
    using c fd unfolding counts_opens_def by (auto split: if_splits)
  moreover have "conns ?w = conns w" "handles ?w = handles w" using c unfolding counts_opens_def by auto
  moreover have "conns v = conns ?w + (if q < 0 then 0 else 1)" "handles v = handles ?w"
    using c q unfolding counts_opens_def by auto
  moreover have "conns (ios_Close (e_ios env) fd v) = conns v" "handles (ios_Close (e_ios env) fd v) = handles v - {fd}"
    using c unfolding counts_opens_def by auto
  ultimately show ?thesis
    using run fd q by (auto simp: MCPHookOpen_def sysc_def sys_do_def Let_def split: if_splits)
qed

lemma init_iosuhax:
  assumes c: "counts_opens (e_ios env) conns handles" and run: "try_init_iosuhax env s = (ok, s')" and "mcp_hook_fd s = -1"
  shows "conns (world s') = conns (world s) + (if ok then 1 else 0) \<and> fs_mounted s' = fs_mounted s \<and> fsa_fd s' = fsa_fd s \<and>
    (if 0 \<le> mcp_hook_fd s' then ok \<and> mcp_hook_fd s' \<notin> handles (world s) \<and>
       handles (world s') = insert (mcp_hook_fd s') (handles (world s))
     else handles (world s') = handles (world s))"
proof -
  obtain q w where q: "ios_IOSUHAX_Open (e_ios env) None (world s) = (q, w)" by fastforce
  have w: "conns w = conns (world s) + (if q < 0 then 0 else 1)" "handles w = handles (world s)"
    using c q unfolding counts_opens_def by auto
  show ?thesis
  proof (cases "q < 0")
    case True
    obtain r t where h: "MCPHookOpen env (s\<lparr>world := w\<rparr>) = (r, t)" by fastforce
    have "mcp_hook_fd (s\<lparr>world := w\<rparr>) = -1" using assms(3) by simp
    note o1 = hook_open [OF c h this]
    have "ok \<longleftrightarrow> \<not> r < 0" "s' = t" using run q True h by (auto simp: try_init_iosuhax_def sysc_def)
    with o1 w True show ?thesis by (cases "r < 0") auto
  next
    case False
    then have "ok" "s' = s\<lparr>world := w\<rparr>" using run q by (auto simp: try_init_iosuhax_def sysc_def)
    with w False assms(3) show ?thesis by simp
  qed
qed

lemma shutdown_iosuhax:
  assumes c: "counts_opens (e_ios env) conns handles" and "iosuhaxMount s"
  shows "conns (world (try_shutdown_iosuhax env s)) = conns (world s) - 1 \<and>
    handles (world (try_shutdown_iosuhax env s)) = handles (world s) - (if 0 \<le> mcp_hook_fd s then {mcp_hook_fd s} else {}) \<and>
    \<not> iosuhaxMount (try_shutdown_iosuhax env s) \<and> mcp_hook_fd (try_shutdown_iosuhax env s) < 0"
proof -
  have "conns (ios_IOSUHAX_Close (e_ios env) w) = conns w - 1" "handles (ios_IOSUHAX_Close (e_ios env) w) = handles w"
      "conns (ios_Close (e_ios env) fd w) = conns w" "handles (ios_Close (e_ios env) fd w) = handles w - {fd}"
      "conns (ios_usleep (e_ios env) n w) = conns w" "handles (ios_usleep (e_ios env) n w) = handles w" for w fd n
    using c unfolding counts_opens_def by auto
  then show ?thesis using assms(2) by (simp add: try_shutdown_iosuhax_def MCPHookClose_def Let_def)
qed

section \<open>The end of the loop\<close>

lemma say_run:
  fixes s :: "'w machine"
  assumes "rows_ok ((con s)\<lparr>world := world s, allocs := allocs s\<rparr>)"
    and "two_fresh ((con s)\<lparr>world := world s, allocs := allocs s\<rparr>)"
  shows "\<exists>a. say env msg s = Inr (s\<lparr>con := a, world := world a, allocs := allocs a\<rparr>) \<and> rows_ok a"
proof -
  from printf_run [OF assms, of "e_scr env" msg] obtain a where
    "console_printf (e_scr env) msg ((con s)\<lparr>world := world s, allocs := allocs s\<rparr>) = Inr a" "rows_ok a" by blast
  then show ?thesis by (auto simp: say_def with_console_def)
qed

lemma main_turn_exits:
  assumes h: "ftp_network_handler (e_os env) sock ((srv s)\<lparr>world := world s, allocs := allocs s\<rparr>) = Some (Inr (0, a))"
    and pad: "ios_VPADRead (e_ios env) (world a) = ((hold, 0), w)"
    and home: "hold AND VPAD_BUTTON_HOME \<noteq> 0" "buttons s AND VPAD_BUTTON_HOME = 0"
    and screen: "rows_ok (con s)" "two_fresh ((con s)\<lparr>allocs := allocs a\<rparr>)"
  shows "\<exists>s'. main_turn env sock s = Some (Inr (True, s')) \<and> srv s' = a \<and> buttons s' = hold \<and>
    fs_mounted s' = fs_mounted s \<and> fat s' = fat s"
proof -
  let ?s = "s\<lparr>srv := a, world := world a, allocs := allocs a\<rparr>"
  let ?t = "?s\<lparr>world := w, buttons := hold\<rparr>"
  have i: "input_handler env ?s = (VPAD_CMD_EXIT, ?t)"
    using pad home by (simp add: input_handler_def sysc_def get_command_def)
  have "rows_ok ((con ?t)\<lparr>world := world ?t, allocs := allocs ?t\<rparr>)" "two_fresh ((con ?t)\<lparr>world := world ?t, allocs := allocs ?t\<rparr>)"
    using screen by (simp_all add: rows_ok_def two_fresh_def)
  from say_run [OF this, of env "''Executing shutdown command''"] obtain c where
    c: "say env ''Executing shutdown command'' ?t = Inr (?t\<lparr>con := c, world := world c, allocs := allocs c\<rparr>)" by blast
  have "main_turn env sock s = Some (Inr (True, ?t\<lparr>con := c, world := world c, allocs := allocs c\<rparr>))"
    using h i c by (simp add: main_turn_def with_server_def)
  then show ?thesis by simp
qed


section \<open>Turns of the main loop\<close>

text \<open>The state after some turns, none of which ends the loop.\<close>

fun after_turns :: "'w env \<Rightarrow> int \<Rightarrow> nat \<Rightarrow> 'w machine \<Rightarrow> 'w machine option" where
  "after_turns env sock 0 s = Some s"
| "after_turns env sock (Suc n) s =
     (case main_turn env sock s of
        Some (Inr (down, s)) \<Rightarrow> if down then None else after_turns env sock n s
      | _ \<Rightarrow> None)"

lemma main_loop_after:
  "after_turns env sock n s = Some t \<Longrightarrow> main_loop env sock s = main_loop env sock t"
proof (induction n arbitrary: s)
  case (Suc n)
  then show ?case
    by (subst main_loop.simps) (auto split: option.splits sum.splits if_splits)
qed simp

text \<open>The commands of successive readings of the pad, and the readings themselves.\<close>

fun pad_commands :: "'w env \<Rightarrow> nat \<Rightarrow> 'w machine \<Rightarrow> int list" where
  "pad_commands env 0 s = []"
| "pad_commands env (Suc n) s = (let (cmd, s) = input_handler env s in cmd # pad_commands env n s)"

fun pad_readings :: "'w env \<Rightarrow> nat \<Rightarrow> 'w \<Rightarrow> (u32 \<times> int) list" where
  "pad_readings env 0 w = []"
| "pad_readings env (Suc n) w = (let (r, w) = ios_VPADRead (e_ios env) w in r # pad_readings env n w)"

definition last_held :: "u32 \<Rightarrow> (u32 \<times> int) list \<Rightarrow> u32" where
  "last_held old rs = last (old # map fst (filter (\<lambda>r. snd r = 0) rs))"

definition pressed :: "u32 \<Rightarrow> u32 \<Rightarrow> u32 \<Rightarrow> bool" where
  "pressed b old held \<longleftrightarrow> old AND b = 0 \<and> held AND b \<noteq> 0"

lemma last_held_Cons: "last_held old ((h, e) # rs) = last_held (if e = 0 then h else old) rs"
  by (simp add: last_held_def)

section \<open>Properties\<close>

text \<open>C24: the main loop ends when the home button goes down: whatever number of turns has passed, if in the next
  one the network handler returns and the pad reports the button that was up before, the loop returns; that
  turn has served the network first, and the server, the mounts and the device table are as it left them.\<close>

theorem home_ends_the_loop:
  assumes "after_turns env sock n s = Some t"
    and "ftp_network_handler (e_os env) sock ((srv t)\<lparr>world := world t, allocs := allocs t\<rparr>) = Some (Inr (0, a))"
    and "ios_VPADRead (e_ios env) (world a) = ((hold, 0), w)"
    and "hold AND VPAD_BUTTON_HOME \<noteq> 0" and "buttons t AND VPAD_BUTTON_HOME = 0"
    and "rows_ok (con t)" and "two_fresh ((con t)\<lparr>allocs := allocs a\<rparr>)"
  shows "\<exists>s'. main_loop env sock s = Some (Inr s') \<and> srv s' = a \<and> buttons s' = hold \<and>
    fs_mounted s' = fs_mounted t \<and> fat s' = fat t"
proof -
  from main_turn_exits [OF assms(2-7)] obtain s' where
    s': "main_turn env sock t = Some (Inr (True, s'))" "srv s' = a \<and> buttons s' = hold \<and>
      fs_mounted s' = fs_mounted t \<and> fat s' = fat t" by blast
  then have "main_loop env sock t = Some (Inr s')" by (simp add: main_loop.simps)
  with main_loop_after [OF assms(1)] s'(2) show ?thesis by simp
qed

text \<open>The pad's commands are the moments a button goes down: the command of a reading is the shutdown when the
  home button is held that was not held in the last reading without an error, else the remount when the Y
  button is, and none when the reading reports an error.\<close>

theorem commands_are_button_presses:
  "pad_commands env n s = map (\<lambda>i. let (held, e) = pad_readings env n (world s) ! i;
       old = last_held (buttons s) (take i (pad_readings env n (world s))) in
     if e \<noteq> 0 then 0 else if pressed VPAD_BUTTON_HOME old held then VPAD_CMD_EXIT
     else if pressed VPAD_BUTTON_Y old held then VPAD_CMD_REMOUNT else 0) [0..<n]"
proof (induction n arbitrary: s)
  case (Suc n)
  obtain held e w where r: "ios_VPADRead (e_ios env) (world s) = ((held, e), w)" by (metis prod.exhaust)
  have upt: "[0..<Suc n] = 0 # map Suc [0..<n]" by (simp add: upt_conv_Cons map_Suc_upt del: upt_Suc)
  show ?case
    unfolding upt using r Suc.IH [of "s\<lparr>world := w, buttons := held\<rparr>"] Suc.IH [of "s\<lparr>world := w\<rparr>"]
    by (auto simp: input_handler_def get_command_def sysc_def pressed_def last_held_Cons Let_def last_held_def [of _ "[]"]
        split: prod.split)
qed simp

text \<open>Mounting and unmounting the internal storage are inverse: with the service, a mount from the unmounted
  state mounts the eight storages when the file system service opens and nothing otherwise; mounting again changes nothing;
  unmounting restores the set of mounted storages, closes the service, and a remount gives the same set
  whenever the service opens both times.\<close>

theorem mount_unmount_storages:
  assumes k: "keeps_mounts (e_ios env) mnt" and "iosuhaxMount s" and "\<not> fs_mounted s"
    and "mnt (world s) \<inter> set unmount_names = {}"
  shows "\<exists>s1 s2. mount_filesystems env s = Inr s1 \<and> mount_filesystems env s1 = Inr s1 \<and>
    mnt (world s1) = mnt (world s) \<union> (if 0 \<le> fsa_fd s1 then set unmount_names else {}) \<and>
    unmount_filesystems env s1 = Inr s2 \<and> mnt (world s2) = mnt (world s) \<and> fsa_fd s2 < 0 \<and> \<not> fs_mounted s2 \<and>
    (\<exists>s3. remount_filesystems env s1 = Inr s3 \<and>
      (0 \<le> fsa_fd s1 \<and> 0 \<le> fsa_fd s3 \<longrightarrow> mnt (world s3) = mnt (world s1)))"
proof -
  from storage_mount [OF k assms(2,3)] obtain s1 where s1: "mount_filesystems env s = Inr s1" "fs_mounted s1"
      "iosuhaxMount s1" "mnt (world s1) = mnt (world s) \<union> (if 0 \<le> fsa_fd s1 then set unmount_names else {})" .
  from storage_unmount [OF k s1(3,2)] obtain s2 where s2: "unmount_filesystems env s1 = Inr s2" "\<not> fs_mounted s2"
      "fsa_fd s2 < 0" "mnt (world s2) = mnt (world s1) - (if 0 \<le> fsa_fd s1 then set unmount_names else {})"
      "iosuhaxMount s2" .
  have m2: "mnt (world s2) = mnt (world s)" using s1(4) s2(4) assms(4) by auto
  from storage_mount [OF k s2(5,2)] obtain s3 where s3: "mount_filesystems env s2 = Inr s3"
      "mnt (world s3) = mnt (world s2) \<union> (if 0 \<le> fsa_fd s3 then set unmount_names else {})" by metis
  have "mount_filesystems env s1 = Inr s1" using s1(2) by (simp add: mount_filesystems_def)
  moreover have "remount_filesystems env s1 = Inr s3" using s2(1) s3(1) by (simp add: remount_filesystems_def)
  ultimately show ?thesis using s1 s2 m2 s3 by auto
qed

text \<open>The take-over of the system process is undone: after a start in which no handle was held, whatever runs in between,
  as long as it leaves the connections and handles as the start made them, the shutdown brings both back to what they were before
  the start; the hook is closed and the service counts as down.\<close>

theorem iosuhax_is_released:
  assumes c: "counts_opens (e_ios env) conns handles" and "mcp_hook_fd s = -1"
    and run: "try_init_iosuhax env s = (ok, t)"
    and u: "iosuhaxMount u = ok" "mcp_hook_fd u = mcp_hook_fd t"
      "conns (world u) = conns (world t)" "handles (world u) = handles (world t)"
  shows "conns (world (try_shutdown_iosuhax env u)) = conns (world s) \<and>
    handles (world (try_shutdown_iosuhax env u)) = handles (world s) \<and>
    \<not> iosuhaxMount (try_shutdown_iosuhax env u) \<and> mcp_hook_fd (try_shutdown_iosuhax env u) < 0"
proof (cases ok)
  case True
  with init_iosuhax [OF c run assms(2)] shutdown_iosuhax [OF c, of u] u show ?thesis by (auto split: if_splits)
next
  case False
  with init_iosuhax [OF c run assms(2)] u show ?thesis by (auto simp: try_shutdown_iosuhax_def split: if_splits)
qed


section \<open>Witnesses\<close>

text \<open>A service that counts its connections, its handles and its mounts.\<close>

record bench =
  b_host :: host
  b_conns :: int
  b_handles :: "int set"
  b_mounts :: "string set"

definition bench_ios :: "bench iosu" where
  "bench_ios = \<lparr>ios_fatInitDefault = (\<lambda>w. w), ios_fatUnmount = (\<lambda>n w. w), ios_FSA_Open = (\<lambda>w. (4, w)),
     ios_FSA_Close = (\<lambda>fd w. w),
     ios_mount_fs = (\<lambda>n fd dev p w. w\<lparr>b_mounts := insert n (b_mounts w)\<rparr>),
     ios_unmount_fs = (\<lambda>n w. w\<lparr>b_mounts := b_mounts w - {n}\<rparr>),
     ios_IOSUHAX_Open = (\<lambda>d w. if d = None then (-1, w) else (0, w\<lparr>b_conns := b_conns w + 1\<rparr>)),
     ios_IOSUHAX_Close = (\<lambda>w. w\<lparr>b_conns := b_conns w - 1\<rparr>),
     ios_Open = (\<lambda>p w. if 7 \<in> b_handles w then (-1, w) else (7, w\<lparr>b_handles := insert 7 (b_handles w)\<rparr>)),
     ios_IoctlAsync = (\<lambda>fd n w. w), ios_Close = (\<lambda>fd w. w\<lparr>b_handles := b_handles w - {fd}\<rparr>),
     ios_usleep = (\<lambda>n w. w), ios_VPADInit = (\<lambda>w. w), ios_VPADRead = (\<lambda>w. ((2, 0), w)),
     ios_ACInitialize = (\<lambda>w. w), ios_ACConnect = (\<lambda>w. w),
       ios_socket_lib_init = (\<lambda>w. w)\<rparr>"

definition bench_env :: "bench env" where
  "bench_env = \<lparr>e_os = undefined, e_fs = undefined, e_scr = undefined, e_udp = undefined, e_ios = bench_ios\<rparr>"

definition bench0 :: bench where
  "bench0 = \<lparr>b_host = host0, b_conns = 0, b_handles = {}, b_mounts = {}\<rparr>"

definition machine0 :: "'w \<Rightarrow> 'w server \<Rightarrow> 'w fatfs \<Rightarrow> 'w logging \<Rightarrow> bool \<Rightarrow> 'w machine" where
  "machine0 w sv ft cn hax = \<lparr>world = w, allocs = allocs0, srv = sv, fat = ft, con = cn, buttons = 0, fs_mounted = False,
     fsa_fd = -1, iosuhaxMount = hax, mcp_hook_fd = -1\<rparr>"

lemma bench_keeps_mounts: "keeps_mounts (e_ios bench_env) b_mounts"
  by (auto simp: keeps_mounts_def bench_env_def bench_ios_def)

lemma bench_counts_opens: "counts_opens (e_ios bench_env) b_conns b_handles"
  by (auto simp: counts_opens_def bench_env_def bench_ios_def)

theorem mount_unmount_storages_witness:
  "\<exists>s1 s2. mount_filesystems bench_env (machine0 bench0 undefined undefined undefined True) = Inr s1 \<and>
     unmount_filesystems bench_env s1 = Inr s2 \<and> b_mounts (world s2) = {}"
  using mount_unmount_storages [OF bench_keeps_mounts, of "machine0 bench0 undefined undefined undefined True"]
  by (auto simp: machine0_def bench0_def)

theorem iosuhax_is_released_witness:
  "let t = snd (try_init_iosuhax bench_env (machine0 bench0 undefined undefined undefined False));
       u = try_shutdown_iosuhax bench_env (t\<lparr>iosuhaxMount := True\<rparr>) in
   mcp_hook_fd t = 7 \<and> b_conns (world t) = 1 \<and> b_conns (world u) = 0 \<and> b_handles (world u) = {} \<and> mcp_hook_fd u < 0"
proof -
  let ?s = "machine0 bench0 undefined undefined undefined False"
  let ?t = "snd (try_init_iosuhax bench_env ?s)"
  have r: "try_init_iosuhax bench_env ?s = (True, ?t)" and t: "mcp_hook_fd ?t = 7" "b_conns (world ?t) = 1"
    by (simp_all add: try_init_iosuhax_def MCPHookOpen_def sysc_def sys_do_def machine0_def bench_env_def bench_ios_def bench0_def)
  from iosuhax_is_released [OF bench_counts_opens _ r, of "?t\<lparr>iosuhaxMount := True\<rparr>"] t show ?thesis
    by (simp add: machine0_def bench0_def)
qed

text \<open>A pad on which the home button is down.\<close>

definition home_env :: "host env" where
  "home_env = \<lparr>e_os = host_os, e_fs = undefined,
     e_scr = \<lparr>scr_init = (\<lambda>w. w), scr_buffer_size = (\<lambda>n w. (0, w)), scr_set_buffer = (\<lambda>n b w. w),
       scr_enable = (\<lambda>n b w. w), scr_flip = (\<lambda>n w. w), scr_clear = (\<lambda>n c w. w), scr_put_font = (\<lambda>n x y t w. w)\<rparr>,
     e_udp = undefined,
     e_ios = \<lparr>ios_fatInitDefault = (\<lambda>w. w), ios_fatUnmount = (\<lambda>n w. w), ios_FSA_Open = (\<lambda>w. (-1, w)),
       ios_FSA_Close = (\<lambda>fd w. w), ios_mount_fs = (\<lambda>n fd dev p w. w), ios_unmount_fs = (\<lambda>n w. w),
       ios_IOSUHAX_Open = (\<lambda>d w. (-1, w)), ios_IOSUHAX_Close = (\<lambda>w. w), ios_Open = (\<lambda>p w. (-1, w)),
       ios_IoctlAsync = (\<lambda>fd n w. w), ios_Close = (\<lambda>fd w. w), ios_usleep = (\<lambda>n w. w), ios_VPADInit = (\<lambda>w. w),
       ios_VPADRead = (\<lambda>w. ((VPAD_BUTTON_HOME, 0), w)), ios_ACInitialize = (\<lambda>w. w), ios_ACConnect = (\<lambda>w. w),
       ios_socket_lib_init = (\<lambda>w. w)\<rparr>\<rparr>"

definition home_console :: "host logging" where
  "home_console = console_init \<lparr>world = host0, allocs = allocs0, texts = Map.empty, tvConsole = [], padConsole = [],
     initialized = False, udp_fd = -1, log_lock = 0, broadcast = (0, 0), stdout_net = False, stderr_net = False\<rparr>"

theorem home_ends_the_loop_witness:
  "\<exists>s'. main_loop home_env 3 (machine0 host0 (boot0 host0) undefined home_console False) = Some (Inr s') \<and>
     buttons s' = VPAD_BUTTON_HOME"
proof -
  let ?s = "machine0 host0 (boot0 host0) undefined home_console False"
  from boot_poll obtain a where a: "ftp_network_handler host_os 3 (boot0 host0) = Some (Inr (0, a))" "allocs a 0 = 64"
      "allocs a 1 = 128" by blast
  have "(srv ?s)\<lparr>world := world ?s, allocs := allocs ?s\<rparr> = boot0 host0" by (simp add: machine0_def boot0_def)
  with a(1) have h: "ftp_network_handler (e_os home_env) 3 ((srv ?s)\<lparr>world := world ?s, allocs := allocs ?s\<rparr>) =
      Some (Inr (0, a))" by (simp add: home_env_def)
  have "after_turns home_env 3 0 ?s = Some ?s" by simp
  from home_ends_the_loop [OF this h, of VPAD_BUTTON_HOME "world a"] a(2,3) show ?thesis
    by (auto simp: home_env_def machine0_def VPAD_BUTTON_HOME_def home_console_def two_fresh_def rows_ok_def console_init_def)
qed

end
