(* ===== verification/Runtime.thy ===== *)
theory Runtime
  imports Platform
begin

text \<open>
  The runtime the program brings along: the C library's allocator on the heaps of the system
  (\<open>system/memory.c\<close>), and the clock and the other calls the C library of the tool chain lacks
  (\<open>system/missing_libc_functions.c\<close>, with the conversions of \<open>include/wiiu/os/time.h\<close>).
\<close>

section \<open>The heaps of the system\<close>

text \<open>
  A heap is known by its handle, 0 for none. An allocation gives the address and what the block holds;
  the length of that is the usable size of the block.
\<close>

record 'w heaps =
  hp_base :: "int \<Rightarrow> 'w \<Rightarrow> u32"                        \<comment> \<open>the handle of a base heap\<close>
  hp_frm_room :: "u32 \<Rightarrow> int \<Rightarrow> 'w \<Rightarrow> u32"
  hp_frm_alloc :: "u32 \<Rightarrow> u32 \<Rightarrow> int \<Rightarrow> 'w \<Rightarrow> u32 \<times> 'w"
  hp_frm_free :: "u32 \<Rightarrow> int \<Rightarrow> 'w \<Rightarrow> 'w"
  hp_create :: "u32 \<Rightarrow> u32 \<Rightarrow> u32 \<Rightarrow> 'w \<Rightarrow> u32 \<times> 'w"
  hp_destroy :: "u32 \<Rightarrow> 'w \<Rightarrow> 'w"
  hp_alloc :: "u32 \<Rightarrow> u32 \<Rightarrow> u32 \<Rightarrow> 'w \<Rightarrow> (u32 \<times> char list) \<times> 'w"   \<comment> \<open>heap, sz, alignment\<close>
  hp_free :: "u32 \<Rightarrow> u32 \<Rightarrow> 'w \<Rightarrow> 'w"

record 'w runtime = "'w sys" +
  mem1_heap :: u32
  bucket_heap :: u32
  blocks :: "u32 \<Rightarrow> (u32 \<times> char list) option"            \<comment> \<open>the heap of a block and its bytes\<close>
  rt_errno :: int

definition MEM_BASE_HEAP_MEM1 :: int where "MEM_BASE_HEAP_MEM1 = 0"
definition MEM_BASE_HEAP_MEM2 :: int where "MEM_BASE_HEAP_MEM2 = 1"
definition MEM_BASE_HEAP_FG :: int where "MEM_BASE_HEAP_FG = 8"
definition MEM_FRAME_HEAP_FREE_ALL :: int where "MEM_FRAME_HEAP_FREE_ALL = 3"

text \<open>The two calls on the heap that change which blocks there are.\<close>

definition exp_alloc ::
  "'w heaps \<Rightarrow> u32 \<Rightarrow> u32 \<Rightarrow> u32 \<Rightarrow> ('w, 'z) runtime_scheme \<Rightarrow> u32 \<times> ('w, 'z) runtime_scheme" where
  "exp_alloc hp h sz align s =
     (let ((p, bytes), s) = sysc (hp_alloc hp h sz align) s in
      (p, if p = 0 then s else s\<lparr>blocks := (blocks s)(p \<mapsto> (h, bytes))\<rparr>))"

definition exp_free ::
  "'w heaps \<Rightarrow> u32 \<Rightarrow> u32 \<Rightarrow> ('w, 'z) runtime_scheme \<Rightarrow> fault + ('w, 'z) runtime_scheme" where
  "exp_free hp h p s =
     (case blocks s p of
        Some (h', _) \<Rightarrow>
          if h' = h then Inr ((sys_do (hp_free hp h p) s)\<lparr>blocks := (blocks s)(p := None)\<rparr>) else Inl Use_after_free
      | None \<Rightarrow> Inl Use_after_free)"

section \<open>The allocator\<close>

definition memoryInitialize :: "'w heaps \<Rightarrow> ('w, 'z) runtime_scheme \<Rightarrow> ('w, 'z) runtime_scheme" where
  "memoryInitialize hp s =
     (let mem1_handle = hp_base hp MEM_BASE_HEAP_MEM1 (world s);
          mem1_size = hp_frm_room hp mem1_handle 4 (world s);
          (mem1_memory, s) = sysc (hp_frm_alloc hp mem1_handle mem1_size 4) s;
          s = (if mem1_memory \<noteq> 0 then
                 let (h, s) = sysc (hp_create hp mem1_memory mem1_size 0) s in s\<lparr>mem1_heap := h\<rparr>
               else s);
          bucket_handle = hp_base hp MEM_BASE_HEAP_FG (world s);
          bucket_size = hp_frm_room hp bucket_handle 4 (world s);
          (bucket_memory, s) = sysc (hp_frm_alloc hp bucket_handle bucket_size 4) s in
      if bucket_memory \<noteq> 0 then
        let (h, s) = sysc (hp_create hp bucket_memory bucket_size 0) s in s\<lparr>bucket_heap := h\<rparr>
      else s)"

definition memoryRelease :: "'w heaps \<Rightarrow> ('w, 'z) runtime_scheme \<Rightarrow> ('w, 'z) runtime_scheme" where
  "memoryRelease hp s =
     (let s = sys_do (hp_destroy hp (mem1_heap s)) s;
          s = sys_do (hp_frm_free hp (hp_base hp MEM_BASE_HEAP_MEM1 (world s)) MEM_FRAME_HEAP_FREE_ALL) s;
          s = s\<lparr>mem1_heap := 0\<rparr>;
          s = sys_do (hp_destroy hp (bucket_heap s)) s;
          s = sys_do (hp_frm_free hp (hp_base hp MEM_BASE_HEAP_FG (world s)) MEM_FRAME_HEAP_FREE_ALL) s in
      s\<lparr>bucket_heap := 0\<rparr>)"

definition memalign_r ::
  "'w heaps \<Rightarrow> u32 \<Rightarrow> u32 \<Rightarrow> ('w, 'z) runtime_scheme \<Rightarrow> u32 \<times> ('w, 'z) runtime_scheme" where
  "memalign_r hp alignment sz s = exp_alloc hp (hp_base hp MEM_BASE_HEAP_MEM2 (world s)) sz alignment s"

definition malloc_r :: "'w heaps \<Rightarrow> u32 \<Rightarrow> ('w, 'z) runtime_scheme \<Rightarrow> u32 \<times> ('w, 'z) runtime_scheme" where
  "malloc_r hp sz s = memalign_r hp 4 sz s"

definition free_r :: "'w heaps \<Rightarrow> u32 \<Rightarrow> ('w, 'z) runtime_scheme \<Rightarrow> fault + ('w, 'z) runtime_scheme" where
  "free_r hp ptr s = (if ptr \<noteq> 0 then exp_free hp (hp_base hp MEM_BASE_HEAP_MEM2 (world s)) ptr s else Inr s)"

definition malloc_usable_size_r :: "u32 \<Rightarrow> ('w, 'z) runtime_scheme \<Rightarrow> fault + u32" where
  "malloc_usable_size_r ptr s =
     (case blocks s ptr of None \<Rightarrow> Inl Use_after_free | Some (_, bytes) \<Rightarrow> Inr (of_nat (length bytes)))"

text \<open>\<open>memcpy\<close> and \<open>memset\<close> at the start of a block.\<close>

definition copy_block :: "u32 \<Rightarrow> u32 \<Rightarrow> u32 \<Rightarrow> ('w, 'z) runtime_scheme \<Rightarrow> fault + ('w, 'z) runtime_scheme" where
  "copy_block dst src n s =
     (case (blocks s dst, blocks s src) of
        (Some (h, to), Some (_, from)) \<Rightarrow>
          bindF (slice_at from 0 (uint n)) (\<lambda>bytes.
          bindF (write_at to 0 bytes) (\<lambda>to. Inr (s\<lparr>blocks := (blocks s)(dst \<mapsto> (h, to))\<rparr>)))
      | _ \<Rightarrow> Inl Use_after_free)"

definition clear_block :: "u32 \<Rightarrow> u32 \<Rightarrow> ('w, 'z) runtime_scheme \<Rightarrow> fault + ('w, 'z) runtime_scheme" where
  "clear_block p n s =
     (case blocks s p of
        Some (h, to) \<Rightarrow> bindF (fill_at to 0 (uint n) NUL) (\<lambda>to. Inr (s\<lparr>blocks := (blocks s)(p \<mapsto> (h, to))\<rparr>))
      | None \<Rightarrow> Inl Use_after_free)"

definition realloc_r ::
  "'w heaps \<Rightarrow> u32 \<Rightarrow> u32 \<Rightarrow> ('w, 'z) runtime_scheme \<Rightarrow> fault + u32 \<times> ('w, 'z) runtime_scheme" where
  "realloc_r hp ptr sz s =
     (if ptr = 0 then Inr (malloc_r hp sz s)
      else
        bindF (malloc_usable_size_r ptr s) (\<lambda>old.
        if old \<ge> sz then Inr (ptr, s)
        else
          let (realloc_ptr, s) = malloc_r hp sz s in
          if realloc_ptr = 0 then Inr (0, s)
          else
            bindF (malloc_usable_size_r ptr s) (\<lambda>n.
            bindF (copy_block realloc_ptr ptr n s) (\<lambda>s.
            bindF (free_r hp ptr s) (\<lambda>s. Inr (realloc_ptr, s))))))"

definition calloc_r ::
  "'w heaps \<Rightarrow> u32 \<Rightarrow> u32 \<Rightarrow> ('w, 'z) runtime_scheme \<Rightarrow> fault + u32 \<times> ('w, 'z) runtime_scheme" where
  "calloc_r hp num sz s =
     (let (ptr, s) = malloc_r hp (num * sz) s in
      if ptr \<noteq> 0 then bindF (clear_block ptr (num * sz) s) (\<lambda>s. Inr (ptr, s)) else Inr (ptr, s))"

definition valloc_r :: "'w heaps \<Rightarrow> u32 \<Rightarrow> ('w, 'z) runtime_scheme \<Rightarrow> u32 \<times> ('w, 'z) runtime_scheme" where
  "valloc_r hp sz s = memalign_r hp 64 sz s"

text \<open>The wrappers of the three heaps.\<close>

definition MEM2_alloc :: "'w heaps \<Rightarrow> u32 \<Rightarrow> u32 \<Rightarrow> ('w, 'z) runtime_scheme \<Rightarrow> u32 \<times> ('w, 'z) runtime_scheme" where
  "MEM2_alloc hp sz align s = exp_alloc hp (hp_base hp MEM_BASE_HEAP_MEM2 (world s)) sz align s"

definition MEM2_free :: "'w heaps \<Rightarrow> u32 \<Rightarrow> ('w, 'z) runtime_scheme \<Rightarrow> fault + ('w, 'z) runtime_scheme" where
  "MEM2_free hp ptr s = (if ptr \<noteq> 0 then exp_free hp (hp_base hp MEM_BASE_HEAP_MEM2 (world s)) ptr s else Inr s)"

definition MEM1_alloc :: "'w heaps \<Rightarrow> u32 \<Rightarrow> u32 \<Rightarrow> ('w, 'z) runtime_scheme \<Rightarrow> u32 \<times> ('w, 'z) runtime_scheme" where
  "MEM1_alloc hp sz align s =
     (let align = (if align < 4 then 4 else align) in exp_alloc hp (mem1_heap s) sz align s)"

definition MEM1_free :: "'w heaps \<Rightarrow> u32 \<Rightarrow> ('w, 'z) runtime_scheme \<Rightarrow> fault + ('w, 'z) runtime_scheme" where
  "MEM1_free hp ptr s = (if ptr \<noteq> 0 then exp_free hp (mem1_heap s) ptr s else Inr s)"

definition MEMBucket_alloc :: "'w heaps \<Rightarrow> u32 \<Rightarrow> u32 \<Rightarrow> ('w, 'z) runtime_scheme \<Rightarrow> u32 \<times> ('w, 'z) runtime_scheme" where
  "MEMBucket_alloc hp sz align s =
     (let align = (if align < 4 then 4 else align) in exp_alloc hp (bucket_heap s) sz align s)"

definition MEMBucket_free :: "'w heaps \<Rightarrow> u32 \<Rightarrow> ('w, 'z) runtime_scheme \<Rightarrow> fault + ('w, 'z) runtime_scheme" where
  "MEMBucket_free hp ptr s = (if ptr \<noteq> 0 then exp_free hp (bucket_heap s) ptr s else Inr s)"

section \<open>Atomic swaps\<close>

text \<open>
  Each writes the value and returns what was there before, in one step (\<open>system/atomic.c\<close>); the pointer is
  an index into an array of cells of its size.
\<close>

definition swap_cell :: "'a list \<Rightarrow> int \<Rightarrow> 'a \<Rightarrow> fault + 'a \<times> 'a list" where
  "swap_cell cells i v = bindF (read_at cells i) (\<lambda>old. bindF (write_at cells i [v]) (\<lambda>cells. Inr (old, cells)))"

definition SwapAtomic8 :: "u8 list \<Rightarrow> int \<Rightarrow> u8 \<Rightarrow> fault + u8 \<times> u8 list" where "SwapAtomic8 = swap_cell"
definition SwapAtomic16 :: "u16 list \<Rightarrow> int \<Rightarrow> u16 \<Rightarrow> fault + u16 \<times> u16 list" where "SwapAtomic16 = swap_cell"
definition SwapAtomic32 :: "u32 list \<Rightarrow> int \<Rightarrow> u32 \<Rightarrow> fault + u32 \<times> u32 list" where "SwapAtomic32 = swap_cell"

text \<open>A swap changes one cell only, and a second swap with the old value undoes it.\<close>

lemma swap_cell_update:
  assumes "i < length cells"
  shows "swap_cell cells (int i) v = Inr (cells ! i, cells[i := v])"
  using assms by (simp add: swap_cell_def write_at_Inr upd_conv_take_nth_drop)

lemma swap_cell_undo:
  "i < length cells \<Longrightarrow> bindF (swap_cell cells (int i) v) (\<lambda>(old, cells). swap_cell cells (int i) old) = Inr (v, cells)"
  by (simp add: swap_cell_update)

section \<open>The clock\<close>

type_synonym u64 = "64 word"

definition us_to_ticks :: "u64 \<Rightarrow> u64" where
  "us_to_ticks us = ((17 * 13 * 3*3) * us) div (2*2* 2*2*2)"

definition ticks_to_sec :: "u64 \<Rightarrow> u64" where
  "ticks_to_sec ticks = ticks div (17 * 13 * 5*5*5 * 5*5*5 * 3*3 * 2)"

definition ticks_to_us :: "u64 \<Rightarrow> u64" where
  "ticks_to_us ticks = (ticks * (2*2 * 2*2*2)) div (17 * 13 * 3*3)"

record 'w clock =
  clk_sleep :: "u64 \<Rightarrow> 'w \<Rightarrow> 'w"
  clk_time :: "'w \<Rightarrow> u64 \<times> 'w"

definition EFAULT :: int where "EFAULT = 14"
definition EINVAL_C :: int where "EINVAL_C = 22"
definition CLOCK_REALTIME :: int where "CLOCK_REALTIME = 1"

definition c_usleep :: "'w clock \<Rightarrow> u32 \<Rightarrow> ('w, 'z) sys_scheme \<Rightarrow> int \<times> ('w, 'z) sys_scheme" where
  "c_usleep clk microseconds s = (0, sys_do (clk_sleep clk (us_to_ticks (ucast microseconds))) s)"

text \<open>The result, and the seconds and microseconds; \<open>present\<close>: the caller gave a place for them.\<close>

definition gettimeofday_r ::
  "'w clock \<Rightarrow> bool \<Rightarrow> ('w, 'z) runtime_scheme \<Rightarrow> (int \<times> (u32 \<times> u32) option) \<times> ('w, 'z) runtime_scheme" where
  "gettimeofday_r clk present s =
     (if \<not> present then ((-1, None), s\<lparr>rt_errno := EFAULT\<rparr>)
      else
        let (cosTime, s) = sysc (clk_time clk) s;
            cosSecs = ticks_to_sec cosTime;
            cosUSecs = (ucast (ticks_to_us cosTime - cosSecs * 1000000) :: u32);
            unixSecs = (ucast (cosSecs + 946684800) :: u32) in
        ((0, Some (unixSecs, cosUSecs)), s))"

text \<open>The seconds and nanoseconds.\<close>

definition clock_gettime ::
  "'w clock \<Rightarrow> int \<Rightarrow> bool \<Rightarrow> ('w, 'z) runtime_scheme \<Rightarrow>
   fault + (int \<times> (u32 \<times> int) option) \<times> ('w, 'z) runtime_scheme" where
  "clock_gettime clk clk_id present s =
     (if \<not> present then Inr ((-1, None), s\<lparr>rt_errno := EFAULT\<rparr>)
      else if clk_id = CLOCK_REALTIME then
        let ((ret, tv), s) = gettimeofday_r clk True s in
        case tv of
          None \<Rightarrow> Inr ((-1, None), s)
        | Some (sec, usec) \<Rightarrow>
            if ret \<noteq> 0 then Inr ((-1, None), s)
            else bindF (c_int (sint usec * 1000)) (\<lambda>nsec. Inr ((0, Some (sec, nsec)), s))
      else Inr ((-1, None), s\<lparr>rt_errno := EINVAL_C\<rparr>))"

section \<open>Users and files\<close>

record passwd =
  pw_name :: string
  pw_passwd :: string
  pw_uid :: u32
  pw_gid :: u32
  pw_gecos :: string
  pw_dir :: string
  pw_shell :: string

definition getuid :: u32 where "getuid = 1000"

definition getpwuid :: "u32 \<Rightarrow> passwd" where
  "getpwuid uid = \<lparr>pw_name = ''retroarch'', pw_passwd = ''Wait, what?'', pw_uid = uid, pw_gid = 1000,
     pw_gecos = ''retroarch'', pw_dir = ''sd:/'', pw_shell = ''/vol/system_slc/fw.img''\<rparr>"

text \<open>Every path counts as accessible; the code behind the first return is never reached.\<close>

definition access :: "string \<Rightarrow> int \<Rightarrow> int" where
  "access path mode = 0"

section \<open>Lemmas\<close>

text \<open>
  What the heap promises: a block is as large as asked for (and no larger than an address), is not in
  use, and its memory is not changed by other calls.
\<close>

definition gives_room :: "'w heaps \<Rightarrow> ('w, 'z) runtime_scheme \<Rightarrow> bool" where
  "gives_room hp s \<longleftrightarrow> (\<forall>h sz align p bytes w.
     hp_alloc hp h sz align (world s) = ((p, bytes), w) \<and> p \<noteq> 0 \<longrightarrow>
       unat sz \<le> length bytes \<and> length bytes < 2 ^ 32 \<and> blocks s p = None)"

lemma malloc_r_run:
  assumes "gives_room hp s" and "malloc_r hp sz s = (p, s')" and "p \<noteq> 0"
  shows "\<exists>w bytes. s' = s\<lparr>world := w, blocks := (blocks s)(p \<mapsto> (hp_base hp MEM_BASE_HEAP_MEM2 (world s), bytes))\<rparr> \<and>
    unat sz \<le> length bytes \<and> length bytes < 2 ^ 32 \<and> blocks s p = None"
proof -
  obtain q bytes w where r: "hp_alloc hp (hp_base hp MEM_BASE_HEAP_MEM2 (world s)) sz 4 (world s) = ((q, bytes), w)"
    by (metis prod.exhaust)
  then have "q = p" "s' = s\<lparr>world := w, blocks := (blocks s)(p \<mapsto> (hp_base hp MEM_BASE_HEAP_MEM2 (world s), bytes))\<rparr>"
    using assms(2,3) by (auto simp: malloc_r_def memalign_r_def exp_alloc_def sysc_def split: if_splits)
  with assms(1,3) r show ?thesis unfolding gives_room_def by blast
qed

lemma usable_size: "blocks s p = Some (h, old) \<Longrightarrow> malloc_usable_size_r p s = Inr (of_nat (length old))"
  by (simp add: malloc_usable_size_r_def)

text \<open>The base heap a pointer of \<open>malloc\<close> is freed to is the one it came from, whatever the world does meanwhile.\<close>

definition steady_base :: "'w heaps \<Rightarrow> bool" where
  "steady_base hp \<longleftrightarrow> (\<forall>w w'. hp_base hp MEM_BASE_HEAP_MEM2 w = hp_base hp MEM_BASE_HEAP_MEM2 w')"

lemma steady_baseD: "steady_base hp \<Longrightarrow> hp_base hp MEM_BASE_HEAP_MEM2 w = hp_base hp MEM_BASE_HEAP_MEM2 w'"
  unfolding steady_base_def by blast

lemma tick_units: "uint (17 * 13 * 5*5*5 * 5*5*5 * 3*3 * 2 :: u64) = 62156250" "uint (2*2 * 2*2*2 :: u64) = 32"
  "uint (17 * 13 * 3*3 :: u64) = 1989"
  by simp_all

lemma us_part: "(t * 32) div 1989 - (t div 62156250) * 1000000 = (t mod 62156250) * 1000000 div 62156250" for t :: int
proof -
  have "(t * 32) div 1989 = (t * 32 * 31250) div (1989 * 31250)" by (subst div_mult_mult2) simp_all
  also have "\<dots> = (t * 1000000) div 62156250" by simp
  also have "\<dots> = ((t div 62156250) * 62156250 * 1000000 + (t mod 62156250) * 1000000) div 62156250"
    by (subst (1) div_mult_mod_eq [of t 62156250, symmetric]) (simp only: distrib_right)
  also have "\<dots> = (t div 62156250) * 1000000 + (t mod 62156250) * 1000000 div 62156250"
    by (simp add: mult.commute mult.left_commute)
  finally show ?thesis by simp
qed

lemma us_part_bound:
  fixes t :: int
  shows "0 \<le> (t mod 62156250) * 1000000 div 62156250" and "(t mod 62156250) * 1000000 div 62156250 < 1000000"
proof -
  have "0 \<le> t mod 62156250" "t mod 62156250 < 62156250" by simp_all
  then show "0 \<le> (t mod 62156250) * 1000000 div 62156250" "(t mod 62156250) * 1000000 div 62156250 < 1000000" by arith+
qed

lemma ticks_uint:
  fixes t :: u64
  shows "uint (ticks_to_sec t) = uint t div 62156250"
    and "uint t < 2 ^ 59 \<Longrightarrow> uint (ticks_to_us t) = uint t * 32 div 1989"
proof -
  show "uint (ticks_to_sec t) = uint t div 62156250" by (simp add: ticks_to_sec_def uint_div_distrib)
  assume "uint t < 2 ^ 59"
  then have "uint (t * 32) = uint t * 32" by (simp add: uint_word_ariths)
  then show "uint (ticks_to_us t) = uint t * 32 div 1989" by (simp add: ticks_to_us_def uint_div_distrib)
qed

lemma uint_diff: "uint (a - b) = (uint a - uint b) mod 2 ^ 64" for a b :: u64
  by (simp add: uint_word_ariths)

lemma usec_of_ticks:
  fixes t :: u64
  assumes "uint t < 2 ^ 59"
  shows "uint (ucast (ticks_to_us t - ticks_to_sec t * 1000000) :: u32) = (uint t mod 62156250) * 1000000 div 62156250"
proof -
  let ?u = "(uint t mod 62156250) * 1000000 div 62156250"
  have "uint t div 62156250 < 2 ^ 34" using assms by simp
  moreover have "0 \<le> uint t div 62156250" by (simp add: pos_imp_zdiv_nonneg_iff)
  ultimately have m: "uint (ticks_to_sec t * 1000000) = uint t div 62156250 * 1000000"
    by (simp add: uint_word_ariths ticks_uint mod_pos_pos_trivial)
  have "uint (ticks_to_us t - ticks_to_sec t * 1000000) = ?u mod 2 ^ 64"
    unfolding uint_diff m ticks_uint(2) [OF assms] us_part ..
  then have "uint (ticks_to_us t - ticks_to_sec t * 1000000) = ?u" using us_part_bound [of "uint t"] by simp
  then show ?thesis using us_part_bound [of "uint t"] by (simp add: unsigned_ucast_eq take_bit_eq_mod)
qed

section \<open>Properties\<close>

text \<open>\<open>realloc\<close> keeps what a block holds: on a block of the program's heap it gives an address or null; null
  leaves every block as it was, and at the address there is a block of at least the size asked for that
  starts with everything the old block held; the old one is released if the address is another one, and
  no other block changes.\<close>

theorem realloc_keeps_content:
  assumes "gives_room hp s" and "steady_base hp" and "p \<noteq> 0"
    and "blocks s p = Some (hp_base hp MEM_BASE_HEAP_MEM2 (world s), old)" and "length old < 2 ^ 32"
  shows "\<exists>q s'. realloc_r hp p sz s = Inr (q, s') \<and>
    (if q = 0 then blocks s' = blocks s
     else \<exists>new. blocks s' = ((blocks s)(p := None))(q \<mapsto> (hp_base hp MEM_BASE_HEAP_MEM2 (world s), new)) \<and>
       unat sz \<le> length new \<and> take (length old) new = old)"
proof (cases "sz \<le> of_nat (length old)")
  case True
  have "unat (of_nat (length old) :: u32) = length old" using assms(5) by (simp add: unat_of_nat)
  with True have "unat sz \<le> length old" by (simp add: word_le_nat_alt)
  then show ?thesis
    using True assms(3,4) by (intro exI [of _ p] exI [of _ s]) (auto simp: realloc_r_def usable_size fun_upd_idem_iff intro!: exI [of _ old])
next
  case False
  let ?h = "hp_base hp MEM_BASE_HEAP_MEM2 (world s)"
  obtain q s1 where m: "malloc_r hp sz s = (q, s1)" by fastforce
  show ?thesis
  proof (cases "q = 0")
    case True
    then have "blocks s1 = blocks s"
      using m by (auto simp: malloc_r_def memalign_r_def exp_alloc_def sysc_def split: prod.splits)
    then show ?thesis using True False m assms(3,4) by (simp add: realloc_r_def usable_size)
  next
    case q: False
    from malloc_r_run [OF assms(1) m q] obtain w bytes where
      s1: "s1 = s\<lparr>world := w, blocks := (blocks s)(q \<mapsto> (?h, bytes))\<rparr>" "unat sz \<le> length bytes" "blocks s q = None" by blast
    have pq: "p \<noteq> q" using s1(3) assms(4) by auto
    have len: "uint (of_nat (length old) :: u32) = int (length old)"
      using assms(5) by (simp add: uint_nat unat_of_nat)
    have "length old < unat sz" using False assms(5) by (simp add: word_le_nat_alt unat_of_nat)
    then have lb: "length old \<le> length bytes" using s1(2) by simp
    have b: "hp_base hp MEM_BASE_HEAP_MEM2 w = ?h" using assms(2) by (rule steady_baseD)
    have c: "copy_block q p (of_nat (length old)) s1 =
        Inr (s1\<lparr>blocks := (blocks s)(q \<mapsto> (?h, old @ drop (length old) bytes))\<rparr>)"
      using assms(4) pq lb s1(1) by (simp add: copy_block_def len slice_at_def write_at_def)
    have "malloc_usable_size_r p s1 = Inr (of_nat (length old))" using assms(4) pq s1(1) by (simp add: malloc_usable_size_r_def)
    with c m q False s1 b pq assms(3,4) lb show ?thesis
      by (auto simp: realloc_r_def usable_size free_r_def exp_free_def sys_do_def fun_upd_twist)
  qed
qed

text \<open>\<open>calloc\<close> clears: a block it gives is all zero over the product of the two sizes in 32 bits. When the
  product does not fit, the block may be smaller than the elements asked for, and no error is reported.\<close>

theorem calloc_clears:
  assumes "gives_room hp s"
  shows "\<exists>q s'. calloc_r hp num sz s = Inr (q, s') \<and>
    (q = 0 \<or> (\<exists>h new. blocks s' = (blocks s)(q \<mapsto> (h, new)) \<and>
       (let n = unat num * unat sz mod 2 ^ 32 in n \<le> length new \<and> take n new = replicate n NUL)))"
proof -
  obtain q s1 where m: "malloc_r hp (num * sz) s = (q, s1)" by fastforce
  show ?thesis
  proof (cases "q = 0")
    case False
    let ?h = "hp_base hp MEM_BASE_HEAP_MEM2 (world s)" and ?n = "unat num * unat sz mod 2 ^ 32"
    from malloc_r_run [OF assms m False] obtain w bytes where
      s1: "s1 = s\<lparr>world := w, blocks := (blocks s)(q \<mapsto> (?h, bytes))\<rparr>" "unat (num * sz) \<le> length bytes" by blast
    have n: "unat (num * sz) = ?n" by (simp add: unat_word_ariths)
    then have u: "uint (num * sz) = int ?n" by (metis uint_nat)
    have "clear_block q (num * sz) s1 = Inr (s1\<lparr>blocks := (blocks s)(q \<mapsto> (?h, replicate ?n NUL @ drop ?n bytes))\<rparr>)"
      using s1 n unfolding clear_block_def u by (simp add: fill_at_Inr)
    then show ?thesis
      using m False s1 n by (auto simp: calloc_r_def Let_def intro!: exI [of _ ?h] exI [of _ "replicate ?n NUL @ drop ?n bytes"])
  qed (use m in \<open>simp add: calloc_r_def\<close>)
qed

text \<open>The clock of the C library: for a clock that fits 59 bits (about 294 years), the microseconds are the
  part of the tick count below a second, always less than a million, the seconds are the whole seconds
  since 2000 moved to 1970, negative from 2038 on, and the nanoseconds of \<open>clock_gettime\<close> are those
  microseconds times 1000, without an overflow.\<close>

theorem clock_follows_ticks:
  assumes "clk_time clk (world s) = (t, w)" and "uint t < 2 ^ 59"
  shows "\<exists>sec usec s'. gettimeofday_r clk True s = ((0, Some (sec, usec)), s') \<and>
    uint usec = (uint t mod 62156250) * 1000000 div 62156250 \<and> uint usec < 1000000 \<and>
    (uint t div 62156250 < 2 ^ 31 - 946684800 \<longleftrightarrow> sint sec = uint t div 62156250 + 946684800) \<and>
    clock_gettime clk CLOCK_REALTIME True s = Inr ((0, Some (sec, uint usec * 1000)), s')"
proof -
  let ?sec = "ucast (ticks_to_sec t + 946684800) :: u32"
  let ?us = "ucast (ticks_to_us t - ticks_to_sec t * 1000000) :: u32"
  note us = usec_of_ticks [OF assms(2)]
  have b: "uint ?us < 1000000" using us us_part_bound(2) [of "uint t"] by simp
  have g: "gettimeofday_r clk True s = ((0, Some (?sec, ?us)), s\<lparr>world := w\<rparr>)"
    using assms(1) by (simp add: gettimeofday_r_def sysc_def Let_def)
  have si: "sint ?us = uint ?us"
    using b by (intro sint_small) simp
  have d: "uint t div 62156250 < 2 ^ 34" "0 \<le> uint t div 62156250" using assms(2) by (simp_all add: pos_imp_zdiv_nonneg_iff)
  then have s64: "uint (ticks_to_sec t + 946684800) = uint t div 62156250 + 946684800"
    by (simp add: uint_word_ariths ticks_uint mod_pos_pos_trivial)
  have "?sec = word_of_int (uint t div 62156250 + 946684800)"
    by (metis s64 ucast_eq)
  then have sec: "sint ?sec = signed_take_bit 31 (uint t div 62156250 + 946684800)"
    by (simp only: sint_sbintrunc') simp
  have secs: "uint t div 62156250 < 2 ^ 31 - 946684800 \<longleftrightarrow> sint ?sec = uint t div 62156250 + 946684800"
    unfolding sec using d(2) by (auto simp: signed_take_bit_int_eq_self_iff)
  have "in_int (uint ?us * 1000)" using b by (intro in_int_small) (use uint_ge_0 [of ?us] in linarith)+
  then have "clock_gettime clk CLOCK_REALTIME True s = Inr ((0, Some (?sec, uint ?us * 1000)), s\<lparr>world := w\<rparr>)"
    by (simp add: clock_gettime_def g si)
  with g us b secs show ?thesis by blast
qed

section \<open>Witnesses\<close>

text \<open>A heap that gives blocks of 64 bytes at addresses going up.\<close>

definition small_heap :: "nat heaps" where
  "small_heap = \<lparr>hp_base = (\<lambda>n w. 7), hp_frm_room = (\<lambda>h a w. 0), hp_frm_alloc = (\<lambda>h n a w. (0, w)),
     hp_frm_free = (\<lambda>h n w. w), hp_create = (\<lambda>p n f w. (0, w)), hp_destroy = (\<lambda>h w. w),
     hp_alloc = (\<lambda>h n a w. ((if unat n \<le> 64 then 4096 else 0, replicate 64 CR), Suc w)), hp_free = (\<lambda>h p w. w)\<rparr>"

definition runtime0 :: "nat runtime" where
  "runtime0 = \<lparr>world = 0, allocs = allocs0, mem1_heap = 0, bucket_heap = 0,
     blocks = [64 \<mapsto> (7, ''hello'')], rt_errno = 0\<rparr>"

lemma small_heap_laws: "gives_room small_heap runtime0" "steady_base small_heap"
  by (auto simp: gives_room_def steady_base_def small_heap_def runtime0_def split: if_splits)

theorem realloc_keeps_content_witness:
  "\<exists>q s'. realloc_r small_heap 64 20 runtime0 = Inr (q, s') \<and>
     (q \<noteq> 0 \<longrightarrow> (\<exists>new. blocks s' q = Some (7, new) \<and> take 5 new = ''hello'' \<and> 20 \<le> length new))"
proof -
  have "blocks runtime0 64 = Some (hp_base small_heap MEM_BASE_HEAP_MEM2 (world runtime0), ''hello'')"
    by (simp add: runtime0_def small_heap_def)
  from realloc_keeps_content [OF small_heap_laws _ this, of 20] obtain q s' where
    "realloc_r small_heap 64 20 runtime0 = Inr (q, s')"
    "if q = 0 then blocks s' = blocks runtime0 else \<exists>new. blocks s' =
       ((blocks runtime0)(64 := None))(q \<mapsto> (hp_base small_heap MEM_BASE_HEAP_MEM2 (world runtime0), new)) \<and>
       unat (20 :: u32) \<le> length new \<and> take (length ''hello'') new = ''hello''" by auto
  moreover have "length ''hello'' = 5" by simp
  ultimately show ?thesis by (auto simp: small_heap_def simp del: list.size split: if_splits)
qed

theorem calloc_clears_witness:
  "\<exists>q s'. calloc_r small_heap 3 4 runtime0 = Inr (q, s') \<and>
     (q = 0 \<or> (\<exists>h new. blocks s' q = Some (h, new) \<and> take 12 new = replicate 12 NUL))"
  using calloc_clears [OF small_heap_laws(1), of 3 4] by (fastforce simp: Let_def)

definition tick_clock :: "u64 \<Rightarrow> nat clock" where
  "tick_clock t = \<lparr>clk_sleep = (\<lambda>n w. w), clk_time = (\<lambda>w. (t, w))\<rparr>"

theorem clock_follows_ticks_witness:
  "\<exists>sec usec s'. gettimeofday_r (tick_clock 93234375) True runtime0 = ((0, Some (sec, usec)), s') \<and>
     sint sec = 946684801 \<and> uint usec = 500000"
  using clock_follows_ticks [of "tick_clock 93234375" runtime0 93234375 0] by (auto simp: tick_clock_def runtime0_def)

end
