(* ===== verification/Dynload.thy ===== *)
theory Dynload
  imports Platform
begin

text \<open>
  The imports of the program when it is started as an ELF file (\<open>system/dynamic.c\<close> with the table of
  \<open>system/imports.h\<close> and the stubs of \<open>system/stubs_elf.S\<close>): every imported function has a word that
  holds its address, and the start-up code fills the words by asking the loader for each library and
  each function. The table is the one of a build without \<open>WIIU_HID\<close>, which no makefile defines.
\<close>

section \<open>The table\<close>

definition imports_coreinit :: "string list" where
  "imports_coreinit = [''OSScreenInit'', ''OSScreenGetBufferSizeEx'', ''OSScreenSetBufferEx'', ''OSScreenEnableEx'',
     ''OSScreenFlipBuffersEx'', ''OSScreenClearBufferEx'', ''OSScreenPutFontEx'', ''OSFatal'',
     ''OSDynLoad_Acquire'', ''OSDynLoad_FindExport'', ''OSDynLoad_Release'', ''OSSetExceptionCallback'',
     ''OSSavesDone_ReadyToRelease'', ''OSInitMutex'', ''OSLockMutex'', ''OSUnlockMutex'',
     ''OSInitCond'', ''OSWaitCond'', ''OSSignalCond'', ''OSInitSpinLock'',
     ''OSUninterruptibleSpinLock_Acquire'', ''OSUninterruptibleSpinLock_Release'', ''OSFastMutex_Init'',
     ''OSFastMutex_Lock'', ''OSFastMutex_Unlock'', ''OSSleepTicks'', ''OSGetTitleID'',
     ''OSIsThreadTerminated'', ''OSSetThreadPriority'', ''OSCreateThread'',
     ''OSSetThreadCleanupCallback'', ''OSResumeThread'', ''OSIsThreadSuspended'', ''OSSuspendThread'',
     ''OSGetCurrentThread'', ''OSExitThread'', ''OSJoinThread'', ''OSYieldThread'', ''OSGetCoreId'',
     ''OSIsMainCore'', ''OSGetSystemTime'', ''OSGetSystemTick'', ''OSGetTime'', ''OSGetSymbolName'',
     ''OSGetSharedData'', ''OSEffectiveToPhysical'', ''OSInitSemaphore'', ''OSInitSemaphoreEx'',
     ''OSGetSemaphoreCount'', ''OSSignalSemaphore'', ''OSWaitSemaphore'', ''OSTryWaitSemaphore'',
     ''exit'', ''_Exit'', ''__os_snprintf'', ''DisassemblePPCRange'', ''DCInvalidateRange'',
     ''DCFlushRange'', ''DCStoreRange'', ''DCStoreRangeNoSync'', ''__gh_errno_ptr'',
     ''MEMGetBaseHeapHandle'', ''MEMCreateExpHeapEx'', ''MEMDestroyExpHeap'', ''MEMAllocFromExpHeapEx'',
     ''MEMFreeToExpHeap'', ''MEMGetSizeForMBlockExpHeap'', ''MEMAllocFromFrmHeapEx'',
     ''MEMFreeToFrmHeap'', ''MEMGetAllocatableSizeForFrmHeapEx'', ''FSInit'', ''FSShutdown'',
     ''FSAddClient'', ''FSAddClientEx'', ''FSDelClient'', ''FSInitCmdBlock'', ''FSChangeDir'',
     ''FSGetFreeSpaceSize'', ''FSGetStat'', ''FSRemove'', ''FSOpenFile'', ''FSCloseFile'',
     ''FSOpenDir'', ''FSMakeDir'', ''FSReadDir'', ''FSRewindDir'', ''FSCloseDir'', ''FSGetStatFile'',
     ''FSReadFile'', ''FSWriteFile'', ''FSSetPosFile'', ''FSFlushFile'', ''FSTruncateFile'',
     ''FSRename'', ''FSGetMountSource'', ''FSMount'', ''FSUnmount'', ''IOS_Open'', ''IOS_Close'',
     ''IOS_Ioctl'', ''IOS_IoctlAsync'', ''IMIsAPDEnabled'', ''IMIsDimEnabled'', ''IMEnableAPD'',
     ''IMEnableDim'', ''IMDisableAPD'', ''IMDisableDim'']"

definition imports_nsysnet :: "string list" where
  "imports_nsysnet = [''socket_lib_init'', ''getaddrinfo'', ''freeaddrinfo'', ''getnameinfo'', ''inet_ntoa'',
     ''inet_ntop'', ''inet_aton'', ''inet_pton'', ''ntohl'', ''ntohs'', ''htonl'', ''htons'',
     ''accept'', ''bind'', ''socketclose'', ''connect'', ''getpeername'', ''getsockname'',
     ''getsockopt'', ''listen'', ''recv'', ''recvfrom'', ''send'', ''sendto'', ''setsockopt'',
     ''shutdown'', ''socket'', ''select'', ''socketlasterr'']"

definition imports_gx2 :: "string list" where
  "imports_gx2 = [''GX2Invalidate'', ''GX2Init'', ''GX2GetSystemTVScanMode'', ''GX2CalcTVSize'', ''GX2SetTVBuffer'',
     ''GX2CalcDRCSize'', ''GX2SetDRCBuffer'', ''GX2CalcSurfaceSizeAndAlignment'',
     ''GX2InitColorBufferRegs'', ''GX2SetupContextStateEx'', ''GX2SetContextState'',
     ''GX2SetColorBuffer'', ''GX2SetViewport'', ''GX2SetScissor'', ''GX2SetDepthOnlyControl'',
     ''GX2SetColorControl'', ''GX2SetBlendControl'', ''GX2SetBlendConstantColor'',
     ''GX2SetCullOnlyControl'', ''GX2CalcFetchShaderSizeEx'', ''GX2InitFetchShaderEx'',
     ''GX2SetFetchShader'', ''GX2SetVertexShader'', ''GX2SetPixelShader'', ''GX2SetGeometryShader'',
     ''GX2SetGeometryUniformBlock'', ''GX2SetVertexUniformBlock'', ''GX2SetPixelUniformBlock'',
     ''GX2CalcGeometryShaderInputRingBufferSize'', ''GX2CalcGeometryShaderOutputRingBufferSize'',
     ''GX2SetGeometryShaderInputRingBuffer'', ''GX2SetGeometryShaderOutputRingBuffer'',
     ''GX2SetShaderModeEx'', ''GX2SetAttribBuffer'', ''GX2InitTextureRegs'', ''GX2InitSampler'',
     ''GX2SetPixelTexture'', ''GX2SetPixelSampler'', ''GX2ClearColor'',
     ''GX2CopyColorBufferToScanBuffer'', ''GX2SwapScanBuffers'', ''GX2Flush'', ''GX2WaitForVsync'',
     ''GX2SetTVEnable'', ''GX2SetDRCEnable'', ''GX2SetSwapInterval'', ''GX2DrawDone'', ''GX2Shutdown'',
     ''GX2DrawEx'', ''GX2WaitForFlip'', ''GX2GetSwapStatus'']"

definition imports_nn_ac :: "string list" where
  "imports_nn_ac = [''ACInitialize'', ''ACFinalize'', ''ACConnect'', ''ACClose'', ''ACGetAssignedAddress'',
     ''ACGetAssignedSubnet'']"

definition imports_proc_ui :: "string list" where
  "imports_proc_ui = [''ProcUIInit'', ''ProcUIShutdown'']"

definition imports_sndcore2 :: "string list" where
  "imports_sndcore2 = [''AXInitWithParams'', ''AXQuit'', ''AXRegisterFrameCallback'', ''AXAcquireMultiVoice'',
     ''AXSetMultiVoiceDeviceMix'', ''AXSetMultiVoiceOffsets'', ''AXSetMultiVoiceCurrentOffset'',
     ''AXSetMultiVoiceState'', ''AXSetMultiVoiceVe'', ''AXSetMultiVoiceSrcType'',
     ''AXSetMultiVoiceSrcRatio'', ''AXIsMultiVoiceRunning'', ''AXFreeMultiVoice'']"

definition imports_sysapp :: "string list" where
  "imports_sysapp = [''SYSRelaunchTitle'', ''SYSLaunchMenu'']"

definition imports_vpad :: "string list" where
  "imports_vpad = [''VPADRead'', ''VPADInit'', ''VPADGetTPCalibratedPoint'']"

definition imports_padscore :: "string list" where
  "imports_padscore = [''KPADInit'', ''WPADProbe'', ''KPADSetConnectCallback'', ''WPADSetDataFormat'', ''WPADEnableURCC'',
     ''WPADEnableWiiRemote'', ''WPADRead'', ''KPADRead'', ''KPADReadEx'', ''KPADShutdown'']"

definition imports_nsyskbd :: "string list" where
  "imports_nsyskbd = [''KBDSetup'', ''KBDTeardown'']"

definition import_table :: "(string \<times> string list) list" where
  "import_table = [(''coreinit'', imports_coreinit),
     (''nsysnet'', imports_nsysnet),
     (''gx2'', imports_gx2),
     (''nn_ac'', imports_nn_ac),
     (''proc_ui'', imports_proc_ui),
     (''sndcore2'', imports_sndcore2),
     (''sysapp'', imports_sysapp),
     (''vpad'', imports_vpad),
     (''padscore'', imports_padscore),
     (''nsyskbd'', imports_nsyskbd)]"

section \<open>The loader and the address words\<close>

text \<open>
  \<open>OSDynLoad_Acquire\<close> gives the handle of a library, \<open>OSDynLoad_FindExport\<close> the address of a function;
  \<open>None\<close> is a negative result, which leaves the variable passed for the answer as it is. The two
  words the system keeps at fixed addresses are where the loader's own functions are.
\<close>

record 'w dynload =
  dl_acquire :: "string \<Rightarrow> 'w \<Rightarrow> u32 option \<times> 'w"
  dl_find :: "u32 \<Rightarrow> string \<Rightarrow> 'w \<Rightarrow> u32 option \<times> 'w"
  dl_fixed :: "u32 \<Rightarrow> u32"                              \<comment> \<open>what is at a fixed address\<close>

record 'w linking = "'w sys" +
  addr :: "string \<Rightarrow> u32"                               \<comment> \<open>the words \<open>addr_\<dots>\<close>, zero at first\<close>
  handle :: "u32 option"                               \<comment> \<open>the local variable, \<open>None\<close> before it is written\<close>

text \<open>A call of an imported function: the stub jumps to what its word holds.\<close>

definition call_stub :: "string \<Rightarrow> ('w, 'z) linking_scheme \<Rightarrow> fault + ('w, 'z) linking_scheme" where
  "call_stub f s = (if addr s f = 0 then Inl Null_pointer else Inr s)"

text \<open>\<open>OSFatal\<close> shows a message and halts; it is itself an import.\<close>

definition OSFatal :: "('w, 'z) linking_scheme \<Rightarrow> fault + 'a" where
  "OSFatal s = bindF (call_stub ''OSFatal'' s) (\<lambda>_. Inl Never_returns)"

text \<open>The two macros of the second inclusion of the table.\<close>

definition import_begin :: "'w dynload \<Rightarrow> string \<Rightarrow> ('w, 'z) linking_scheme \<Rightarrow> fault + ('w, 'z) linking_scheme" where
  "import_begin dl lib s =
     bindF (call_stub ''OSDynLoad_Acquire'' s) (\<lambda>s.
     let (h, s) = sysc (dl_acquire dl lib) s in
     Inr (case h of None \<Rightarrow> s | Some h \<Rightarrow> s\<lparr>handle := Some h\<rparr>))"

definition import_name :: "'w dynload \<Rightarrow> string \<Rightarrow> ('w, 'z) linking_scheme \<Rightarrow> fault + ('w, 'z) linking_scheme" where
  "import_name dl name s =
     bindF (call_stub ''OSDynLoad_FindExport'' s) (\<lambda>s.
     case handle s of
       None \<Rightarrow> Inl Uninitialised
     | Some h \<Rightarrow>
         let (p, s) = sysc (dl_find dl h name) s in
         (case p of None \<Rightarrow> OSFatal s | Some p \<Rightarrow> Inr (s\<lparr>addr := (addr s)(name := p)\<rparr>)))"

fun import_all :: "'w dynload \<Rightarrow> string list \<Rightarrow> ('w, 'z) linking_scheme \<Rightarrow> fault + ('w, 'z) linking_scheme" where
  "import_all dl [] s = Inr s"
| "import_all dl (n # ns) s = bindF (import_name dl n s) (import_all dl ns)"

fun import_libs ::
  "'w dynload \<Rightarrow> (string \<times> string list) list \<Rightarrow> ('w, 'z) linking_scheme \<Rightarrow> fault + ('w, 'z) linking_scheme" where
  "import_libs dl [] s = Inr s"
| "import_libs dl ((lib, names) # libs) s =
     bindF (import_begin dl lib s) (\<lambda>s. bindF (import_all dl names s) (import_libs dl libs))"

definition InitFunctionPointers :: "'w dynload \<Rightarrow> ('w, 'z) linking_scheme \<Rightarrow> fault + ('w, 'z) linking_scheme" where
  "InitFunctionPointers dl s =
     import_libs dl import_table (s\<lparr>handle := None, addr := (addr s)(
       ''OSDynLoad_Acquire'' := dl_fixed dl 0x00801500, ''OSDynLoad_FindExport'' := dl_fixed dl 0x00801504)\<rparr>)"

section \<open>What the words hold afterwards\<close>

text \<open>\<open>p\<close> is an answer the loader gave for a function, asked of the library the table names.\<close>

definition answers :: "'w dynload \<Rightarrow> (string \<times> string list) list \<Rightarrow> string \<Rightarrow> u32 \<Rightarrow> bool" where
  "answers dl libs n p \<longleftrightarrow> (\<exists>lib names h v v' w w'. (lib, names) \<in> set libs \<and> n \<in> set names \<and>
     dl_acquire dl lib v = (Some h, v') \<and> dl_find dl h n w = (Some p, w'))"

text \<open>A loader that has all libraries and all functions.\<close>

definition complete_loader :: "'w dynload \<Rightarrow> bool" where
  "complete_loader dl \<longleftrightarrow> (\<forall>lib w. fst (dl_acquire dl lib w) \<noteq> None) \<and>
     (\<forall>h n w. \<exists>p w'. dl_find dl h n w = (Some p, w') \<and> p \<noteq> 0) \<and>
     dl_fixed dl 0x00801500 \<noteq> 0 \<and> dl_fixed dl 0x00801504 \<noteq> 0"

definition can_import :: "('w, 'z) linking_scheme \<Rightarrow> bool" where
  "can_import s \<longleftrightarrow> addr s ''OSDynLoad_Acquire'' \<noteq> 0 \<and> addr s ''OSDynLoad_FindExport'' \<noteq> 0"

lemma import_begin_runs:
  assumes "complete_loader dl" "can_import s"
  shows "\<exists>h v v' s'. import_begin dl lib s = Inr s' \<and> dl_acquire dl lib v = (Some h, v') \<and> handle s' = Some h \<and>
    addr s' = addr s"
proof -
  obtain h w' where "dl_acquire dl lib (world s) = (Some h, w')"
    using assms(1) unfolding complete_loader_def by (metis option.exhaust prod.collapse)
  then show ?thesis using assms(2) by (auto simp: import_begin_def call_stub_def can_import_def sysc_def)
qed

lemma import_name_runs:
  assumes "complete_loader dl" "can_import s" "handle s = Some h"
  shows "\<exists>p w w' s'. import_name dl n s = Inr s' \<and> dl_find dl h n w = (Some p, w') \<and> p \<noteq> 0 \<and>
    addr s' = (addr s)(n := p) \<and> handle s' = Some h"
proof -
  obtain p w' where "dl_find dl h n (world s) = (Some p, w')" "p \<noteq> 0"
    using assms(1) unfolding complete_loader_def by blast
  then show ?thesis using assms(2,3)
    by (intro exI [of _ p]) (auto simp: import_name_def call_stub_def can_import_def sysc_def)
qed

text \<open>The words of one library: each name of it is answered, every other word is as before.\<close>

lemma import_all_runs:
  assumes "complete_loader dl" "can_import s" "handle s = Some h"
  shows "\<exists>s'. import_all dl ns s = Inr s' \<and> can_import s' \<and>
    (\<forall>n \<in> set ns. \<exists>p w w'. dl_find dl h n w = (Some p, w') \<and> addr s' n = p) \<and>
    (\<forall>n. n \<notin> set ns \<longrightarrow> addr s' n = addr s n)"
  using assms
proof (induction ns arbitrary: s)
  case (Cons n ns)
  from import_name_runs [OF Cons.prems, of n] obtain p w w' s1 where
    p: "import_name dl n s = Inr s1" "dl_find dl h n w = (Some p, w')" "p \<noteq> 0" "addr s1 = (addr s)(n := p)" "handle s1 = Some h"
    by blast
  have "can_import s1" using Cons.prems(2) p by (simp add: can_import_def)
  from Cons.IH [OF Cons.prems(1) this p(5)] obtain s' where
    s': "import_all dl ns s1 = Inr s'" "can_import s'"
    "\<forall>n \<in> set ns. \<exists>p w w'. dl_find dl h n w = (Some p, w') \<and> addr s' n = p" "\<forall>n. n \<notin> set ns \<longrightarrow> addr s' n = addr s1 n"
    by blast
  show ?case
  proof (intro exI [of _ s'] conjI)
    show "\<forall>m \<in> set (n # ns). \<exists>p w w'. dl_find dl h m w = (Some p, w') \<and> addr s' m = p"
      using s'(3,4) p(2,4) by (metis fun_upd_same set_ConsD)
    show "\<forall>m. m \<notin> set (n # ns) \<longrightarrow> addr s' m = addr s m" using s'(4) p(4) by simp
  qed (use p s' in simp_all)
qed simp

lemma import_libs_runs:
  assumes "complete_loader dl" "can_import s"
  shows "\<exists>s'. import_libs dl libs s = Inr s' \<and>
    (\<forall>n. addr s' n = addr s n \<and> (\<forall>l \<in> set libs. n \<notin> set (snd l)) \<or> answers dl libs n (addr s' n))"
  using assms
proof (induction libs arbitrary: s)
  case (Cons l libs)
  obtain lib names where l: "l = (lib, names)" by fastforce
  from import_begin_runs [OF Cons.prems, of lib] obtain h v v' s1 where
    s1: "import_begin dl lib s = Inr s1" "dl_acquire dl lib v = (Some h, v')" "handle s1 = Some h" "addr s1 = addr s" by blast
  have c1: "can_import s1" using Cons.prems(2) s1(4) by (simp add: can_import_def)
  from import_all_runs [OF Cons.prems(1) c1 s1(3), of names] obtain s2 where
    s2: "import_all dl names s1 = Inr s2" "can_import s2"
    "\<forall>n \<in> set names. \<exists>p w w'. dl_find dl h n w = (Some p, w') \<and> addr s2 n = p"
    "\<forall>n. n \<notin> set names \<longrightarrow> addr s2 n = addr s n" using s1(4) by auto
  from Cons.IH [OF Cons.prems(1) s2(2)] obtain s' where s': "import_libs dl libs s2 = Inr s'"
    "\<forall>n. addr s' n = addr s2 n \<and> (\<forall>l \<in> set libs. n \<notin> set (snd l)) \<or> answers dl libs n (addr s' n)" by blast
  have "addr s' n = addr s n \<and> (\<forall>l \<in> set (l # libs). n \<notin> set (snd l)) \<or> answers dl (l # libs) n (addr s' n)" for n
  proof (cases "answers dl libs n (addr s' n)")
    case True
    then show ?thesis unfolding answers_def by (meson list.set_intros(2))
  next
    case False
    then have n: "addr s' n = addr s2 n" "\<forall>l \<in> set libs. n \<notin> set (snd l)" using s'(2) by blast+
    show ?thesis
    proof (cases "n \<in> set names")
      case True
      then obtain p w w' where "dl_find dl h n w = (Some p, w')" "addr s' n = p" using s2(3) n(1) by auto
      then show ?thesis using True s1(2) unfolding answers_def l by (metis list.set_intros(1))
    next
      case False
      then show ?thesis using n s2(4) l by auto
    qed
  qed
  then show ?case using s1(1) s2(1) s'(1) by (simp add: l)
qed simp

text \<open>
  A library the loader does not have: the failure of \<open>OSDynLoad_Acquire\<close> is not looked at, and the
  functions are asked of the library before it.
\<close>

lemma missing_library_keeps_handle:
  "dl_acquire dl lib (world s) = (None, w) \<Longrightarrow> import_begin dl lib s = Inr s' \<Longrightarrow> handle s' = handle s"
  by (auto simp: import_begin_def call_stub_def sysc_def fault_simps split: if_splits)

text \<open>A missing function before \<open>OSFatal\<close> itself is known: the report of the error jumps to address 0.\<close>

lemma early_failure_jumps_to_null:
  assumes "addr s ''OSFatal'' = 0" "addr s ''OSDynLoad_FindExport'' \<noteq> 0" "handle s = Some h"
    "dl_find dl h n (world s) = (None, w)"
  shows "import_name dl n s = Inl Null_pointer"
  using assms by (simp add: import_name_def call_stub_def OSFatal_def sysc_def)

section \<open>Properties\<close>


text \<open>A loader that answers with an address made from the handle.\<close>

definition demo_loader :: "unit dynload" where
  "demo_loader = \<lparr>dl_acquire = (\<lambda>lib w. (Some (of_nat (length lib)), w)),
     dl_find = (\<lambda>h n w. (Some (h OR 4), w)), dl_fixed = (\<lambda>a. a OR 4)\<rparr>"

definition linking0 :: "unit linking" where
  "linking0 = \<lparr>world = (), allocs = allocs0, addr = (\<lambda>n. 0), handle = None\<rparr>"

lemma demo_address: "h OR 4 \<noteq> (0 :: u32)"
proof
  assume "h OR 4 = 0"
  then have "bit (h OR 4) 2 = bit (0 :: u32) 2" by (rule arg_cong)
  then show False by (simp add: bit_or_iff)
qed

lemma demo_complete: "complete_loader demo_loader"
  using demo_address by (simp add: complete_loader_def demo_loader_def)


end
