(* ===== verification/Boot.thy ===== *)
theory Boot
  imports Server Runtime Dynload
begin

text \<open>
  The entry points of the program (\<open>main.c\<close>): \<open>__entry_menu\<close> for the ELF file the loader starts,
  \<open>_start\<close> for the RPX file, with the constructors and destructors of the program, and the default
  mount functions of \<open>main.c\<close>, which \<open>ftpservu.c\<close> replaces with its own.
\<close>

section \<open>State\<close>

record 'w boot_env =
  b_env :: "'w env"
  b_heaps :: "'w heaps"
  b_dynload :: "'w dynload"
  ctor_list :: "('w \<Rightarrow> 'w) list"                      \<comment> \<open>from \<open>__CTOR_LIST__\<close> to \<open>__CTOR_END__\<close>\<close>
  dtor_list :: "('w \<Rightarrow> 'w) list"
  b_SYSRelaunchTitle :: "'w \<Rightarrow> 'w"

record 'w process = "'w sys" +
  mach :: "'w machine"
  rt :: "'w runtime"
  links :: "'w linking"

text \<open>Running a part of the process on the common world.\<close>

definition with_memory :: "('w runtime \<Rightarrow> 'w runtime) \<Rightarrow> 'w process \<Rightarrow> 'w process" where
  "with_memory f s =
     (let a = f ((rt s)\<lparr>world := world s, allocs := allocs s\<rparr>) in
      s\<lparr>rt := a, world := world a, allocs := allocs a\<rparr>)"

definition with_links :: "('w linking \<Rightarrow> fault + 'w linking) \<Rightarrow> 'w process \<Rightarrow> fault + 'w process" where
  "with_links f s =
     bindF (f ((links s)\<lparr>world := world s, allocs := allocs s\<rparr>)) (\<lambda>a.
     Inr (s\<lparr>links := a, world := world a, allocs := allocs a\<rparr>))"

definition put_machine :: "'w machine \<Rightarrow> 'w process \<Rightarrow> 'w process" where
  "put_machine a s = s\<lparr>mach := a, world := world a, allocs := allocs a\<rparr>"

definition the_machine :: "'w process \<Rightarrow> 'w machine" where
  "the_machine s = (mach s)\<lparr>world := world s, allocs := allocs s\<rparr>"

definition with_machine :: "('w machine \<Rightarrow> fault + 'w machine) \<Rightarrow> 'w process \<Rightarrow> fault + 'w process" where
  "with_machine f s = bindF (f (the_machine s)) (\<lambda>a. Inr (put_machine a s))"

text \<open>Sequencing when a step may not return.\<close>

fun bindO :: "(fault + 'a) option \<Rightarrow> ('a \<Rightarrow> (fault + 'b) option) \<Rightarrow> (fault + 'b) option" where
  "bindO None f = None"
| "bindO (Some (Inl e)) f = Some (Inl e)"
| "bindO (Some (Inr x)) f = f x"

lemma bindO_eq: "bindO m f = Some (Inr y) \<longleftrightarrow> (\<exists>x. m = Some (Inr x) \<and> f x = Some (Inr y))"
  by (cases "(m, f)" rule: bindO.cases) auto

section \<open>Constructors and destructors\<close>

definition run_list :: "('w \<Rightarrow> 'w) list \<Rightarrow> 'w process \<Rightarrow> 'w process" where
  "run_list fs s = foldl (\<lambda>s f. sys_do f s) s fs"

definition init_ctors :: "'w boot_env \<Rightarrow> 'w process \<Rightarrow> 'w process" where
  "init_ctors b s = run_list (ctor_list b) s"

definition fini_dtors :: "'w boot_env \<Rightarrow> 'w process \<Rightarrow> 'w process" where
  "fini_dtors b s = run_list (dtor_list b) s"

section \<open>The default mount functions\<close>

definition default_mount :: "'w env \<Rightarrow> 'w machine \<Rightarrow> fault + 'w machine" where
  "default_mount env s =
     (if iosuhaxMount s then Inr (sys_do (ios_fatInitDefault (e_ios env)) s)
      else bindF (with_fat (mount_sd_fat (e_fs env) ''sd'') s) (\<lambda>(_, s). Inr s))"

definition default_unmount :: "'w env \<Rightarrow> 'w machine \<Rightarrow> fault + 'w machine" where
  "default_unmount env s =
     (if iosuhaxMount s then
        let s = sys_do (ios_fatUnmount (e_ios env) ''sd:'') s in Inr (sys_do (ios_fatUnmount (e_ios env) ''usb:'') s)
      else bindF (with_fat (unmount_sd_fat (e_fs env) ''sd'') s) (\<lambda>(_, s). Inr s))"

section \<open>The entry points\<close>

text \<open>\<open>main\<close> has no return statement; leaving it returns 0.\<close>

definition run_main :: "'w boot_env \<Rightarrow> string \<Rightarrow> 'w process \<Rightarrow> (fault + int \<times> 'w process) option" where
  "run_main b version s =
     bindO (ftpservu_main (b_env b) version (the_machine s)) (\<lambda>a. Some (Inr (0, put_machine a s)))"

definition entry_menu :: "'w boot_env \<Rightarrow> string \<Rightarrow> 'w process \<Rightarrow> (fault + int \<times> 'w process) option" where
  "entry_menu b version s =
     bindO (Some (with_links (InitFunctionPointers (b_dynload b)) s)) (\<lambda>s.
     let s = with_memory (memoryInitialize (b_heaps b)) s;
         s = init_ctors b s in
     bindO (Some (with_machine (fsdev_init (b_env b)) s)) (\<lambda>s.
     bindO (run_main b version s) (\<lambda>(ret, s).
     bindO (Some (with_machine (fsdev_exit (b_env b)) s)) (\<lambda>s.
     let s = fini_dtors b s;
         s = with_memory (memoryRelease (b_heaps b)) s in
     Some (Inr (ret, s))))))"

text \<open>\<open>_start\<close> ends in \<open>exit\<close>; the result is the state and the code it is called with.\<close>

definition start :: "'w boot_env \<Rightarrow> string \<Rightarrow> 'w process \<Rightarrow> (fault + int \<times> 'w process) option" where
  "start b version s =
     (let s = with_memory (memoryInitialize (b_heaps b)) s;
          s = init_ctors b s in
      bindO (Some (with_machine (fsdev_init (b_env b)) s)) (\<lambda>s.
      bindO (run_main b version s) (\<lambda>(_, s).
      bindO (Some (with_machine (fsdev_exit (b_env b)) s)) (\<lambda>s.
      let s = with_memory (memoryRelease (b_heaps b)) s;
          s = sys_do (b_SYSRelaunchTitle b) s in
      Some (Inr (0, s))))))"

section \<open>What is left behind\<close>

definition cleaned_up :: "'w process \<Rightarrow> bool" where
  "cleaned_up s \<longleftrightarrow> \<not> fs_mounted (mach s) \<and> \<not> iosuhaxMount (mach s) \<and> mem1_heap (rt s) = 0 \<and> bucket_heap (rt s) = 0"

lemma process_parts [simp]:
  fixes s :: "'w process"
  shows "mach (s\<lparr>world := w\<rparr>) = mach s" "rt (s\<lparr>world := w\<rparr>) = rt s" "mach (s\<lparr>allocs := m\<rparr>) = mach s"
    "rt (s\<lparr>allocs := m\<rparr>) = rt s"
  by (cases s; simp)+

lemma with_memory_parts [simp]:
  "mach (with_memory f s) = mach s" "rt (with_memory f s) = f ((rt s)\<lparr>world := world s, allocs := allocs s\<rparr>)"
  by (cases s; simp add: with_memory_def Let_def)+

lemma release_clears: "mem1_heap (memoryRelease hp s) = 0 \<and> bucket_heap (memoryRelease hp s) = 0"
  by (cases s) (simp add: memoryRelease_def Let_def sys_do_def)

lemma put_machine_mach [simp]: "mach (put_machine a s) = a"
  by (cases s) (simp add: put_machine_def)

lemma run_list_parts [simp]: "mach (run_list fs s) = mach s" "rt (run_list fs s) = rt s"
  by (induction fs arbitrary: s) (simp_all add: run_list_def sys_do_def)

lemma fsdev_exit_releases:
  assumes "fsdev_exit env s = Inr s'"
  shows "\<not> fs_mounted s' \<and> \<not> iosuhaxMount s'"
proof -
  obtain t where t: "unmount_filesystems env s = Inr t" "s' = try_shutdown_iosuhax env t"
    using assms by (auto simp: fsdev_exit_def fault_simps)
  have "\<not> fs_mounted t" using unmount_unmounted [OF t(1)] by blast
  then show ?thesis by (auto simp: t(2) try_shutdown_iosuhax_def MCPHookClose_def sys_do_def Let_def)
qed

lemma exit_then_release:
  assumes "with_machine (fsdev_exit env) s = Inr t" "mach u = mach t"
  shows "cleaned_up (with_memory (memoryRelease hp) u)"
  using assms by (auto simp: cleaned_up_def with_machine_def release_clears fault_simps dest!: fsdev_exit_releases)

lemma relaunch_cleaned_up [simp]: "cleaned_up (sys_do f s) = cleaned_up s"
  by (simp add: cleaned_up_def sys_do_def)

text \<open>The destructors have no part in \<open>_start\<close>.\<close>

lemma start_ignores_destructors: "start (b\<lparr>dtor_list := ds\<rparr>) version s = start b version s"
  by (simp add: start_def run_main_def init_ctors_def)

section \<open>A run\<close>

text \<open>
  A console without memory to allocate and without network, on which the program gives up at once: every
  \<open>malloc\<close> fails, so no line is shown, and there is no socket.
\<close>

definition bare_env :: "unit env" where
  "bare_env = \<lparr>
     e_os = \<lparr>os_socket = (\<lambda>w. (-1, w)), os_setsockopt = undefined, os_bind = undefined, os_listen = undefined,
       os_accept = undefined, os_recv = undefined, os_send = undefined, os_socketclose = undefined,
       os_socketlasterr = (\<lambda>w. (50, w)), os_read = undefined, os_write = undefined, os_close = undefined,
       os_host_ip = undefined, os_stat = undefined, os_opendir = undefined, os_readdir = undefined,
       os_closedir = undefined, os_strftime = undefined, os_fresh = undefined, os_path_max = 1024\<rparr>,
     e_fs = undefined,
     e_scr = \<lparr>scr_init = (\<lambda>w. w), scr_buffer_size = (\<lambda>n w. (0, w)), scr_set_buffer = (\<lambda>n b w. w),
       scr_enable = (\<lambda>n b w. w), scr_flip = (\<lambda>n w. w), scr_clear = (\<lambda>n c w. w), scr_put_font = (\<lambda>n x y t w. w)\<rparr>,
     e_udp = \<lparr>udp_assigned_address = (\<lambda>w. ((-1, 0), w)), udp_assigned_subnet = undefined, udp_htons = (\<lambda>x. x),
       udp_htonl = (\<lambda>x. x), udp_socket = (\<lambda>w. (-1, w)), udp_bind = undefined, udp_close = undefined,
       udp_lasterr = (\<lambda>w. (50, w)), udp_sendto = undefined, udp_sleep = undefined, udp_fflush = (\<lambda>b w. w)\<rparr>,
     e_ios = \<lparr>ios_fatInitDefault = (\<lambda>w. w), ios_fatUnmount = (\<lambda>n w. w), ios_FSA_Open = (\<lambda>w. (-1, w)),
       ios_FSA_Close = (\<lambda>fd w. w), ios_mount_fs = undefined, ios_unmount_fs = undefined,
       ios_IOSUHAX_Open = (\<lambda>d w. (4, w)), ios_IOSUHAX_Close = (\<lambda>w. w), ios_Open = undefined,
       ios_IoctlAsync = undefined, ios_Close = undefined, ios_usleep = (\<lambda>n w. w), ios_VPADInit = (\<lambda>w. w),
       ios_VPADRead = undefined, ios_ACInitialize = (\<lambda>w. w), ios_ACConnect = (\<lambda>w. w),
       ios_socket_lib_init = (\<lambda>w. w)\<rparr>\<rparr>"

definition bare_boot :: "unit boot_env" where
  "bare_boot = \<lparr>b_env = bare_env,
     b_heaps = \<lparr>hp_base = (\<lambda>n w. 7), hp_frm_room = (\<lambda>h a w. 0), hp_frm_alloc = (\<lambda>h n a w. (4096, w)),
       hp_frm_free = (\<lambda>h n w. w), hp_create = (\<lambda>p n f w. (9, w)), hp_destroy = (\<lambda>h w. w),
       hp_alloc = undefined, hp_free = undefined\<rparr>,
     b_dynload = demo_loader, ctor_list = [], dtor_list = [], b_SYSRelaunchTitle = (\<lambda>w. w)\<rparr>"

definition no_mem :: mem where "no_mem = (\<lambda>_. 0)"

lemma malloc_no_mem [simp]: "malloc no_mem = (0, no_mem)"
  by (simp add: malloc_def no_mem_def)

text \<open>The console with no rows, before and after the screen is set up.\<close>

definition bare_con :: "bool \<Rightarrow> bool \<Rightarrow> unit logging" where
  "bare_con b n = \<lparr>world = (), allocs = no_mem, texts = Map.empty, tvConsole = replicate MAX_CONSOLE_LINES_TV 0,
     padConsole = replicate MAX_CONSOLE_LINES_PAD 0, initialized = b, udp_fd = -1, log_lock = 0, broadcast = (0, 0),
     stdout_net = n, stderr_net = n\<rparr>"

lemma draw_zero_rows: "draw_rows scr screen i (replicate n 0) s = Inr s"
  by (induction n arbitrary: i) auto

lemma bare_draw: "console_draw (e_scr bare_env) (bare_con b n) = Inr (bare_con True n)"
  by (simp add: console_draw_def bare_con_def screen_init_def sysc_def sys_do_def bare_env_def console_screen_draw_def
      draw_zero_rows)

lemma bare_printf: "console_printf (e_scr bare_env) msg (bare_con b n) = Inr (bare_con True n)"
  using bare_draw [of b n] by (simp add: console_printf_def bare_con_def)

definition bare_machine :: "bool \<Rightarrow> bool \<Rightarrow> bool \<Rightarrow> unit machine" where
  "bare_machine b n m = \<lparr>world = (), allocs = no_mem,
     srv = \<lparr>world = (), allocs = no_mem, next_ephermal_port = 1024, channels = Map.empty, strings = Map.empty,
       dtp_list = 0, next_dtp_list = 0, clients = replicate MAX_CLIENTS 0, client_heap = Map.empty\<rparr>,
     fat = undefined\<lparr>world := (), allocs := no_mem\<rparr>, con = bare_con b n, buttons = 0, fs_mounted = m, fsa_fd = -1,
     iosuhaxMount = m, mcp_hook_fd = -1\<rparr>"

lemma bare_say: "say bare_env msg (bare_machine b n m) = Inr (bare_machine True n m)"
  using bare_printf [of msg b n] by (simp add: say_def with_console_def bare_machine_def bare_con_def)

lemma bare_logging: "with_console (logging_init (e_scr bare_env) (e_udp bare_env)) (bare_machine b n m) =
    Inr (bare_machine True True m)"
proof -
  have u: "udp_fd (bare_con True n) = -1" by (simp add: bare_con_def)
  have i: "init_broadcast (e_udp bare_env) LOG_UDP_PORT (bare_con True n) = (-1, bare_con True n)"
    by (simp add: init_broadcast_def get_broadcast_address_def sysc_def bare_env_def bare_con_def)
  have "init_udp_broadcast (e_scr bare_env) (e_udp bare_env) LOG_UDP_PORT (bare_con True n) = Inr (bare_con True n)"
    using bare_printf [of _ True n]
    by (simp add: init_udp_broadcast_def u i) (simp add: sysc_def bare_env_def bare_con_def)
  then have "logging_init (e_scr bare_env) (e_udp bare_env) (bare_con b n) = Inr (bare_con True True)"
    by (simp add: logging_init_def bare_printf) (simp add: bare_con_def)
  then show ?thesis by (simp add: with_console_def bare_machine_def bare_con_def)
qed

lemma zero_slots:
  "set is \<subseteq> {0..<MAX_CLIENTS} \<Longrightarrow> clients s = replicate MAX_CLIENTS 0 \<Longrightarrow> deinit_slots os is s = Inr s"
  by (induction "is") (auto simp: subset_iff)

lemma free_zero_rows: "free_rows (replicate n 0) s = Inr s"
  by (induction n) auto

lemma bare_main: "ftpservu_main bare_env version (bare_machine b n m) = Some (Inr (bare_machine True True m))"
proof -
  have c: "(bare_machine b n m)\<lparr>con := console_init (con (bare_machine b n m))\<rparr> = bare_machine b n m"
    by (simp add: bare_machine_def bare_con_def console_init_def)
  have v: "sys_do (ios_VPADInit (e_ios bare_env)) (bare_machine x y m) = bare_machine x y m" for x y
    by (simp add: sys_do_def bare_machine_def bare_env_def)
  have n: "network_init bare_env (bare_machine b n m) = bare_machine b n m"
    by (simp add: network_init_def sys_do_def bare_machine_def bare_env_def)
  have k: "network_create_serversocket (e_os bare_env) TCP_PORT FTP_SOCKET_BACKLOG (bare_machine True True m) =
      (-1, bare_machine True True m)"
    by (simp add: network_create_serversocket_def setup_server_socket_def sysc_def bare_machine_def bare_env_def)
  have f: "with_server (\<lambda>a. bindF (ftp_deinit (e_os bare_env) a) (\<lambda>a. Inr ((), a))) (bare_machine True True m) =
      Inr ((), bare_machine True True m)"
    by (simp add: with_server_def ftp_deinit_def zero_slots bare_machine_def)
  have d: "with_console console_deinit (bare_machine True True m) = Inr (bare_machine True True m)"
    by (simp add: with_console_def console_deinit_def free_zero_rows bare_machine_def bare_con_def)
  have l: "with_console (\<lambda>a. Inr (logging_deinit (e_udp bare_env) a)) (bare_machine True True m) = Inr (bare_machine True True m)"
    by (simp add: with_console_def logging_deinit_def deinit_udp_broadcast_def sys_do_def bare_machine_def bare_con_def)
  show ?thesis
    by (simp add: ftpservu_main_def c n bare_logging v bare_say ftpserver_main_loop_def k f d l del: One_nat_def)
qed

definition bare_process :: "unit process" where
  "bare_process = \<lparr>world = (), allocs = no_mem, mach = bare_machine False False False,
     rt = \<lparr>world = (), allocs = no_mem, mem1_heap = 0, bucket_heap = 0, blocks = Map.empty, rt_errno = 0\<rparr>,
     links = linking0\<rparr>"

text \<open>The loader code does not allocate.\<close>

lemma import_begin_allocs: "import_begin dl lib s = Inr s' \<Longrightarrow> allocs s' = allocs s"
  by (cases "dl_acquire dl lib (world s)")
    (auto simp: import_begin_def call_stub_def sysc_def fault_simps split: option.splits if_splits)

lemma import_name_allocs: "import_name dl n s = Inr s' \<Longrightarrow> allocs s' = allocs s"
  by (cases "handle s"; cases "dl_find dl (the (handle s)) n (world s)")
    (auto simp: import_name_def call_stub_def OSFatal_def sysc_def fault_simps split: option.splits if_splits)

lemma import_all_allocs: "import_all dl ns s = Inr s' \<Longrightarrow> allocs s' = allocs s"
  by (induction ns arbitrary: s) (auto simp: fault_simps dest!: import_name_allocs)

lemma import_libs_allocs: "import_libs dl libs s = Inr s' \<Longrightarrow> allocs s' = allocs s"
proof (induction libs arbitrary: s)
  case (Cons l libs)
  then show ?case by (cases l) (auto simp: fault_simps dest!: import_begin_allocs import_all_allocs)
qed simp

lemma bare_links: "\<exists>l. with_links (InitFunctionPointers (b_dynload bare_boot)) bare_process = Inr (bare_process\<lparr>links := l\<rparr>)"
proof -
  let ?l = "linking0\<lparr>world := (), allocs := no_mem\<rparr>"
  let ?s = "?l\<lparr>handle := None, addr := (addr ?l)(''OSDynLoad_Acquire'' := dl_fixed demo_loader 0x00801500,
     ''OSDynLoad_FindExport'' := dl_fixed demo_loader 0x00801504)\<rparr>"
  have "can_import ?s" using demo_complete by (simp add: can_import_def complete_loader_def)
  from import_libs_runs [OF demo_complete this, of import_table] obtain l where
    l: "import_libs demo_loader import_table ?s = Inr l" by blast
  have "allocs l = no_mem" using import_libs_allocs [OF l] by simp
  then show ?thesis
    using l by (intro exI [of _ l]) (simp add: with_links_def InitFunctionPointers_def bare_process_def bare_boot_def)
qed

lemma bare_run: "\<exists>s'. entry_menu bare_boot version bare_process = Some (Inr (0, s'))"
proof -
  from bare_links obtain l where l: "with_links (InitFunctionPointers (b_dynload bare_boot)) bare_process =
      Inr (bare_process\<lparr>links := l\<rparr>)" ..
  let ?s = "init_ctors bare_boot (with_memory (memoryInitialize (b_heaps bare_boot)) (bare_process\<lparr>links := l\<rparr>))"
  have al: "allocs (memoryInitialize (b_heaps bare_boot) ((rt bare_process)\<lparr>world := (), allocs := no_mem\<rparr>)) = no_mem"
    by (simp add: memoryInitialize_def bare_boot_def sysc_def bare_process_def)
  have s: "the_machine ?s = bare_machine False False False"
    using al by (simp add: the_machine_def init_ctors_def run_list_def with_memory_def bare_boot_def)
      (simp add: bare_process_def bare_machine_def)
  have i: "fsdev_init (b_env bare_boot) (bare_machine False False False) = Inr (bare_machine False False True)"
    by (simp add: fsdev_init_def try_init_iosuhax_def mount_filesystems_def sysc_def sys_do_def bare_boot_def bare_env_def
        bare_machine_def)
  have m: "the_machine (put_machine (bare_machine b n m) t) = bare_machine b n m" for b n m t
    by (cases t) (simp add: the_machine_def put_machine_def bare_machine_def)
  have e: "\<exists>a. fsdev_exit (b_env bare_boot) (bare_machine True True True) = Inr a"
    by (simp add: fsdev_exit_def unmount_filesystems_def sys_do_def bare_boot_def bare_env_def bare_machine_def)
  have b: "b_env bare_boot = bare_env" by (simp add: bare_boot_def)
  show ?thesis
    using e by (auto simp: entry_menu_def l with_machine_def s i [unfolded b] m run_main_def b bare_main)
qed

section \<open>Properties\<close>



end
