(* ===== verification/FatFile.thy ===== *)
theory FatFile
  imports FatDevice
begin

text \<open>
  The operations of the SD driver on open files (\<open>fs/sd_fat_devoptab.c\<close>): open, close, seek, write,
  read, fstat, ftruncate and fsync. Sizes and counts are 32 bit words as \<open>size_t\<close> is, positions 64 bit.
  The copying loops go on until the service reports an error or nothing more; whether they end
  depends on it, so they are partial functions.
\<close>

section \<open>Opening and closing\<close>

definition O_RDONLY :: u32 where "O_RDONLY = 0"
definition O_WRONLY :: u32 where "O_WRONLY = 1"
definition O_RDWR :: u32 where "O_RDWR = 2"
definition O_APPEND :: u32 where "O_APPEND = 8"

definition put_file ::
  "u32 \<Rightarrow> sd_fat_file_state \<Rightarrow> ('w, 'z) fatfs_scheme \<Rightarrow> ('w, 'z) fatfs_scheme" where
  "put_file fp f s = s\<lparr>files := (files s)(fp \<mapsto> f)\<rparr>"

text \<open>The mode a file is opened in, with the fields it sets; \<open>None\<close> when the flags name none.\<close>

definition open_mode :: "u32 \<Rightarrow> sd_fat_file_state \<Rightarrow> (string \<times> sd_fat_file_state) option" where
  "open_mode flags f =
     (if flags AND 3 = O_RDONLY then
        Some (''r'', f\<lparr>freadable := True, fwritable := False, fappend := False\<rparr>)
      else if flags AND 3 = O_WRONLY then
        let a = (flags AND O_APPEND \<noteq> 0) in
        Some (if a then ''a'' else ''w'', f\<lparr>freadable := False, fwritable := True, fappend := a\<rparr>)
      else if flags AND 3 = O_RDWR then
        let a = (flags AND O_APPEND \<noteq> 0) in
        Some (if a then ''a+'' else ''r+'', f\<lparr>freadable := True, fwritable := True, fappend := a\<rparr>)
      else None)"

text \<open>
  The test after building the path looks at \<open>path\<close>, which is never null here, and not at
  \<open>real_path\<close>; a failed allocation hands a null pointer to the service.
\<close>

definition sd_fat_open_r ::
  "'w fs \<Rightarrow> u32 \<Rightarrow> string \<Rightarrow> u32 \<Rightarrow> ('w, 'z) fatfs_scheme \<Rightarrow> fault + int \<times> ('w, 'z) fatfs_scheme" where
  "sd_fat_open_r fs fp path flags s =
     bindF (sd_fat_get_device_data path s) (\<lambda>dev.
     if dev = 0 then Inr (-1, set_errno ENODEV s)
     else
       bindF (deref (files s) fp) (\<lambda>f.
       let f = f\<lparr>fdev := dev, fflags := flags\<rparr> in
       case open_mode flags f of
         None \<Rightarrow> Inr (-1, set_errno EACCES (put_file fp f s))
       | Some (mode, f) \<Rightarrow>
           let s = put_file fp f s in
           bindF (deref (privates s) dev) (\<lambda>d.
           bindF (OSLockMutex (pMutex d) s) (\<lambda>s.
           bindF (sd_fat_real_path (Some path) dev s) (\<lambda>(real_path, s).
           let ((result, fd), s) = sysc (fs_open_file fs (session_of d) real_path mode) s in
           if result = 0 then
             let ((result, stats), s) = sysc (fs_get_stat_file fs (session_of d) fd) s in
             if result \<noteq> 0 then
               let (_, s) = sysc (fs_close_file fs (session_of d) fd) s in
               bindF (OSUnlockMutex (pMutex d) (set_errno (FS_error result) s)) (\<lambda>s. Inr (-1, s))
             else
               let f = f\<lparr>fhandle := fd, fpos := 0, flen := ucast (fss_size stats)\<rparr> in
               bindF (OSUnlockMutex (pMutex d) (put_file fp f s)) (\<lambda>s. Inr (sint fp, s))
           else
             bindF (OSUnlockMutex (pMutex d) (set_errno (FS_error result) s)) (\<lambda>s. Inr (-1, s)))))))"

definition sd_fat_close_r ::
  "'w fs \<Rightarrow> u32 \<Rightarrow> ('w, 'z) fatfs_scheme \<Rightarrow> fault + int \<times> ('w, 'z) fatfs_scheme" where
  "sd_fat_close_r fs fp s =
     bindF (deref (files s) fp) (\<lambda>f.
     if fdev f = 0 then Inr (-1, set_errno ENODEV s)
     else
       bindF (deref (privates s) (fdev f)) (\<lambda>d.
       bindF (OSLockMutex (pMutex d) s) (\<lambda>s.
       let (result, s) = sysc (fs_close_file fs (session_of d) (fhandle f)) s in
       bindF (OSUnlockMutex (pMutex d) s) (\<lambda>s.
       if result < 0 then Inr (-1, set_errno (FS_error result) s) else Inr (0, s)))))"

section \<open>Seeking\<close>

definition SEEK_SET :: int where "SEEK_SET = 0"
definition SEEK_CUR :: int where "SEEK_CUR = 1"
definition SEEK_END :: int where "SEEK_END = 2"

text \<open>An unknown direction returns with the mutex still locked. The service takes the low 32 bits.\<close>

definition sd_fat_seek_r ::
  "'w fs \<Rightarrow> u32 \<Rightarrow> int \<Rightarrow> int \<Rightarrow> ('w, 'z) fatfs_scheme \<Rightarrow> fault + int \<times> ('w, 'z) fatfs_scheme" where
  "sd_fat_seek_r fs fp pos dir s =
     bindF (deref (files s) fp) (\<lambda>f.
     if fdev f = 0 then Inr (0, set_errno ENODEV s)
     else
       bindF (deref (privates s) (fdev f)) (\<lambda>d.
       bindF (OSLockMutex (pMutex d) s) (\<lambda>s.
       if dir \<noteq> SEEK_SET \<and> dir \<noteq> SEEK_CUR \<and> dir \<noteq> SEEK_END then Inr (-1, set_errno EINVAL s)
       else
         let f = f\<lparr>fpos := (if dir = SEEK_SET then 0 else if dir = SEEK_CUR then fpos f else flen f) + word_of_int pos\<rparr>;
             (result, s) = sysc (fs_set_pos_file fs (session_of d) (fhandle f) (ucast (fpos f))) (put_file fp f s) in
         bindF (OSUnlockMutex (pMutex d) s) (\<lambda>s.
         if result = 0 then Inr (sint (fpos f), s) else Inr (result, s)))))"

section \<open>Copying\<close>

definition FS_ALIGNMENT :: u32 where "FS_ALIGNMENT = 0x40"

definition FS_ALIGN :: "u32 \<Rightarrow> u32" where
  "FS_ALIGN x = (x + FS_ALIGNMENT - 1) AND NOT (FS_ALIGNMENT - 1)"

text \<open>The size of the block the data goes through.\<close>

definition chunk_size :: "u32 \<Rightarrow> u32" where
  "chunk_size len = (let a = FS_ALIGN len in if a > 0x4000 then 0x4000 else a)"

text \<open>One turn of the loop: whether it goes on, and the count of bytes done.\<close>

definition write_turn ::
  "'w fs \<Rightarrow> sd_fat_private \<Rightarrow> u32 \<Rightarrow> char list \<Rightarrow> u32 \<Rightarrow> u32 \<Rightarrow> u32 \<Rightarrow> ('w, 'z) fatfs_scheme \<Rightarrow>
   fault + (bool \<times> u32) \<times> ('w, 'z) fatfs_scheme" where
  "write_turn fs d fp ptr len chunk n s =
     bindF (deref (files s) fp) (\<lambda>f.
     let write_size = (if chunk < len - n then chunk else len - n) in
     bindF (slice_at ptr (uint n) (uint write_size)) (\<lambda>bytes.
     let (result, s) = sysc (fs_write_file fs (session_of d) bytes (fhandle f)) s in
     if result < 0 then Inr ((False, n), set_errno (FS_error result) s)
     else if result = 0 then Inr ((False, if write_size > 0 then 0 else n), s)
     else Inr ((True, n + word_of_int result),
               put_file fp (f\<lparr>fpos := fpos f + word_of_int result\<rparr>) s)))"

partial_function (option) write_loop ::
  "'w fs \<Rightarrow> sd_fat_private \<Rightarrow> u32 \<Rightarrow> char list \<Rightarrow> u32 \<Rightarrow> u32 \<Rightarrow> u32 \<Rightarrow> ('w, 'z) fatfs_scheme \<Rightarrow>
   (fault + u32 \<times> ('w, 'z) fatfs_scheme) option" where
  "write_loop fs d fp ptr len chunk n s =
     (if n < len then
        (case write_turn fs d fp ptr len chunk n s of
           Inl e \<Rightarrow> Some (Inl e)
         | Inr ((again, n), s) \<Rightarrow>
             if again then write_loop fs d fp ptr len chunk n s else Some (Inr (n, s)))
      else Some (Inr (n, s)))"

text \<open>What a call that locks the device does around its loop.\<close>

definition sd_fat_write_r ::
  "'w fs \<Rightarrow> u32 \<Rightarrow> char list \<Rightarrow> u32 \<Rightarrow> ('w, 'z) fatfs_scheme \<Rightarrow>
   (fault + u32 \<times> ('w, 'z) fatfs_scheme) option" where
  "sd_fat_write_r fs fp ptr len s =
     (case deref (files s) fp of
        Inl e \<Rightarrow> Some (Inl e)
      | Inr f \<Rightarrow>
          if fdev f = 0 then Some (Inr (0, set_errno ENODEV s))
          else if \<not> fwritable f then Some (Inr (0, set_errno EACCES s))
          else
            (case bindF (deref (privates s) (fdev f)) (\<lambda>d.
                  bindF (OSLockMutex (pMutex d) s) (\<lambda>s. Inr (d, alloc s))) of
               Inl e \<Rightarrow> Some (Inl e)
             | Inr (d, tmpBuf, s) \<Rightarrow>
                 if tmpBuf = 0 then
                   Some (bindF (OSUnlockMutex (pMutex d) (set_errno ENOMEM s)) (\<lambda>s. Inr (0, s)))
                 else
                   (case write_loop fs d fp ptr len (chunk_size len) 0 s of
                      None \<Rightarrow> None
                    | Some r \<Rightarrow>
                        Some (bindF r (\<lambda>(n, s). bindF (OSUnlockMutex (pMutex d) s) (\<lambda>s. Inr (n, s)))))))"

text \<open>
  Reading copies \<open>read_size\<close> bytes of the block even when fewer were delivered. The turn returns whether
  the loop goes on, the count, the block and the memory of the caller.
\<close>

definition read_turn ::
  "'w fs \<Rightarrow> sd_fat_private \<Rightarrow> u32 \<Rightarrow> u32 \<Rightarrow> u32 \<Rightarrow> u32 \<times> char list \<times> char list \<Rightarrow> ('w, 'z) fatfs_scheme \<Rightarrow>
   fault + (bool \<times> u32 \<times> char list \<times> char list) \<times> ('w, 'z) fatfs_scheme" where
  "read_turn fs d fp len chunk = (\<lambda>(n, tmpBuf, ptr) s.
     bindF (deref (files s) fp) (\<lambda>f.
     let read_size = (if chunk < len - n then chunk else len - n);
         ((result, bytes), s) = sysc (fs_read_file fs (session_of d) read_size (fhandle f)) s in
     bindF (write_at tmpBuf 0 bytes) (\<lambda>tmpBuf.
     if result < 0 then Inr ((False, 0, tmpBuf, ptr), set_errno (FS_error result) s)
     else if result = 0 then Inr ((False, n, tmpBuf, ptr), s)
     else
       bindF (slice_at tmpBuf 0 (uint read_size)) (\<lambda>block.
       bindF (write_at ptr (uint n) block) (\<lambda>ptr.
       Inr ((True, n + word_of_int result, tmpBuf, ptr),
            put_file fp (f\<lparr>fpos := fpos f + word_of_int result\<rparr>) s))))))"

partial_function (option) read_loop ::
  "'w fs \<Rightarrow> sd_fat_private \<Rightarrow> u32 \<Rightarrow> u32 \<Rightarrow> u32 \<Rightarrow> u32 \<times> char list \<times> char list \<Rightarrow> ('w, 'z) fatfs_scheme \<Rightarrow>
   (fault + (u32 \<times> char list) \<times> ('w, 'z) fatfs_scheme) option" where
  "read_loop fs d fp len chunk part s =
     (if fst part < len then
        (case read_turn fs d fp len chunk part s of
           Inl e \<Rightarrow> Some (Inl e)
         | Inr ((again, y), s) \<Rightarrow>
             if again then read_loop fs d fp len chunk y s
             else Some (Inr ((fst y, snd (snd y)), s)))
      else Some (Inr ((fst part, snd (snd part)), s)))"

definition sd_fat_read_r ::
  "'w fs \<Rightarrow> u32 \<Rightarrow> char list \<Rightarrow> u32 \<Rightarrow> ('w, 'z) fatfs_scheme \<Rightarrow>
   (fault + (u32 \<times> char list) \<times> ('w, 'z) fatfs_scheme) option" where
  "sd_fat_read_r fs fp ptr len s =
     (case deref (files s) fp of
        Inl e \<Rightarrow> Some (Inl e)
      | Inr f \<Rightarrow>
          if fdev f = 0 then Some (Inr ((0, ptr), set_errno ENODEV s))
          else if \<not> freadable f then Some (Inr ((0, ptr), set_errno EACCES s))
          else
            (case bindF (deref (privates s) (fdev f)) (\<lambda>d.
                  bindF (OSLockMutex (pMutex d) s) (\<lambda>s. Inr (d, alloc s))) of
               Inl e \<Rightarrow> Some (Inl e)
             | Inr (d, tmpBuf, s) \<Rightarrow>
                 if tmpBuf = 0 then
                   Some (bindF (OSUnlockMutex (pMutex d) (set_errno ENOMEM s)) (\<lambda>s. Inr ((0, ptr), s)))
                 else
                   let (block, s) = sysc (fs_fresh fs (uint (chunk_size len))) s in
                   (case read_loop fs d fp len (chunk_size len) (0, block, ptr) s of
                      None \<Rightarrow> None
                    | Some r \<Rightarrow>
                        Some (bindF r (\<lambda>(x, s). bindF (OSUnlockMutex (pMutex d) s) (\<lambda>s. Inr (x, s)))))))"


section \<open>The attributes of a file\<close>

text \<open>\<open>struct stat\<close>, as far as the driver fills it; the other fields stay zero.\<close>

record c_stat =
  sb_mode :: u32
  sb_nlink :: u32
  sb_size :: u32
  sb_blocks :: u32
  sb_dev :: u32
  sb_uid :: u32
  sb_gid :: u32
  sb_ino :: u32
  sb_atime :: "64 word"
  sb_ctime :: "64 word"
  sb_mtime :: "64 word"

definition zero_stat :: c_stat where
  "zero_stat = \<lparr>sb_mode = 0, sb_nlink = 0, sb_size = 0, sb_blocks = 0, sb_dev = 0, sb_uid = 0, sb_gid = 0,
     sb_ino = 0, sb_atime = 0, sb_ctime = 0, sb_mtime = 0\<rparr>"

definition S_IFREG :: u32 where "S_IFREG = 0x8000"

definition fill_stat :: "u32 \<Rightarrow> FSStat__ \<Rightarrow> c_stat" where
  "fill_stat mode stats =
     \<lparr>sb_mode = mode, sb_nlink = 1, sb_size = fss_size stats, sb_blocks = drop_bit 9 (fss_size stats + 511),
      sb_dev = fss_ent_id stats, sb_uid = fss_owner_id stats, sb_gid = fss_group_id stats,
      sb_ino = fss_ent_id stats, sb_atime = fss_mtime stats, sb_ctime = fss_ctime stats,
      sb_mtime = fss_mtime stats\<rparr>"

text \<open>Each returns what the caller's structure holds afterwards.\<close>

definition sd_fat_fstat_r ::
  "'w fs \<Rightarrow> u32 \<Rightarrow> c_stat \<Rightarrow> ('w, 'z) fatfs_scheme \<Rightarrow> fault + (int \<times> c_stat) \<times> ('w, 'z) fatfs_scheme" where
  "sd_fat_fstat_r fs fp st s =
     bindF (deref (files s) fp) (\<lambda>f.
     if fdev f = 0 then Inr ((-1, st), set_errno ENODEV s)
     else
       bindF (deref (privates s) (fdev f)) (\<lambda>d.
       bindF (OSLockMutex (pMutex d) s) (\<lambda>s.
       let ((result, stats), s) = sysc (fs_get_stat_file fs (session_of d) (fhandle f)) s in
       if result \<noteq> 0 then
         bindF (OSUnlockMutex (pMutex d) (set_errno (FS_error result) s)) (\<lambda>s. Inr ((-1, zero_stat), s))
       else bindF (OSUnlockMutex (pMutex d) s) (\<lambda>s. Inr ((0, fill_stat S_IFREG stats), s)))))"

text \<open>The length asked for is not passed on: the service truncates at the position of the file.\<close>

definition sd_fat_ftruncate_r ::
  "'w fs \<Rightarrow> u32 \<Rightarrow> int \<Rightarrow> ('w, 'z) fatfs_scheme \<Rightarrow> fault + int \<times> ('w, 'z) fatfs_scheme" where
  "sd_fat_ftruncate_r fs fp len s =
     bindF (deref (files s) fp) (\<lambda>f.
     if fdev f = 0 then Inr (-1, set_errno ENODEV s)
     else
       bindF (deref (privates s) (fdev f)) (\<lambda>d.
       bindF (OSLockMutex (pMutex d) s) (\<lambda>s.
       let (result, s) = sysc (fs_truncate_file fs (session_of d) (fhandle f)) s in
       bindF (OSUnlockMutex (pMutex d) s) (\<lambda>s.
       if result < 0 then Inr (-1, set_errno (FS_error result) s) else Inr (0, s)))))"

definition sd_fat_fsync_r ::
  "'w fs \<Rightarrow> u32 \<Rightarrow> ('w, 'z) fatfs_scheme \<Rightarrow> fault + int \<times> ('w, 'z) fatfs_scheme" where
  "sd_fat_fsync_r fs fp s =
     bindF (deref (files s) fp) (\<lambda>f.
     if fdev f = 0 then Inr (-1, set_errno ENODEV s)
     else
       bindF (deref (privates s) (fdev f)) (\<lambda>d.
       bindF (OSLockMutex (pMutex d) s) (\<lambda>s.
       let (result, s) = sysc (fs_flush_file fs (session_of d) (fhandle f)) s in
       bindF (OSUnlockMutex (pMutex d) s) (\<lambda>s.
       if result < 0 then Inr (-1, set_errno (FS_error result) s) else Inr (0, s)))))"


section \<open>The block size\<close>

lemma clear_low_bits: "unat (y AND NOT (mask 6)) = unat y div 64 * 64" for y :: u32
proof -
  have "y AND NOT (mask 6) = push_bit 6 (drop_bit 6 y)"
    by (rule bit_word_eqI) (auto simp: bit_simps)
  moreover have "unat (push_bit 6 (drop_bit 6 y)) = take_bit 32 (push_bit 6 (unat (drop_bit 6 y)))"
    by (simp add: unsigned_push_bit_eq)
  moreover have "unat (drop_bit 6 y) = unat y div 64" by (simp only: unat_drop_bit_eq) (simp add: drop_bit_eq_div)
  moreover have "unat y div 64 * 64 < 2 ^ 32"
    using unsigned_less [of y, where ?'a = nat] by (simp add: less_mult_imp_div_less order_le_less_trans [OF div_times_less_eq_dividend])
  ultimately show ?thesis by (simp add: push_bit_eq_mult take_bit_nat_eq_self)
qed

lemma FS_ALIGN_rounds_up:
  assumes "x \<le> 0xFFFFFFC0"
  shows "unat (FS_ALIGN x) = (unat x + 63) div 64 * 64"
proof -
  have "unat x \<le> unat (0xFFFFFFC0 :: u32)" using assms by (simp add: word_le_nat_alt)
  then have u: "unat (x + 63) = unat x + 63" by (subst unat_plus_if') (simp add: word_le_nat_alt)
  have "FS_ALIGN x = (x + 63) AND NOT (mask 6)" by (simp add: FS_ALIGN_def FS_ALIGNMENT_def mask_eq_exp_minus_1 add.commute)
  then show ?thesis by (simp add: clear_low_bits u)
qed

lemma FS_ALIGN_wraps: "0xFFFFFFC0 < x \<Longrightarrow> FS_ALIGN x = 0"
proof -
  assume "0xFFFFFFC0 < x"
  then have "unat (0xFFFFFFC0 :: u32) < unat x" by (simp add: word_less_nat_alt)
  moreover have "unat x < 2 ^ 32" using unsigned_less [where ?'a = nat, of x] by simp
  ultimately have u: "unat (x + 63) = unat x + 63 - 2 ^ 32" "unat x + 63 - 2 ^ 32 < 63" by (auto simp: unat_plus_if')
  have "FS_ALIGN x = (x + 63) AND NOT (mask 6)" by (simp add: FS_ALIGN_def FS_ALIGNMENT_def mask_eq_exp_minus_1 add.commute)
  then have "unat (FS_ALIGN x) = 0" by (simp only: clear_low_bits u(1)) (use u(2) in simp)
  then show ?thesis by (simp add: unat_eq_0)
qed

lemma chunk_size_bounds:
  assumes "len \<le> 0xFFFFFFC0" and "0 < len"
  shows "0 < chunk_size len" "chunk_size len \<le> 0x4000"
proof -
  have "0 < unat len" using assms(2) by (simp add: word_less_nat_alt)
  then have "0 < unat (FS_ALIGN len)" by (simp add: FS_ALIGN_rounds_up [OF assms(1)] div_greater_zero_iff)
  then show "0 < chunk_size len" by (simp add: chunk_size_def Let_def word_less_nat_alt)
  show "chunk_size len \<le> 0x4000" by (simp add: chunk_size_def Let_def not_less)
qed


section \<open>Reading and writing against a service that keeps its word\<close>

text \<open>
  What the service promises of an open file, for a view of the world: a read delivers the next bytes,
  at most as many as asked for and none only at the end; a write appends some of the bytes, none only
  if there are none.
\<close>

definition reads_from :: "'w fs \<Rightarrow> session \<Rightarrow> int \<Rightarrow> ('w \<Rightarrow> char list) \<Rightarrow> bool" where
  "reads_from fs c h rest \<longleftrightarrow> (\<forall>n w. \<exists>k w'. fs_read_file fs c n h w = ((int k, take k (rest w)), w') \<and>
     k \<le> unat n \<and> k \<le> length (rest w) \<and> (k = 0 \<longrightarrow> n = 0 \<or> rest w = []) \<and> rest w' = drop k (rest w))"

definition writes_to :: "'w fs \<Rightarrow> session \<Rightarrow> int \<Rightarrow> ('w \<Rightarrow> char list) \<Rightarrow> bool" where
  "writes_to fs c h got \<longleftrightarrow> (\<forall>bs w. \<exists>k w'. fs_write_file fs c bs h w = (int k, w') \<and>
     k \<le> length bs \<and> (k = 0 \<longrightarrow> bs = []) \<and> got w' = got w @ take k bs)"

definition advance :: "u32 \<Rightarrow> sd_fat_file_state \<Rightarrow> nat \<Rightarrow> 'w \<Rightarrow> ('w, 'z) fatfs_scheme \<Rightarrow> ('w, 'z) fatfs_scheme" where
  "advance fp f k w s = s\<lparr>world := w, files := (files s)(fp \<mapsto> f\<lparr>fpos := fpos f + of_nat k\<rparr>)\<rparr>"

lemma advance_0: "files s fp = Some f \<Longrightarrow> advance fp f 0 w s = s\<lparr>world := w\<rparr>"
  by (cases s) (simp add: advance_def fun_upd_idem)

lemma advance_advance:
  "advance fp (f\<lparr>fpos := fpos f + of_nat j\<rparr>) k w (advance fp f j v s) = advance fp f (j + k) w s"
  by (simp add: advance_def algebra_simps)

lemma take_turn_size:
  assumes "n < len" and "0 < chunk" and "chunk \<le> 0x4000"
  defines "sz \<equiv> (if chunk < len - n then chunk else len - n)"
  shows "unat sz = min (unat chunk) (unat len - unat n)" "sz \<noteq> 0" "unat n + unat sz \<le> unat len"
proof -
  have n: "unat n < unat len" using assms(1) by (simp add: word_less_nat_alt)
  then have m: "unat (len - n) = unat len - unat n" by (simp add: unat_sub word_le_nat_alt)
  then show u: "unat sz = min (unat chunk) (unat len - unat n)"
    by (auto simp: sz_def word_less_nat_alt min_def)
  have "0 < unat chunk" using assms(2) by (simp add: word_less_nat_alt)
  then have "0 < unat sz" using u n by simp
  then show "sz \<noteq> 0" by auto
  show "unat n + unat sz \<le> unat len" using u n by simp
qed

lemma slice_at_words:
  fixes n k :: u32
  assumes "unat n + unat k \<le> length ptr"
  shows "slice_at ptr (uint n) (uint k) = Inr (take (unat k) (drop (unat n) ptr))"
proof -
  have "uint n + uint k \<le> int (length ptr)"
    using assms by (metis of_nat_add of_nat_le_iff of_nat_unat)
  then show ?thesis by (simp add: slice_at_def)
qed

lemma write_turn_run:
  assumes f: "files s fp = Some f" "fp \<noteq> 0" and w: "writes_to fs (session_of d) (fhandle f) got"
    and sz: "n < len" "0 < chunk" "chunk \<le> 0x4000" "unat len \<le> length ptr"
  shows "\<exists>k w'. 0 < k \<and> unat n + k \<le> unat len \<and>
    write_turn fs d fp ptr len chunk n s = Inr ((True, n + of_nat k), advance fp f k w' s) \<and>
    got w' = got (world s) @ take k (drop (unat n) ptr)"
proof -
  define sz where "sz = (if chunk < len - n then chunk else len - n)"
  note t = take_turn_size [OF sz(1-3), folded sz_def]
  define bs where "bs = take (unat sz) (drop (unat n) ptr)"
  have len: "length bs = unat sz" using t(3) sz(4) by (simp add: bs_def)
  have sl: "slice_at ptr (uint n) (uint sz) = Inr bs"
    using t(3) sz(4) unfolding bs_def by (intro slice_at_words) simp
  obtain k w' where k: "fs_write_file fs (session_of d) bs (fhandle f) (world s) = (int k, w')"
      "k \<le> length bs" "k = 0 \<longrightarrow> bs = []" "got w' = got (world s) @ take k bs"
    using w unfolding writes_to_def by meson
  have k0: "k \<noteq> 0" using k(3) len t(2) by (metis list.size(3) unat_eq_0)
  have "unat n + k \<le> unat len" using k(2) len t(3) by linarith
  moreover have "write_turn fs d fp ptr len chunk n s = Inr ((True, n + of_nat k), advance fp f k w' s)"
    unfolding write_turn_def sz_def [symmetric]
    using f sl k(1) k0 by (simp add: deref_def sysc_def advance_def put_file_def)
  moreover have "take k bs = take k (drop (unat n) ptr)" using k(2) len by (simp add: bs_def min_absorb1)
  ultimately show ?thesis using k(4) k0 by auto
qed

lemma write_loop_run:
  assumes f: "files s fp = Some f" "fp \<noteq> 0" and w: "writes_to fs (session_of d) (fhandle f) got"
    and sz: "n \<le> len" "0 < chunk" "chunk \<le> 0x4000" "unat len \<le> length ptr"
  shows "\<exists>w'. write_loop fs d fp ptr len chunk n s = Some (Inr (len, advance fp f (unat len - unat n) w' s)) \<and>
    got w' = got (world s) @ take (unat len - unat n) (drop (unat n) ptr)"
  using f w sz(1)
proof (induction "unat len - unat n" arbitrary: n s f rule: less_induct)
  case less
  show ?case
  proof (cases "n = len")
    case True
    then show ?thesis using less.prems(1)
      by (intro exI [of _ "world s"]) (simp add: write_loop.simps advance_0)
  next
    case False
    then have n: "n < len" using less.prems(4) by simp
    obtain k w' where k: "0 < k" "unat n + k \<le> unat len"
        "write_turn fs d fp ptr len chunk n s = Inr ((True, n + of_nat k), advance fp f k w' s)"
        "got w' = got (world s) @ take k (drop (unat n) ptr)"
      using write_turn_run [OF less.prems(1-3) n sz(2-4)] by blast
    have m: "unat (n + of_nat k) = unat n + k"
      using k(2) unsigned_less [where ?'a = nat, of len] by (simp add: unat_plus_if' unat_of_nat)
    let ?f = "f\<lparr>fpos := fpos f + of_nat k\<rparr>" and ?s = "advance fp f k w' s"
    have "files ?s fp = Some ?f" "writes_to fs (session_of d) (fhandle ?f) got" "n + of_nat k \<le> len"
      using less.prems(3) m k(2) by (simp_all add: advance_def word_le_nat_alt)
    note nxt = this(1) less.prems(2) this(2,3)
    have "unat len - unat (n + of_nat k) < unat len - unat n" using m k(1,2) by simp
    from less.hyps [OF this nxt] obtain v where v:
        "write_loop fs d fp ptr len chunk (n + of_nat k) ?s =
           Some (Inr (len, advance fp ?f (unat len - (unat n + k)) v ?s))"
        "got v = got (world ?s) @ take (unat len - (unat n + k)) (drop (unat n + k) ptr)"
      unfolding m by blast
    have ws: "world ?s = w'" by (simp add: advance_def)
    have e: "unat len - unat n = k + (unat len - (unat n + k))" using k(2) by simp
    have "take (unat len - unat n) (drop (unat n) ptr) =
        take k (drop (unat n) ptr) @ take (unat len - (unat n + k)) (drop (unat n + k) ptr)"
      by (subst e) (simp add: take_add add.commute)
    then show ?thesis using n k(3,4) v e ws
      by (intro exI [of _ v]) (simp add: write_loop.simps [of _ _ _ _ _ _ n] advance_advance del: of_nat_diff)
  qed
qed


lemma read_turn_run:
  assumes f: "files s fp = Some f" "fp \<noteq> 0" and w: "reads_from fs (session_of d) (fhandle f) rest"
    and sz: "n < len" "0 < chunk" "chunk \<le> 0x4000" "unat len \<le> length ptr" "length tmp = unat chunk"
  shows "\<exists>k w' tmp' ptr'. unat n + k \<le> unat len \<and> k \<le> length (rest (world s)) \<and> (k = 0 \<longrightarrow> rest (world s) = []) \<and>
    read_turn fs d fp len chunk (n, tmp, ptr) s =
      Inr ((0 < k, n + of_nat k, tmp', ptr'), advance fp f k w' s) \<and>
    length tmp' = length tmp \<and> length ptr' = length ptr \<and>
    take (unat n + k) ptr' = take (unat n) ptr @ take k (rest (world s)) \<and>
    drop (unat len) ptr' = drop (unat len) ptr \<and> rest w' = drop k (rest (world s))"
proof -
  define sz where "sz = (if chunk < len - n then chunk else len - n)"
  note t = take_turn_size [OF sz(1-3), folded sz_def]
  let ?r = "rest (world s)"
  obtain k w' where k: "fs_read_file fs (session_of d) sz (fhandle f) (world s) = ((int k, take k ?r), w')"
      "k \<le> unat sz" "k \<le> length ?r" "k = 0 \<longrightarrow> sz = 0 \<or> ?r = []" "rest w' = drop k ?r"
    using w unfolding reads_from_def by meson
  define tmp' where "tmp' = take k ?r @ drop k tmp"
  have lt: "length tmp' = length tmp" "unat sz \<le> length tmp'"
    using k(2,3) t(1) sz(5) by (simp_all add: tmp'_def)
  have w1: "write_at tmp 0 (take k ?r) = Inr tmp'"
    using k(2,3) t(1) sz(5) by (simp add: write_at_Inr_iff tmp'_def)
  have w2: "slice_at tmp' 0 (uint sz) = Inr (take (unat sz) tmp')"
    using slice_at_words [of 0 sz tmp'] lt(2) by simp
  define ptr' where "ptr' = take (unat n) ptr @ take (unat sz) tmp' @ drop (unat n + unat sz) ptr"
  have w3: "write_at ptr (uint n) (take (unat sz) tmp') = Inr ptr'"
    using t(3) sz(4) lt(2) by (simp add: write_at_Inr_iff ptr'_def min_absorb1)
  have "take k (take (unat sz) tmp') = take k ?r" using k(2,3) by (simp add: tmp'_def min_def)
  moreover have "unat n \<le> length ptr" using t(3) sz(4) by simp
  ultimately have p: "length ptr' = length ptr" "take (unat n + k) ptr' = take (unat n) ptr @ take k ?r"
      "drop (unat len) ptr' = drop (unat len) ptr"
    using t(3) sz(4) lt(2) k(2) by (simp_all add: ptr'_def min_absorb1 take_add)
  have r: "read_turn fs d fp len chunk (n, tmp, ptr) s =
      (if k = 0 then Inr ((False, n, tmp', ptr), s\<lparr>world := w'\<rparr>)
       else Inr ((True, n + of_nat k, tmp', ptr'), advance fp f k w' s))"
    unfolding read_turn_def prod.case sz_def [symmetric]
    using f k(1) w1 w2 w3 by (simp add: deref_def sysc_def advance_def put_file_def)
  have n: "unat n + k \<le> unat len" using k(2) t(3) by linarith
  show ?thesis
  proof (cases "k = 0")
    case True
    then show ?thesis using r k(4,5) t(2) lt(1) n f(1)
      by (intro exI [of _ 0] exI [of _ w'] exI [of _ tmp'] exI [of _ ptr]) (simp add: advance_0)
  next
    case False
    then show ?thesis using r k(3,5) lt(1) n p
      by (intro exI [of _ k] exI [of _ w'] exI [of _ tmp'] exI [of _ ptr']) simp
  qed
qed

lemma read_loop_run:
  assumes f: "files s fp = Some f" "fp \<noteq> 0" and w: "reads_from fs (session_of d) (fhandle f) rest"
    and sz: "n \<le> len" "0 < chunk" "chunk \<le> 0x4000" "unat len \<le> length ptr" "length tmp = unat chunk"
  defines "k \<equiv> min (unat len - unat n) (length (rest (world s)))"
  shows "\<exists>w' ptr'. read_loop fs d fp len chunk (n, tmp, ptr) s =
      Some (Inr ((n + of_nat k, ptr'), advance fp f k w' s)) \<and>
    length ptr' = length ptr \<and> take (unat n + k) ptr' = take (unat n) ptr @ take k (rest (world s)) \<and>
    drop (unat len) ptr' = drop (unat len) ptr \<and> rest w' = drop k (rest (world s))"
  using f w sz(1,4,5) unfolding k_def
proof (induction "unat len - unat n" arbitrary: n s f tmp ptr rule: less_induct)
  case less
  let ?r = "rest (world s)"
  show ?case
  proof (cases "n = len")
    case True
    then show ?thesis using less.prems(1)
      by (intro exI [of _ "world s"] exI [of _ ptr]) (simp add: read_loop.simps advance_0)
  next
    case False
    then have n: "n < len" using less.prems(4) by simp
    obtain k w' tmp' ptr' where k: "unat n + k \<le> unat len" "k \<le> length ?r" "k = 0 \<longrightarrow> ?r = []"
        "read_turn fs d fp len chunk (n, tmp, ptr) s = Inr ((0 < k, n + of_nat k, tmp', ptr'), advance fp f k w' s)"
        "length tmp' = length tmp" "length ptr' = length ptr"
        "take (unat n + k) ptr' = take (unat n) ptr @ take k ?r"
        "drop (unat len) ptr' = drop (unat len) ptr" "rest w' = drop k ?r"
      using read_turn_run [OF less.prems(1-3) n sz(2,3) less.prems(5,6)] by blast
    show ?thesis
    proof (cases "k = 0")
      case True
      then show ?thesis using n k
        by (intro exI [of _ w'] exI [of _ ptr']) (simp add: read_loop.simps)
    next
      case False
      have m: "unat (n + of_nat k) = unat n + k"
        using k(1) unsigned_less [where ?'a = nat, of len] by (simp add: unat_plus_if' unat_of_nat)
      let ?f = "f\<lparr>fpos := fpos f + of_nat k\<rparr>" and ?s = "advance fp f k w' s"
      have "files ?s fp = Some ?f" "reads_from fs (session_of d) (fhandle ?f) rest" "n + of_nat k \<le> len"
          "unat len \<le> length ptr'" "length tmp' = unat chunk"
        using less.prems(3,5,6) m k(1,5,6) by (simp_all add: advance_def word_le_nat_alt)
      note nxt = this(1) less.prems(2) this(2-5)
      have ws: "rest (world ?s) = drop k ?r" using k(9) by (simp add: advance_def)
      define j where "j = min (unat len - (unat n + k)) (length ?r - k)"
      have j: "min (unat len - unat n) (length ?r) = k + j" using k(1,2) unfolding j_def by linarith
      have "unat len - unat (n + of_nat k) < unat len - unat n" using m k(1) False by simp
      from less.hyps [OF this nxt, unfolded m ws length_drop, folded j_def] obtain v q where v:
          "read_loop fs d fp len chunk (n + of_nat k, tmp', ptr') ?s =
             Some (Inr ((n + of_nat k + of_nat j, q), advance fp ?f j v ?s))"
          "length q = length ptr'" "take (unat n + k + j) q = take (unat n + k) ptr' @ take j (drop k ?r)"
          "drop (unat len) q = drop (unat len) ptr'" "rest v = drop j (drop k ?r)"
        by blast
      have "take (k + j) ?r = take k ?r @ take j (drop k ?r)" by (rule take_add)
      then show ?thesis using n k(4,6-8) v False
        unfolding j by (intro exI [of _ v] exI [of _ q])
          (simp add: read_loop.simps [of _ _ _ _ _ "(n, tmp, ptr)"] advance_advance ac_simps)
    qed
  qed
qed


section \<open>Open files\<close>

definition file_ready ::
  "('w, 'z) fatfs_scheme \<Rightarrow> u32 \<Rightarrow> sd_fat_file_state \<Rightarrow> sd_fat_private \<Rightarrow> nat \<Rightarrow> bool" where
  "file_ready s fp f d m \<longleftrightarrow> fp \<noteq> 0 \<and> files s fp = Some f \<and> fdev f \<noteq> 0 \<and> privates s (fdev f) = Some d \<and>
     pMutex d \<noteq> 0 \<and> mutexes s (pMutex d) = Some m"

lemma file_readyD:
  assumes "file_ready s fp f d m"
  shows "deref (files s) fp = Inr f" "fdev f \<noteq> 0" "deref (privates s) (fdev f) = Inr d"
    "OSLockMutex (pMutex d) s = Inr (s\<lparr>mutexes := (mutexes s)(pMutex d \<mapsto> Suc m)\<rparr>)"
  using assms by (simp_all add: file_ready_def deref_def OSLockMutex_def)

lemma unlock_locked:
  assumes "file_ready s fp f d m" and "mutexes t = (mutexes s)(pMutex d \<mapsto> Suc m)"
  shows "OSUnlockMutex (pMutex d) t = Inr (t\<lparr>mutexes := mutexes s\<rparr>)"
proof -
  have "(mutexes s)(pMutex d \<mapsto> m) = mutexes s" using assms(1) by (simp add: file_ready_def fun_upd_idem)
  then show ?thesis using assms by (simp add: file_ready_def OSUnlockMutex_def deref_def)
qed

lemma locked_alloc:
  fixes s :: "('w, 'z) fatfs_scheme"
  assumes "file_ready s fp f d m"
  obtains t where "alloc (s\<lparr>mutexes := (mutexes s)(pMutex d \<mapsto> Suc m)\<rparr>) = (allocs s 0, t)"
    and "mutexes t = (mutexes s)(pMutex d \<mapsto> Suc m)" and "files t = files s" and "world t = world s"
    and "devoptab_list t = devoptab_list s" and "devoptabs t = devoptabs s" and "privates t = privates s"
    and "dirs t = dirs s" and "errno t = errno s"
  by (rule that [of "s\<lparr>mutexes := (mutexes s)(pMutex d \<mapsto> Suc m), allocs := (\<lambda>k. allocs s (Suc k))\<rparr>"])
    (simp_all add: alloc_def malloc_def)

text \<open>Nothing but the world, the coming addresses and one file's position changes.\<close>

definition moved :: "u32 \<Rightarrow> nat \<Rightarrow> ('w, 'z) fatfs_scheme \<Rightarrow> ('w, 'z) fatfs_scheme \<Rightarrow> bool" where
  "moved fp k s s' \<longleftrightarrow> devoptab_list s' = devoptab_list s \<and> devoptabs s' = devoptabs s \<and>
     privates s' = privates s \<and> mutexes s' = mutexes s \<and> dirs s' = dirs s \<and> errno s' = errno s \<and>
     files s' = (files s)(fp := map_option (\<lambda>f. f\<lparr>fpos := fpos f + of_nat k\<rparr>) (files s fp))"

section \<open>Properties\<close>

text \<open>C20: reading a file returns, with exactly the next bytes of the file: as many as asked for, or up to
  its end. They are at the front of the caller's memory, the memory behind the requested length is
  untouched, the position moves by the count and the device is unlocked again.\<close>

theorem read_delivers:
  assumes "file_ready s fp f d m" and "freadable f" and "reads_from fs (session_of d) (fhandle f) rest"
    and "\<forall>n w. \<exists>bs w'. fs_fresh fs n w = (bs, w') \<and> length bs = nat n \<and> rest w' = rest w"
    and "allocs s 0 \<noteq> 0" and "unat len \<le> length ptr" and "0 < len" and "len \<le> 0xFFFFFFC0"
  shows "\<exists>ptr' s'. let k = min (unat len) (length (rest (world s))) in
    sd_fat_read_r fs fp ptr len s = Some (Inr ((of_nat k, ptr'), s')) \<and>
    take k ptr' = take k (rest (world s)) \<and> drop (unat len) ptr' = drop (unat len) ptr \<and>
    length ptr' = length ptr \<and> rest (world s') = drop k (rest (world s)) \<and> moved fp k s s'"
proof -
  note r = file_readyD [OF assms(1)]
  obtain t where a: "alloc (s\<lparr>mutexes := (mutexes s)(pMutex d \<mapsto> Suc m)\<rparr>) = (allocs s 0, t)"
      and t: "mutexes t = (mutexes s)(pMutex d \<mapsto> Suc m)" "files t = files s" "world t = world s"
        "devoptab_list t = devoptab_list s" "devoptabs t = devoptabs s" "privates t = privates s"
        "dirs t = dirs s" "errno t = errno s"
    by (rule locked_alloc [OF assms(1)])
  obtain bs w where b: "fs_fresh fs (uint (chunk_size len)) (world t) = (bs, w)"
      "length bs = unat (chunk_size len)" "rest w = rest (world t)"
    using assms(4) by (metis nat_uint_eq)
  let ?t = "t\<lparr>world := w\<rparr>"
  have f: "files ?t fp = Some f" "fp \<noteq> 0" "files s fp = Some f" and tw: "rest (world ?t) = rest (world s)"
    using assms(1) b(3) t(2,3) by (simp_all add: file_ready_def)
  note c = chunk_size_bounds [OF assms(8,7)]
  define k where "k = min (unat len) (length (rest (world s)))"
  have z: "unat len - unat (0 :: u32) = unat len" "unat (0 :: u32) + j = j" "take (unat (0 :: u32)) ptr = []" for j
    by simp_all
  obtain w' ptr' where l: "read_loop fs d fp len (chunk_size len) (0, bs, ptr) ?t =
        Some (Inr ((of_nat k, ptr'), advance fp f k w' ?t))"
      "length ptr' = length ptr" "take k ptr' = take k (rest (world s))"
      "drop (unat len) ptr' = drop (unat len) ptr" "rest w' = drop k (rest (world s))"
    using read_loop_run [OF f(1,2) assms(3) word_zero_le c assms(6) b(2), unfolded tw z, folded k_def]
    by auto
  let ?u = "(advance fp f k w' ?t)\<lparr>mutexes := mutexes s\<rparr>"
  have u: "OSUnlockMutex (pMutex d) (advance fp f k w' ?t) = Inr ?u"
    by (rule unlock_locked [OF assms(1)]) (simp add: advance_def t)
  have "sd_fat_read_r fs fp ptr len s = Some (Inr ((of_nat k, ptr'), ?u))"
    using r a b(1) l(1) u assms(2,5) by (simp add: sd_fat_read_r_def sysc_def)
  moreover have "moved fp k s ?u"
    using f(3) t by (simp add: moved_def advance_def)
  ultimately show ?thesis
    using l(2-5) unfolding Let_def k_def [symmetric]
    by (intro exI [of _ ptr'] exI [of _ ?u]) (simp add: advance_def)
qed

text \<open>C21: writing a file returns, with all bytes written: the service has received exactly the first
  \<open>len\<close> bytes of the caller's memory, in order and once each, the position moves by the count and the
  device is unlocked again.\<close>

theorem write_appends:
  assumes "file_ready s fp f d m" and "fwritable f" and "writes_to fs (session_of d) (fhandle f) got"
    and "allocs s 0 \<noteq> 0" and "unat len \<le> length ptr" and "0 < len" and "len \<le> 0xFFFFFFC0"
  shows "\<exists>s'. sd_fat_write_r fs fp ptr len s = Some (Inr (len, s')) \<and>
    got (world s') = got (world s) @ take (unat len) ptr \<and> moved fp (unat len) s s'"
proof -
  note r = file_readyD [OF assms(1)]
  obtain t where a: "alloc (s\<lparr>mutexes := (mutexes s)(pMutex d \<mapsto> Suc m)\<rparr>) = (allocs s 0, t)"
      and t: "mutexes t = (mutexes s)(pMutex d \<mapsto> Suc m)" "files t = files s" "world t = world s"
        "devoptab_list t = devoptab_list s" "devoptabs t = devoptabs s" "privates t = privates s"
        "dirs t = dirs s" "errno t = errno s"
    by (rule locked_alloc [OF assms(1)])
  have f: "files t fp = Some f" "fp \<noteq> 0" "files s fp = Some f"
    using assms(1) t(2) by (simp_all add: file_ready_def)
  note c = chunk_size_bounds [OF assms(7,6)]
  obtain w' where l: "write_loop fs d fp ptr len (chunk_size len) 0 t = Some (Inr (len, advance fp f (unat len) w' t))"
      "got w' = got (world s) @ take (unat len) ptr"
    using write_loop_run [OF f(1,2) assms(3) word_zero_le c assms(5)] t(3) by auto
  let ?u = "(advance fp f (unat len) w' t)\<lparr>mutexes := mutexes s\<rparr>"
  have u: "OSUnlockMutex (pMutex d) (advance fp f (unat len) w' t) = Inr ?u"
    by (rule unlock_locked [OF assms(1)]) (simp add: advance_def t)
  have "sd_fat_write_r fs fp ptr len s = Some (Inr (len, ?u))"
    using r a l(1) u assms(2,4) by (simp add: sd_fat_write_r_def)
  moreover have "moved fp (unat len) s ?u"
    using f(3) t by (simp add: moved_def advance_def)
  ultimately show ?thesis
    using l(2) by (intro exI [of _ ?u]) (simp add: advance_def)
qed


lemma open_mode_fields:
  assumes "open_mode flags f = Some (mode, g)"
  shows "fdev g = fdev f" "freadable g \<longleftrightarrow> flags AND 3 \<noteq> O_WRONLY" "fwritable g \<longleftrightarrow> flags AND 3 \<noteq> O_RDONLY"
    "fappend g \<longleftrightarrow> fwritable g \<and> flags AND O_APPEND \<noteq> 0"
  using assms by (auto simp: open_mode_def Let_def O_RDONLY_def O_WRONLY_def O_RDWR_def split: if_splits)

lemma lock_Inr:
  "OSLockMutex p s = Inr s' \<longleftrightarrow> p \<noteq> 0 \<and> (\<exists>m. mutexes s p = Some m \<and> s' = s\<lparr>mutexes := (mutexes s)(p \<mapsto> Suc m)\<rparr>)"
  by (auto simp: OSLockMutex_def fault_simps deref_Inr)

lemma unlock_Inr:
  "OSUnlockMutex p s = Inr s' \<longleftrightarrow> p \<noteq> 0 \<and> (\<exists>m. mutexes s p = Some m \<and> s' = s\<lparr>mutexes := (mutexes s)(p \<mapsto> m - 1)\<rparr>)"
  by (auto simp: OSUnlockMutex_def fault_simps deref_Inr)

lemma real_path_Inr:
  "sd_fat_real_path (Some path) dev s = Inr (rp, s') \<longleftrightarrow>
   (\<exists>d. dev \<noteq> 0 \<and> privates s dev = Some d \<and> s' = snd (alloc s) \<and>
     rp = (if allocs s 0 = 0 then None else Some (mount_path d @ local_path path)))"
  by (auto simp: sd_fat_real_path_def fault_simps deref_Inr alloc_def malloc_def Let_def)

lemma alloc_fields [simp]:
  "mutexes (snd (alloc s)) = mutexes s" "files (snd (alloc s)) = files s" "privates (snd (alloc s)) = privates s"
  "world (snd (alloc s)) = world s" "devoptab_list (snd (alloc s)) = devoptab_list s"
  "devoptabs (snd (alloc s)) = devoptabs s" "dirs (snd (alloc s)) = dirs s" "errno (snd (alloc s)) = errno s"
  by (simp_all add: alloc_def malloc_def)

text \<open>A file that opens is ready for use: it is attached to the device the path names, starts at position 0
  with the size the service reports, may be read and written exactly as the access mode in the flags
  says, appends only when it may be written, and the device is left unlocked.\<close>

theorem open_gives_ready_file:
  assumes "sd_fat_open_r fs fp path flags s = Inr (r, s')" and "r \<noteq> -1"
  shows "\<exists>f d m. file_ready s' fp f d m \<and> sd_fat_get_device_data path s = Inr (fdev f) \<and> fpos f = 0 \<and>
    (freadable f \<longleftrightarrow> flags AND 3 \<noteq> O_WRONLY) \<and> (fwritable f \<longleftrightarrow> flags AND 3 \<noteq> O_RDONLY) \<and>
    (fappend f \<longleftrightarrow> fwritable f \<and> flags AND O_APPEND \<noteq> 0) \<and> mutexes s' = mutexes s \<and>
    (\<exists>stats w. fst (fs_get_stat_file fs (session_of d) (fhandle f) w) = (0, stats) \<and> flen f = ucast (fss_size stats))"
proof -
  obtain dev where dev: "sd_fat_get_device_data path s = Inr dev" "dev \<noteq> 0"
    using assms by (auto simp: sd_fat_open_r_def fault_simps split: if_splits)
  obtain f where f: "files s fp = Some f" "fp \<noteq> 0"
    using assms dev by (auto simp: sd_fat_open_r_def fault_simps deref_Inr)
  let ?f = "f\<lparr>fdev := dev, fflags := flags\<rparr>"
  obtain mode g where g: "open_mode flags ?f = Some (mode, g)"
    using assms dev f by (cases "open_mode flags ?f") (auto simp: sd_fat_open_r_def deref_def)
  let ?s = "put_file fp g s"
  obtain d m where d: "privates s dev = Some d" "pMutex d \<noteq> 0" "mutexes s (pMutex d) = Some m"
    using assms dev f g
    by (auto simp: sd_fat_open_r_def fault_simps deref_Inr lock_Inr put_file_def)
  let ?l = "?s\<lparr>mutexes := (mutexes s)(pMutex d \<mapsto> Suc m)\<rparr>"
  define rp where "rp = (if allocs s 0 = 0 then None else Some (mount_path d @ local_path path))"
  define t where "t = snd (alloc ?l)"
  obtain q fd w where o1: "fs_open_file fs (session_of d) rp mode (world t) = ((q, fd), w)"
    by (metis prod.exhaust)
  obtain e stats w2 where st: "fs_get_stat_file fs (session_of d) fd w = ((e, stats), w2)"
    by (metis prod.exhaust)
  have l: "OSLockMutex (pMutex d) ?s = Inr ?l" using d by (simp add: lock_Inr put_file_def)
  have rpr: "sd_fat_real_path (Some path) dev ?l = Inr (rp, t)"
    using d dev(2) by (simp add: real_path_Inr rp_def t_def put_file_def)
  have tm: "mutexes t = (mutexes s)(pMutex d \<mapsto> Suc m)" "files t = (files s)(fp \<mapsto> g)" "privates t = privates s"
    by (simp_all add: t_def put_file_def)
  note run = assms(1) [unfolded sd_fat_open_r_def dev(1) bindF.simps if_not_P [OF dev(2)]]
  have qe: "q = 0" "e = 0"
    using run assms(2) f g d dev(2) l rpr o1 st
    by (auto simp: deref_def Let_def sysc_def fault_simps put_file_def split: if_splits prod.splits)
  let ?g = "g\<lparr>fhandle := fd, fpos := 0, flen := ucast (fss_size stats)\<rparr>"
  have "s' = (put_file fp ?g (t\<lparr>world := w2\<rparr>))\<lparr>mutexes := mutexes s\<rparr>"
  proof -
    have "(mutexes s)(pMutex d \<mapsto> m) = mutexes s" using d(3) by (simp add: fun_upd_idem)
    then show ?thesis
      using run f g d dev(2) l rpr o1 st qe tm
      by (auto simp: deref_def Let_def sysc_def fault_simps unlock_Inr put_file_def)
  qed
  then show ?thesis
    using dev f(2) d st qe open_mode_fields [OF g] tm
    by (intro exI [of _ ?g] exI [of _ d] exI [of _ m])
      (auto simp: file_ready_def put_file_def intro!: exI [of _ stats] exI [of _ w])
qed


text \<open>Seeking with a known direction moves the position relative to the start, the position or the
  size, as asked, in 64 bit arithmetic, hands its low 32 bits to the service, and unlocks the device;
  with any other direction the call fails and leaves the device locked once more than before.\<close>

theorem seek_outcomes:
  assumes "file_ready s fp f d m"
  shows "if dir \<in> {SEEK_SET, SEEK_CUR, SEEK_END} then
      (let p = word_of_int (pos + (if dir = SEEK_SET then 0 else if dir = SEEK_CUR then uint (fpos f) else uint (flen f)));
           (e, w) = fs_set_pos_file fs (session_of d) (fhandle f) (ucast p) (world s) in
       sd_fat_seek_r fs fp pos dir s = Inr (if e = 0 then sint p else e,
         s\<lparr>world := w, files := (files s)(fp \<mapsto> f\<lparr>fpos := p\<rparr>)\<rparr>))
    else \<exists>s'. sd_fat_seek_r fs fp pos dir s = Inr (-1, s') \<and> errno s' = EINVAL \<and>
      mutexes s' (pMutex d) = Some (Suc m)"
proof (cases "dir \<in> {SEEK_SET, SEEK_CUR, SEEK_END}")
  case False
  then show ?thesis
    using file_readyD [OF assms] by (simp add: sd_fat_seek_r_def set_errno_def)
next
  case True
  define p where "p = (if dir = SEEK_SET then 0 else if dir = SEEK_CUR then fpos f else flen f) + word_of_int pos"
  have p: "word_of_int (pos + (if dir = SEEK_SET then 0 else if dir = SEEK_CUR then uint (fpos f) else uint (flen f))) = p"
    by (simp add: p_def)
  have dir: "\<not> (dir \<noteq> SEEK_SET \<and> dir \<noteq> SEEK_CUR \<and> dir \<noteq> SEEK_END)" using True by blast
  obtain e w where e: "fs_set_pos_file fs (session_of d) (fhandle f) (ucast p) (world s) = (e, w)" by fastforce
  let ?t = "(put_file fp (f\<lparr>fpos := p\<rparr>) (s\<lparr>mutexes := (mutexes s)(pMutex d \<mapsto> Suc m)\<rparr>))\<lparr>world := w\<rparr>"
  have u: "OSUnlockMutex (pMutex d) ?t = Inr (?t\<lparr>mutexes := mutexes s\<rparr>)"
    by (rule unlock_locked [OF assms]) (simp add: put_file_def)
  have eq: "?t\<lparr>mutexes := mutexes s\<rparr> = s\<lparr>world := w, files := (files s)(fp \<mapsto> f\<lparr>fpos := p\<rparr>)\<rparr>"
    by (simp add: put_file_def)
  have "sd_fat_seek_r fs fp pos dir s = Inr (if e = 0 then sint p else e, ?t\<lparr>mutexes := mutexes s\<rparr>)"
    unfolding sd_fat_seek_r_def file_readyD [OF assms] bindF.simps if_not_P [OF file_readyD(2) [OF assms]]
      if_not_P [OF dir] Let_def p_def [symmetric]
    using e u by (simp add: sysc_def put_file_def)
  then show ?thesis unfolding p eq if_P [OF True] Let_def e prod.case by simp
qed

section \<open>The properties on the small service\<close>

definition file0 :: sd_fat_file_state where
  "file0 = \<lparr>fdev = 128, fhandle = 5, fflags = 2, freadable = True, fwritable = True, fappend = False,
     fpos = 10, flen = 700\<rparr>"

definition priv0 :: sd_fat_private where
  "priv0 = \<lparr>mount_path = ''/vol/sd'', pClient = 3, pCmd = 4, pMutex = 192\<rparr>"

definition mounted0 :: "card \<Rightarrow> card fatfs" where
  "mounted0 w = \<lparr>world = w, allocs = (\<lambda>_. 512), devoptab_list = [1, 2, 2, 64, 1, 1],
     devoptabs = [1 \<mapsto> \<lparr>dev_name = Some ''stdnull'', deviceData = 0\<rparr>,
       64 \<mapsto> \<lparr>dev_name = Some ''sd'', deviceData = 128\<rparr>],
     privates = [128 \<mapsto> priv0], mutexes = [192 \<mapsto> 0], files = [256 \<mapsto> file0],
     dirs = [320 \<mapsto> \<lparr>ddev = 128, dirHandle = 6\<rparr>], errno = FS_error 0\<rparr>"

definition card0 :: "string \<Rightarrow> card" where
  "card0 t = \<lparr>unread = t, written = [], calls = []\<rparr>"

lemma mounted0_ready: "file_ready (mounted0 w) 256 file0 priv0 0"
  by (simp add: file_ready_def mounted0_def file0_def priv0_def)

lemma mounted0_fields [simp]: "world (mounted0 w) = w" "allocs (mounted0 w) = (\<lambda>_. 512)"
  by (simp_all add: mounted0_def)

lemma card_reads: "reads_from card_fs c h unread"
  by (auto simp: reads_from_def card_fs_def Let_def min_def unat_eq_0)

lemma card_writes: "writes_to card_fs c h written"
  by (auto simp: writes_to_def card_fs_def)

theorem read_delivers_witness:
  "\<exists>ptr' s'. sd_fat_read_r card_fs 256 (replicate 16 NUL) 16 (mounted0 (card0 ''hello'')) = Some (Inr ((5, ptr'), s')) \<and>
    take 5 ptr' = ''hello''"
proof -
  have "\<forall>n w. \<exists>bs w'. fs_fresh card_fs n w = (bs, w') \<and> length bs = nat n \<and> unread w' = unread w"
    by (simp add: card_fs_def)
  note r = read_delivers [OF mounted0_ready _ card_reads this, of "card0 ''hello''" 16 "replicate 16 NUL"]
  have "min (unat (16 :: u32)) (length (unread (world (mounted0 (card0 ''hello''))))) = 5"
    by (simp add: card0_def)
  from r [unfolded Let_def this] show ?thesis by (auto simp: file0_def card0_def)
qed

theorem write_appends_witness:
  "\<exists>s'. sd_fat_write_r card_fs 256 ''hello'' 5 (mounted0 (card0 [])) = Some (Inr (5, s')) \<and>
    written (world s') = ''hello''"
  using write_appends [OF mounted0_ready _ card_writes, of "card0 []" 5 "''hello''"]
  by (auto simp: file0_def card0_def)

theorem open_gives_ready_file_witness:
  "\<exists>s' f d m. sd_fat_open_r card_fs 256 ''sd:/a.txt'' 0 (mounted0 (card0 [])) = Inr (256, s') \<and>
    file_ready s' 256 f d m \<and> freadable f \<and> \<not> fwritable f"
proof -
  let ?r = "sd_fat_open_r card_fs 256 ''sd:/a.txt'' 0 (mounted0 (card0 []))"
  have "mapF fst ?r = Inr 256" by code_simp
  then obtain s' where s': "?r = Inr (256, s')" by (cases ?r) auto
  from open_gives_ready_file [OF this] show ?thesis
    using s' by (fastforce simp: O_RDONLY_def O_WRONLY_def)
qed

theorem seek_outcomes_witness:
  "sd_fat_seek_r card_fs 256 5 SEEK_END (mounted0 (card0 [])) =
     Inr (705, (mounted0 (card0 []))\<lparr>files := [256 \<mapsto> file0\<lparr>fpos := 705\<rparr>]\<rparr>) \<and>
   (\<exists>s'. sd_fat_seek_r card_fs 256 5 7 (mounted0 (card0 [])) = Inr (-1, s') \<and> mutexes s' 192 = Some 1)"
proof -
  have f: "fs_set_pos_file card_fs c h p w = (0, w)" for c h p w by (simp add: card_fs_def)
  have d: "SEEK_END \<in> {SEEK_SET, SEEK_CUR, SEEK_END}" "7 \<notin> {SEEK_SET, SEEK_CUR, SEEK_END}"
      "SEEK_END \<noteq> SEEK_SET" "SEEK_END \<noteq> SEEK_CUR"
    by (simp_all add: SEEK_SET_def SEEK_CUR_def SEEK_END_def)
  have e: "(mounted0 w)\<lparr>world := w, files := (files (mounted0 w))(256 \<mapsto> g)\<rparr> =
      (mounted0 w)\<lparr>files := [256 \<mapsto> g]\<rparr>" for w g
    by (simp add: mounted0_def)
  show ?thesis
    using seek_outcomes [OF mounted0_ready, of SEEK_END 5 card_fs "card0 []"]
      seek_outcomes [OF mounted0_ready, of 7 5 card_fs "card0 []"]
    unfolding if_P [OF d(1)] if_not_P [OF d(2)]
    using d(3,4) f e by (auto simp: file0_def priv0_def Let_def)
qed

end
