(* ===== verification/FatDir.thy ===== *)
theory FatDir
  imports FatFile
begin

text \<open>
  The operations of the SD driver on paths and directories (\<open>fs/sd_fat_devoptab.c\<close>): stat, link,
  unlink, chdir, rename, mkdir, statvfs and the four directory operations, and the table of the
  driver. The operations that hand one path to the service share a contract, stated as a locale.
\<close>

section \<open>Operations on paths\<close>

text \<open>
  \<open>real_path\<close> is freed before its length is taken for the test for the root; the test is only
  reached when the directory flag is not set.
\<close>

definition sd_fat_stat_r ::
  "'w fs \<Rightarrow> string \<Rightarrow> c_stat \<Rightarrow> ('w, 'z) fatfs_scheme \<Rightarrow> fault + (int \<times> c_stat) \<times> ('w, 'z) fatfs_scheme" where
  "sd_fat_stat_r fs path st s =
     bindF (sd_fat_get_device_data path s) (\<lambda>dev.
     if dev = 0 then Inr ((-1, st), set_errno ENODEV s)
     else
       bindF (deref (privates s) dev) (\<lambda>d.
       bindF (OSLockMutex (pMutex d) s) (\<lambda>s.
       bindF (sd_fat_real_path (Some path) dev s) (\<lambda>(real_path, s).
       case real_path of
         None \<Rightarrow> bindF (OSUnlockMutex (pMutex d) (set_errno ENOMEM s)) (\<lambda>s. Inr ((-1, zero_stat), s))
       | Some rp \<Rightarrow>
           let ((result, stats), s) = sysc (fs_get_stat fs (session_of d) rp) s in
           if result < 0 then
             bindF (OSUnlockMutex (pMutex d) (set_errno (FS_error result) s)) (\<lambda>s. Inr ((-1, zero_stat), s))
           else if fss_flag stats AND 0x80000000 \<noteq> 0 then
             bindF (OSUnlockMutex (pMutex d) s) (\<lambda>s. Inr ((0, fill_stat S_IFDIR stats), s))
           else Inl Use_after_free))))"

definition sd_fat_link_r ::
  "string \<Rightarrow> string \<Rightarrow> ('w, 'z) fatfs_scheme \<Rightarrow> fault + int \<times> ('w, 'z) fatfs_scheme" where
  "sd_fat_link_r existing newLink s = Inr (-1, set_errno ENOTSUP s)"

definition sd_fat_unlink_r ::
  "'w fs \<Rightarrow> string \<Rightarrow> ('w, 'z) fatfs_scheme \<Rightarrow> fault + int \<times> ('w, 'z) fatfs_scheme" where
  "sd_fat_unlink_r fs name s =
     bindF (sd_fat_get_device_data name s) (\<lambda>dev.
     if dev = 0 then Inr (-1, set_errno ENODEV s)
     else
       bindF (deref (privates s) dev) (\<lambda>d.
       bindF (OSLockMutex (pMutex d) s) (\<lambda>s.
       bindF (sd_fat_real_path (Some name) dev s) (\<lambda>(real_path, s).
       case real_path of
         None \<Rightarrow> bindF (OSUnlockMutex (pMutex d) (set_errno ENOMEM s)) (\<lambda>s. Inr (-1, s))
       | Some rp \<Rightarrow>
           let (result, s) = sysc (fs_remove fs (session_of d) rp) s in
           bindF (OSUnlockMutex (pMutex d) s) (\<lambda>s.
           if result < 0 then Inr (-1, set_errno (FS_error result) s) else Inr (0, s))))))"

definition sd_fat_chdir_r ::
  "'w fs \<Rightarrow> string \<Rightarrow> ('w, 'z) fatfs_scheme \<Rightarrow> fault + int \<times> ('w, 'z) fatfs_scheme" where
  "sd_fat_chdir_r fs name s =
     bindF (sd_fat_get_device_data name s) (\<lambda>dev.
     if dev = 0 then Inr (-1, set_errno ENODEV s)
     else
       bindF (deref (privates s) dev) (\<lambda>d.
       bindF (OSLockMutex (pMutex d) s) (\<lambda>s.
       bindF (sd_fat_real_path (Some name) dev s) (\<lambda>(real_path, s).
       case real_path of
         None \<Rightarrow> bindF (OSUnlockMutex (pMutex d) (set_errno ENOMEM s)) (\<lambda>s. Inr (-1, s))
       | Some rp \<Rightarrow>
           let (result, s) = sysc (fs_change_dir fs (session_of d) rp) s in
           bindF (OSUnlockMutex (pMutex d) s) (\<lambda>s.
           if result < 0 then Inr (-1, set_errno (FS_error result) s) else Inr (0, s))))))"

definition sd_fat_rename_r ::
  "'w fs \<Rightarrow> string \<Rightarrow> string \<Rightarrow> ('w, 'z) fatfs_scheme \<Rightarrow> fault + int \<times> ('w, 'z) fatfs_scheme" where
  "sd_fat_rename_r fs oldName newName s =
     bindF (sd_fat_get_device_data oldName s) (\<lambda>dev.
     if dev = 0 then Inr (-1, set_errno ENODEV s)
     else
       bindF (deref (privates s) dev) (\<lambda>d.
       bindF (OSLockMutex (pMutex d) s) (\<lambda>s.
       bindF (sd_fat_real_path (Some oldName) dev s) (\<lambda>(real_oldpath, s).
       case real_oldpath of
         None \<Rightarrow> bindF (OSUnlockMutex (pMutex d) (set_errno ENOMEM s)) (\<lambda>s. Inr (-1, s))
       | Some ro \<Rightarrow>
           bindF (sd_fat_real_path (Some newName) dev s) (\<lambda>(real_newpath, s).
           case real_newpath of
             None \<Rightarrow> bindF (OSUnlockMutex (pMutex d) (set_errno ENOMEM s)) (\<lambda>s. Inr (-1, s))
           | Some rn \<Rightarrow>
               let (result, s) = sysc (fs_rename fs (session_of d) ro rn) s in
               bindF (OSUnlockMutex (pMutex d) s) (\<lambda>s.
               if result < 0 then Inr (-1, set_errno (FS_error result) s) else Inr (0, s)))))))"

definition sd_fat_mkdir_r ::
  "'w fs \<Rightarrow> string \<Rightarrow> u32 \<Rightarrow> ('w, 'z) fatfs_scheme \<Rightarrow> fault + int \<times> ('w, 'z) fatfs_scheme" where
  "sd_fat_mkdir_r fs path mode s =
     bindF (sd_fat_get_device_data path s) (\<lambda>dev.
     if dev = 0 then Inr (-1, set_errno ENODEV s)
     else
       bindF (deref (privates s) dev) (\<lambda>d.
       bindF (OSLockMutex (pMutex d) s) (\<lambda>s.
       bindF (sd_fat_real_path (Some path) dev s) (\<lambda>(real_path, s).
       case real_path of
         None \<Rightarrow> bindF (OSUnlockMutex (pMutex d) (set_errno ENOMEM s)) (\<lambda>s. Inr (-1, s))
       | Some rp \<Rightarrow>
           let (result, s) = sysc (fs_make_dir fs (session_of d) rp) s in
           bindF (OSUnlockMutex (pMutex d) s) (\<lambda>s.
           if result < 0 then Inr (-1, set_errno (FS_error result) s) else Inr (0, s))))))"

record c_statvfs =
  f_bsize :: u32
  f_frsize :: u32
  f_blocks :: "64 word"
  f_bfree :: "64 word"
  f_bavail :: "64 word"
  f_files :: u32
  f_ffree :: u32
  f_fsid :: u32
  f_flag :: u32
  f_namemax :: u32

definition zero_statvfs :: c_statvfs where
  "zero_statvfs = \<lparr>f_bsize = 0, f_frsize = 0, f_blocks = 0, f_bfree = 0, f_bavail = 0, f_files = 0,
     f_ffree = 0, f_fsid = 0, f_flag = 0, f_namemax = 0\<rparr>"

definition sd_fat_statvfs_r ::
  "'w fs \<Rightarrow> string \<Rightarrow> c_statvfs \<Rightarrow> ('w, 'z) fatfs_scheme \<Rightarrow>
   fault + (int \<times> c_statvfs) \<times> ('w, 'z) fatfs_scheme" where
  "sd_fat_statvfs_r fs path buf s =
     bindF (sd_fat_get_device_data path s) (\<lambda>dev.
     if dev = 0 then Inr ((-1, buf), set_errno ENODEV s)
     else
       bindF (deref (privates s) dev) (\<lambda>d.
       bindF (OSLockMutex (pMutex d) s) (\<lambda>s.
       bindF (sd_fat_real_path (Some path) dev s) (\<lambda>(real_path, s).
       case real_path of
         None \<Rightarrow> bindF (OSUnlockMutex (pMutex d) (set_errno ENOMEM s)) (\<lambda>s. Inr ((-1, zero_statvfs), s))
       | Some rp \<Rightarrow>
           let ((result, size), s) = sysc (fs_get_free_space fs (session_of d) rp) s in
           if result < 0 then
             bindF (OSUnlockMutex (pMutex d) (set_errno (FS_error result) s)) (\<lambda>s. Inr ((-1, zero_statvfs), s))
           else
             bindF (OSUnlockMutex (pMutex d) s) (\<lambda>s.
             Inr ((0, \<lparr>f_bsize = 512, f_frsize = 512, f_blocks = drop_bit 9 size, f_bfree = drop_bit 9 size,
                      f_bavail = drop_bit 9 size, f_files = 0xffffffff, f_ffree = 0xffffffff, f_fsid = dev,
                      f_flag = 0, f_namemax = 255\<rparr>), s))))))"

section \<open>Directories\<close>

text \<open>The result is the address of the directory state, null on failure.\<close>

definition sd_fat_diropen_r ::
  "'w fs \<Rightarrow> u32 \<Rightarrow> string \<Rightarrow> ('w, 'z) fatfs_scheme \<Rightarrow> fault + u32 \<times> ('w, 'z) fatfs_scheme" where
  "sd_fat_diropen_r fs dirState path s =
     bindF (sd_fat_get_device_data path s) (\<lambda>dev.
     if dev = 0 then Inr (0, set_errno ENODEV s)
     else
       bindF (deref (privates s) dev) (\<lambda>d.
       bindF (OSLockMutex (pMutex d) s) (\<lambda>s.
       bindF (sd_fat_real_path (Some path) dev s) (\<lambda>(real_path, s).
       case real_path of
         None \<Rightarrow> bindF (OSUnlockMutex (pMutex d) (set_errno ENOMEM s)) (\<lambda>s. Inr (0, s))
       | Some rp \<Rightarrow>
           let ((result, h), s) = sysc (fs_open_dir fs (session_of d) rp) s in
           bindF (OSUnlockMutex (pMutex d) s) (\<lambda>s.
           if result < 0 then Inr (0, set_errno (FS_error result) s)
           else
             bindF (deref (dirs s) dirState) (\<lambda>_.
             Inr (dirState, s\<lparr>dirs := (dirs s)(dirState \<mapsto> \<lparr>ddev = dev, dirHandle = h\<rparr>)\<rparr>)))))))"

definition sd_fat_dirclose_r ::
  "'w fs \<Rightarrow> u32 \<Rightarrow> ('w, 'z) fatfs_scheme \<Rightarrow> fault + int \<times> ('w, 'z) fatfs_scheme" where
  "sd_fat_dirclose_r fs dirState s =
     bindF (deref (dirs s) dirState) (\<lambda>it.
     if ddev it = 0 then Inr (-1, set_errno ENODEV s)
     else
       bindF (deref (privates s) (ddev it)) (\<lambda>d.
       bindF (OSLockMutex (pMutex d) s) (\<lambda>s.
       let (result, s) = sysc (fs_close_dir fs (session_of d) (dirHandle it)) s in
       bindF (OSUnlockMutex (pMutex d) s) (\<lambda>s.
       if result < 0 then Inr (-1, set_errno (FS_error result) s) else Inr (0, s)))))"

definition sd_fat_dirreset_r ::
  "'w fs \<Rightarrow> u32 \<Rightarrow> ('w, 'z) fatfs_scheme \<Rightarrow> fault + int \<times> ('w, 'z) fatfs_scheme" where
  "sd_fat_dirreset_r fs dirState s =
     bindF (deref (dirs s) dirState) (\<lambda>it.
     if ddev it = 0 then Inr (-1, set_errno ENODEV s)
     else
       bindF (deref (privates s) (ddev it)) (\<lambda>d.
       bindF (OSLockMutex (pMutex d) s) (\<lambda>s.
       let (result, s) = sysc (fs_rewind_dir fs (session_of d) (dirHandle it)) s in
       bindF (OSUnlockMutex (pMutex d) s) (\<lambda>s.
       if result < 0 then Inr (-1, set_errno (FS_error result) s) else Inr (0, s)))))"

text \<open>
  The result, the file name written (\<open>None\<close> if none is) and the caller's \<open>stat\<close> structure, itself
  \<open>None\<close> for a null pointer. The block for the entry is not tested for null.
\<close>

definition sd_fat_dirnext_r ::
  "'w fs \<Rightarrow> u32 \<Rightarrow> c_stat option \<Rightarrow> ('w, 'z) fatfs_scheme \<Rightarrow>
   fault + (int \<times> string option \<times> c_stat option) \<times> ('w, 'z) fatfs_scheme" where
  "sd_fat_dirnext_r fs dirState st s =
     bindF (deref (dirs s) dirState) (\<lambda>it.
     if ddev it = 0 then Inr ((-1, None, st), set_errno ENODEV s)
     else
       bindF (deref (privates s) (ddev it)) (\<lambda>d.
       bindF (OSLockMutex (pMutex d) s) (\<lambda>s.
       let (dir_entry, s) = alloc s;
           ((result, ent), s) = sysc (fs_read_dir fs (session_of d) (dirHandle it) (dir_entry \<noteq> 0)) s in
       if result < 0 then
         bindF (OSUnlockMutex (pMutex d) (set_errno (FS_error result) s)) (\<lambda>s. Inr ((-1, None, st), s))
       else if dir_entry = 0 then Inl Null_pointer
       else
         bindF (c_str (ent_name ent)) (\<lambda>name.
         let st = (case st of None \<Rightarrow> None
                   | Some _ \<Rightarrow> Some (fill_stat (if fss_flag (ent_stat ent) AND 0x80000000 \<noteq> 0 then S_IFDIR
                                              else S_IFREG) (ent_stat ent))) in
         bindF (OSUnlockMutex (pMutex d) s) (\<lambda>s. Inr ((0, Some name, st), s))))))"

section \<open>The table of the driver\<close>

text \<open>The operations the C library calls for a device of the driver, in the order of the table.\<close>

record ('w, 'z) driver =
  open_r :: "u32 \<Rightarrow> string \<Rightarrow> u32 \<Rightarrow> ('w, 'z) fatfs_scheme \<Rightarrow> fault + int \<times> ('w, 'z) fatfs_scheme"
  close_r :: "u32 \<Rightarrow> ('w, 'z) fatfs_scheme \<Rightarrow> fault + int \<times> ('w, 'z) fatfs_scheme"
  write_r :: "u32 \<Rightarrow> char list \<Rightarrow> u32 \<Rightarrow> ('w, 'z) fatfs_scheme \<Rightarrow> (fault + u32 \<times> ('w, 'z) fatfs_scheme) option"
  read_r :: "u32 \<Rightarrow> char list \<Rightarrow> u32 \<Rightarrow> ('w, 'z) fatfs_scheme \<Rightarrow>
    (fault + (u32 \<times> char list) \<times> ('w, 'z) fatfs_scheme) option"
  seek_r :: "u32 \<Rightarrow> int \<Rightarrow> int \<Rightarrow> ('w, 'z) fatfs_scheme \<Rightarrow> fault + int \<times> ('w, 'z) fatfs_scheme"
  fstat_r :: "u32 \<Rightarrow> c_stat \<Rightarrow> ('w, 'z) fatfs_scheme \<Rightarrow> fault + (int \<times> c_stat) \<times> ('w, 'z) fatfs_scheme"
  stat_r :: "string \<Rightarrow> c_stat \<Rightarrow> ('w, 'z) fatfs_scheme \<Rightarrow> fault + (int \<times> c_stat) \<times> ('w, 'z) fatfs_scheme"
  link_r :: "string \<Rightarrow> string \<Rightarrow> ('w, 'z) fatfs_scheme \<Rightarrow> fault + int \<times> ('w, 'z) fatfs_scheme"
  unlink_r :: "string \<Rightarrow> ('w, 'z) fatfs_scheme \<Rightarrow> fault + int \<times> ('w, 'z) fatfs_scheme"
  chdir_r :: "string \<Rightarrow> ('w, 'z) fatfs_scheme \<Rightarrow> fault + int \<times> ('w, 'z) fatfs_scheme"
  rename_r :: "string \<Rightarrow> string \<Rightarrow> ('w, 'z) fatfs_scheme \<Rightarrow> fault + int \<times> ('w, 'z) fatfs_scheme"
  mkdir_r :: "string \<Rightarrow> u32 \<Rightarrow> ('w, 'z) fatfs_scheme \<Rightarrow> fault + int \<times> ('w, 'z) fatfs_scheme"
  diropen_r :: "u32 \<Rightarrow> string \<Rightarrow> ('w, 'z) fatfs_scheme \<Rightarrow> fault + u32 \<times> ('w, 'z) fatfs_scheme"
  dirreset_r :: "u32 \<Rightarrow> ('w, 'z) fatfs_scheme \<Rightarrow> fault + int \<times> ('w, 'z) fatfs_scheme"
  dirnext_r :: "u32 \<Rightarrow> c_stat option \<Rightarrow> ('w, 'z) fatfs_scheme \<Rightarrow>
    fault + (int \<times> string option \<times> c_stat option) \<times> ('w, 'z) fatfs_scheme"
  dirclose_r :: "u32 \<Rightarrow> ('w, 'z) fatfs_scheme \<Rightarrow> fault + int \<times> ('w, 'z) fatfs_scheme"
  statvfs_r :: "string \<Rightarrow> c_statvfs \<Rightarrow> ('w, 'z) fatfs_scheme \<Rightarrow> fault + (int \<times> c_statvfs) \<times> ('w, 'z) fatfs_scheme"
  ftruncate_r :: "u32 \<Rightarrow> int \<Rightarrow> ('w, 'z) fatfs_scheme \<Rightarrow> fault + int \<times> ('w, 'z) fatfs_scheme"
  fsync_r :: "u32 \<Rightarrow> ('w, 'z) fatfs_scheme \<Rightarrow> fault + int \<times> ('w, 'z) fatfs_scheme"

definition devops_sd_fat :: "'w fs \<Rightarrow> ('w, 'z) driver" where
  "devops_sd_fat fs = \<lparr>
     open_r = sd_fat_open_r fs, close_r = sd_fat_close_r fs, write_r = sd_fat_write_r fs,
     read_r = sd_fat_read_r fs, seek_r = sd_fat_seek_r fs, fstat_r = sd_fat_fstat_r fs,
     stat_r = sd_fat_stat_r fs, link_r = sd_fat_link_r, unlink_r = sd_fat_unlink_r fs,
     chdir_r = sd_fat_chdir_r fs, rename_r = sd_fat_rename_r fs, mkdir_r = sd_fat_mkdir_r fs,
     diropen_r = sd_fat_diropen_r fs, dirreset_r = sd_fat_dirreset_r fs, dirnext_r = sd_fat_dirnext_r fs,
     dirclose_r = sd_fat_dirclose_r fs, statvfs_r = sd_fat_statvfs_r fs,
     ftruncate_r = sd_fat_ftruncate_r fs, fsync_r = sd_fat_fsync_r fs\<rparr>"


section \<open>What an operation on one path does\<close>

text \<open>The device a path names is there, with its mutex, or there is none.\<close>

definition path_ready :: "string \<Rightarrow> ('w, 'z) fatfs_scheme \<Rightarrow> bool" where
  "path_ready path s \<longleftrightarrow> (\<exists>dev. sd_fat_get_device_data path s = Inr dev \<and>
     (dev \<noteq> 0 \<longrightarrow> (\<exists>d m. privates s dev = Some d \<and> pMutex d \<noteq> 0 \<and> mutexes s (pMutex d) = Some m)))"

definition device_for :: "string \<Rightarrow> ('w, 'z) fatfs_scheme \<Rightarrow> sd_fat_private option" where
  "device_for path s =
     (case sd_fat_get_device_data path s of
        Inl _ \<Rightarrow> None
      | Inr dev \<Rightarrow> if dev = 0 then None else privates s dev)"

text \<open>
  The specification: without a device or without memory for the path an error number and nothing
  else; else one call of the service with the mount path in front of the local path, whose failure is
  the error number.
\<close>

definition path_spec ::
  "(session \<Rightarrow> string \<Rightarrow> 'w \<Rightarrow> int \<times> 'w) \<Rightarrow> string \<Rightarrow> ('w, 'z) fatfs_scheme \<Rightarrow> int \<times> ('w, 'z) fatfs_scheme" where
  "path_spec call path s =
     (case device_for path s of
        None \<Rightarrow> (-1, s\<lparr>errno := ENODEV\<rparr>)
      | Some d \<Rightarrow>
          let (copy, m) = malloc (allocs s) in
          if copy = 0 then (-1, s\<lparr>allocs := m, errno := ENOMEM\<rparr>)
          else
            let (r, w) = call (session_of d) (mount_path d @ local_path path) (world s) in
            if r < 0 then (-1, s\<lparr>allocs := m, world := w, errno := FS_error r\<rparr>)
            else (0, s\<lparr>allocs := m, world := w\<rparr>))"

lemma path_spec_tables: "same_tables s (snd (path_spec call path s))"
  by (auto simp: path_spec_def same_tables_def malloc_def Let_def split: option.splits prod.splits)

lemma device_slot_tables:
  fixes s s' :: "('w, 'z) fatfs_scheme"
  assumes "devoptabs s' = devoptabs s"
  shows "device_slot name i ps s' = device_slot name i ps s"
proof (induction ps arbitrary: i)
  case (Cons p ps)
  then show ?case using assms by (cases "deref (devoptabs s) p") simp_all
qed simp

lemma path_ready_tables:
  fixes s s' :: "('w, 'z) fatfs_scheme"
  assumes "same_tables s s'"
  shows "path_ready path s' = path_ready path s"
proof -
  have e: "devoptab_list s' = devoptab_list s" "devoptabs s' = devoptabs s" "privates s' = privates s"
      "mutexes s' = mutexes s"
    using assms by (simp_all add: same_tables_def)
  have "sd_fat_get_device_data path s' = sd_fat_get_device_data path s"
    unfolding sd_fat_get_device_data_def e device_slot_tables [OF e(2)] ..
  then show ?thesis unfolding path_ready_def e by simp
qed

locale path_call =
  fixes operation :: "string \<Rightarrow> ('w, 'z) fatfs_scheme \<Rightarrow> fault + int \<times> ('w, 'z) fatfs_scheme"
    and call :: "session \<Rightarrow> string \<Rightarrow> 'w \<Rightarrow> int \<times> 'w"
  assumes meets: "path_ready path s \<Longrightarrow> operation path s = Inr (path_spec call path s)"
begin

lemma no_fault: "path_ready path s \<Longrightarrow> \<exists>r s'. operation path s = Inr (r, s') \<and> same_tables s s'"
  using meets path_spec_tables by (metis prod.collapse)

lemma outcome:
  assumes "path_ready path s" and "operation path s = Inr (r, s')"
  shows "r = 0 \<and> errno s' = errno s \<or> r = -1"
  using meets [OF assms(1)] assms(2)
  by (auto simp: path_spec_def Let_def split: option.splits prod.splits if_splits)

lemma stays_ready:
  "path_ready path s \<Longrightarrow> operation path s = Inr (r, s') \<Longrightarrow> path_ready q s' = path_ready q s"
  using no_fault path_ready_tables by fastforce

lemma unknown_device:
  "path_ready path s \<Longrightarrow> device_for path s = None \<Longrightarrow> operation path s = Inr (-1, s\<lparr>errno := ENODEV\<rparr>)"
  by (simp add: meets path_spec_def)

lemma in_order:
  assumes "\<forall>path \<in> set paths. path_ready path s"
  shows "foldl (\<lambda>m path. bindF m (\<lambda>(_, s). operation path s)) (Inr (r, s)) paths =
    Inr (foldl (\<lambda>(_, s) path. path_spec call path s) (r, s) paths)"
  using assms
proof (induction paths arbitrary: r s)
  case (Cons p ps)
  obtain r' s' where s': "path_spec call p s = (r', s')" by fastforce
  then have "operation p s = Inr (r', s')" using meets Cons.prems by simp
  moreover have "\<forall>path \<in> set ps. path_ready path s'"
    using Cons.prems path_ready_tables [OF path_spec_tables [of s call p]] s' by simp
  ultimately show ?case using Cons.IH [of s' r'] s' by simp
qed simp

end

lemmas path_op_defs = sd_fat_real_path_def alloc_def malloc_def set_errno_def sysc_def Let_def lock_Inr
  OSLockMutex_def OSUnlockMutex_def deref_def path_spec_def device_for_def

interpretation unlink: path_call "sd_fat_unlink_r fs" "fs_remove fs" for fs
proof
  fix path and s :: "('a, 'b) fatfs_scheme"
  assume "path_ready path s"
  then show "sd_fat_unlink_r fs path s = Inr (path_spec (fs_remove fs) path s)"
    by (auto simp: path_ready_def sd_fat_unlink_r_def path_op_defs fun_upd_idem split: prod.splits)
qed

interpretation chdir: path_call "sd_fat_chdir_r fs" "fs_change_dir fs" for fs
proof
  fix path and s :: "('a, 'b) fatfs_scheme"
  assume "path_ready path s"
  then show "sd_fat_chdir_r fs path s = Inr (path_spec (fs_change_dir fs) path s)"
    by (auto simp: path_ready_def sd_fat_chdir_r_def path_op_defs fun_upd_idem split: prod.splits)
qed

interpretation mkdir: path_call "\<lambda>path. sd_fat_mkdir_r fs path mode" "fs_make_dir fs" for fs mode
proof
  fix path and s :: "('a, 'b) fatfs_scheme"
  assume "path_ready path s"
  then show "sd_fat_mkdir_r fs path mode s = Inr (path_spec (fs_make_dir fs) path s)"
    by (auto simp: path_ready_def sd_fat_mkdir_r_def path_op_defs fun_upd_idem split: prod.splits)
qed


section \<open>Every operation gives the device back\<close>

lemma sysc_pair: "sysc f s = (fst (f (world s)), s\<lparr>world := snd (f (world s))\<rparr>)"
  by (simp add: sysc_def split: prod.split)

definition leaves_locks :: "(u32 \<Rightarrow> nat option) \<Rightarrow> fault + 'a \<times> ('w, 'z) fatfs_scheme \<Rightarrow> bool" where
  "leaves_locks locks m \<longleftrightarrow> (case m of Inl _ \<Rightarrow> True | Inr (_, s) \<Rightarrow> mutexes s = locks)"

lemma leaves_locks_simps [simp]:
  "leaves_locks locks (Inl e)" "leaves_locks locks (Inr (x, s)) \<longleftrightarrow> mutexes s = locks"
  by (simp_all add: leaves_locks_def)

lemma leaves_locks_value: "(\<And>x. leaves_locks locks (f x)) \<Longrightarrow> leaves_locks locks (bindF m f)"
  by (cases m) simp_all

lemma leaves_locks_lock:
  "(\<And>m. mutexes s p = Some m \<Longrightarrow> leaves_locks locks (f (s\<lparr>mutexes := (mutexes s)(p \<mapsto> Suc m)\<rparr>))) \<Longrightarrow>
   leaves_locks locks (bindF (OSLockMutex p s) f)"
  by (auto simp: OSLockMutex_def deref_def split: option.splits)

lemma leaves_locks_unlock:
  "(\<And>m. mutexes s p = Some m \<Longrightarrow> leaves_locks locks (f (s\<lparr>mutexes := (mutexes s)(p \<mapsto> m - 1)\<rparr>))) \<Longrightarrow>
   leaves_locks locks (bindF (OSUnlockMutex p s) f)"
  by (auto simp: OSUnlockMutex_def deref_def split: option.splits)

lemma leaves_locks_real_path:
  "(\<And>rp. leaves_locks locks (f (rp, snd (alloc s)))) \<Longrightarrow>
   leaves_locks locks (bindF (sd_fat_real_path (Some path) dev s) f)"
  by (cases "sd_fat_real_path (Some path) dev s") (auto simp: real_path_Inr)

lemmas leaves_locks_intros = leaves_locks_lock leaves_locks_unlock leaves_locks_real_path
  leaves_locks_value [where m = "deref h p" for h p] leaves_locks_value [where m = "c_str t" for t]
  leaves_locks_value [where m = "sd_fat_get_device_data path s" for path s]
  leaves_locks_value [where m = "slice_at b i n" for b i n] leaves_locks_value [where m = "write_at b i n" for b i n]

lemmas leaves_locks_eqs = sysc_pair split_beta Let_def set_errno_def put_file_def fun_upd_idem

lemma close_locks: "leaves_locks (mutexes s) (sd_fat_close_r fs fp s)"
  unfolding sd_fat_close_r_def by (auto simp: leaves_locks_eqs intro!: leaves_locks_intros)

lemma open_locks: "leaves_locks (mutexes s) (sd_fat_open_r fs fp path flags s)"
  unfolding sd_fat_open_r_def by (auto simp: leaves_locks_eqs intro!: leaves_locks_intros split: option.split)

lemma fstat_locks: "leaves_locks (mutexes s) (sd_fat_fstat_r fs fp st s)"
  unfolding sd_fat_fstat_r_def by (auto simp: leaves_locks_eqs intro!: leaves_locks_intros)

lemma stat_locks: "leaves_locks (mutexes s) (sd_fat_stat_r fs path st s)"
  unfolding sd_fat_stat_r_def by (auto simp: leaves_locks_eqs intro!: leaves_locks_intros split: option.split)

lemma write_turn_locks: "leaves_locks (mutexes s) (write_turn fs d fp ptr len chunk n s)"
  unfolding write_turn_def by (auto simp: leaves_locks_eqs intro!: leaves_locks_intros)

lemma read_turn_locks: "leaves_locks (mutexes s) (read_turn fs d fp len chunk x s)"
  unfolding read_turn_def by (auto simp: leaves_locks_eqs intro!: leaves_locks_intros)


lemma ftruncate_locks: "leaves_locks (mutexes s) (sd_fat_ftruncate_r fs fp len s)"
  unfolding sd_fat_ftruncate_r_def by (auto simp: leaves_locks_eqs intro!: leaves_locks_intros)

lemma fsync_locks: "leaves_locks (mutexes s) (sd_fat_fsync_r fs fp s)"
  unfolding sd_fat_fsync_r_def by (auto simp: leaves_locks_eqs intro!: leaves_locks_intros)

lemma seek_locks:
  "dir \<in> {SEEK_SET, SEEK_CUR, SEEK_END} \<Longrightarrow> leaves_locks (mutexes s) (sd_fat_seek_r fs fp pos dir s)"
  unfolding sd_fat_seek_r_def by (auto simp: leaves_locks_eqs intro!: leaves_locks_intros)

lemma unlink_locks: "leaves_locks (mutexes s) (sd_fat_unlink_r fs path s)"
  unfolding sd_fat_unlink_r_def by (auto simp: leaves_locks_eqs intro!: leaves_locks_intros split: option.split)

lemma chdir_locks: "leaves_locks (mutexes s) (sd_fat_chdir_r fs path s)"
  unfolding sd_fat_chdir_r_def by (auto simp: leaves_locks_eqs intro!: leaves_locks_intros split: option.split)

lemma mkdir_locks: "leaves_locks (mutexes s) (sd_fat_mkdir_r fs path mode s)"
  unfolding sd_fat_mkdir_r_def by (auto simp: leaves_locks_eqs intro!: leaves_locks_intros split: option.split)

lemma rename_locks: "leaves_locks (mutexes s) (sd_fat_rename_r fs old new s)"
  unfolding sd_fat_rename_r_def by (auto simp: leaves_locks_eqs intro!: leaves_locks_intros split: option.split)

lemma statvfs_locks: "leaves_locks (mutexes s) (sd_fat_statvfs_r fs path buf s)"
  unfolding sd_fat_statvfs_r_def by (auto simp: leaves_locks_eqs intro!: leaves_locks_intros split: option.split)

lemma diropen_locks: "leaves_locks (mutexes s) (sd_fat_diropen_r fs dp path s)"
  unfolding sd_fat_diropen_r_def by (auto simp: leaves_locks_eqs intro!: leaves_locks_intros split: option.split)

lemma dirclose_locks: "leaves_locks (mutexes s) (sd_fat_dirclose_r fs dp s)"
  unfolding sd_fat_dirclose_r_def by (auto simp: leaves_locks_eqs intro!: leaves_locks_intros)

lemma dirreset_locks: "leaves_locks (mutexes s) (sd_fat_dirreset_r fs dp s)"
  unfolding sd_fat_dirreset_r_def by (auto simp: leaves_locks_eqs intro!: leaves_locks_intros)

lemma dirnext_locks: "leaves_locks (mutexes s) (sd_fat_dirnext_r fs dp st s)"
  unfolding sd_fat_dirnext_r_def by (auto simp: leaves_locks_eqs intro!: leaves_locks_intros split: option.split)

lemma write_loop_locks:
  assumes "write_loop fs d fp ptr len chunk n s = Some r"
  shows "leaves_locks (mutexes s) r"
proof (rule write_loop.raw_induct [where P = "\<lambda>fs d fp ptr len chunk n s r. leaves_locks (mutexes s) r", OF _ assms], goal_cases)
  case (1 loop fs d fp ptr len chunk n s r)
  then show ?case
    using write_turn_locks [of s fs d fp ptr len chunk n]
    by (fastforce split: if_splits sum.split_asm prod.split_asm)
qed

lemma read_loop_locks:
  assumes "read_loop fs d fp len chunk x s = Some r"
  shows "leaves_locks (mutexes s) r"
proof (rule read_loop.raw_induct [where P = "\<lambda>fs d fp len chunk x s r. leaves_locks (mutexes s) r", OF _ assms], goal_cases)
  case (1 loop fs d fp len chunk x s r)
  then show ?case
    using read_turn_locks [of s fs d fp len chunk x]
    by (fastforce split: if_splits sum.split_asm prod.split_asm)
qed


lemma leaves_locks_unlock_last:
  assumes "leaves_locks ((mutexes s)(p \<mapsto> Suc m)) r" and "mutexes s p = Some m"
  shows "leaves_locks (mutexes s) (bindF r (\<lambda>(x, s). bindF (OSUnlockMutex p s) (\<lambda>s. Inr (g x, s))))"
proof (cases r)
  case (Inr y)
  then obtain x t where y: "r = Inr (x, t)" "mutexes t = (mutexes s)(p \<mapsto> Suc m)" using assms(1) by (cases y) auto
  show ?thesis using assms(2) unfolding y(1) bindF.simps prod.case
    by (intro leaves_locks_unlock) (simp add: y(2) fun_upd_idem)
qed simp

lemma locked_block:
  assumes "bindF (deref (privates s) q) (\<lambda>d. bindF (OSLockMutex (pMutex d) s) (\<lambda>s. Inr (d, alloc s))) = Inr (d, b, t)"
  obtains m where "mutexes s (pMutex d) = Some m" and "mutexes t = (mutexes s)(pMutex d \<mapsto> Suc m)"
  using assms by (auto simp: fault_simps lock_Inr alloc_def malloc_def Let_def)

lemma write_locks:
  assumes run: "sd_fat_write_r fs fp ptr len s = Some r"
  shows "leaves_locks (mutexes s) r"
proof (cases "deref (files s) fp")
  case (Inr f)
  let ?m = "bindF (deref (privates s) (fdev f)) (\<lambda>d. bindF (OSLockMutex (pMutex d) s) (\<lambda>s. Inr (d, alloc s)))"
  show ?thesis
  proof (cases "fdev f = 0 \<or> \<not> fwritable f \<or> (\<exists>e. ?m = Inl e)")
    case True
    then show ?thesis using run Inr by (auto simp: sd_fat_write_r_def set_errno_def split: if_splits)
  next
    case False
    then obtain d b t where m: "?m = Inr (d, b, t)" by (cases ?m) auto
    obtain n where n: "mutexes s (pMutex d) = Some n" "mutexes t = (mutexes s)(pMutex d \<mapsto> Suc n)"
      by (rule locked_block [OF m])
    show ?thesis
    proof (cases "b = 0")
      case True
      then have "r = bindF (OSUnlockMutex (pMutex d) (set_errno ENOMEM t)) (\<lambda>s. Inr (0, s))"
        using run Inr False m by (simp add: sd_fat_write_r_def)
      then show ?thesis using n by (auto simp: set_errno_def fun_upd_idem intro!: leaves_locks_unlock)
    next
      case b: False
      then obtain q where q: "write_loop fs d fp ptr len (chunk_size len) 0 t = Some q"
          "r = bindF q (\<lambda>(x, s). bindF (OSUnlockMutex (pMutex d) s) (\<lambda>s. Inr (x, s)))"
        using run Inr False m by (auto simp: sd_fat_write_r_def split: option.split_asm)
      show ?thesis using leaves_locks_unlock_last [OF write_loop_locks [OF q(1), unfolded n(2)] n(1), of id] q(2) by simp
    qed
  qed
qed (use run in \<open>auto simp: sd_fat_write_r_def\<close>)

lemma read_locks:
  assumes run: "sd_fat_read_r fs fp ptr len s = Some r"
  shows "leaves_locks (mutexes s) r"
proof (cases "deref (files s) fp")
  case (Inr f)
  let ?m = "bindF (deref (privates s) (fdev f)) (\<lambda>d. bindF (OSLockMutex (pMutex d) s) (\<lambda>s. Inr (d, alloc s)))"
  show ?thesis
  proof (cases "fdev f = 0 \<or> \<not> freadable f \<or> (\<exists>e. ?m = Inl e)")
    case True
    then show ?thesis using run Inr by (auto simp: sd_fat_read_r_def set_errno_def split: if_splits)
  next
    case False
    then obtain d b t where m: "?m = Inr (d, b, t)" by (cases ?m) auto
    obtain n where n: "mutexes s (pMutex d) = Some n" "mutexes t = (mutexes s)(pMutex d \<mapsto> Suc n)"
      by (rule locked_block [OF m])
    show ?thesis
    proof (cases "b = 0")
      case True
      then have "r = bindF (OSUnlockMutex (pMutex d) (set_errno ENOMEM t)) (\<lambda>s. Inr ((0, ptr), s))"
        using run Inr False m by (simp add: sd_fat_read_r_def)
      then show ?thesis using n by (auto simp: set_errno_def fun_upd_idem intro!: leaves_locks_unlock)
    next
      case b: False
      obtain bl u where u: "sysc (fs_fresh fs (uint (chunk_size len))) t = (bl, u)" "mutexes u = mutexes t"
        by (simp add: sysc_pair)
      then obtain q where q: "read_loop fs d fp len (chunk_size len) (0, bl, ptr) u = Some q"
          "r = bindF q (\<lambda>(x, s). bindF (OSUnlockMutex (pMutex d) s) (\<lambda>s. Inr (x, s)))"
        using run Inr False m b by (auto simp: sd_fat_read_r_def split: option.split_asm)
      show ?thesis using leaves_locks_unlock_last [OF read_loop_locks [OF q(1), unfolded u(2) n(2)] n(1), of id] q(2) by simp
    qed
  qed
qed (use run in \<open>auto simp: sd_fat_read_r_def\<close>)

text \<open>
  A step of the driver: a call of one of its operations, through its table, that returns. The directions
  of seek are those the C library passes.
\<close>

inductive driver_step :: "'w fs \<Rightarrow> ('w, 'z) fatfs_scheme \<Rightarrow> ('w, 'z) fatfs_scheme \<Rightarrow> bool" for fs where
  open_step: "open_r (devops_sd_fat fs) fp path flags s = Inr (r, s') \<Longrightarrow> driver_step fs s s'"
| close_step: "close_r (devops_sd_fat fs) fp s = Inr (r, s') \<Longrightarrow> driver_step fs s s'"
| write_step: "write_r (devops_sd_fat fs) fp ptr len s = Some (Inr (n, s')) \<Longrightarrow> driver_step fs s s'"
| read_step: "read_r (devops_sd_fat fs) fp ptr len s = Some (Inr (x, s')) \<Longrightarrow> driver_step fs s s'"
| seek_step: "seek_r (devops_sd_fat fs) fp pos dir s = Inr (r, s') \<Longrightarrow> dir \<in> {SEEK_SET, SEEK_CUR, SEEK_END} \<Longrightarrow>
    driver_step fs s s'"
| fstat_step: "fstat_r (devops_sd_fat fs) fp st s = Inr (x, s') \<Longrightarrow> driver_step fs s s'"
| stat_step: "stat_r (devops_sd_fat fs) path st s = Inr (x, s') \<Longrightarrow> driver_step fs s s'"
| link_step: "link_r (devops_sd_fat fs) old new s = Inr (r, s') \<Longrightarrow> driver_step fs s s'"
| unlink_step: "unlink_r (devops_sd_fat fs) path s = Inr (r, s') \<Longrightarrow> driver_step fs s s'"
| chdir_step: "chdir_r (devops_sd_fat fs) path s = Inr (r, s') \<Longrightarrow> driver_step fs s s'"
| rename_step: "rename_r (devops_sd_fat fs) old new s = Inr (r, s') \<Longrightarrow> driver_step fs s s'"
| mkdir_step: "mkdir_r (devops_sd_fat fs) path mode s = Inr (r, s') \<Longrightarrow> driver_step fs s s'"
| diropen_step: "diropen_r (devops_sd_fat fs) dp path s = Inr (q, s') \<Longrightarrow> driver_step fs s s'"
| dirreset_step: "dirreset_r (devops_sd_fat fs) dp s = Inr (r, s') \<Longrightarrow> driver_step fs s s'"
| dirnext_step: "dirnext_r (devops_sd_fat fs) dp sto s = Inr (y, s') \<Longrightarrow> driver_step fs s s'"
| dirclose_step: "dirclose_r (devops_sd_fat fs) dp s = Inr (r, s') \<Longrightarrow> driver_step fs s s'"
| statvfs_step: "statvfs_r (devops_sd_fat fs) path buf s = Inr (z, s') \<Longrightarrow> driver_step fs s s'"
| ftruncate_step: "ftruncate_r (devops_sd_fat fs) fp off s = Inr (r, s') \<Longrightarrow> driver_step fs s s'"
| fsync_step: "fsync_r (devops_sd_fat fs) fp s = Inr (r, s') \<Longrightarrow> driver_step fs s s'"

lemma leaves_locksD: "leaves_locks L m \<Longrightarrow> m = Inr (x, s) \<Longrightarrow> mutexes s = L"
  by simp

lemma driver_step_locks: "driver_step fs s s' \<Longrightarrow> mutexes s' = mutexes s"
proof (induction rule: driver_step.induct)
  case (write_step fp ptr len s n s')
  then show ?case using write_locks by (fastforce simp: devops_sd_fat_def)
next
  case (read_step fp ptr len s x s')
  then show ?case using read_locks by (fastforce simp: devops_sd_fat_def)
next
  case (link_step old new s r s')
  then show ?case by (auto simp: devops_sd_fat_def sd_fat_link_r_def set_errno_def)
qed (auto simp: devops_sd_fat_def dest!: leaves_locksD [OF open_locks] leaves_locksD [OF close_locks]
    leaves_locksD [OF seek_locks, rotated] leaves_locksD [OF fstat_locks] leaves_locksD [OF stat_locks]
    leaves_locksD [OF unlink_locks] leaves_locksD [OF chdir_locks] leaves_locksD [OF rename_locks]
    leaves_locksD [OF mkdir_locks] leaves_locksD [OF diropen_locks] leaves_locksD [OF dirreset_locks]
    leaves_locksD [OF dirnext_locks] leaves_locksD [OF dirclose_locks] leaves_locksD [OF statvfs_locks]
    leaves_locksD [OF ftruncate_locks] leaves_locksD [OF fsync_locks])

inductive driver_run :: "'w fs \<Rightarrow> ('w, 'z) fatfs_scheme \<Rightarrow> ('w, 'z) fatfs_scheme \<Rightarrow> bool" for fs where
  start: "driver_run fs s s"
| call: "driver_run fs s t \<Longrightarrow> driver_step fs t u \<Longrightarrow> driver_run fs s u"

lemma driver_run_locks: "driver_run fs s s' \<Longrightarrow> mutexes s' = mutexes s"
  by (induction rule: driver_run.induct) (simp_all add: driver_step_locks)

section \<open>Properties\<close>

text \<open>C22: unlink, chdir and mkdir do what the specification of an operation on a path says: when the path
  names a device that is there they run without undefined behaviour, make exactly one call of the
  service on the mount path followed by the part behind the colon, turn its failure into the error
  number, and keep the tables, the files and the locks; without a device they report \<open>ENODEV\<close> and
  without memory \<open>ENOMEM\<close>, and call nothing.\<close>

theorem path_operations_meet_spec:
  assumes "path_ready path s"
  shows "sd_fat_unlink_r fs path s = Inr (path_spec (fs_remove fs) path s) \<and>
    sd_fat_chdir_r fs path s = Inr (path_spec (fs_change_dir fs) path s) \<and>
    sd_fat_mkdir_r fs path mode s = Inr (path_spec (fs_make_dir fs) path s) \<and>
    same_tables s (snd (path_spec (fs_make_dir fs) path s))"
  using unlink.meets chdir.meets mkdir.meets path_spec_tables assms by blast

lemma mounted0_lookup: "sd_fat_get_device_data (''sd:'' @ t) (mounted0 w) = Inr 128"
proof -
  have "device_name (''sd'' @ CHR '':'' # t) = ''sd''" by (rule device_name_plain) (simp add: plain_name_def)
  then show ?thesis by (simp add: sd_fat_get_device_data_def mounted0_def deref_def)
qed

lemma mounted0_path: "path_ready (''sd:'' @ t) (mounted0 w)"
  using mounted0_lookup [of t w] by (simp add: path_ready_def) (simp add: mounted0_def priv0_def)

theorem path_operations_meet_spec_witness:
  "\<exists>s'. sd_fat_unlink_r card_fs ''sd:/a.txt'' (mounted0 (card0 [])) = Inr (0, s') \<and>
    calls (world s') = [''/vol/sd/a.txt'']"
proof -
  have "path_ready ''sd:/a.txt'' (mounted0 (card0 []))" using mounted0_path [of "''/a.txt''"] by simp
  then have "sd_fat_unlink_r card_fs ''sd:/a.txt'' (mounted0 (card0 [])) =
      Inr (path_spec (fs_remove card_fs) ''sd:/a.txt'' (mounted0 (card0 [])))"
    using path_operations_meet_spec by blast
  moreover have "device_for ''sd:/a.txt'' (mounted0 (card0 [])) = Some priv0"
    using mounted0_lookup [of "''/a.txt''" "card0 []"] by (simp add: device_for_def) (simp add: mounted0_def)
  ultimately show ?thesis
    by (simp add: path_spec_def malloc_def card_fs_def noted_def priv0_def local_path_def card0_def)
qed



text \<open>Asking for the attributes of an ordinary file is undefined: the path is freed and then read again
  by the test for the root directory. Of a directory the attributes are those the service reports.\<close>

theorem stat_reads_freed_path:
  assumes "path_ready path s" and "device_for path s = Some d" and "allocs s 0 \<noteq> 0"
    and "fs_get_stat fs (session_of d) (mount_path d @ local_path path) (world s) = ((r, stats), w)" and "0 \<le> r"
  shows "if fss_flag stats AND 0x80000000 = 0 then sd_fat_stat_r fs path st s = Inl Use_after_free
    else \<exists>s'. sd_fat_stat_r fs path st s = Inr ((0, fill_stat S_IFDIR stats), s') \<and> same_tables s s'"
proof -
  obtain dev m where d: "sd_fat_get_device_data path s = Inr dev" "dev \<noteq> 0" "privates s dev = Some d"
      "pMutex d \<noteq> 0" "mutexes s (pMutex d) = Some m"
    using assms(1,2) by (auto simp: path_ready_def device_for_def split: if_splits)
  have "(mutexes s)(pMutex d \<mapsto> m) = mutexes s" using d(5) by (simp add: fun_upd_idem)
  then show ?thesis
    using d assms(3-5)
    by (simp add: sd_fat_stat_r_def sd_fat_real_path_def alloc_def malloc_def sysc_def deref_def OSLockMutex_def
        OSUnlockMutex_def same_tables_def)
qed

theorem stat_reads_freed_path_witness:
  "\<exists>s'. sd_fat_stat_r card_fs ''sd:/pub'' zero_stat (mounted0 (card0 [])) = Inr ((0, fill_stat S_IFDIR card_stat), s') \<and>
     sd_fat_stat_r (card_fs\<lparr>fs_get_stat := \<lambda>c p w. ((0, card_stat\<lparr>fss_flag := 0\<rparr>), w)\<rparr>) ''sd:/pub'' zero_stat
       (mounted0 (card0 [])) = Inl Use_after_free"
proof -
  let ?s = "mounted0 (card0 [])"
  have p: "path_ready ''sd:/pub'' ?s" using mounted0_path [of "''/pub''"] by simp
  have d: "device_for ''sd:/pub'' ?s = Some priv0"
    using mounted0_lookup [of "''/pub''" "card0 []"] by (simp add: device_for_def) (simp add: mounted0_def)
  have "allocs ?s 0 \<noteq> 0" by simp
  note r = stat_reads_freed_path [OF p d this]
  show ?thesis
    using r [of card_fs 0 card_stat "card0 []" zero_stat]
      r [of "card_fs\<lparr>fs_get_stat := \<lambda>c p w. ((0, card_stat\<lparr>fss_flag := 0\<rparr>), w)\<rparr>" 0 "card_stat\<lparr>fss_flag := 0\<rparr>"
        "card0 []" zero_stat]
    by (auto simp: card_fs_def card_stat_def)
qed

end
