(* ===== verification/FsUtils.thy ===== *)
theory FsUtils
  imports Platform
begin

text \<open>
  The helpers of \<open>fs/fs_utils.c\<close> on top of the C library: reading a whole file, testing whether a
  path is there and creating a directory with all its parents. The functions of the C library are the
  fields of a record.
\<close>

record 'w libc =
  lib_open :: "string \<Rightarrow> 'w \<Rightarrow> int \<times> 'w"                            \<comment> \<open>for reading\<close>
  lib_lseek :: "int \<Rightarrow> int \<Rightarrow> int \<Rightarrow> 'w \<Rightarrow> int \<times> 'w"
  lib_read :: "int \<Rightarrow> u32 \<Rightarrow> 'w \<Rightarrow> (int \<times> char list) \<times> 'w"         \<comment> \<open>the result and the bytes delivered\<close>
  lib_close :: "int \<Rightarrow> 'w \<Rightarrow> 'w"
  lib_stat :: "string \<Rightarrow> 'w \<Rightarrow> int \<times> 'w"
  lib_mkdir :: "string \<Rightarrow> u32 \<Rightarrow> 'w \<Rightarrow> int \<times> 'w"
  lib_fresh :: "u32 \<Rightarrow> 'w \<Rightarrow> char list \<times> 'w"                        \<comment> \<open>what a block from \<open>malloc\<close> holds\<close>

section \<open>Reading a file\<close>

text \<open>One turn: whether the loop goes on, the bytes done, the block size and the buffer.\<close>

definition load_turn ::
  "'w libc \<Rightarrow> int \<Rightarrow> u32 \<Rightarrow> u32 \<times> u32 \<times> char list \<Rightarrow> ('w, 'z) sys_scheme \<Rightarrow>
   fault + (bool \<times> u32 \<times> u32 \<times> char list) \<times> ('w, 'z) sys_scheme" where
  "load_turn lc fd filesize = (\<lambda>(n, blocksize, buffer) s.
     let blocksize = (if n + blocksize > filesize then filesize - n else blocksize);
         ((readBytes, bytes), s) = sysc (lib_read lc fd blocksize) s in
     bindF (write_at buffer (uint n) bytes) (\<lambda>buffer.
     if readBytes \<le> 0 then Inr ((False, n, blocksize, buffer), s)
     else Inr ((True, n + word_of_int readBytes, blocksize, buffer), s)))"

partial_function (option) load_loop ::
  "'w libc \<Rightarrow> int \<Rightarrow> u32 \<Rightarrow> u32 \<times> u32 \<times> char list \<Rightarrow> ('w, 'z) sys_scheme \<Rightarrow>
   (fault + (u32 \<times> char list) \<times> ('w, 'z) sys_scheme) option" where
  "load_loop lc fd filesize part s =
     (if fst part < filesize then
        (case load_turn lc fd filesize part s of
           Inl e \<Rightarrow> Some (Inl e)
         | Inr ((again, y), s) \<Rightarrow>
             if again then load_loop lc fd filesize y s else Some (Inr ((fst y, snd (snd y)), s)))
      else Some (Inr ((fst part, snd (snd part)), s)))"

text \<open>The result, the block returned to the caller (\<open>None\<close> for null) and the size stored for it.\<close>

definition SEEK_TO_START :: int where "SEEK_TO_START = 0"
definition SEEK_TO_END :: int where "SEEK_TO_END = 2"

definition LoadFileToMem ::
  "'w libc \<Rightarrow> string \<Rightarrow> ('w, 'z) sys_scheme \<Rightarrow>
   (fault + (int \<times> char list option \<times> u32) \<times> ('w, 'z) sys_scheme) option" where
  "LoadFileToMem lc filepath s =
     (let (iFd, s) = sysc (lib_open lc filepath) s in
      if iFd < 0 then Some (Inr ((-1, None, 0), s))
      else
        let (e, s) = sysc (lib_lseek lc iFd 0 SEEK_TO_END) s; filesize = word_of_int e;
            (_, s) = sysc (lib_lseek lc iFd 0 SEEK_TO_START) s;
            (p, m) = malloc (allocs s); s = s\<lparr>allocs := m\<rparr> in
        if p = 0 then Some (Inr ((-2, None, 0), sys_do (lib_close lc iFd) s))
        else
          let (buffer, s) = sysc (lib_fresh lc filesize) s in
          (case load_loop lc iFd filesize (0, 0x4000, buffer) s of
             None \<Rightarrow> None
           | Some (Inl e) \<Rightarrow> Some (Inl e)
           | Some (Inr ((n, buffer), s)) \<Rightarrow>
               let s = sys_do (lib_close lc iFd) s in
               if n \<noteq> filesize then Some (Inr ((-3, None, 0), s))
               else Some (Inr ((sint filesize, Some buffer, filesize), s))))"

section \<open>Paths\<close>

text \<open>
  Both functions cut slashes off the end of a copy of the path, without a test for the empty string: a
  path of slashes only makes them look in front of the copy.
\<close>

function strip_slashes :: "string \<Rightarrow> fault + string" where
  "strip_slashes t =
     (if t = [] then Inl Out_of_bounds
      else if last t = CHR ''/'' then strip_slashes (butlast t)
      else Inr t)"
  by pat_completeness auto

termination by (relation "measure length") auto

declare strip_slashes.simps [simp del]

definition CheckFile ::
  "'w libc \<Rightarrow> string option \<Rightarrow> ('w, 'z) sys_scheme \<Rightarrow> fault + int \<times> ('w, 'z) sys_scheme" where
  "CheckFile lc filepath s =
     (case filepath of
        None \<Rightarrow> Inr (0, s)
      | Some p \<Rightarrow>
          bindF (strip_slashes p) (\<lambda>dirnoslash.
          let dirnoslash = (if CHR ''/'' \<notin> set dirnoslash then dirnoslash @ ''/'' else dirnoslash);
              (r, s) = sysc (lib_stat lc dirnoslash) s in
          Inr (if r = 0 then 1 else 0, s)))"

text \<open>The text up to and with the last slash.\<close>

definition parent_path :: "string \<Rightarrow> string" where
  "parent_path p = rev (dropWhile (\<lambda>c. c \<noteq> CHR ''/'') (rev p))"

lemma strip_slashes_length: "strip_slashes t = Inr u \<Longrightarrow> length u \<le> length t \<and> u \<noteq> [] \<and> last u \<noteq> CHR ''/''"
proof (induction t rule: strip_slashes.induct)
  case (1 t)
  then show ?case by (auto simp: strip_slashes.simps [of t] split: if_splits dest: le_SucI)
qed

lemma parent_path_shorter:
  assumes "u \<noteq> []" and "last u \<noteq> CHR ''/''"
  shows "length (parent_path u) < length u"
proof -
  have "length (dropWhile (\<lambda>c. c \<noteq> CHR ''/'') (rev u)) < length (rev u)"
    using assms by (cases u rule: rev_cases) (auto simp: le_less_trans [OF length_dropWhile_le])
  then show ?thesis by (simp add: parent_path_def)
qed

function CreateSubfolder ::
  "'w libc \<Rightarrow> string option \<Rightarrow> ('w, 'z) sys_scheme \<Rightarrow> fault + int \<times> ('w, 'z) sys_scheme" where
  "CreateSubfolder lc fullpath s =
     (case fullpath of
        None \<Rightarrow> Inr (0, s)
      | Some p \<Rightarrow>
          bindF (strip_slashes p) (\<lambda>dirnoslash.
          bindF (CheckFile lc (Some dirnoslash) s) (\<lambda>(there, s).
          if there \<noteq> 0 then Inr (1, s)
          else if CHR ''/'' \<notin> set dirnoslash then
            let (r, s) = sysc (lib_stat lc (dirnoslash @ ''/'')) s in
            Inr (if r = 0 then 1 else 0, s)
          else
            bindF (CreateSubfolder lc (Some (parent_path dirnoslash)) s) (\<lambda>(result, s).
            if result = 0 then Inr (0, s)
            else
              let (r, s) = sysc (lib_mkdir lc dirnoslash 0x1FF) s in
              Inr (if r = -1 then 0 else 1, s)))))"
  by pat_completeness auto

termination
  by (relation "measure (\<lambda>(lc, p, s). case p of None \<Rightarrow> 0 | Some t \<Rightarrow> Suc (length t))")
    (auto dest!: strip_slashes_length intro: less_le_trans [OF parent_path_shorter])

declare CreateSubfolder.simps [simp del]


section \<open>Creating a directory with its parents\<close>

definition plain_text :: "string \<Rightarrow> bool" where
  "plain_text t \<longleftrightarrow> t \<noteq> [] \<and> CHR ''/'' \<notin> set t"

definition path_text :: "string \<Rightarrow> string list \<Rightarrow> string" where
  "path_text dev segs = dev @ concat (map (\<lambda>x. CHR ''/'' # x) segs)"

lemma last_not_slash: "plain_text t \<Longrightarrow> last (r @ t) \<noteq> CHR ''/''"
  by (auto simp: plain_text_def dest: last_in_set)

lemma path_text_last: "plain_text dev \<Longrightarrow> \<forall>x \<in> set segs. plain_text x \<Longrightarrow> last (path_text dev segs) \<noteq> CHR ''/''"
  by (cases segs rule: rev_cases)
    (use last_not_slash [of dev "[]"] last_not_slash in \<open>auto simp: path_text_def plain_text_def\<close>)

lemma path_text_not_Nil: "plain_text dev \<Longrightarrow> path_text dev segs \<noteq> []"
  by (simp add: path_text_def plain_text_def)

lemma strip_plain: "t \<noteq> [] \<Longrightarrow> last t \<noteq> CHR ''/'' \<Longrightarrow> strip_slashes t = Inr t"
  by (simp add: strip_slashes.simps [of t])

lemma strip_slash: "t \<noteq> [] \<Longrightarrow> last t \<noteq> CHR ''/'' \<Longrightarrow> strip_slashes (t @ ''/'') = Inr t"
  by (simp add: strip_slashes.simps [of "t @ ''/''"] strip_plain)

lemma strip_only_slashes: "strip_slashes (replicate n (CHR ''/'')) = Inl Out_of_bounds"
proof (induction n)
  case (Suc n)
  have "butlast (replicate (Suc n) (CHR ''/'')) = replicate n (CHR ''/'')"
    by (simp only: replicate_append_same [symmetric] replicate_Suc butlast_snoc)
  then show ?case using Suc by (simp add: strip_slashes.simps [of "replicate (Suc n) _"] del: replicate_Suc)
qed (simp add: strip_slashes.simps)

lemma parent_of_path: "plain_text x \<Longrightarrow> parent_path (path_text dev (segs @ [x])) = path_text dev segs @ ''/''"
proof -
  assume "plain_text x"
  then have "dropWhile (\<lambda>c. c \<noteq> CHR ''/'') (rev x @ CHR ''/'' # r) = CHR ''/'' # r" for r
    by (subst dropWhile_append2) (auto simp: plain_text_def)
  then show ?thesis by (simp add: parent_path_def path_text_def)
qed

lemma slash_in_path: "segs \<noteq> [] \<Longrightarrow> CHR ''/'' \<in> set (path_text dev segs)"
  by (cases segs) (auto simp: path_text_def)

text \<open>
  A file system under the C library, for the set of paths that are there: \<open>stat\<close> tells membership, and
  \<open>mkdir\<close> adds a path that is not there if its parent is. The device root carries its slash.
\<close>

definition makes_dirs :: "'w libc \<Rightarrow> string \<Rightarrow> ('w \<Rightarrow> string set) \<Rightarrow> bool" where
  "makes_dirs lc dev there \<longleftrightarrow>
     (\<forall>p w. lib_stat lc p w = (if p \<in> there w then 0 else -1, w)) \<and>
     (\<forall>segs x mode w. path_text dev (segs @ [x]) \<notin> there w \<and>
        (if segs = [] then dev @ ''/'' else path_text dev segs) \<in> there w \<longrightarrow>
        (\<exists>w'. lib_mkdir lc (path_text dev (segs @ [x])) mode w = (0, w') \<and>
           there w' = insert (path_text dev (segs @ [x])) (there w)))"

text \<open>The paths of all directories on the way to one, itself included.\<close>

definition paths_down :: "string \<Rightarrow> string list \<Rightarrow> string set" where
  "paths_down dev segs = (\<lambda>k. path_text dev (take k segs)) ` {1..length segs}"

lemma paths_down_snoc: "paths_down dev (segs @ [x]) = insert (path_text dev (segs @ [x])) (paths_down dev segs)"
proof -
  have "{1..length (segs @ [x])} = insert (length (segs @ [x])) {1..length segs}" by auto
  then show ?thesis by (simp add: paths_down_def)
qed

lemma check_path:
  assumes "makes_dirs lc dev there" and "plain_text dev" and "\<forall>x \<in> set segs. plain_text x"
  shows "CheckFile lc (Some (path_text dev segs)) s =
    Inr (if (if segs = [] then dev @ ''/'' else path_text dev segs) \<in> there (world s) then 1 else 0, s)"
proof -
  have st: "strip_slashes (path_text dev segs) = Inr (path_text dev segs)"
    by (intro strip_plain path_text_not_Nil path_text_last assms(2,3))
  have "sysc (lib_stat lc p) s = (if p \<in> there (world s) then 0 else -1, s)" for p
    using assms(1) by (simp add: makes_dirs_def sysc_def)
  moreover have "path_text dev [] = dev" "CHR ''/'' \<notin> set dev"
    using assms(2) by (simp_all add: path_text_def plain_text_def)
  ultimately show ?thesis
    using st slash_in_path [of segs dev] by (cases "segs = []") (simp_all add: CheckFile_def)
qed

lemma create_run:
  assumes fs: "makes_dirs lc dev there" and dev: "plain_text dev" and "\<forall>x \<in> set segs. plain_text x"
    and "dev @ ''/'' \<in> there (world s)" and "t = path_text dev segs \<or> t = path_text dev segs @ ''/''"
  shows "\<exists>s'. CreateSubfolder lc (Some t) s = Inr (1, s') \<and> there (world s) \<subseteq> there (world s') \<and>
    there (world s') \<subseteq> there (world s) \<union> paths_down dev segs \<and>
    (segs \<noteq> [] \<longrightarrow> path_text dev segs \<in> there (world s'))"
  using assms(3-5)
proof (induction segs arbitrary: t s rule: rev_induct)
  case Nil
  have "path_text dev [] = dev" by (simp add: path_text_def)
  moreover have "dev \<noteq> []" "last dev \<noteq> CHR ''/''"
    using dev last_not_slash [of dev "[]"] by (auto simp: plain_text_def)
  ultimately have "strip_slashes t = Inr dev" using Nil(3) strip_plain strip_slash by auto
  moreover have "CheckFile lc (Some dev) s = Inr (1, s)"
    using check_path [OF fs dev, of "[]" s] Nil(2) by (simp add: path_text_def)
  ultimately show ?case by (simp add: CreateSubfolder.simps)
next
  case (snoc x segs)
  let ?p = "path_text dev (segs @ [x])"
  have x: "plain_text x" "\<forall>y \<in> set segs. plain_text y" using snoc(2) by simp_all
  have "?p \<noteq> []" "last ?p \<noteq> CHR ''/''" using path_text_not_Nil [OF dev] path_text_last [OF dev snoc(2)] by auto
  then have st: "strip_slashes t = Inr ?p" using snoc(4) strip_plain strip_slash by auto
  have c: "CheckFile lc (Some ?p) s = Inr (if ?p \<in> there (world s) then 1 else 0, s)"
    using check_path [OF fs dev snoc(2), of s] by simp
  show ?case
  proof (cases "?p \<in> there (world s)")
    case True
    then show ?thesis using st c by (simp add: CreateSubfolder.simps)
  next
    case False
    obtain s1 where s1: "CreateSubfolder lc (Some (path_text dev segs @ ''/'')) s = Inr (1, s1)"
        "there (world s) \<subseteq> there (world s1)"
        "there (world s1) \<subseteq> there (world s) \<union> paths_down dev segs"
        "segs \<noteq> [] \<longrightarrow> path_text dev segs \<in> there (world s1)"
      using snoc.IH [OF x(2) snoc(3)] by blast
    have len: "length (path_text dev (take k segs)) < length ?p" if "k \<le> length segs" for k
    proof -
      have "path_text dev (segs @ [x]) = path_text dev (take k segs) @ concat (map (\<lambda>x. CHR ''/'' # x) (drop k segs @ [x]))"
        by (simp add: path_text_def) (metis append_take_drop_id concat_append map_append append.assoc)
      then show ?thesis by simp
    qed
    have "?p \<notin> there (world s1)"
    proof
      assume "?p \<in> there (world s1)"
      with s1(3) False have "?p \<in> paths_down dev segs" by blast
      then obtain k where "k \<le> length segs" "?p = path_text dev (take k segs)" unfolding paths_down_def by auto
      with len [of k] show False by simp
    qed
    moreover have "(if segs = [] then dev @ ''/'' else path_text dev segs) \<in> there (world s1)"
      using s1(2,4) snoc(3) by auto
    ultimately obtain w where w: "lib_mkdir lc ?p 0x1FF (world s1) = (0, w)" "there w = insert ?p (there (world s1))"
      using fs unfolding makes_dirs_def by metis
    have pr: "parent_path ?p = path_text dev segs @ ''/''" by (rule parent_of_path [OF x(1)])
    have "CreateSubfolder lc (Some t) s = Inr (1, s1\<lparr>world := w\<rparr>)"
      using st c False s1(1) w(1) slash_in_path [of "segs @ [x]" dev] pr
      by (simp add: CreateSubfolder.simps [of _ "Some t"] sysc_def)
    then show ?thesis using s1(2,3) w(2) paths_down_snoc [of dev segs x]
      by (intro exI [of _ "s1\<lparr>world := w\<rparr>"]) auto
  qed
qed

section \<open>Reading a whole file\<close>

text \<open>A file under the C library: its content, and for a view of the world what is left to read of it.\<close>

definition serves_file :: "'w libc \<Rightarrow> int \<Rightarrow> char list \<Rightarrow> ('w \<Rightarrow> char list) \<Rightarrow> bool" where
  "serves_file lc fd content rest \<longleftrightarrow>
     (\<forall>w. fst (lib_lseek lc fd 0 SEEK_TO_END w) = int (length content)) \<and>
     (\<forall>w. rest (snd (lib_lseek lc fd 0 SEEK_TO_START w)) = content) \<and>
     (\<forall>n w. \<exists>k w'. lib_read lc fd n w = ((int k, take k (rest w)), w') \<and> k \<le> unat n \<and> k \<le> length (rest w) \<and>
       (k = 0 \<longrightarrow> n = 0 \<or> rest w = []) \<and> rest w' = drop k (rest w)) \<and>
     (\<forall>n w. length (fst (lib_fresh lc n w)) = unat n \<and> rest (snd (lib_fresh lc n w)) = rest w)"

lemma load_loop_run:
  assumes fs: "serves_file lc fd content rest" and size: "length content < 2 ^ 31"
    and "n \<le> of_nat (length content)" and "0 < bs" and "bs \<le> 0x4000"
    and "length buf = length content" and "take (unat n) buf = take (unat n) content"
    and "rest (world s) = drop (unat n) content"
  shows "\<exists>s'. load_loop lc fd (of_nat (length content)) (n, bs, buf) s =
    Some (Inr ((of_nat (length content), content), s'))"
  using assms(3-8)
proof (induction "length content - unat n" arbitrary: n bs buf s rule: less_induct)
  case less
  let ?size = "of_nat (length content) :: u32"
  have us: "unat ?size = length content" using size by (simp add: unat_of_nat)
  show ?case
  proof (cases "n = ?size")
    case True
    then have "unat n = length content" using us by simp
    then have "buf = content" using less(5,6) by simp
    then show ?thesis using True by (simp add: load_loop.simps)
  next
    case False
    then have "n < ?size" using less(2) by simp
    then have n: "n < ?size" "unat n < length content" using us by (simp_all add: word_less_nat_alt)
    define b where "b = (if n + bs > ?size then ?size - n else bs)"
    have bs: "unat bs \<le> 0x4000" "0 < unat bs" using less(3,4) by (simp_all add: word_le_nat_alt word_less_nat_alt)
    have nb: "unat (n + bs) = unat n + unat bs" using bs n(2) size by (simp add: unat_plus_if')
    have sb: "unat (?size - n) = length content - unat n" using n us by (simp add: unat_sub word_le_nat_alt)
    have b: "0 < unat b" "unat b \<le> length content - unat n" "unat b \<le> 0x4000"
      using bs n(2) nb sb us by (auto simp: b_def word_less_nat_alt)
    obtain k w where k: "lib_read lc fd b (world s) = ((int k, take k (rest (world s))), w)" "k \<le> unat b"
        "k \<le> length (rest (world s))" "k = 0 \<longrightarrow> b = 0 \<or> rest (world s) = []" "rest w = drop k (rest (world s))"
      using fs unfolding serves_file_def by meson
    have "rest (world s) \<noteq> []" using less(7) n(2) by simp
    then have k0: "0 < k" using k(4) b(1) by (cases "k = 0") auto
    define buf' where "buf' = take (unat n) buf @ take k (drop (unat n) content) @ drop (unat n + k) buf"
    have kn: "unat n + k \<le> length content" using k(2) b(2) n(2) by simp
    have w1: "write_at buf (uint n) (take k (rest (world s))) = Inr buf'"
      using kn less(5,7) by (simp add: write_at_Inr_iff buf'_def min_absorb1)
    have t: "load_turn lc fd ?size (n, bs, buf) s = Inr ((True, n + of_nat k, b, buf'), s\<lparr>world := w\<rparr>)"
      unfolding load_turn_def prod.case b_def [symmetric] using k(1) k0 w1 by (simp add: sysc_def)
    have un: "unat (n + of_nat k) = unat n + k"
      using kn size by (simp add: unat_plus_if' unat_of_nat)
    have "\<exists>s'. load_loop lc fd ?size (n + of_nat k, b, buf') (s\<lparr>world := w\<rparr>) = Some (Inr ((?size, content), s'))"
    proof (rule less.hyps)
      show "length content - unat (n + of_nat k) < length content - unat n" using un k0 kn by simp
      show "n + of_nat k \<le> ?size" using un kn us by (simp add: word_le_nat_alt)
      show "0 < b" "b \<le> 0x4000" using b(1,3) by (simp_all add: word_less_nat_alt word_le_nat_alt)
      show "length buf' = length content" using kn less(5) by (simp add: buf'_def)
      show "take (unat (n + of_nat k)) buf' = take (unat (n + of_nat k)) content"
        using kn less(5,6) by (simp add: un buf'_def take_add)
      show "rest (world (s\<lparr>world := w\<rparr>)) = drop (unat (n + of_nat k)) content"
        using k(5) less(7) by (simp add: un add.commute)
    qed
    then show ?thesis using n(1) t by (simp add: load_loop.simps [of _ _ _ "(n, bs, buf)"])
  qed
qed

section \<open>Properties\<close>

text \<open>Creating a subfolder on a mounted device creates it and every missing directory above it, and
  nothing else: it returns 1, the directory is there, whatever was there still is, and everything new is
  on the way to it. A slash at the end of the path makes no difference.\<close>

theorem create_subfolder_creates:
  assumes "makes_dirs lc dev there" and "plain_text dev" and "\<forall>x \<in> set segs. plain_text x" and "segs \<noteq> []"
    and "dev @ ''/'' \<in> there (world s)" and "t = path_text dev segs \<or> t = path_text dev segs @ ''/''"
  shows "\<exists>s'. CreateSubfolder lc (Some t) s = Inr (1, s') \<and> path_text dev segs \<in> there (world s') \<and>
    there (world s) \<subseteq> there (world s') \<and> there (world s') \<subseteq> there (world s) \<union> paths_down dev segs"
  using create_run [OF assms(1,2,3,5,6)] assms(4) by blast

definition dirs_lc :: "string list libc" where
  "dirs_lc = \<lparr>lib_open = (\<lambda>p w. (-1, w)), lib_lseek = (\<lambda>fd p d w. (-1, w)), lib_read = (\<lambda>fd n w. ((-1, []), w)),
     lib_close = (\<lambda>fd w. w), lib_stat = (\<lambda>p w. (if p \<in> set w then 0 else -1, w)),
     lib_mkdir = (\<lambda>p mode w. (0, p # w)), lib_fresh = (\<lambda>n w. (replicate (unat n) NUL, w))\<rparr>"

theorem create_subfolder_creates_witness:
  "\<exists>s'. CreateSubfolder dirs_lc (Some ''sd:/a/b/'') \<lparr>world = [''sd:/''], allocs = allocs0\<rparr> = Inr (1, s') \<and>
    ''sd:/a/b'' \<in> set (world s')"
proof -
  have "makes_dirs dirs_lc ''sd:'' set" by (simp add: makes_dirs_def dirs_lc_def)
  from create_subfolder_creates [OF this, of "[''a'', ''b'']" "\<lparr>world = [''sd:/''], allocs = allocs0\<rparr>" "''sd:/a/b/''"]
  show ?thesis by (auto simp: plain_text_def path_text_def)
qed

text \<open>Reading a file into memory returns its whole content, byte for byte and with its size, however the C
  library cuts it into pieces, for files below 2 GiB; the function returns and there is no undefined
  behaviour.\<close>

theorem load_file_whole:
  assumes "serves_file lc fd content rest" and "length content < 2 ^ 31"
    and "lib_open lc path (world s) = (fd, w)" and "0 \<le> fd" and "allocs s 0 \<noteq> 0"
  shows "\<exists>s'. LoadFileToMem lc path s =
    Some (Inr ((int (length content), Some content, of_nat (length content)), s'))"
proof -
  let ?size = "of_nat (length content) :: u32"
  obtain w1 where e1: "lib_lseek lc fd 0 SEEK_TO_END w = (int (length content), w1)"
    using assms(1) unfolding serves_file_def by (metis prod.collapse)
  obtain e w2 where e2: "lib_lseek lc fd 0 SEEK_TO_START w1 = (e, w2)" "rest w2 = content"
    using assms(1) unfolding serves_file_def by (metis prod.collapse)
  obtain buf w3 where e3: "lib_fresh lc ?size w2 = (buf, w3)" "length buf = unat ?size" "rest w3 = content"
    using assms(1) e2(2) unfolding serves_file_def by (metis prod.collapse)
  let ?s = "s\<lparr>allocs := (\<lambda>k. allocs s (Suc k)), world := w3\<rparr>"
  have "unat ?size = length content" using assms(2) by (simp add: unat_of_nat)
  then obtain s' where l: "load_loop lc fd ?size (0, 0x4000, buf) ?s = Some (Inr ((?size, content), s'))"
    using load_loop_run [OF assms(1,2), of 0 "0x4000" buf ?s] e3 by auto
  have "sint ?size = int (length content)"
    using assms(2) int_word_sint [where 'a = 32, of "int (length content)"] by simp
  then show ?thesis
    using assms(3-5) e1 e2(1) e3(1) l by (simp add: LoadFileToMem_def sysc_def malloc_def Let_def)
qed

text \<open>A file of five bytes that is read two bytes at a time.\<close>

definition file_lc :: "char list libc" where
  "file_lc = \<lparr>lib_open = (\<lambda>p w. (3, w)), lib_lseek = (\<lambda>fd p d w. (if d = SEEK_TO_END then 5 else 0, ''hello'')),
     lib_read = (\<lambda>fd n w. let k = min (min 2 (unat n)) (length w) in ((int k, take k w), drop k w)),
     lib_close = (\<lambda>fd w. w), lib_stat = (\<lambda>p w. (0, w)), lib_mkdir = (\<lambda>p mode w. (-1, w)),
     lib_fresh = (\<lambda>n w. (replicate (unat n) NUL, w))\<rparr>"

lemma file_lc_serves: "serves_file file_lc 3 ''hello'' id"
proof -
  have "\<exists>k w'. lib_read file_lc 3 n w = ((int k, take k w), w') \<and> k \<le> unat n \<and> k \<le> length w \<and>
      (k = 0 \<longrightarrow> n = 0 \<or> w = []) \<and> w' = drop k w" for n w
    by (intro exI [of _ "min (min 2 (unat n)) (length w)"] exI [of _ "drop (min (min 2 (unat n)) (length w)) w"])
      (auto simp: file_lc_def Let_def min_def unat_eq_0)
  then show ?thesis by (simp add: serves_file_def) (simp add: file_lc_def SEEK_TO_END_def)
qed

theorem load_file_whole_witness:
  "\<exists>s'. LoadFileToMem file_lc ''sd:/a.txt'' \<lparr>world = [], allocs = allocs0\<rparr> = Some (Inr ((5, Some ''hello'', 5), s'))"
  using load_file_whole [OF file_lc_serves, of "''sd:/a.txt''" "\<lparr>world = [], allocs = allocs0\<rparr>" "[]"]
  by (simp add: file_lc_def allocs0_def)

end
