(* ===== verification/Crash.thy ===== *)
theory Crash
  imports Platform
begin

text \<open>
  The exception handler (\<open>system/exception_handler.c\<close>): the report about a crash, written piece by piece
  into a message buffer of 4096 bytes, the registers, a line for every address of the stack trace, and
  the end of the program. Writing past the buffer and reading unmapped memory are faults.
\<close>

section \<open>State\<close>

record osctx =
  gpr :: "nat \<Rightarrow> u32"
  cr_reg :: u32
  lr :: u32
  ctr :: u32
  xer :: u32
  srr0 :: u32
  srr1 :: u32
  dsisr :: u32
  dar :: u32

text \<open>The calls of the system the handler uses, and its memory.\<close>

record 'w dbg =
  dbg_physical :: "u32 \<Rightarrow> 'w \<Rightarrow> u32"                     \<comment> \<open>0 for an address that is not mapped\<close>
  dbg_word :: "u32 \<Rightarrow> 'w \<Rightarrow> u32 option"                  \<comment> \<open>the word at an address\<close>
  dbg_symbol :: "u32 \<Rightarrow> 'w \<Rightarrow> string"
  dbg_acquire :: "string \<Rightarrow> 'w \<Rightarrow> u32 \<times> 'w"             \<comment> \<open>the library's handle, 0 on failure\<close>
  dbg_find :: "u32 \<Rightarrow> string \<Rightarrow> 'w \<Rightarrow> u32 option \<times> 'w"
  dbg_release :: "u32 \<Rightarrow> 'w \<Rightarrow> 'w"
  dbg_set_callback :: "int \<Rightarrow> 'w \<Rightarrow> 'w"
  dbg_fatal :: "string \<Rightarrow> 'w \<Rightarrow> 'w"

text \<open>
  \<open>msg\<close> is what has been written so far, so its length is the position; \<open>msg_room\<close> the size of the buffer,
  none for the memory the handler falls back on.
\<close>

record 'w crash = "'w sys" +
  exception_msgbuf :: u32
  msg :: string
  msg_room :: "int option"

definition OS_EXCEPTION_TYPE_DSI :: int where "OS_EXCEPTION_TYPE_DSI = 2"
definition OS_EXCEPTION_TYPE_ISI :: int where "OS_EXCEPTION_TYPE_ISI = 3"
definition OS_EXCEPTION_TYPE_PROGRAM :: int where "OS_EXCEPTION_TYPE_PROGRAM = 6"

definition DSISR_TRANSLATION_MISS :: u32 where "DSISR_TRANSLATION_MISS = 0x40000000"
definition DSISR_TRANSLATION_PROT :: u32 where "DSISR_TRANSLATION_PROT = 0x8000000"
definition DSISR_BAD_CACHING :: u32 where "DSISR_BAD_CACHING = 0x4000000"
definition DSISR_WRITE_ATTEMPTED :: u32 where "DSISR_WRITE_ATTEMPTED = 0x2000000"
definition SRR1_ISI_TRANSLATION_MISS :: u32 where "SRR1_ISI_TRANSLATION_MISS = 0x40000000"
definition SRR1_ISI_TRANSLATION_PROT :: u32 where "SRR1_ISI_TRANSLATION_PROT = 0x8000000"
definition SRR1_PROG_IEEE_FLOAT :: u32 where "SRR1_PROG_IEEE_FLOAT = 0x100000"
definition SRR1_PROG_BAD_INSTR :: u32 where "SRR1_PROG_BAD_INSTR = 0x80000"
definition SRR1_PROG_PRIV_INSTR :: u32 where "SRR1_PROG_PRIV_INSTR = 0x40000"
definition SRR1_PROG_TRAP :: u32 where "SRR1_PROG_TRAP = 0x20000"
definition SRR1_PROG_SRR0_INACCURATE :: u32 where "SRR1_PROG_SRR0_INACCURATE = 0x10000"
definition NUM_STACK_TRACE_LINES :: nat where "NUM_STACK_TRACE_LINES = 5"

section \<open>Writing\<close>

text \<open>What \<open>%08X\<close> prints.\<close>

definition hex_digit :: "nat \<Rightarrow> char" where
  "hex_digit n = (if n < 10 then char_of (48 + n) else char_of (55 + n))"

definition hex8 :: "u32 \<Rightarrow> string" where
  "hex8 w = map (\<lambda>i. hex_digit (unat (drop_bit (4 * i) w AND 0xF))) [7, 6, 5, 4, 3, 2, 1, 0]"

definition buf_add :: "string \<Rightarrow> ('w, 'z) crash_scheme \<Rightarrow> fault + ('w, 'z) crash_scheme" where
  "buf_add t s =
     (case msg_room s of
        Some n \<Rightarrow> if int (length (msg s)) + int (length t) + 1 \<le> n then Inr (s\<lparr>msg := msg s @ t\<rparr>) else Inl Out_of_bounds
      | None \<Rightarrow> Inr (s\<lparr>msg := msg s @ t\<rparr>))"

fun buf_adds :: "string list \<Rightarrow> ('w, 'z) crash_scheme \<Rightarrow> fault + ('w, 'z) crash_scheme" where
  "buf_adds [] s = Inr s"
| "buf_adds (t # ts) s = bindF (buf_add t s) (buf_adds ts)"

section \<open>The report\<close>

text \<open>The pieces of the first line.\<close>

definition header_texts :: "osctx \<Rightarrow> int \<Rightarrow> string list" where
  "header_texts ctx type =
     (if type = OS_EXCEPTION_TYPE_DSI then
        [''DSI: Instr at '' @ hex8 (srr0 ctx),
         if dsisr ctx AND DSISR_WRITE_ATTEMPTED \<noteq> 0 then '' bad write to'' else '' bad read from''] @
        (if dsisr ctx AND DSISR_TRANSLATION_MISS \<noteq> 0 then ['' unmapped memory at'']
         else if dsisr ctx AND DSISR_TRANSLATION_PROT \<noteq> 0 then ['' protected memory at'']
         else if dsisr ctx AND DSISR_BAD_CACHING \<noteq> 0 then ['' uncached memory at''] else []) @
        ['' '' @ hex8 (dar ctx) @ [LF]]
      else if type = OS_EXCEPTION_TYPE_ISI then
        [''ISI: Bad execute of''] @
        (if srr1 ctx AND SRR1_ISI_TRANSLATION_PROT \<noteq> 0 then ['' protected memory at'']
         else if srr1 ctx AND SRR1_ISI_TRANSLATION_MISS \<noteq> 0 then ['' unmapped memory at''] else []) @
        ['' '' @ hex8 (srr0 ctx) @ [LF]]
      else if type = OS_EXCEPTION_TYPE_PROGRAM then
        [''PROG:'',
         if srr1 ctx AND SRR1_PROG_BAD_INSTR \<noteq> 0 then '' Malformed instruction at''
         else if srr1 ctx AND SRR1_PROG_PRIV_INSTR \<noteq> 0 then '' Privileged instruction in userspace at''
         else if srr1 ctx AND SRR1_PROG_IEEE_FLOAT \<noteq> 0 then '' Floating-point exception at''
         else if srr1 ctx AND SRR1_PROG_TRAP \<noteq> 0 then '' Trap conditions met at''
         else '' Out-of-spec error (!) at'',
         hex8 (srr0 ctx) @ (if srr1 ctx AND SRR1_PROG_SRR0_INACCURATE \<noteq> 0 then ''-ish'' @ [LF] else [LF])]
      else [])"

text \<open>A line of the register dump: names of four characters and values.\<close>

definition reg_line :: "(string \<times> u32) list \<Rightarrow> string" where
  "reg_line rs = concat (map (\<lambda>(k, (n, v)). (if k = (0::nat) then '''' else '' '') @ n @ hex8 v) (enumerate 0 rs)) @ [LF]"

definition registers_text :: "osctx \<Rightarrow> string" where
  "registers_text ctx =
     reg_line [(''r0  '', gpr ctx 0), (''r1  '', gpr ctx 1), (''r2  '', gpr ctx 2), (''r3  '', gpr ctx 3), (''r4  '', gpr ctx 4)] @
     reg_line [(''r5  '', gpr ctx 5), (''r6  '', gpr ctx 6), (''r7  '', gpr ctx 7), (''r8  '', gpr ctx 8), (''r9  '', gpr ctx 9)] @
     reg_line [(''r10 '', gpr ctx 10), (''r11 '', gpr ctx 11), (''r12 '', gpr ctx 12), (''r13 '', gpr ctx 13), (''r14 '', gpr ctx 14)] @
     reg_line [(''r15 '', gpr ctx 15), (''r16 '', gpr ctx 16), (''r17 '', gpr ctx 17), (''r18 '', gpr ctx 18), (''r19 '', gpr ctx 19)] @
     reg_line [(''r20 '', gpr ctx 20), (''r21 '', gpr ctx 21), (''r22 '', gpr ctx 22), (''r23 '', gpr ctx 23), (''r24 '', gpr ctx 24)] @
     reg_line [(''r25 '', gpr ctx 25), (''r26 '', gpr ctx 26), (''r27 '', gpr ctx 27), (''r28 '', gpr ctx 28), (''r29 '', gpr ctx 29)] @
     reg_line [(''r30 '', gpr ctx 30), (''r31 '', gpr ctx 31), (''lr  '', lr ctx), (''sr1 '', srr1 ctx), (''dsi '', dsisr ctx)] @
     reg_line [(''ctr '', ctr ctx), (''cr  '', cr_reg ctx), (''xer '', xer ctx)]"

text \<open>The line for an address; \<open>text_start\<close> and \<open>text_end\<close> are the linker's bounds of the program.\<close>

definition exception_print_symbol ::
  "'w dbg \<Rightarrow> u32 \<Rightarrow> u32 \<Rightarrow> u32 \<Rightarrow> ('w, 'z) crash_scheme \<Rightarrow> fault + ('w, 'z) crash_scheme" where
  "exception_print_symbol d text_start text_end addr s =
     (if addr \<ge> text_start \<and> addr < text_end then
        buf_add (hex8 addr @ ''('' @ hex8 (addr - text_start) @ ''):'' @ dbg_symbol d addr (world s) @ [LF]) s
      else if (addr \<ge> 0x01000000 \<and> addr < 0x01800000) \<or> (addr \<ge> 0x01800000 \<and> addr < 0x1000000) then
        let symbolName = dbg_symbol d addr (world s) in
        if CHR ''|'' \<in> set symbolName then
          let name = takeWhile (\<lambda>c. c \<noteq> CHR ''|'') symbolName;
              (libAddr, s) = sysc (dbg_acquire d name) s in
          bindF
            (if name = ''coreinit.rpl'' then
               let (r, s) = sysc (dbg_find d libAddr ''__PPCExit'') s in
               case r of None \<Rightarrow> Inl Uninitialised | Some a \<Rightarrow> Inr (a - 0x180, s)
             else Inr (libAddr, s))
            (\<lambda>(libAddr, s).
            if libAddr \<noteq> 0 then
              bindF (buf_add (hex8 addr @ ''('' @ hex8 (addr - libAddr) @ ''):'' @ symbolName @ [LF]) s) (\<lambda>s.
              Inr (sys_do (dbg_release d libAddr) s))
            else buf_add (hex8 addr @ ''(        ):'' @ symbolName @ [LF]) s)
        else buf_add (hex8 addr @ ''(        ):'' @ symbolName @ [LF]) s
      else if addr \<ge> 0x00800000 \<and> addr < 0x01000000 then
        buf_add (hex8 addr @ ''('' @ hex8 (addr - 0x00800000) @ ''):<unknown:HBL>'' @ [LF]) s
      else buf_add (hex8 addr @ ''(        ):<unknown>'' @ [LF]) s)"

definition peek :: "'w dbg \<Rightarrow> u32 \<Rightarrow> ('w, 'z) crash_scheme \<Rightarrow> fault + u32" where
  "peek d a s = (case dbg_word d a (world s) of None \<Rightarrow> Inl Out_of_bounds | Some v \<Rightarrow> Inr v)"

text \<open>The frames from \<open>p\<close> on, at most \<open>n\<close> of them.\<close>

fun trace_frames ::
  "'w dbg \<Rightarrow> u32 \<Rightarrow> u32 \<Rightarrow> nat \<Rightarrow> u32 \<Rightarrow> ('w, 'z) crash_scheme \<Rightarrow> fault + ('w, 'z) crash_scheme" where
  "trace_frames d t0 t1 0 p s = Inr s"
| "trace_frames d t0 t1 (Suc n) p s =
     bindF (peek d p s) (\<lambda>up.
     if up = 0 then Inr s
     else
       bindF (peek d (p + 4) s) (\<lambda>l.
       bindF (exception_print_symbol d t0 t1 l s) (\<lambda>s.
       bindF (peek d p s) (\<lambda>up. trace_frames d t0 t1 n up s))))"

text \<open>\<open>version\<close> and \<open>date\<close> are the texts the build defines. The call does not return; the result is the state it stops in.\<close>

definition exception_cb ::
  "'w dbg \<Rightarrow> u32 \<Rightarrow> u32 \<Rightarrow> string \<Rightarrow> string \<Rightarrow> osctx \<Rightarrow> int \<Rightarrow> ('w, 'z) crash_scheme \<Rightarrow>
   fault + ('w, 'z) crash_scheme" where
  "exception_cb d t0 t1 version date ctx type s =
     (let s = (if exception_msgbuf s = 0 \<or> dbg_physical d (exception_msgbuf s) (world s) = 0
               then s\<lparr>exception_msgbuf := 0xF4000000, msg_room := None\<rparr> else s) in
      bindF (buf_adds (header_texts ctx type) s) (\<lambda>s.
      bindF (buf_add (registers_text ctx) s) (\<lambda>s.
      bindF (exception_print_symbol d t0 t1 (srr0 ctx) s) (\<lambda>s.
      bindF
        (if gpr ctx 1 \<noteq> 0 then
           bindF (peek d (gpr ctx 1 + 4) s) (\<lambda>l.
           bindF (if l \<noteq> lr ctx then exception_print_symbol d t0 t1 (lr ctx) s else Inr s) (\<lambda>s.
           trace_frames d t0 t1 NUM_STACK_TRACE_LINES (gpr ctx 1) s))
         else buf_add (''Stack pointer invalid. Could not trace further.'' @ [LF]) s) (\<lambda>s.
      bindF (buf_add (''RetroArch '' @ version @ '' built '' @ date) s) (\<lambda>s.
      Inr (sys_do (dbg_fatal d (msg s)) s)))))))"

definition setup_os_exceptions :: "'w dbg \<Rightarrow> ('w, 'z) crash_scheme \<Rightarrow> ('w, 'z) crash_scheme" where
  "setup_os_exceptions d s =
     (let (p, m) = malloc (allocs s);
          s = s\<lparr>allocs := m, exception_msgbuf := p, msg_room := Some 4096\<rparr> in
      foldl (\<lambda>s type. sys_do (dbg_set_callback d type) s) s
        [OS_EXCEPTION_TYPE_DSI, OS_EXCEPTION_TYPE_ISI, OS_EXCEPTION_TYPE_PROGRAM])"

section \<open>Lengths\<close>

lemma length_hex8 [simp]: "length (hex8 w) = 8"
  by (simp add: hex8_def)

lemma buf_add_room:
  assumes "msg_room s = Some n" and "int (length (msg s)) + int (length t) < n"
  shows "buf_add t s = Inr (s\<lparr>msg := msg s @ t\<rparr>)"
  using assms by (simp add: buf_add_def)

text \<open>A run that adds text and may change the outside world.\<close>

definition adds :: "string \<Rightarrow> ('w, 'z) crash_scheme \<Rightarrow> ('w, 'z) crash_scheme \<Rightarrow> bool" where
  "adds t s s' \<longleftrightarrow> msg s' = msg s @ t \<and> msg_room s' = msg_room s \<and> exception_msgbuf s' = exception_msgbuf s"

lemma adds_trans: "adds t s s1 \<Longrightarrow> adds u s1 s2 \<Longrightarrow> adds (t @ u) s s2"
  by (simp add: adds_def)

lemma buf_adds_room:
  assumes "msg_room s = Some n" and "int (length (msg s)) + int (length (concat ts)) < n"
  shows "buf_adds ts s = Inr (s\<lparr>msg := msg s @ concat ts\<rparr>)"
  using assms by (induction ts arbitrary: s) (simp_all add: buf_add_def)

lemma header_length: "length (concat (header_texts ctx type)) \<le> 80"
proof -
  have c: "length (concat (if b then xs else ys)) = (if b then length (concat xs) else length (concat ys))"
    "length (if b then x else y) = (if b then length x else length y)" for b and xs ys :: "string list" and x y :: string
    by simp_all
  show ?thesis
    by (simp only: header_texts_def c concat_append concat.simps length_append list.size append_Nil2 length_hex8) auto
qed

lemma registers_length: "length (registers_text ctx) = 494"
  by (simp add: registers_text_def reg_line_def)

section \<open>The report as a whole\<close>

text \<open>
  What the handler relies on: symbol names fit its 64 bytes and hold no line end, the frames can be read,
  and the system library that holds \<open>__PPCExit\<close> has it.
\<close>

definition dbg_ok :: "'w dbg \<Rightarrow> bool" where
  "dbg_ok d \<longleftrightarrow> (\<forall>a w. length (dbg_symbol d a w) \<le> 63 \<and> LF \<notin> set (dbg_symbol d a w)) \<and>
     (\<forall>a w. dbg_word d a w \<noteq> None) \<and> (\<forall>h n w. fst (dbg_find d h n w) \<noteq> None)"

text \<open>One line: at most 83 characters that start with the address, and a line end.\<close>

definition one_line :: "u32 \<Rightarrow> string \<Rightarrow> bool" where
  "one_line addr t \<longleftrightarrow> (\<exists>u. t = hex8 addr @ ''('' @ u @ [LF] \<and> LF \<notin> set u \<and> length t \<le> 83)"

lemma one_line_length: "one_line a t \<Longrightarrow> length t \<le> 83"
  by (auto simp: one_line_def)

lemma hex8_no_LF: "LF \<notin> set (hex8 w)"
proof -
  have d: "hex_digit n \<noteq> LF" if "n < 16" for n
  proof
    assume "hex_digit n = LF"
    then have "(of_char (hex_digit n) :: nat) = of_char LF" by simp
    moreover have "48 \<le> (of_char (hex_digit n) :: nat)" using that by (simp add: hex_digit_def of_char_char_of)
    ultimately show False by simp
  qed
  have b: "unat (drop_bit k w AND 0xF) < 16" for k
  proof -
    have "unat (drop_bit k w AND 0xF) \<le> unat (0xF :: u32)"
      by (rule word_and_le1 [THEN word_le_nat_alt [THEN iffD1]])
    then show ?thesis by simp
  qed
  have "\<forall>c \<in> set (hex8 w). \<exists>n < 16. c = hex_digit n" using b b [of 0] unfolding hex8_def by auto
  then show ?thesis using d by metis
qed

text \<open>The second range of the library test is empty.\<close>

lemma no_app_range: "\<not> (addr \<ge> 0x01800000 \<and> addr < 0x1000000)" for addr :: u32
proof
  assume "addr \<ge> 0x01800000 \<and> addr < 0x1000000"
  then have "(0x01800000 :: u32) < 0x1000000" using order_le_less_trans by blast
  then show False by simp
qed

lemma print_symbol_adds:
  assumes ok: "dbg_ok d" and room: "msg_room s = Some n" "int (length (msg s)) + 83 < n"
  shows "\<exists>t s'. exception_print_symbol d t0 t1 addr s = Inr s' \<and> adds t s s' \<and> one_line addr t"
proof -
  let ?y = "dbg_symbol d addr (world s)"
  have y: "length ?y \<le> 63" "LF \<notin> set ?y" using ok by (auto simp: dbg_ok_def)
  have put: "\<exists>s'. buf_add (hex8 addr @ ''('' @ u @ [LF]) s1 = Inr s' \<and> adds (hex8 addr @ ''('' @ u @ [LF]) s s' \<and>
      one_line addr (hex8 addr @ ''('' @ u @ [LF])"
    if "adds [] s s1" "length u \<le> 73" "LF \<notin> set u" for u s1
    using that room by (auto simp: adds_def one_line_def buf_add_def)
  have i0: "adds [] s s" by (simp add: adds_def)
  show ?thesis
  proof (cases "addr \<ge> t0 \<and> addr < t1")
    case True
    with put [OF i0, of "hex8 (addr - t0) @ ''):'' @ ?y"] y show ?thesis
      by (fastforce simp: exception_print_symbol_def hex8_no_LF)
  next
    case out: False
    show ?thesis
    proof (cases "addr \<ge> 0x01000000 \<and> addr < 0x01800000")
      case False
      have run: "exception_print_symbol d t0 t1 addr s =
          (if addr \<ge> 0x00800000 \<and> addr < 0x01000000 then
             buf_add (hex8 addr @ ''('' @ (hex8 (addr - 0x00800000) @ ''):<unknown:HBL>'') @ [LF]) s
           else buf_add (hex8 addr @ ''('' @ ''        ):<unknown>'' @ [LF]) s)"
      proof -
        have l: "\<not> ((addr \<ge> 0x01000000 \<and> addr < 0x01800000) \<or> (addr \<ge> 0x01800000 \<and> addr < 0x1000000))"
          using False no_app_range [of addr] by blast
        show ?thesis unfolding exception_print_symbol_def if_not_P [OF out] if_not_P [OF l] by (simp only: append_assoc append.simps)
      qed
      show ?thesis
        unfolding run
        using put [OF i0, of "hex8 (addr - 0x00800000) @ ''):<unknown:HBL>''"] put [OF i0, of "''        ):<unknown>''"]
        by (cases "addr \<ge> 0x00800000 \<and> addr < 0x01000000") (fastforce simp: hex8_no_LF)+
    next
      case lib: True
      show ?thesis
      proof (cases "CHR ''|'' \<in> set ?y")
        case False
        with put [OF i0, of "''        ):'' @ ?y"] lib out y show ?thesis
          by (fastforce simp: exception_print_symbol_def)
      next
        case bar: True
        let ?name = "takeWhile (\<lambda>c. c \<noteq> CHR ''|'') ?y"
        obtain a w where a: "dbg_acquire d ?name (world s) = (a, w)" by fastforce
        obtain r v where r: "dbg_find d a ''__PPCExit'' w = (Some r, v)"
          using ok unfolding dbg_ok_def by (metis fst_conv option.exhaust surj_pair)
        let ?a = "if ?name = ''coreinit.rpl'' then r - 0x180 else a" and ?w = "if ?name = ''coreinit.rpl'' then v else w"
        have i: "adds [] s (s\<lparr>world := ?w\<rparr>)" by (simp add: adds_def)
        have run: "exception_print_symbol d t0 t1 addr s =
            (if ?a \<noteq> 0 then
               bindF (buf_add (hex8 addr @ ''('' @ hex8 (addr - ?a) @ ''):'' @ ?y @ [LF]) (s\<lparr>world := ?w\<rparr>)) (\<lambda>s.
               Inr (sys_do (dbg_release d ?a) s))
             else buf_add (hex8 addr @ ''(        ):'' @ ?y @ [LF]) (s\<lparr>world := ?w\<rparr>))"
        proof -
          have l: "(addr \<ge> 0x01000000 \<and> addr < 0x01800000) \<or> (addr \<ge> 0x01800000 \<and> addr < 0x1000000)" using lib by blast
          show ?thesis unfolding exception_print_symbol_def if_not_P [OF out] if_P [OF l]
            using bar a r by (simp add: sysc_def Let_def)
        qed
        show ?thesis
        proof (cases "?a = 0")
          case True
          with put [OF i, of "''        ):'' @ ?y"] y show ?thesis unfolding run by auto
        next
          case False
          from put [OF i, of "hex8 (addr - ?a) @ ''):'' @ ?y"] y obtain s' where
            s': "buf_add (hex8 addr @ ''('' @ hex8 (addr - ?a) @ ''):'' @ ?y @ [LF]) (s\<lparr>world := ?w\<rparr>) = Inr s'"
              "adds (hex8 addr @ ''('' @ hex8 (addr - ?a) @ ''):'' @ ?y @ [LF]) s s'"
              "one_line addr (hex8 addr @ ''('' @ hex8 (addr - ?a) @ ''):'' @ ?y @ [LF])" by (auto simp: hex8_no_LF)
          then show ?thesis using False unfolding run by (auto simp: adds_def sys_do_def)
        qed
      qed
    qed
  qed
qed

lemma peek_ok: "dbg_ok d \<Longrightarrow> \<exists>v. peek d a s = Inr v"
  by (auto simp: dbg_ok_def peek_def split: option.split)

lemma trace_adds:
  assumes ok: "dbg_ok d" and room: "msg_room s = Some n" "int (length (msg s)) + 83 * int k < n"
  shows "\<exists>as ls s'. trace_frames d t0 t1 k p s = Inr s' \<and> adds (concat ls) s s' \<and> length ls \<le> k \<and>
    list_all2 one_line as ls"
  using room
proof (induction k arbitrary: p s)
  case 0
  then show ?case by (intro exI [of _ "[]"]) (simp add: adds_def)
next
  case (Suc k)
  note word = peek_ok [OF ok]
  obtain up where up: "peek d p s = Inr up" using word by blast
  show ?case
  proof (cases "up = 0")
    case True
    then show ?thesis using up by (intro exI [of _ "[]"]) (simp add: adds_def)
  next
    case False
    obtain l where l: "peek d (p + 4) s = Inr l" using word by blast
    have "int (length (msg s)) + 83 < n" using Suc.prems(2) by simp
    from print_symbol_adds [OF ok Suc.prems(1) this] obtain t s1 where
      t: "exception_print_symbol d t0 t1 l s = Inr s1" "adds t s s1" "one_line l t" by blast
    obtain up2 where up2: "peek d p s1 = Inr up2" using word by blast
    have "msg_room s1 = Some n" "int (length (msg s1)) + 83 * int k < n"
      using t(2) one_line_length [OF t(3)] Suc.prems by (simp_all add: adds_def)
    from Suc.IH [OF this, of up2] obtain as ls s2 where
      s2: "trace_frames d t0 t1 k up2 s1 = Inr s2" "adds (concat ls) s1 s2" "length ls \<le> k" "list_all2 one_line as ls" by blast
    have "adds (concat (t # ls)) s s2" using adds_trans [OF t(2) s2(2)] by simp
    then show ?thesis
      using up False l t up2 s2 by (intro exI [of _ "l # as"] exI [of _ "t # ls"] exI [of _ s2]) simp
  qed
qed

lemma lines_length: "list_all2 one_line as ls \<Longrightarrow> length (concat ls) \<le> 83 * length ls"
  by (induction rule: list_all2_induct) (auto dest: one_line_length)

text \<open>The trace of the stack, or the note that there is none.\<close>

lemma stack_adds:
  assumes ok: "dbg_ok d" and room: "msg_room s = Some 4096" "length (msg s) \<le> 657" and that: "length z \<le> 50"
  shows "\<exists>s' as ls. (if gpr ctx 1 \<noteq> 0 then
      bindF (peek d (gpr ctx 1 + 4) s) (\<lambda>l.
      bindF (if l \<noteq> lr ctx then exception_print_symbol d t0 t1 (lr ctx) s else Inr s) (\<lambda>s.
      trace_frames d t0 t1 NUM_STACK_TRACE_LINES (gpr ctx 1) s))
    else buf_add z s) = Inr s' \<and>
    adds (concat ls @ (if gpr ctx 1 = 0 then z else [])) s s' \<and> list_all2 one_line as ls \<and> length ls \<le> 6"
proof (cases "gpr ctx 1 = 0")
  case True
  have "buf_add z s = Inr (s\<lparr>msg := msg s @ z\<rparr>)" using room that by (intro buf_add_room [of _ 4096]) linarith+
  with True show ?thesis by (intro exI [of _ "s\<lparr>msg := msg s @ z\<rparr>"] exI [of _ "[]"]) (simp add: adds_def)
next
  case False
  obtain l where l: "peek d (gpr ctx 1 + 4) s = Inr l" using peek_ok [OF ok] by blast
  have "\<exists>s4 as ls. (if l \<noteq> lr ctx then exception_print_symbol d t0 t1 (lr ctx) s else Inr s) = Inr s4 \<and>
      adds (concat ls) s s4 \<and> list_all2 one_line as ls \<and> length ls \<le> 1"
  proof (cases "l = lr ctx")
    case True
    then show ?thesis by (intro exI [of _ s] exI [of _ "[]"]) (simp add: adds_def)
  next
    case False
    have "int (length (msg s)) + 83 < 4096" using room(2) by simp
    from print_symbol_adds [OF ok room(1) this] obtain u s4 where
      "exception_print_symbol d t0 t1 (lr ctx) s = Inr s4" "adds u s s4" "one_line (lr ctx) u" by blast
    with False show ?thesis by (intro exI [of _ s4] exI [of _ "[lr ctx]"] exI [of _ "[u]"]) simp
  qed
  then obtain s4 as ls where 4: "(if l \<noteq> lr ctx then exception_print_symbol d t0 t1 (lr ctx) s else Inr s) = Inr s4"
    "adds (concat ls) s s4" "list_all2 one_line as ls" "length ls \<le> 1" by blast
  have "length (concat ls) \<le> 83 * 1" using lines_length [OF 4(3)] 4(4) by linarith
  then have "msg_room s4 = Some 4096" "int (length (msg s4)) + 83 * int NUM_STACK_TRACE_LINES < 4096"
    using 4(2) room by (simp_all add: adds_def NUM_STACK_TRACE_LINES_def)
  from trace_adds [OF ok this, of t0 t1 "gpr ctx 1"] obtain bs ms s5 where
    5: "trace_frames d t0 t1 NUM_STACK_TRACE_LINES (gpr ctx 1) s4 = Inr s5" "adds (concat ms) s4 s5"
      "length ms \<le> NUM_STACK_TRACE_LINES" "list_all2 one_line bs ms" by blast
  have "adds (concat (ls @ ms)) s s5" using adds_trans [OF 4(2) 5(2)] by simp
  moreover have "list_all2 one_line (as @ bs) (ls @ ms)" using 4(3) 5(4) by (rule list_all2_appendI)
  moreover have "length (ls @ ms) \<le> 6" using 4(4) 5(3) by (simp add: NUM_STACK_TRACE_LINES_def)
  ultimately show ?thesis using False l 4(1) 5(1)
    by (intro exI [of _ s5] exI [of _ "as @ bs"] exI [of _ "ls @ ms"]) simp
qed


section \<open>Witness\<close>

definition dbg0 :: "string list dbg" where
  "dbg0 = \<lparr>dbg_physical = (\<lambda>a w. a), dbg_word = (\<lambda>a w. Some 0), dbg_symbol = (\<lambda>a w. ''main.c|main''),
     dbg_acquire = (\<lambda>n w. (0, w)), dbg_find = (\<lambda>h n w. (Some 0, w)), dbg_release = (\<lambda>h w. w),
     dbg_set_callback = (\<lambda>n w. w), dbg_fatal = (\<lambda>t w. w @ [t])\<rparr>"

definition crash0 :: "string list crash" where
  "crash0 = setup_os_exceptions dbg0
     \<lparr>world = [], allocs = allocs0, exception_msgbuf = 0, msg = [], msg_room = None\<rparr>"

definition ctx0 :: osctx where
  "ctx0 = \<lparr>gpr = (\<lambda>n. 0), cr_reg = 0, lr = 0x02000100, ctr = 0, xer = 0, srr0 = 0x02000104, srr1 = 0, dsisr = 0, dar = 0\<rparr>"


end
