(* ===== verification/Loader.thy ===== *)
theory Loader
  imports Platform
begin

text \<open>
  Loading another program (\<open>hbl.c\<close>): the table of memory areas, reading the file into a buffer, and copying it
  either to the memory behind this program (an ELF file) or, area by area, to the physical memory the
  system reads programs from (an RPX file).
\<close>

section \<open>State\<close>

record s_mem_area =
  ma_address :: u32
  ma_size :: u32
  ma_next :: "nat option"                              \<comment> \<open>the index of the next area\<close>

text \<open>The kernel, the memory and the file calls.\<close>

record 'w kernel =
  k_copy :: "u32 \<Rightarrow> u32 \<Rightarrow> u32 \<Rightarrow> 'w \<Rightarrow> 'w"                 \<comment> \<open>physical target, physical source, length\<close>
  k_store :: "u32 \<Rightarrow> char list \<Rightarrow> 'w \<Rightarrow> 'w"               \<comment> \<open>\<open>memcpy\<close> to a fixed address\<close>
  k_flush :: "u32 \<Rightarrow> u32 \<Rightarrow> 'w \<Rightarrow> 'w"
  k_physical :: "u32 \<Rightarrow> 'w \<Rightarrow> u32"
  k_fopen :: "string \<Rightarrow> 'w \<Rightarrow> u32 \<times> 'w"                   \<comment> \<open>0 on failure\<close>
  k_seek_end :: "u32 \<Rightarrow> 'w \<Rightarrow> 'w"
  k_tell :: "u32 \<Rightarrow> 'w \<Rightarrow> u32"
  k_seek_start :: "u32 \<Rightarrow> 'w \<Rightarrow> 'w"
  k_fread :: "u32 \<Rightarrow> u32 \<Rightarrow> 'w \<Rightarrow> (int \<times> char list) \<times> 'w"
  k_free :: "u32 \<Rightarrow> 'w \<Rightarrow> 'w"

record 'w loader = "'w sys" +
  areas :: "nat \<Rightarrow> s_mem_area"
  elf_data_addr :: u32
  elf_data_size :: u32
  rpx_max_size :: u32
  rpx_max_code_size :: u32

definition APP_BASE_MEM :: u32 where "APP_BASE_MEM = 0x00800000 + 0x2000"

definition mem_vals_540 :: "(u32 \<times> u32) list" where
  "mem_vals_540 = [(0x2E609EFC, 0x2FF82000), (0x29030800, 0x293F6000), (0x288EEC30, 0x28B06800),
     (0x2D3B966C, 0x2D894000), (0x2CB56370, 0x2D1EF000), (0x2D8AD3D8, 0x2E000000), (0x2970200C, 0x298B9800),
     (0x2A057B68, 0x2A1B9000), (0x2ABBCC4C, 0x2ACB9000), (0, 0)]"

section \<open>The table of areas\<close>

definition memoryAddArea :: "u32 \<Rightarrow> u32 \<Rightarrow> nat \<Rightarrow> (nat \<Rightarrow> s_mem_area) \<Rightarrow> (nat \<Rightarrow> s_mem_area)" where
  "memoryAddArea start stop cur_index mem_area =
     (let mem_area = mem_area(cur_index := \<lparr>ma_address = start, ma_size = stop - start, ma_next = None\<rparr>) in
      if cur_index > 0 then
        mem_area(cur_index - 1 := (mem_area (cur_index - 1))\<lparr>ma_next := Some cur_index\<rparr>)
      else mem_area)"

text \<open>\<open>prog_end\<close> is the end of the program, from the linker.\<close>

definition getApplicationEndAddr :: "u32 \<Rightarrow> u32" where
  "getApplicationEndAddr prog_end = (if prog_end \<ge> 0x01000000 then APP_BASE_MEM else prog_end)"

text \<open>Filling up to the entry with start 0.\<close>

fun fill_entries :: "nat \<Rightarrow> (u32 \<times> u32) list \<Rightarrow> (nat \<Rightarrow> s_mem_area) \<Rightarrow> (nat \<Rightarrow> s_mem_area)" where
  "fill_entries i [] tab = tab"
| "fill_entries i ((start, stop) # vals) tab =
     (if start \<noteq> 0 then fill_entries (i + 1) vals (memoryAddArea start stop (i + 1) tab) else tab)"

definition memoryInitAreaTable :: "u32 \<Rightarrow> u32 \<Rightarrow> (nat \<Rightarrow> s_mem_area) \<Rightarrow> (nat \<Rightarrow> s_mem_area)" where
  "memoryInitAreaTable prog_end args_size tab =
     (let ApplicationMemoryEnd = getApplicationEndAddr prog_end + args_size;
          tab = memoryAddArea (ApplicationMemoryEnd + 0x30000000) (0x30000000 + 0x01E20000) 0 tab in
      fill_entries 0 mem_vals_540 tab)"

section \<open>Copying\<close>

text \<open>
  One turn of the copying: \<open>None\<close> for the return when no area is left, else what is done, the area and
  the position in it.
\<close>

definition copy_turn ::
  "'w kernel \<Rightarrow> u32 \<Rightarrow> u32 \<Rightarrow> u32 \<Rightarrow> nat \<Rightarrow> u32 \<Rightarrow> ('w, 'z) loader_scheme \<Rightarrow>
   (u32 \<times> nat \<times> u32) option \<times> ('w, 'z) loader_scheme" where
  "copy_turn k bytes addressPhysical finished m mapPosition s =
     (case (if mapPosition \<ge> ma_size (areas s m) then
              (case ma_next (areas s m) of None \<Rightarrow> None | Some m' \<Rightarrow> Some (m', 0))
            else Some (m, mapPosition)) of
        None \<Rightarrow> (None, s)
      | Some (m, mapPosition) \<Rightarrow>
          let blockSize = bytes - finished;
              blockSize = (if mapPosition + blockSize > ma_size (areas s m) then ma_size (areas s m) - mapPosition
                           else blockSize);
              s = sys_do (k_copy k (ma_address (areas s m) + mapPosition) (addressPhysical + finished) blockSize) s in
          (Some (finished + blockSize, m, mapPosition + blockSize), s))"

partial_function (option) copy_loop ::
  "'w kernel \<Rightarrow> u32 \<Rightarrow> u32 \<Rightarrow> u32 \<Rightarrow> nat \<Rightarrow> u32 \<Rightarrow> ('w, 'z) loader_scheme \<Rightarrow>
   (u32 option \<times> ('w, 'z) loader_scheme) option" where
  "copy_loop k bytes addressPhysical finished m mapPosition s =
     (if finished < bytes then
        (case copy_turn k bytes addressPhysical finished m mapPosition s of
           (None, s) \<Rightarrow> Some (None, s)
         | (Some r, s) \<Rightarrow> copy_loop k bytes addressPhysical (fst r) (fst (snd r)) (snd (snd r)) s)
      else Some (Some finished, s))"

text \<open>The two bytes at offset 7 as a number, most significant first.\<close>

definition read_u16 :: "char list \<Rightarrow> int \<Rightarrow> fault + u16" where
  "read_u16 blk i =
     bindF (read_at blk i) (\<lambda>a. bindF (read_at blk (i + 1)) (\<lambda>b.
     Inr (push_bit 8 (of_char a) OR of_char b)))"

text \<open>The argument size as the loader rounds it.\<close>

definition args_room :: "u32 \<Rightarrow> u32" where
  "args_room n = (let n = (n + 0x7) AND NOT 0x7 in if n > 0x10000 then 0x10000 else n)"

definition HomebrewCopyMemory ::
  "'w kernel \<Rightarrow> u32 \<Rightarrow> u32 \<Rightarrow> char list \<Rightarrow> u32 \<Rightarrow> u32 \<Rightarrow> ('w, 'z) loader_scheme \<Rightarrow>
   (fault + int \<times> ('w, 'z) loader_scheme) option" where
  "HomebrewCopyMemory k prog_end address content bytes args_size s =
     (let args_size = args_room args_size;
          s = s\<lparr>areas := memoryInitAreaTable prog_end args_size (areas s), rpx_max_size := 0x40000000,
                rpx_max_code_size := 0x03000000\<rparr> in
      case read_u16 content 7 of
        Inl e \<Rightarrow> Some (Inl e)
      | Inr kind \<Rightarrow>
          let elf = (kind \<noteq> 0xCAFE);
              s = s\<lparr>elf_data_addr := (if elf then getApplicationEndAddr prog_end + args_size
                                     else ma_address (areas s 0))\<rparr> in
          if elf \<and> elf_data_addr s \<ge> 0x01000000 then Some (Inr (-1, s))
          else if elf_data_addr s < 0x01000000 then
            if elf_data_addr s + bytes > 0x01000000 then Some (Inr (-1, s))
            else
              Some (bindF (slice_at content 0 (uint bytes)) (\<lambda>data.
                Inr (sint bytes, (sys_do (k_store k (elf_data_addr s) data) s)\<lparr>elf_data_size := bytes\<rparr>)))
          else
            let s = sys_do (k_flush k address bytes) s;
                addressPhysical = k_physical k address (world s) in
            map_option (\<lambda>(r, s).
                case r of
                  None \<Rightarrow> Inr (-1, s)
                | Some finished \<Rightarrow> Inr (sint bytes, s\<lparr>elf_data_size := finished\<rparr>))
              (copy_loop k bytes addressPhysical 0 0 0 s))"

section \<open>Reading the file\<close>

definition hbl_turn ::
  "'w kernel \<Rightarrow> u32 \<Rightarrow> u32 \<Rightarrow> u32 \<Rightarrow> char list \<Rightarrow> ('w, 'z) loader_scheme \<Rightarrow>
   fault + (bool \<times> u32 \<times> char list) \<times> ('w, 'z) loader_scheme" where
  "hbl_turn k fp fileSize bytesRead buffer s =
     (let blockSize = (if 0x8000 > fileSize - bytesRead then fileSize - bytesRead else 0x8000);
          ((ret, data), s) = sysc (k_fread k fp blockSize) s in
      bindF (write_at buffer (uint bytesRead) data) (\<lambda>buffer.
      if ret \<le> 0 then Inr ((False, bytesRead, buffer), s)
      else Inr ((True, bytesRead + word_of_int ret, buffer), s)))"

partial_function (option) hbl_loop ::
  "'w kernel \<Rightarrow> u32 \<Rightarrow> u32 \<Rightarrow> u32 \<Rightarrow> char list \<Rightarrow> ('w, 'z) loader_scheme \<Rightarrow>
   (fault + (u32 \<times> char list) \<times> ('w, 'z) loader_scheme) option" where
  "hbl_loop k fp fileSize bytesRead buffer s =
     (if bytesRead < fileSize then
        (case hbl_turn k fp fileSize bytesRead buffer s of
           Inl e \<Rightarrow> Some (Inl e)
         | Inr ((again, r), s) \<Rightarrow>
             if again then hbl_loop k fp fileSize (fst r) (snd r) s else Some (Inr (r, s)))
      else Some (Inr ((bytesRead, buffer), s)))"

text \<open>The path is null or a string. The file is never closed.\<close>

definition HBL_loadToMemory ::
  "'w kernel \<Rightarrow> u32 \<Rightarrow> string option \<Rightarrow> u32 \<Rightarrow> ('w, 'z) loader_scheme \<Rightarrow>
   (fault + int \<times> ('w, 'z) loader_scheme) option" where
  "HBL_loadToMemory k prog_end filepath args_size s =
     (case filepath of
        None \<Rightarrow> Some (Inr (-1, s))
      | Some path \<Rightarrow>
          if path = [] then Some (Inr (-1, s))
          else
            let (fp, s) = sysc (k_fopen k path) s in
            if fp = 0 then Some (Inr (-1, s))
            else
              let s = sys_do (k_seek_end k fp) s; fileSize = k_tell k fp (world s);
                  s = sys_do (k_seek_start k fp) s;
                  buffer_size = (fileSize + 0x3f) AND NOT 0x3f;
                  (p, m) = malloc (allocs s); s = s\<lparr>allocs := m\<rparr> in
              if p = 0 then Some (Inr (-1, s))
              else
                case hbl_loop k fp fileSize 0 (replicate (unat buffer_size) NUL) s of
                  None \<Rightarrow> None
                | Some (Inl e) \<Rightarrow> Some (Inl e)
                | Some (Inr ((bytesRead, buffer), s)) \<Rightarrow>
                    if bytesRead \<noteq> fileSize then Some (Inr (-1, sys_do (k_free k p) s))
                    else
                      map_option (\<lambda>r. bindF r (\<lambda>(ret, s).
                          let s = sys_do (k_free k p) s in
                          if ret < 0 then Inr (-1, s) else Inr (sint fileSize, s)))
                        (HomebrewCopyMemory k prog_end p buffer bytesRead args_size s))"

section \<open>The blocks of a copy\<close>

text \<open>What is to be copied from \<open>src\<close> on, laid out over the areas in order.\<close>

fun layout :: "(u32 \<times> u32) list \<Rightarrow> u32 \<Rightarrow> nat \<Rightarrow> (u32 \<times> u32 \<times> u32) list" where
  "layout [] src n = []"
| "layout ((a, sz) # as) src n =
     (if n = 0 then []
      else if sz = 0 then layout as src n
      else let b = min (unat sz) n in (a, src, of_nat b) # layout as (src + of_nat b) (n - b))"

definition run_copies :: "'w kernel \<Rightarrow> (u32 \<times> u32 \<times> u32) list \<Rightarrow> 'w \<Rightarrow> 'w" where
  "run_copies k cs w = foldl (\<lambda>w (d, src, n). k_copy k d src n w) w cs"

definition total :: "(u32 \<times> u32) list \<Rightarrow> nat" where
  "total as = sum_list (map (\<lambda>(a, sz). unat sz) as)"

text \<open>The areas linked from an index on.\<close>

fun linked :: "(nat \<Rightarrow> s_mem_area) \<Rightarrow> nat option \<Rightarrow> (u32 \<times> u32) list \<Rightarrow> bool" where
  "linked tab None as \<longleftrightarrow> as = []"
| "linked tab (Some m) [] \<longleftrightarrow> False"
| "linked tab (Some m) ((a, sz) # as) \<longleftrightarrow>
     ma_address (tab m) = a \<and> ma_size (tab m) = sz \<and> linked tab (ma_next (tab m)) as"


section \<open>The loop\<close>

lemma layout_0 [simp]: "layout as src 0 = []"
  by (cases as) auto

lemma run_copies_simps [simp]: "run_copies k [] w = w" "run_copies k ((d, src, n) # cs) w = run_copies k cs (k_copy k d src n w)"
  by (simp_all add: run_copies_def)

lemma copy_loop_end: "copy_loop k bytes phys bytes m pos s = Some (Some bytes, s)"
  by (simp add: copy_loop.simps)

text \<open>At the end of an area the copying goes on in the next one.\<close>

lemma copy_loop_next:
  assumes "ma_size (areas s m) \<le> pos" and "ma_next (areas s m) = Some m'" and "ma_size (areas s m') \<noteq> 0"
    and "finished < bytes"
  shows "copy_loop k bytes phys finished m pos s = copy_loop k bytes phys finished m' 0 s"
proof -
  have "copy_turn k bytes phys finished m pos s = copy_turn k bytes phys finished m' 0 s"
    using assms(1-3) by (simp add: copy_turn_def)
  then show ?thesis using assms(4) by (subst (1 2) copy_loop.simps) simp
qed

lemma copy_turn_run:
  assumes "pos < ma_size (areas s m)" and "finished < bytes" and "unat bytes < 2 ^ 31" and "unat (ma_size (areas s m)) < 2 ^ 31"
  shows "copy_turn k bytes phys finished m pos s =
    (let b = of_nat (min (unat (ma_size (areas s m) - pos)) (unat (bytes - finished))) in
     (Some (finished + b, m, pos + b), s\<lparr>world := k_copy k (ma_address (areas s m) + pos) (phys + finished) b (world s)\<rparr>))"
proof -
  let ?sz = "ma_size (areas s m)"
  have d: "unat (bytes - finished) = unat bytes - unat finished" using assms(2) by (simp add: unat_sub)
  have "unat pos < 2 ^ 31" "unat bytes - unat finished < 2 ^ 31" using assms by (simp_all add: word_less_nat_alt)
  then have u: "unat (pos + (bytes - finished)) = unat pos + unat (bytes - finished)"
    by (simp add: unat_word_ariths(1) d)
  have v: "unat (?sz - pos) = unat ?sz - unat pos" using assms(1) by (simp add: unat_sub)
  have "(if pos + (bytes - finished) > ?sz then ?sz - pos else bytes - finished) =
      of_nat (min (unat (?sz - pos)) (unat (bytes - finished)))"
    using u v assms(1) by (auto simp: word_less_nat_alt min_def intro!: word_unat_eq_iff [THEN iffD2])
  note eq = this
  have np: "\<not> ?sz \<le> pos" using assms(1) by simp
  show ?thesis unfolding copy_turn_def if_not_P [OF np] option.case prod.case Let_def eq sys_do_def ..
qed

lemma copy_loop_step:
  assumes "pos < ma_size (areas s m)" and "finished < bytes" and "unat bytes < 2 ^ 31" and "unat (ma_size (areas s m)) < 2 ^ 31"
  shows "copy_loop k bytes phys finished m pos s =
    (let b = of_nat (min (unat (ma_size (areas s m) - pos)) (unat (bytes - finished))) in
     copy_loop k bytes phys (finished + b) m (pos + b)
       (s\<lparr>world := k_copy k (ma_address (areas s m) + pos) (phys + finished) b (world s)\<rparr>))"
  using copy_turn_run [OF assms] assms(2) by (subst copy_loop.simps) (simp add: Let_def)

text \<open>The loop's answer for the rest of the program on the areas left.\<close>

definition copied ::
  "'w kernel \<Rightarrow> u32 \<Rightarrow> u32 \<Rightarrow> (u32 \<times> u32) list \<Rightarrow> u32 \<Rightarrow> ('w, 'z) loader_scheme \<Rightarrow>
   (u32 option \<times> ('w, 'z) loader_scheme) option" where
  "copied k bytes phys as finished s =
     Some (if unat (bytes - finished) \<le> total as then Some bytes else None,
       s\<lparr>world := run_copies k (layout as (phys + finished) (unat (bytes - finished))) (world s)\<rparr>)"

lemma copied_end [simp]: "copied k bytes phys as bytes s = Some (Some bytes, s)"
  by (simp add: copied_def)

lemma copied_area:
  assumes "finished < bytes" and "sz \<noteq> 0"
  shows "copied k bytes phys ((a, sz) # as) finished s =
    (let b = of_nat (min (unat sz) (unat (bytes - finished))) in
     copied k bytes phys as (finished + b) (s\<lparr>world := k_copy k a (phys + finished) b (world s)\<rparr>))"
proof -
  let ?b = "min (unat sz) (unat (bytes - finished))"
  have n: "bytes - finished \<noteq> 0" using assms(1) by auto
  have "unat (bytes - (finished + of_nat ?b)) = unat (bytes - finished) - ?b"
  proof -
    have e: "bytes - (finished + of_nat ?b) = (bytes - finished) - of_nat ?b" by simp
    have u: "unat (of_nat ?b :: u32) = ?b"
      using unat_u32 [of sz] unat_u32 [of "bytes - finished"] by (simp add: unat_of_nat min_def)
    show ?thesis unfolding e using u by (subst unat_sub) (simp_all add: word_le_nat_alt)
  qed
  moreover have "unat (bytes - finished) \<noteq> 0" using n by (simp add: unat_eq_0)
  ultimately show ?thesis using assms(2)
    by (auto simp: copied_def total_def Let_def add.assoc)
qed

lemma copied_empty_area: "copied k bytes phys ((a, 0) # as) finished s = copied k bytes phys as finished s"
  by (simp add: copied_def total_def)

text \<open>One area, when the rest is known from its end on.\<close>

lemma copy_area:
  fixes s :: "('w, 'z) loader_scheme"
  assumes tab: "ma_address (areas s m) = a" "ma_size (areas s m) = sz"
    and rest: "\<And>f (t :: ('w, 'z) loader_scheme). f < bytes \<Longrightarrow> areas t = areas s \<Longrightarrow> copy_loop k bytes phys f m sz t = copied k bytes phys as f t"
    and "pos \<le> sz" and "unat sz < 2 ^ 31" and "finished \<le> bytes" and "unat bytes < 2 ^ 31"
  shows "copy_loop k bytes phys finished m pos s = copied k bytes phys ((a + pos, sz - pos) # as) finished s"
proof (cases "finished = bytes")
  case True
  then show ?thesis by (simp add: copy_loop_end)
next
  case False
  with assms(6) have fb: "finished < bytes" by simp
  show ?thesis
  proof (cases "pos = sz")
    case True
    then show ?thesis using rest [OF fb, of s] by (simp add: copied_empty_area)
  next
    case False
    with assms(4) have ps: "pos < sz" by simp
    let ?b = "of_nat (min (unat (sz - pos)) (unat (bytes - finished))) :: u32"
    let ?t = "s\<lparr>world := k_copy k (a + pos) (phys + finished) ?b (world s)\<rparr>"
    have "copy_loop k bytes phys finished m pos s = copy_loop k bytes phys (finished + ?b) m (pos + ?b) ?t"
      using copy_loop_step [of pos s m finished bytes k phys] ps fb assms(5,7) tab by (simp add: Let_def)
    also have "\<dots> = copied k bytes phys as (finished + ?b) ?t"
    proof (cases "unat (sz - pos) < unat (bytes - finished)")
      case True
      then have "?b = sz - pos" by simp
      moreover have "finished + (sz - pos) < bytes"
      proof -
        have "sz - pos < bytes - finished" using True by (simp add: word_less_nat_alt)
        then show ?thesis
          using assms(6,7) fb by (simp add: word_less_nat_alt unat_sub word_le_nat_alt unat_word_ariths(1))
      qed
      ultimately show ?thesis using rest [of "finished + (sz - pos)" ?t] by simp
    next
      case False
      then have "?b = bytes - finished" by (simp add: min_def word_unat_eq_iff)
      then show ?thesis by (simp add: copy_loop_end)
    qed
    also have "\<dots> = copied k bytes phys ((a + pos, sz - pos) # as) finished s"
      using copied_area [OF fb, of "sz - pos" k phys "a + pos" as s] False by (simp add: Let_def)
    finally show ?thesis .
  qed
qed

lemma copy_loop_copied:
  fixes s :: "('w, 'z) loader_scheme"
  assumes "linked (areas s) (Some m) ((a, sz) # as)" and "pos \<le> sz" and "\<forall>(b, z) \<in> set as. z \<noteq> 0"
    and "\<forall>(b, z) \<in> set ((a, sz) # as). unat z < 2 ^ 31" and "finished \<le> bytes" and "unat bytes < 2 ^ 31"
  shows "copy_loop k bytes phys finished m pos s = copied k bytes phys ((a + pos, sz - pos) # as) finished s"
  using assms
proof (induction as arbitrary: a sz m pos finished s)
  case Nil
  have tab: "ma_address (areas s m) = a" "ma_size (areas s m) = sz" "ma_next (areas s m) = None"
    using Nil.prems(1) by (cases "ma_next (areas s m)"; simp)+
  have "copy_loop k bytes phys f m sz t = copied k bytes phys [] f t" if "f < bytes" "areas t = areas s" for f and t :: "('w, 'z) loader_scheme"
  proof -
    have "unat (bytes - f) \<noteq> 0" using that(1) unat_sub [of f bytes] by (simp add: word_less_nat_alt word_le_nat_alt)
    then show ?thesis using that tab by (simp add: copy_loop.simps copy_turn_def copied_def total_def)
  qed
  then show ?case by (rule copy_area [OF tab(1,2)]) (use Nil.prems in auto)
next
  case (Cons p as)
  obtain b z where p: "p = (b, z)" by fastforce
  obtain m' where tab: "ma_address (areas s m) = a" "ma_size (areas s m) = sz" "ma_next (areas s m) = Some m'"
      and l: "linked (areas s) (Some m') ((b, z) # as)"
    using Cons.prems(1) by (cases "ma_next (areas s m)") (auto simp: p)
  have m': "ma_size (areas s m') = z" "z \<noteq> 0" using l Cons.prems(3) p by auto
  have "copy_loop k bytes phys f m sz t = copied k bytes phys (p # as) f t" if "f < bytes" "areas t = areas s" for f and t :: "('w, 'z) loader_scheme"
  proof -
    have "copy_loop k bytes phys f m sz t = copy_loop k bytes phys f m' 0 t"
      using that tab m' by (intro copy_loop_next) auto
    also have "\<dots> = copied k bytes phys ((b + 0, z - 0) # as) f t"
      by (rule Cons.IH) (use l that Cons.prems p in auto)
    finally show ?thesis by (simp add: p)
  qed
  then show ?case by (rule copy_area [OF tab(1,2)]) (use Cons.prems in auto)
qed


section \<open>What the layout is\<close>

lemma layout_total: "n \<le> total as \<Longrightarrow> sum_list (map (\<lambda>(d, x, b). unat b) (layout as src n)) = n"
proof (induction as src n rule: layout.induct)
  case (2 a sz as src n)
  show ?case
  proof (cases "n = 0 \<or> sz = 0")
    case False
    let ?b = "min (unat sz) n"
    have u: "unat (of_nat ?b :: u32) = ?b" using unat_u32 [of sz] by (simp add: unat_of_nat min_def)
    have "n - ?b \<le> total as" using 2(3) by (simp add: total_def)
    then have "sum_list (map (\<lambda>(d, x, b). unat b) (layout as (src + of_nat ?b) (n - ?b))) = n - ?b"
      using 2(2) [of ?b] False by auto
    then show ?thesis using False u by (simp add: Let_def)
  qed (use 2 in \<open>auto simp: total_def\<close>)
qed (simp add: total_def)

text \<open>The sources follow each other without a gap.\<close>

fun tiles :: "u32 \<Rightarrow> (u32 \<times> u32 \<times> u32) list \<Rightarrow> bool" where
  "tiles src [] \<longleftrightarrow> True"
| "tiles src ((d, x, b) # cs) \<longleftrightarrow> x = src \<and> tiles (src + b) cs"

lemma layout_tiles: "tiles src (layout as src n)"
  by (induction as src n rule: layout.induct) (auto simp: Let_def)

lemma layout_inside: "(d, x, b) \<in> set (layout as src n) \<Longrightarrow> \<exists>sz. (d, sz) \<in> set as \<and> unat b \<le> unat sz"
proof (induction as src n rule: layout.induct)
  case (2 a sz as src n)
  have "unat (of_nat (min (unat sz) n) :: u32) \<le> unat sz"
    using unat_u32 [of sz] by (simp add: unat_of_nat min_def)
  with 2 show ?case by (fastforce simp: Let_def split: if_splits)
qed simp

definition apart :: "(u32 \<times> u32) list \<Rightarrow> bool" where
  "apart = sorted_wrt (\<lambda>(a, z) (b, y). unat a + unat z \<le> unat b \<or> unat b + unat y \<le> unat a)"

lemma layout_apart: "apart as \<Longrightarrow> apart (map (\<lambda>(d, x, b). (d, b)) (layout as src n))"
proof (induction as src n rule: layout.induct)
  case (2 a sz as src n)
  have u: "unat (of_nat (min (unat sz) n) :: u32) \<le> unat sz"
    using unat_u32 [of sz] by (simp add: unat_of_nat min_def)
  have "unat a + unat (of_nat (min (unat sz) n) :: u32) \<le> unat d \<or> unat d + unat b \<le> unat a"
    if "(d, x, b) \<in> set (layout as src' k)" for d x b src' k
  proof -
    from layout_inside [OF that] obtain z where z: "(d, z) \<in> set as" "unat b \<le> unat z" by blast
    then have "unat a + unat sz \<le> unat d \<or> unat d + unat z \<le> unat a" using 2(3) by (auto simp: apart_def)
    with u z(2) show ?thesis by linarith
  qed
  moreover have "apart as" using 2(3) by (simp add: apart_def)
  ultimately show ?case using 2(1,2) by (auto simp: Let_def apart_def) blast
qed (simp add: apart_def)

section \<open>The areas of the system\<close>

definition rpx_areas :: "u32 \<Rightarrow> (u32 \<times> u32) list" where
  "rpx_areas e = (e + 0x30000000, 0x01E20000 - e) # map (\<lambda>(a, z). (a, z - a)) (butlast mem_vals_540)"

lemma table_linked:
  "linked (memoryInitAreaTable prog_end args tab) (Some 0) (rpx_areas (getApplicationEndAddr prog_end + args))"
  by (simp add: memoryInitAreaTable_def mem_vals_540_def memoryAddArea_def rpx_areas_def Let_def)

lemma rpx_areas_ok:
  assumes "e \<le> 0x01010000"
  shows "\<forall>(b, z) \<in> set (tl (rpx_areas e)). z \<noteq> 0" "\<forall>(b, z) \<in> set (rpx_areas e). unat z < 2 ^ 31" "apart (rpx_areas e)"
proof -
  have e: "unat e \<le> 0x01010000" using assms by (simp add: word_le_nat_alt)
  then have "unat (0x01E20000 - e) = 0x01E20000 - unat e" by (simp add: unat_sub word_le_nat_alt)
  moreover have "unat (e + 0x30000000) = unat e + 0x30000000" using e by (simp add: unat_word_ariths(1))
  ultimately show "\<forall>(b, z) \<in> set (tl (rpx_areas e)). z \<noteq> 0" "\<forall>(b, z) \<in> set (rpx_areas e). unat z < 2 ^ 31" "apart (rpx_areas e)"
    by (simp_all add: rpx_areas_def mem_vals_540_def apart_def)
qed

section \<open>Properties\<close>

lemma end_address_bound:
  assumes "args \<le> 0x10000"
  shows "getApplicationEndAddr prog_end + args \<le> 0x01010000"
proof -
  have "unat (getApplicationEndAddr prog_end) < 0x01000000"
    by (simp add: getApplicationEndAddr_def APP_BASE_MEM_def word_le_nat_alt)
  then show ?thesis using assms by (simp add: word_le_nat_alt unat_word_ariths(1))
qed

text \<open>C27: an RPX file is copied whole or refused: for a file of the RPX kind below 2 GiB, the loader returns. If the file
  fits the ten areas it reports its size and has asked the kernel for blocks that take the file from its
  physical address on without a gap, add up to it, lie inside the areas and do not overlap; if it does
  not fit it reports -1.\<close>

theorem rpx_is_copied:
  fixes s :: "('w, 'z) loader_scheme"
  assumes "read_u16 content 7 = Inr 0xCAFE" and "unat bytes < 2 ^ 31"
  shows "\<exists>s' blocks. let areas = rpx_areas (getApplicationEndAddr prog_end + args_room args_size);
      w = k_flush k address bytes (world s); phys = k_physical k address w in
    HomebrewCopyMemory k prog_end address content bytes args_size s =
      Some (Inr (if unat bytes \<le> total areas then int (unat bytes) else -1, s')) \<and>
    world s' = run_copies k blocks w \<and> tiles phys blocks \<and> apart (map (\<lambda>(d, x, b). (d, b)) blocks) \<and>
    (\<forall>(d, x, b) \<in> set blocks. \<exists>z. (d, z) \<in> set areas \<and> unat b \<le> unat z) \<and>
    (unat bytes \<le> total areas \<longrightarrow> sum_list (map (\<lambda>(d, x, b). unat b) blocks) = unat bytes \<and> elf_data_size s' = bytes)"
proof -
  let ?a = "args_room args_size"
  let ?e = "getApplicationEndAddr prog_end + ?a"
  let ?s = "s\<lparr>areas := memoryInitAreaTable prog_end ?a (areas s), rpx_max_size := 0x40000000,
    rpx_max_code_size := 0x03000000, elf_data_addr := ?e + 0x30000000\<rparr>"
  let ?w = "k_flush k address bytes (world s)"
  let ?t = "?s\<lparr>world := ?w\<rparr>" and ?phys = "k_physical k address ?w"
  let ?L = "layout (rpx_areas ?e) ?phys (unat bytes)"
  have e: "?e \<le> 0x01010000" by (rule end_address_bound) (simp add: args_room_def Let_def not_less)
  note ok = rpx_areas_ok [OF e]
  have high: "\<not> ?e + 0x30000000 < 0x01000000"
    using e by (simp add: word_less_nat_alt word_le_nat_alt unat_word_ariths(1))
  have ma: "ma_address (memoryInitAreaTable prog_end ?a (areas s) 0) = ?e + 0x30000000"
    using table_linked [of prog_end ?a "areas s"] by (simp add: rpx_areas_def)
  obtain z as where ra: "rpx_areas ?e = (?e + 0x30000000, z) # as" by (simp add: rpx_areas_def)
  have "linked (areas ?t) (Some 0) ((?e + 0x30000000, z) # as)"
    using table_linked [of prog_end ?a "areas s"] by (simp add: ra)
  from copy_loop_copied [OF this, of 0 0 bytes k ?phys] ok ra assms(2)
  have loop: "copy_loop k bytes ?phys 0 0 0 ?t = Some (if unat bytes \<le> total (rpx_areas ?e) then Some bytes else None,
      ?t\<lparr>world := run_copies k ?L ?w\<rparr>)"
    by (simp add: copied_def)
  have si: "sint bytes = int (unat bytes)"
  proof -
    have "int (unat bytes) < int (2 ^ 31)" using assms(2) by (simp only: of_nat_less_iff)
    then show ?thesis using sint_small [of bytes] by simp
  qed
  have run: "HomebrewCopyMemory k prog_end address content bytes args_size s =
      map_option (\<lambda>(r, s). case r of None \<Rightarrow> Inr (-1, s) | Some finished \<Rightarrow> Inr (sint bytes, s\<lparr>elf_data_size := finished\<rparr>))
        (copy_loop k bytes ?phys 0 0 0 ?t)"
    using assms(1) ma high by (simp add: HomebrewCopyMemory_def Let_def sys_do_def)
  show ?thesis
    using run loop si layout_tiles [of ?phys "rpx_areas ?e" "unat bytes"] layout_apart [OF ok(3), of ?phys "unat bytes"]
      layout_inside layout_total
    by (intro exI [of _ "if unat bytes \<le> total (rpx_areas ?e) then ?t\<lparr>world := run_copies k ?L ?w, elf_data_size := bytes\<rparr>
        else ?t\<lparr>world := run_copies k ?L ?w\<rparr>"] exI [of _ ?L]) (auto simp: Let_def)
qed

section \<open>Witness\<close>

text \<open>A kernel that writes down what it is asked to copy.\<close>

definition kernel0 :: "(u32 \<times> u32 \<times> u32) list kernel" where
  "kernel0 = \<lparr>k_copy = (\<lambda>d x b w. w @ [(d, x, b)]), k_store = (\<lambda>a t w. w), k_flush = (\<lambda>a n w. w),
     k_physical = (\<lambda>a w. a + 0x50000000), k_fopen = (\<lambda>p w. (1, w)), k_seek_end = (\<lambda>f w. w), k_tell = (\<lambda>f w. 0),
     k_seek_start = (\<lambda>f w. w), k_fread = (\<lambda>f n w. ((0, []), w)), k_free = (\<lambda>p w. w)\<rparr>"

definition loader0 :: "(u32 \<times> u32 \<times> u32) list loader" where
  "loader0 = \<lparr>world = [], allocs = allocs0, areas = (\<lambda>_. \<lparr>ma_address = 0, ma_size = 0, ma_next = None\<rparr>),
     elf_data_addr = 0, elf_data_size = 0, rpx_max_size = 0, rpx_max_code_size = 0\<rparr>"

definition rpx0 :: "char list" where
  "rpx0 = replicate 7 NUL @ [CHR 0xCA, CHR 0xFE] @ replicate 91 NUL"

theorem rpx_is_copied_witness:
  "\<exists>s'. HomebrewCopyMemory kernel0 0x00900000 64 rpx0 100 0 loader0 = Some (Inr (100, s')) \<and>
     sum_list (map (\<lambda>(d, x, b). unat b) (world s')) = 100"
proof -
  have r: "read_u16 rpx0 7 = Inr 0xCAFE" by (simp add: read_u16_def rpx0_def read_at_def nth_append)
  have t: "100 \<le> total (rpx_areas (getApplicationEndAddr 0x00900000 + args_room 0))"
    by (simp add: total_def rpx_areas_def mem_vals_540_def getApplicationEndAddr_def args_room_def)
  have w: "run_copies kernel0 bs v = v @ bs" for bs v
    by (induction bs arbitrary: v) (auto simp: kernel0_def)
  show ?thesis
    using rpx_is_copied [where bytes = 100 and prog_end = "0x00900000" and args_size = 0 and k = kernel0 and address = 64 and s = loader0, OF r] t w
    by (auto simp: Let_def loader0_def kernel0_def)
qed

end
