(* ===== verification/Elf.thy ===== *)
theory Elf
  imports Prelude
begin

text \<open>
  The ELF file format as the converter \<open>elf2rpl\<close> sees it (\<open>wut/elf2rpl/elf.h\<close>, \<open>be_val.h\<close>, \<open>utils.h\<close>): the
  structures as records of numbers, and their bytes with the most significant byte first. Strings in a
  table end with a zero byte.
\<close>

section \<open>Numbers as bytes\<close>

text \<open>\<open>n\<close> bytes of a number, and the number of some bytes.\<close>

fun be_bytes :: "nat \<Rightarrow> nat \<Rightarrow> char list" where
  "be_bytes 0 v = []"
| "be_bytes (Suc n) v = char_of (v div 256 ^ n) # be_bytes n v"

declare be_bytes.simps [simp del]

definition be_value :: "char list \<Rightarrow> nat" where
  "be_value bs = foldl (\<lambda>v c. v * 256 + of_char c) 0 bs"

abbreviation be32 :: "u32 \<Rightarrow> char list" where "be32 w \<equiv> be_bytes 4 (unat w)"
abbreviation be16 :: "u16 \<Rightarrow> char list" where "be16 w \<equiv> be_bytes 2 (unat w)"
abbreviation be8 :: "u8 \<Rightarrow> char list" where "be8 w \<equiv> be_bytes 1 (unat w)"

definition get_be :: "char list \<Rightarrow> nat \<Rightarrow> nat \<Rightarrow> fault + nat" where
  "get_be blk off n = bindF (slice_at blk (int off) (int n)) (\<lambda>bs. Inr (be_value bs))"

definition get32 :: "char list \<Rightarrow> nat \<Rightarrow> fault + u32" where
  "get32 blk off = bindF (get_be blk off 4) (\<lambda>v. Inr (of_nat v))"

definition get16 :: "char list \<Rightarrow> nat \<Rightarrow> fault + u16" where
  "get16 blk off = bindF (get_be blk off 2) (\<lambda>v. Inr (of_nat v))"

definition get8 :: "char list \<Rightarrow> nat \<Rightarrow> fault + u8" where
  "get8 blk off = bindF (get_be blk off 1) (\<lambda>v. Inr (of_nat v))"

definition put32 :: "char list \<Rightarrow> nat \<Rightarrow> u32 \<Rightarrow> fault + char list" where
  "put32 blk off w = write_at blk (int off) (be32 w)"

text \<open>Rounding up to a power of two.\<close>

definition align_up :: "nat \<Rightarrow> nat \<Rightarrow> nat" where
  "align_up value alignment = nat ((int value + (int alignment - 1)) AND NOT (int alignment - 1))"

text \<open>The string that starts at a position of a table.\<close>

definition str_at :: "char list \<Rightarrow> u32 \<Rightarrow> fault + string" where
  "str_at tab pos = (if unat pos \<le> length tab then c_str (drop (unat pos) tab) else Inl Out_of_bounds)"

section \<open>Structures\<close>

record elf_header =
  magic :: u32
  fileClass :: u8
  encoding :: u8
  elfVersion :: u8
  abi :: u16
  pad :: "char list"
  e_type :: u16
  machine :: u16
  e_version :: u32
  e_entry :: u32
  phoff :: u32
  shoff :: u32
  e_flags :: u32
  ehsize :: u16
  phentsize :: u16
  phnum :: u16
  shentsize :: u16
  shnum :: u16
  shstrndx :: u16

record section_header =
  sh_name :: u32
  sh_type :: u32
  sh_flags :: u32
  sh_addr :: u32
  sh_offset :: u32
  sh_size :: u32
  sh_link :: u32
  sh_info :: u32
  sh_addralign :: u32
  sh_entsize :: u32

record elf_symbol =
  st_name :: u32
  st_value :: u32
  st_size :: u32
  st_info :: u8
  st_other :: u8
  st_shndx :: u16

record elf_rela =
  r_offset :: u32
  r_info :: u32
  r_addend :: u32

definition HeaderMagic :: u32 where "HeaderMagic = 0x7f454c46"
definition ELFCLASS32 :: u8 where "ELFCLASS32 = 1"
definition ELFDATA2MSB :: u8 where "ELFDATA2MSB = 2"
definition EM_PPC :: u16 where "EM_PPC = 20"
definition EV_CURRENT :: u8 where "EV_CURRENT = 1"
definition EABI_CAFE :: u16 where "EABI_CAFE = 0xcafe"

definition SHF_WRITE :: u32 where "SHF_WRITE = 0x1"
definition SHF_ALLOC :: u32 where "SHF_ALLOC = 0x2"
definition SHF_EXECINSTR :: u32 where "SHF_EXECINSTR = 0x4"

definition SHT_PROGBITS :: u32 where "SHT_PROGBITS = 1"
definition SHT_SYMTAB :: u32 where "SHT_SYMTAB = 2"
definition SHT_STRTAB :: u32 where "SHT_STRTAB = 3"
definition SHT_RELA :: u32 where "SHT_RELA = 4"
definition SHT_NOBITS :: u32 where "SHT_NOBITS = 8"
definition SHT_RPL_IMPORTS :: u32 where "SHT_RPL_IMPORTS = 0x80000002"
definition SHT_RPL_CRCS :: u32 where "SHT_RPL_CRCS = 0x80000003"
definition SHT_RPL_FILEINFO :: u32 where "SHT_RPL_FILEINFO = 0x80000004"

definition STB_LOCAL :: u32 where "STB_LOCAL = 0"
definition STB_GLOBAL :: u32 where "STB_GLOBAL = 1"
definition STT_NOTYPE :: u32 where "STT_NOTYPE = 0"
definition STT_OBJECT :: u32 where "STT_OBJECT = 1"
definition STT_FUNC :: u32 where "STT_FUNC = 2"
definition STT_SECTION :: u32 where "STT_SECTION = 3"
definition STT_FILE :: u32 where "STT_FILE = 4"
definition R_PPC_NONE :: u32 where "R_PPC_NONE = 0"
definition R_PPC_ADDR32 :: u32 where "R_PPC_ADDR32 = 1"
definition R_PPC_RELATIVE :: u32 where "R_PPC_RELATIVE = 22"
definition RPL_IS_RPX :: u32 where "RPL_IS_RPX = 0x2"

section \<open>Their bytes\<close>

definition header_bytes :: "elf_header \<Rightarrow> char list" where
  "header_bytes h = be32 (magic h) @ be8 (fileClass h) @ be8 (encoding h) @ be8 (elfVersion h) @ be16 (abi h) @ pad h @
     be16 (e_type h) @ be16 (machine h) @ be32 (e_version h) @ be32 (e_entry h) @ be32 (phoff h) @ be32 (shoff h) @
     be32 (e_flags h) @ be16 (ehsize h) @ be16 (phentsize h) @ be16 (phnum h) @ be16 (shentsize h) @ be16 (shnum h) @
     be16 (shstrndx h)"

definition section_header_bytes :: "section_header \<Rightarrow> char list" where
  "section_header_bytes h = be32 (sh_name h) @ be32 (sh_type h) @ be32 (sh_flags h) @ be32 (sh_addr h) @
     be32 (sh_offset h) @ be32 (sh_size h) @ be32 (sh_link h) @ be32 (sh_info h) @ be32 (sh_addralign h) @ be32 (sh_entsize h)"

definition symbol_bytes :: "elf_symbol \<Rightarrow> char list" where
  "symbol_bytes s = be32 (st_name s) @ be32 (st_value s) @ be32 (st_size s) @ be8 (st_info s) @ be8 (st_other s) @ be16 (st_shndx s)"

definition rela_bytes :: "elf_rela \<Rightarrow> char list" where
  "rela_bytes r = be32 (r_offset r) @ be32 (r_info r) @ be32 (r_addend r)"

text \<open>Reading a structure at an offset of a block.\<close>

definition header_at :: "char list \<Rightarrow> nat \<Rightarrow> fault + elf_header" where
  "header_at b o' =
     bindF (get32 b o') (\<lambda>mg. bindF (get8 b (o' + 4)) (\<lambda>fc. bindF (get8 b (o' + 5)) (\<lambda>en. bindF (get8 b (o' + 6)) (\<lambda>ev.
     bindF (get16 b (o' + 7)) (\<lambda>ab. bindF (slice_at b (int o' + 9) 7) (\<lambda>pd. bindF (get16 b (o' + 16)) (\<lambda>ty.
     bindF (get16 b (o' + 18)) (\<lambda>ma. bindF (get32 b (o' + 20)) (\<lambda>ve. bindF (get32 b (o' + 24)) (\<lambda>et.
     bindF (get32 b (o' + 28)) (\<lambda>ph. bindF (get32 b (o' + 32)) (\<lambda>sh. bindF (get32 b (o' + 36)) (\<lambda>fl.
     bindF (get16 b (o' + 40)) (\<lambda>eh. bindF (get16 b (o' + 42)) (\<lambda>pe. bindF (get16 b (o' + 44)) (\<lambda>pn.
     bindF (get16 b (o' + 46)) (\<lambda>se. bindF (get16 b (o' + 48)) (\<lambda>sn. bindF (get16 b (o' + 50)) (\<lambda>sx.
     Inr \<lparr>magic = mg, fileClass = fc, encoding = en, elfVersion = ev, abi = ab, pad = pd, e_type = ty, machine = ma,
       e_version = ve, e_entry = et, phoff = ph, shoff = sh, e_flags = fl, ehsize = eh, phentsize = pe, phnum = pn,
       shentsize = se, shnum = sn, shstrndx = sx\<rparr>)))))))))))))))))))"

definition section_header_at :: "char list \<Rightarrow> nat \<Rightarrow> fault + section_header" where
  "section_header_at b o' =
     bindF (get32 b o') (\<lambda>nm. bindF (get32 b (o' + 4)) (\<lambda>ty. bindF (get32 b (o' + 8)) (\<lambda>fl. bindF (get32 b (o' + 12)) (\<lambda>ad.
     bindF (get32 b (o' + 16)) (\<lambda>ofs. bindF (get32 b (o' + 20)) (\<lambda>sz. bindF (get32 b (o' + 24)) (\<lambda>li.
     bindF (get32 b (o' + 28)) (\<lambda>inf. bindF (get32 b (o' + 32)) (\<lambda>al. bindF (get32 b (o' + 36)) (\<lambda>es.
     Inr \<lparr>sh_name = nm, sh_type = ty, sh_flags = fl, sh_addr = ad, sh_offset = ofs, sh_size = sz, sh_link = li, sh_info = inf,
       sh_addralign = al, sh_entsize = es\<rparr>))))))))))"

definition symbol_at :: "char list \<Rightarrow> nat \<Rightarrow> fault + elf_symbol" where
  "symbol_at b o' =
     bindF (get32 b o') (\<lambda>nm. bindF (get32 b (o' + 4)) (\<lambda>va. bindF (get32 b (o' + 8)) (\<lambda>sz. bindF (get8 b (o' + 12)) (\<lambda>inf.
     bindF (get8 b (o' + 13)) (\<lambda>ot. bindF (get16 b (o' + 14)) (\<lambda>sx.
     Inr \<lparr>st_name = nm, st_value = va, st_size = sz, st_info = inf, st_other = ot, st_shndx = sx\<rparr>))))))"

definition rela_at :: "char list \<Rightarrow> nat \<Rightarrow> fault + elf_rela" where
  "rela_at b o' =
     bindF (get32 b o') (\<lambda>ofs. bindF (get32 b (o' + 4)) (\<lambda>inf. bindF (get32 b (o' + 8)) (\<lambda>ad.
     Inr \<lparr>r_offset = ofs, r_info = inf, r_addend = ad\<rparr>)))"

section \<open>Bytes and numbers\<close>

lemma length_be_bytes [simp]: "length (be_bytes n v) = n"
  by (induction n) (auto simp: be_bytes.simps)

lemma be_value_snoc: "be_value (bs @ [c]) = be_value bs * 256 + of_char c"
  by (simp add: be_value_def)

lemma foldl_be: "foldl (\<lambda>v c. v * 256 + of_char c) a bs = a * 256 ^ length bs + be_value bs" for a :: nat
proof (induction bs rule: rev_induct)
  case (snoc c bs)
  then show ?case by (simp add: be_value_snoc algebra_simps)
qed (simp add: be_value_def)

lemma be_value_Cons: "be_value (c # bs) = of_char c * 256 ^ length bs + be_value bs"
  using foldl_be [of "of_char c" bs] by (simp add: be_value_def)

lemma be_value_bytes: "be_value (be_bytes n v) = v mod 256 ^ n"
proof (induction n)
  case (Suc n)
  have "v mod 256 ^ Suc n = (v div 256 ^ n mod 256) * 256 ^ n + v mod 256 ^ n"
    using mod_mult2_eq [of v "256 ^ n" 256] by (simp add: mult.commute)
  with Suc show ?case by (simp add: be_value_Cons of_char_mod_256 be_bytes.simps)
qed (simp add: be_value_def be_bytes.simps)

lemma get_be_at: "get_be (xs @ be_bytes n v @ ys) (length xs) n = Inr (v mod 256 ^ n)"
  by (simp add: get_be_def slice_at_def be_value_bytes)

text \<open>A number written at a position is read there, also behind other bytes and before more.\<close>

definition holds_at :: "char list \<Rightarrow> nat \<Rightarrow> char list \<Rightarrow> bool" where
  "holds_at b off bs \<longleftrightarrow> off + length bs \<le> length b \<and> take (length bs) (drop off b) = bs"

lemma holds_at_append: "holds_at (xs @ bs @ ys) (length xs) bs"
  by (simp add: holds_at_def)

lemma holds_at_split: "holds_at b off (xs @ ys) \<longleftrightarrow> holds_at b off xs \<and> holds_at b (off + length xs) ys"
proof
  assume h: "holds_at b off (xs @ ys)"
  let ?d = "drop off b"
  have "take (length xs + length ys) ?d = xs @ ys" using h by (simp add: holds_at_def)
  then have "take (length xs) ?d = xs" "take (length ys) (drop (length xs) ?d) = ys"
    by (metis append_eq_conv_conj length_append take_drop take_add add.commute append_eq_append_conv2 take_append take_all_iff le_refl
        append_take_drop_id diff_self_eq_0 take0 append_Nil2 min.absorb1 le_add1 take_take)+
  then show "holds_at b off xs \<and> holds_at b (off + length xs) ys" using h by (simp add: holds_at_def add.commute)
next
  assume h: "holds_at b off xs \<and> holds_at b (off + length xs) ys"
  then show "holds_at b off (xs @ ys)" by (simp add: holds_at_def take_add add.commute)
qed

lemma get_be_holds: "holds_at b off (be_bytes n v) \<Longrightarrow> get_be b off n = Inr (v mod 256 ^ n)"
  by (simp add: holds_at_def get_be_def slice_at_def be_value_bytes)

lemma get_holds:
  "holds_at b off (be32 w) \<Longrightarrow> get32 b off = Inr w"
  "holds_at b off (be16 h) \<Longrightarrow> get16 b off = Inr h"
  "holds_at b off (be8 c) \<Longrightarrow> get8 b off = Inr c"
proof -
  assume "holds_at b off (be32 w)"
  then have "get_be b off 4 = Inr (unat w mod 256 ^ 4)" by (rule get_be_holds)
  then show "get32 b off = Inr w" using unat_u32 [of w] by (simp add: get32_def)
next
  assume "holds_at b off (be16 h)"
  then have "get_be b off 2 = Inr (unat h mod 256 ^ 2)" by (rule get_be_holds)
  moreover have "unat h < 2 ^ LENGTH(16)" by (rule unsigned_less)
  ultimately show "get16 b off = Inr h" by (simp add: get16_def)
next
  assume "holds_at b off (be8 c)"
  then have "get_be b off 1 = Inr (unat c mod 256 ^ 1)" by (rule get_be_holds)
  moreover have "unat c < 2 ^ LENGTH(8)" by (rule unsigned_less)
  ultimately show "get8 b off = Inr c" by (simp add: get8_def)
qed

lemma slice_holds: "holds_at b off bs \<Longrightarrow> slice_at b (int off) (int (length bs)) = Inr bs"
  by (simp add: holds_at_def slice_at_def)

text \<open>Reading a structure gives the structure whose bytes are there.\<close>

lemma section_header_holds: "holds_at b off (section_header_bytes h) \<Longrightarrow> section_header_at b off = Inr h"
  by (auto simp: section_header_bytes_def section_header_at_def holds_at_split ac_simps dest!: get_holds [simplified])

lemma symbol_holds: "holds_at b off (symbol_bytes s) \<Longrightarrow> symbol_at b off = Inr s"
  by (auto simp: symbol_bytes_def symbol_at_def holds_at_split ac_simps dest!: get_holds [simplified])

lemma rela_holds: "holds_at b off (rela_bytes r) \<Longrightarrow> rela_at b off = Inr r"
  by (auto simp: rela_bytes_def rela_at_def holds_at_split ac_simps dest!: get_holds [simplified])

lemma header_holds: "holds_at b off (header_bytes h) \<Longrightarrow> length (pad h) = 7 \<Longrightarrow> header_at b off = Inr h"
  using slice_holds [of b "off + 9" "pad h"]
  by (auto simp: header_bytes_def header_at_def holds_at_split ac_simps dest!: get_holds [simplified])

lemma structure_lengths:
  "length (section_header_bytes h) = 40" "length (symbol_bytes s) = 16" "length (rela_bytes r) = 12"
  "length (pad eh) = 7 \<Longrightarrow> length (header_bytes eh) = 52"
  by (simp_all add: section_header_bytes_def symbol_bytes_def rela_bytes_def header_bytes_def)

lemma align_up_pow: "align_up v (2 ^ n) = (v + (2 ^ n - 1)) div 2 ^ n * 2 ^ n"
proof -
  let ?x = "int v + (2 ^ n - 1)"
  have "?x AND NOT (mask n) = push_bit n (drop_bit n ?x)"
    by (rule bit_eqI) (auto simp: bit_simps)
  also have "\<dots> = ?x div 2 ^ n * 2 ^ n" by (simp add: push_bit_eq_mult drop_bit_eq_div)
  finally have "?x AND NOT (2 ^ n - 1) = ?x div 2 ^ n * 2 ^ n" by (simp add: mask_eq_exp_minus_1)
  moreover have "?x = int (v + (2 ^ n - 1))"
  proof -
    have "int (2 ^ n - 1) = 2 ^ n - 1" by (simp add: of_nat_diff)
    then show ?thesis by (simp only: of_nat_add)
  qed
  ultimately have "int v + (int (2 ^ n) - 1) AND NOT (int (2 ^ n) - 1) = int ((v + (2 ^ n - 1)) div 2 ^ n * 2 ^ n)"
    by (simp add: zdiv_int)
  then show ?thesis by (simp only: align_up_def nat_int)
qed

end
