(* ===== verification/ElfRead.thy ===== *)
theory ElfRead
  imports Elf
begin

text \<open>
  The first half of the converter \<open>elf2rpl\<close> (\<open>read\<close> in \<open>wut/elf2rpl/main.cpp\<close>): from the bytes of an ELF file to
  the program in memory, its sections, symbols, imports and relocations. Symbols live in a store of
  objects and are known by their key, so that an object that is shared, renamed or deleted shows. A
  stage gives \<open>None\<close> where the code prints a message and returns false.
\<close>

section \<open>Stages that can refuse\<close>

definition bindR :: "fault + 'a option \<Rightarrow> ('a \<Rightarrow> fault + 'b option) \<Rightarrow> fault + 'b option" where
  "bindR m f = bindF m (\<lambda>r. case r of None \<Rightarrow> Inr None | Some x \<Rightarrow> f x)"

fun foldR :: "('x \<Rightarrow> 's \<Rightarrow> fault + 's option) \<Rightarrow> 'x list \<Rightarrow> 's \<Rightarrow> fault + 's option" where
  "foldR f [] s = Inr (Some s)"
| "foldR f (x # xs) s = bindR (f x s) (foldR f xs)"

section \<open>The program in memory\<close>

definition LoadAddress :: u32 where "LoadAddress = 0x01000000"
definition CodeAddress :: u32 where "CodeAddress = 0x02000000"
definition DataAddress :: u32 where "DataAddress = 0x10000000"
definition WiiuLoadAddress :: u32 where "WiiuLoadAddress = 0xC0000000"

record esym =
  esym_name :: string
  esym_address :: u32
  esym_size :: u32
  esym_type :: u32
  esym_binding :: u32
  outNamePos :: u32

record ereloc =
  rel_target :: u32
  rel_type :: u32
  rel_symbol :: "nat option"                          \<comment> \<open>the key of the symbol, none for null\<close>
  rel_addend :: u32

record data_section =
  ds_name :: string
  ds_address :: u32
  ds_type :: u32
  ds_flags :: u32
  ds_data :: "char list"
  ds_size :: u32

record rpl_import =
  trampSymbol :: nat
  stubSymbol :: nat
  stubAddr :: u32
  trampAddr :: u32

record rpl_library =
  lib_name :: string
  lib_imports :: "rpl_import list"

record elf_file =
  entryPoint :: u32
  dataSections :: "data_section list"
  symbols :: "nat list"                               \<comment> \<open>the keys of the symbols, in order\<close>
  sym_store :: "nat \<Rightarrow> esym option"
  next_sym :: nat
  relocations :: "ereloc list"
  rplImports :: "rpl_library list"

record input_section =
  in_header :: section_header
  in_data :: "char list"

definition get_sym :: "nat \<Rightarrow> elf_file \<Rightarrow> fault + esym" where
  "get_sym k f = (case sym_store f k of None \<Rightarrow> Inl Use_after_free | Some s \<Rightarrow> Inr s)"

definition put_sym :: "nat \<Rightarrow> esym \<Rightarrow> elf_file \<Rightarrow> elf_file" where
  "put_sym k s f = f\<lparr>sym_store := (sym_store f)(k \<mapsto> s)\<rparr>"

text \<open>A new symbol at the end of the vector.\<close>

definition add_symbol :: "esym \<Rightarrow> elf_file \<Rightarrow> nat \<times> elf_file" where
  "add_symbol s f = (next_sym f, f\<lparr>symbols := symbols f @ [next_sym f], sym_store := (sym_store f)(next_sym f \<mapsto> s),
     next_sym := next_sym f + 1\<rparr>)"

definition matches :: "elf_file \<Rightarrow> (esym \<Rightarrow> bool) \<Rightarrow> nat \<Rightarrow> bool" where
  "matches f P k \<longleftrightarrow> (case sym_store f k of None \<Rightarrow> False | Some s \<Rightarrow> P s)"

definition findSymbol :: "elf_file \<Rightarrow> u32 \<Rightarrow> nat option" where
  "findSymbol f address =
     (case find (matches f (\<lambda>s. esym_address s = address \<and> esym_type s \<noteq> STT_NOTYPE)) (symbols f) of
        Some k \<Rightarrow> Some k
      | None \<Rightarrow> find (matches f (\<lambda>s. esym_address s = address)) (symbols f))"

definition findImport :: "elf_file \<Rightarrow> u32 \<Rightarrow> rpl_import option" where
  "findImport f address =
     find (\<lambda>i. stubAddr i = address \<or> trampAddr i = address) (concat (map lib_imports (rplImports f)))"

text \<open>The section and the offset in its data of an address.\<close>

fun loader_ptr_from :: "nat \<Rightarrow> input_section list \<Rightarrow> u32 \<Rightarrow> (nat \<times> nat) option" where
  "loader_ptr_from i [] address = None"
| "loader_ptr_from i (s # ss) address =
     (let start = sh_addr (in_header s); stop = start + of_nat (length (in_data s)) in
      if start \<le> address \<and> stop > address then Some (i, unat (address - start)) else loader_ptr_from (i + 1) ss address)"

definition getLoaderDataPtr :: "input_section list \<Rightarrow> u32 \<Rightarrow> (nat \<times> nat) option" where
  "getLoaderDataPtr = loader_ptr_from 0"

definition section_at :: "input_section list \<Rightarrow> nat \<Rightarrow> fault + input_section" where
  "section_at secs i = read_at secs (int i)"

text \<open>Storing four bytes through such a pointer.\<close>

definition store_at :: "input_section list \<Rightarrow> nat \<times> nat \<Rightarrow> char list \<Rightarrow> fault + input_section list" where
  "store_at secs = (\<lambda>(i, off) bs.
     bindF (section_at secs i) (\<lambda>s.
     bindF (write_at (in_data s) (int off) bs) (\<lambda>d. Inr (secs[i := s\<lparr>in_data := d\<rparr>]))))"

section \<open>Reading the file\<close>

text \<open>The input stream: once a read has failed it delivers nothing and does not move.\<close>

record stream =
  s_bytes :: "char list"
  s_pos :: nat
  s_ok :: bool

definition in_read :: "nat \<Rightarrow> char list \<Rightarrow> stream \<Rightarrow> char list \<times> stream" where
  "in_read n old s =
     (if \<not> s_ok s then (old, s)
      else
        let got = take n (drop (s_pos s) (s_bytes s)) in
        (got @ drop (length got) old, s\<lparr>s_pos := s_pos s + length got, s_ok := (length got = n)\<rparr>))"

definition in_seekg :: "nat \<Rightarrow> stream \<Rightarrow> stream" where
  "in_seekg n s = (if s_ok s then s\<lparr>s_pos := n\<rparr> else s)"

fun read_sections :: "nat \<Rightarrow> stream \<Rightarrow> fault + input_section list \<times> stream" where
  "read_sections 0 s = Inr ([], s)"
| "read_sections (Suc n) s =
     (let (hb, s) = in_read 40 (replicate 40 NUL) s in
      bindF (section_header_at hb 0) (\<lambda>h.
      let (d, s) =
        (if sh_size h = 0 \<or> sh_type h = SHT_NOBITS then ([], s)
         else
           let p = s_pos s; s = in_seekg (unat (sh_offset h)) s;
               (d, s) = in_read (unat (sh_size h)) (replicate (unat (sh_size h)) NUL) s in
           (d, in_seekg p s)) in
      bindF (read_sections n s) (\<lambda>(secs, s). Inr (\<lparr>in_header = h, in_data = d\<rparr> # secs, s))))"

definition check_header :: "elf_header \<Rightarrow> bool" where
  "check_header h \<longleftrightarrow> magic h = HeaderMagic \<and> fileClass h = ELFCLASS32 \<and> encoding h = ELFDATA2MSB \<and> machine h = EM_PPC \<and>
     elfVersion h = EV_CURRENT"

section \<open>Loader relocations\<close>

definition section_name :: "input_section list \<Rightarrow> u16 \<Rightarrow> input_section \<Rightarrow> fault + string" where
  "section_name secs strndx s = bindF (section_at secs (unat strndx)) (\<lambda>t. str_at (in_data t) (sh_name (in_header s)))"

definition loader_relocation :: "nat \<Rightarrow> char list \<Rightarrow> nat \<Rightarrow> input_section list \<Rightarrow> fault + input_section list option" where
  "loader_relocation j symdata i secs =
     bindF (section_at secs j) (\<lambda>s.
     bindF (rela_at (in_data s) (12 * i)) (\<lambda>rela.
     bindF (get32 symdata (16 * unat (drop_bit 8 (r_info rela)) + 4)) (\<lambda>v.
     let addr = v + r_addend rela; ty = r_info rela AND 0xff in
     case getLoaderDataPtr secs (r_offset rela) of
       None \<Rightarrow> Inr None
     | Some ptr \<Rightarrow>
         if ty = R_PPC_RELATIVE then bindF (store_at secs ptr (be32 addr)) (\<lambda>secs. Inr (Some secs))
         else if ty = R_PPC_NONE then Inr (Some secs)
         else Inr None)))"

definition loader_relocations :: "u16 \<Rightarrow> nat \<Rightarrow> input_section list \<Rightarrow> fault + input_section list option" where
  "loader_relocations strndx j secs =
     bindF (section_at secs j) (\<lambda>s.
     if sh_type (in_header s) \<noteq> SHT_RELA then Inr (Some secs)
     else
       bindF (section_name secs strndx s) (\<lambda>name.
       if name \<noteq> ''.rela.dyn'' then Inr (Some secs)
       else
         bindF (section_at secs (unat (sh_link (in_header s)))) (\<lambda>symSection.
         foldR (loader_relocation j (in_data symSection)) [0..<length (in_data s) div 12] secs)))"

section \<open>Sections and symbols\<close>

definition read_data_section :: "input_section list \<Rightarrow> u16 \<Rightarrow> input_section \<Rightarrow> elf_file \<Rightarrow> fault + elf_file option" where
  "read_data_section secs strndx s f =
     (let h = in_header s in
      if sh_addr h \<ge> LoadAddress \<and> sh_addr h < CodeAddress then Inr (Some f)
      else
        bindF (section_name secs strndx s) (\<lambda>name.
        if sh_type h = SHT_PROGBITS then
          Inr (Some (f\<lparr>dataSections := dataSections f @ [\<lparr>ds_name = name, ds_address = sh_addr h, ds_type = SHT_PROGBITS,
            ds_flags = sh_flags h, ds_data = in_data s, ds_size = 0\<rparr>]\<rparr>))
        else if sh_type h = SHT_NOBITS then
          Inr (Some (f\<lparr>dataSections := dataSections f @ [\<lparr>ds_name = name, ds_address = sh_addr h, ds_type = SHT_NOBITS,
            ds_flags = sh_flags h, ds_data = [], ds_size = sh_size h\<rparr>]\<rparr>))
        else Inr (Some f)))"

definition default_symbols :: "esym list" where
  "default_symbols =
     [\<lparr>esym_name = '''', esym_address = 0, esym_size = 0, esym_type = STT_NOTYPE, esym_binding = STB_LOCAL, outNamePos = 0\<rparr>,
      \<lparr>esym_name = ''$TEXT'', esym_address = CodeAddress, esym_size = 0, esym_type = STT_SECTION, esym_binding = STB_LOCAL, outNamePos = 0\<rparr>,
      \<lparr>esym_name = ''$DATA'', esym_address = DataAddress, esym_size = 0, esym_type = STT_SECTION, esym_binding = STB_LOCAL, outNamePos = 0\<rparr>,
      \<lparr>esym_name = ''$UNDEF'', esym_address = 0, esym_size = 0, esym_type = STT_OBJECT, esym_binding = STB_GLOBAL, outNamePos = 0\<rparr>]"

definition read_symbol :: "char list \<Rightarrow> char list \<Rightarrow> nat \<Rightarrow> elf_file \<Rightarrow> fault + elf_file option" where
  "read_symbol symdata strTab i f =
     bindF (symbol_at symdata (16 * i)) (\<lambda>sym.
     if st_value sym \<ge> LoadAddress \<and> st_value sym < CodeAddress then Inr (Some f)
     else
       let ty = ucast (st_info sym AND 0xF); binding = ucast (drop_bit 4 (st_info sym) AND 0xF) in
       if ty = STT_NOTYPE \<and> st_value sym = 0 then Inr (Some f)
       else if ty = STT_FILE \<or> ty = STT_SECTION then Inr (Some f)
       else
         bindF (str_at strTab (st_name sym)) (\<lambda>name.
         Inr (Some (snd (add_symbol \<lparr>esym_name = name, esym_address = st_value sym, esym_size = st_size sym, esym_type = ty,
           esym_binding = binding, outNamePos = 0\<rparr> f)))))"

definition read_symbols :: "input_section list \<Rightarrow> u16 \<Rightarrow> input_section \<Rightarrow> elf_file \<Rightarrow> fault + elf_file option" where
  "read_symbols secs strndx s f =
     (if sh_type (in_header s) \<noteq> SHT_SYMTAB then Inr (Some f)
      else
        bindF (section_name secs strndx s) (\<lambda>name.
        if name \<noteq> ''.symtab'' then Inr None
        else
          bindF (section_at secs (unat (sh_link (in_header s)))) (\<lambda>strs.
          foldR (read_symbol (in_data s) (in_data strs)) [0..<length (in_data s) div 16] f)))"

section \<open>Imports\<close>

text \<open>
  The stubs of a library from an address up to another. The address wraps at the end of the address space;
  after \<open>2 ^ 30\<close> steps of four bytes it is back where it began, and the loop never ends.
\<close>

definition read_stub :: "input_section list \<Rightarrow> u32 \<Rightarrow> elf_file \<Rightarrow> fault + rpl_import \<times> elf_file" where
  "read_stub secs addr f =
     (case getLoaderDataPtr secs addr of
        None \<Rightarrow> Inl Null_pointer
      | Some (i, off) \<Rightarrow>
          bindF (section_at secs i) (\<lambda>s.
          bindF (get32 (in_data s) off) (\<lambda>tramp.
          case findSymbol f tramp of
            None \<Rightarrow> Inl Null_pointer
          | Some k \<Rightarrow>
              bindF (get_sym k f) (\<lambda>sym.
              let (stub, f) = add_symbol \<lparr>esym_name = esym_name sym, esym_address = 0, esym_size = 0,
                    esym_type = STT_FUNC, esym_binding = STB_GLOBAL, outNamePos = 0\<rparr> f;
                  f = put_sym k (sym\<lparr>esym_name := esym_name sym @ ''_tramp''\<rparr>) f in
              Inr (\<lparr>trampSymbol = k, stubSymbol = stub, stubAddr = addr, trampAddr = tramp\<rparr>, f)))))"

fun read_stubs ::
  "nat \<Rightarrow> input_section list \<Rightarrow> u32 \<Rightarrow> u32 \<Rightarrow> elf_file \<Rightarrow> fault + rpl_import list \<times> elf_file" where
  "read_stubs 0 secs addr stop f = (if addr < stop then Inl Never_returns else Inr ([], f))"
| "read_stubs (Suc n) secs addr stop f =
     (if addr < stop then
        bindF (read_stub secs addr f) (\<lambda>(i, f).
        bindF (read_stubs n secs (addr + 4) stop f) (\<lambda>(is, f). Inr (i # is, f)))
      else Inr ([], f))"

definition read_library :: "input_section list \<Rightarrow> char list \<Rightarrow> nat \<Rightarrow> elf_file \<Rightarrow> fault + elf_file option" where
  "read_library secs tab i f =
     bindF (get32 tab (12 * i)) (\<lambda>name.
     bindF (get32 tab (12 * i + 4)) (\<lambda>start.
     bindF (get32 tab (12 * i + 8)) (\<lambda>stop.
     case getLoaderDataPtr secs name of
       None \<Rightarrow> Inl Null_pointer
     | Some (j, off) \<Rightarrow>
         bindF (section_at secs j) (\<lambda>s.
         bindF (c_str (drop off (in_data s))) (\<lambda>lib.
         bindF (read_stubs (2 ^ 30) secs start stop f) (\<lambda>(is, f).
         Inr (Some (f\<lparr>rplImports := rplImports f @ [\<lparr>lib_name = lib, lib_imports = is\<rparr>]\<rparr>))))))))"

definition read_libraries :: "input_section list \<Rightarrow> u16 \<Rightarrow> input_section \<Rightarrow> elf_file \<Rightarrow> fault + elf_file option" where
  "read_libraries secs strndx s f =
     bindF (section_name secs strndx s) (\<lambda>name.
     if name \<noteq> ''.lib.rplLibs'' then Inr (Some f)
     else foldR (read_library secs (in_data s)) [0..<length (in_data s) div 12] f)"

section \<open>Relocations\<close>

text \<open>The symbol and the addend for an address that an import or a symbol has.\<close>

definition known_target :: "elf_file \<Rightarrow> u32 \<Rightarrow> nat option" where
  "known_target f addend =
     (case findImport f addend of Some i \<Rightarrow> Some (stubSymbol i) | None \<Rightarrow> findSymbol f addend)"

definition add_relocation :: "ereloc \<Rightarrow> elf_file \<Rightarrow> elf_file" where
  "add_relocation r f = f\<lparr>relocations := relocations f @ [r]\<rparr>"

text \<open>
  A relocation that names no symbol is written into the input section, in the byte order of the host
  (least significant byte first), and dropped.
\<close>

definition read_relocation ::
  "u16 \<Rightarrow> nat \<Rightarrow> nat \<Rightarrow> nat \<Rightarrow> input_section list \<times> elf_file \<Rightarrow> fault + (input_section list \<times> elf_file) option" where
  "read_relocation strndx j l i = (\<lambda>(secs, f).
     bindF (section_at secs j) (\<lambda>s.
     bindF (section_at secs l) (\<lambda>syms.
     bindF (rela_at (in_data s) (12 * i)) (\<lambda>rela.
     let ty = r_info rela AND 0xff; sym = 16 * unat (drop_bit 8 (r_info rela)); addend = r_addend rela in
     bindF (get8 (in_data syms) (sym + 12)) (\<lambda>info.
     bindF (if ucast (info AND 0xf) = STT_SECTION then bindF (get32 (in_data syms) (sym + 4)) (\<lambda>v. Inr (v = CodeAddress))
            else Inr False) (\<lambda>code.
     if code \<and> (r_offset rela < CodeAddress \<or> r_offset rela \<ge> DataAddress) then Inr None
     else
       let reloc = (\<lambda>k a. Inr (Some (secs, add_relocation
             \<lparr>rel_target = r_offset rela, rel_type = ty, rel_symbol = k, rel_addend = a\<rparr> f))) in
       case known_target f addend of
         Some k \<Rightarrow> reloc (Some k) 0
       | None \<Rightarrow>
           if addend \<ge> DataAddress \<and> addend < WiiuLoadAddress then reloc (findSymbol f DataAddress) (addend - DataAddress)
           else if addend \<ge> CodeAddress \<and> addend < DataAddress then reloc (findSymbol f CodeAddress) (addend - CodeAddress)
           else
             case getLoaderDataPtr secs (r_offset rela) of
               None \<Rightarrow> Inl Null_pointer
             | Some ptr \<Rightarrow> bindF (store_at secs ptr (rev (be32 addend))) (\<lambda>secs. Inr (Some (secs, f)))))))))"

definition read_relocations ::
  "u16 \<Rightarrow> nat \<Rightarrow> input_section list \<times> elf_file \<Rightarrow> fault + (input_section list \<times> elf_file) option" where
  "read_relocations strndx j = (\<lambda>(secs, f).
     bindF (section_at secs j) (\<lambda>s.
     if sh_type (in_header s) \<noteq> SHT_RELA then Inr (Some (secs, f))
     else
       bindF (section_name secs strndx s) (\<lambda>name.
       if name = ''.rela.dyn'' then Inr (Some (secs, f))
       else
         let l = unat (sh_link (in_header s)) in
         bindF (section_at secs l) (\<lambda>_.
         foldR (read_relocation strndx j l) [0..<length (in_data s) div 12] (secs, f)))))"

text \<open>With a symbol index other than 0 the relocation keeps the null symbol it was made with.\<close>

definition read_dyn_relocation :: "char list \<Rightarrow> char list \<Rightarrow> nat \<Rightarrow> elf_file \<Rightarrow> fault + elf_file option" where
  "read_dyn_relocation symdata reladata i f =
     bindF (rela_at reladata (12 * i)) (\<lambda>rela.
     let ty = r_info rela AND 0xff; index = drop_bit 8 (r_info rela) in
     bindF (get32 symdata (16 * unat index + 4)) (\<lambda>v.
     let addr = v + r_addend rela; addend = r_addend rela in
     if ty = R_PPC_NONE then Inr (Some f)
     else
       bindR
         (if index = 0 then
            (case known_target f addend of
               Some k \<Rightarrow> Inr (Some (Some k, 0))
             | None \<Rightarrow>
                 if addr \<ge> CodeAddress \<and> addr < DataAddress then Inr (Some (findSymbol f CodeAddress, addend - CodeAddress))
                 else if addr \<ge> DataAddress \<and> addr < WiiuLoadAddress then Inr (Some (findSymbol f DataAddress, addend - DataAddress))
                 else Inr None)
          else Inr (Some (None, 0)))
         (\<lambda>(k, a).
         if ty \<noteq> R_PPC_RELATIVE then Inr None
         else if r_offset rela \<ge> CodeAddress \<and> r_offset rela < WiiuLoadAddress then
           Inr (Some (add_relocation \<lparr>rel_target = r_offset rela, rel_type = R_PPC_ADDR32, rel_symbol = k, rel_addend = a\<rparr> f))
         else Inr (Some f))))"

definition read_dyn_relocations :: "input_section list \<Rightarrow> u16 \<Rightarrow> input_section \<Rightarrow> elf_file \<Rightarrow> fault + elf_file option" where
  "read_dyn_relocations secs strndx s f =
     (if sh_type (in_header s) \<noteq> SHT_RELA then Inr (Some f)
      else
        bindF (section_name secs strndx s) (\<lambda>name.
        if name \<noteq> ''.rela.dyn'' then Inr (Some f)
        else
          bindF (section_at secs (unat (sh_link (in_header s)))) (\<lambda>symSection.
          foldR (read_dyn_relocation (in_data symSection) (in_data s)) [0..<length (in_data s) div 12] f)))"

section \<open>The whole\<close>

definition empty_file :: "u32 \<Rightarrow> elf_file" where
  "empty_file entry = \<lparr>entryPoint = entry, dataSections = [], symbols = [], sym_store = Map.empty, next_sym = 0,
     relocations = [], rplImports = []\<rparr>"

text \<open>The file's bytes, none if it does not open.\<close>

definition read_elf :: "char list option \<Rightarrow> fault + elf_file option" where
  "read_elf file =
     (case file of
        None \<Rightarrow> Inr None
      | Some bytes \<Rightarrow>
          let (hb, s) = in_read 52 (replicate 52 NUL) \<lparr>s_bytes = bytes, s_pos = 0, s_ok = True\<rparr> in
          bindF (header_at hb 0) (\<lambda>h.
          if \<not> check_header h then Inr None
          else
            let f = empty_file (e_entry h); x = shstrndx h in
            bindF (read_sections (unat (shnum h)) (in_seekg (unat (shoff h)) s)) (\<lambda>(secs, s).
            bindF (section_at secs (unat x)) (\<lambda>_.
            let js = [0..<length secs] in
            bindR (foldR (loader_relocations x) js secs) (\<lambda>secs.
            bindR (foldR (read_data_section secs x) secs f) (\<lambda>f.
            let f = foldl (\<lambda>f s. snd (add_symbol s f)) f default_symbols in
            bindR (foldR (read_symbols secs x) secs f) (\<lambda>f.
            bindR (foldR (read_libraries secs x) secs f) (\<lambda>f.
            bindR (foldR (read_relocations x) js (secs, f)) (\<lambda>(secs, f).
            foldR (read_dyn_relocations secs x) secs f)))))))))"


section \<open>The program in memory is well formed\<close>

lemma bindR_Some [fault_simps]: "bindR m f = Inr (Some y) \<longleftrightarrow> (\<exists>x. m = Inr (Some x) \<and> f x = Inr (Some y))"
  by (auto simp: bindR_def fault_simps split: option.splits)

lemma foldR_invariant:
  assumes "foldR f xs s = Inr (Some t)" "P s"
    and step: "\<And>x s t. x \<in> set xs \<Longrightarrow> P s \<Longrightarrow> f x s = Inr (Some t) \<Longrightarrow> P t"
  shows "P t"
  using assms
proof (induction xs arbitrary: s)
  case (Cons x xs)
  then obtain u where "f x s = Inr (Some u)" "foldR f xs u = Inr (Some t)" by (auto simp: fault_simps)
  moreover from this Cons.prems have "P u" by auto
  ultimately show ?case using Cons.IH Cons.prems by auto
qed auto

text \<open>
  The symbols of the table are the objects that live, each once; the relocations and the imports name
  symbols of the table; a section without bits has no data; the four symbols that the converter makes
  itself come first and keep their addresses and types.
\<close>

fun known_symbol :: "nat list \<Rightarrow> nat option \<Rightarrow> bool" where
  "known_symbol ks None \<longleftrightarrow> True"
| "known_symbol ks (Some k) \<longleftrightarrow> k \<in> set ks"

lemma known_symbol_mono: "known_symbol ks k \<Longrightarrow> set ks \<subseteq> set ks' \<Longrightarrow> known_symbol ks' k"
  by (cases k) auto

definition symbol_table_ok :: "elf_file \<Rightarrow> bool" where
  "symbol_table_ok f \<longleftrightarrow> distinct (symbols f) \<and> dom (sym_store f) = set (symbols f) \<and> (\<forall>k \<in> set (symbols f). k < next_sym f)"

definition stands_for :: "elf_file \<Rightarrow> nat \<Rightarrow> u32 \<Rightarrow> u32 \<Rightarrow> bool" where
  "stands_for f k a ty \<longleftrightarrow> (case sym_store f k of None \<Rightarrow> False | Some s \<Rightarrow> esym_address s = a \<and> esym_type s = ty \<and>
     (k = 0 \<longrightarrow> esym_name s = []))"

definition default_symbols_ok :: "elf_file \<Rightarrow> bool" where
  "default_symbols_ok f \<longleftrightarrow> take 4 (symbols f) = [0, 1, 2, 3] \<and> stands_for f 0 0 STT_NOTYPE \<and>
     stands_for f 1 CodeAddress STT_SECTION \<and> stands_for f 2 DataAddress STT_SECTION \<and> stands_for f 3 0 STT_OBJECT"

definition references_ok :: "elf_file \<Rightarrow> bool" where
  "references_ok f \<longleftrightarrow> (\<forall>r \<in> set (relocations f). known_symbol (symbols f) (rel_symbol r)) \<and>
     (\<forall>i \<in> set (concat (map lib_imports (rplImports f))). {trampSymbol i, stubSymbol i} \<subseteq> set (symbols f))"

definition data_ok :: "elf_file \<Rightarrow> bool" where
  "data_ok f \<longleftrightarrow> (\<forall>s \<in> set (dataSections f).
     ds_type s = SHT_PROGBITS \<or> ds_type s = SHT_NOBITS \<and> ds_data s = [])"

definition well_formed :: "elf_file \<Rightarrow> bool" where
  "well_formed f \<longleftrightarrow> symbol_table_ok f \<and> default_symbols_ok f \<and> references_ok f \<and> data_ok f"

lemmas well_formed_defs = well_formed_def symbol_table_ok_def references_ok_def data_ok_def

lemma find_set: "find P xs = Some x \<Longrightarrow> x \<in> set xs \<and> P x"
  by (auto simp: find_Some_iff)

lemma findSymbol_in: "findSymbol f a = Some k \<Longrightarrow> k \<in> set (symbols f)"
  by (auto simp: findSymbol_def split: option.splits dest: find_set)

lemma findImport_in: "findImport f a = Some i \<Longrightarrow> \<exists>lib \<in> set (rplImports f). i \<in> set (lib_imports lib)"
  by (auto simp: findImport_def dest!: find_set)

lemma known_target_in: "references_ok f \<Longrightarrow> known_target f a = Some k \<Longrightarrow> k \<in> set (symbols f)"
  by (auto simp: known_target_def references_ok_def split: option.splits dest: findSymbol_in dest!: findImport_in)

lemma add_symbol_ok: "well_formed f \<Longrightarrow> well_formed (snd (add_symbol s f))"
proof -
  assume wf: "well_formed f"
  then have n: "next_sym f \<notin> set (symbols f)" "4 \<le> length (symbols f)"
    by (auto simp: well_formed_defs default_symbols_ok_def dest: arg_cong [where f = length])
  have "3 \<in> set (take 4 (symbols f))" using wf by (simp add: well_formed_def default_symbols_ok_def)
  then have "3 \<in> set (symbols f)" using set_take_subset by fastforce
  then have "3 < next_sym f" using wf by (auto simp: well_formed_defs)
  then show ?thesis using wf n
    by (auto simp: well_formed_defs default_symbols_ok_def stands_for_def add_symbol_def intro: known_symbol_mono split: option.splits)
qed

lemma put_sym_ok:
  "well_formed f \<Longrightarrow> sym_store f k = Some s \<Longrightarrow> esym_address s' = esym_address s \<Longrightarrow> esym_type s' = esym_type s \<Longrightarrow>
   k \<noteq> 0 \<or> esym_name s' = esym_name s \<Longrightarrow> well_formed (put_sym k s' f)"
  by (auto simp: well_formed_defs default_symbols_ok_def stands_for_def put_sym_def split: option.splits)


text \<open>The null symbol comes behind \<open>$UNDEF\<close> in every search for its address.\<close>

lemma default_three: "default_symbols_ok f \<Longrightarrow> 3 \<in> set (symbols f)"
proof -
  assume "default_symbols_ok f"
  then have "3 \<in> set (take 4 (symbols f))" by (simp add: default_symbols_ok_def)
  then show ?thesis using set_take_subset by fastforce
qed

lemma findSymbol_not_null:
  assumes "default_symbols_ok f"
  shows "findSymbol f a \<noteq> Some 0"
proof
  assume found: "findSymbol f a = Some 0"
  obtain s0 where s0: "sym_store f 0 = Some s0" "esym_address s0 = 0" "esym_type s0 = STT_NOTYPE"
    using assms by (auto simp: default_symbols_ok_def stands_for_def split: option.splits)
  obtain s3 where s3: "sym_store f 3 = Some s3" "esym_address s3 = 0" "esym_type s3 = STT_OBJECT"
    using assms by (auto simp: default_symbols_ok_def stands_for_def split: option.splits)
  let ?P = "matches f (\<lambda>s. esym_address s = a \<and> esym_type s \<noteq> STT_NOTYPE)"
  have "find ?P (symbols f) = None" "a = 0"
    using found s0 by (auto simp: findSymbol_def matches_def split: option.splits dest!: find_set)
  moreover have "?P 3" if "a = 0" using s3 that by (simp add: matches_def STT_OBJECT_def STT_NOTYPE_def)
  ultimately show False using default_three [OF assms] by (auto simp: find_None_iff)
qed

lemma get_sym_Inr [fault_simps]: "get_sym k f = Inr s \<longleftrightarrow> sym_store f k = Some s"
  by (simp add: get_sym_def split: option.splits)

lemma put_sym_sel [simp]:
  "symbols (put_sym k s f) = symbols f" "next_sym (put_sym k s f) = next_sym f" "relocations (put_sym k s f) = relocations f"
  "rplImports (put_sym k s f) = rplImports f" "dataSections (put_sym k s f) = dataSections f"
  "sym_store (put_sym k s f) = (sym_store f)(k \<mapsto> s)" "entryPoint (put_sym k s f) = entryPoint f"
  by (simp_all add: put_sym_def)

lemma add_symbol_sel [simp]:
  "symbols (snd (add_symbol s f)) = symbols f @ [next_sym f]" "relocations (snd (add_symbol s f)) = relocations f"
  "rplImports (snd (add_symbol s f)) = rplImports f" "fst (add_symbol s f) = next_sym f"
  "entryPoint (snd (add_symbol s f)) = entryPoint f"
  by (simp_all add: add_symbol_def)

lemma read_stub_ok:
  assumes "well_formed f" "read_stub secs a f = Inr (i, f')"
  shows "well_formed f'" "set (symbols f) \<subseteq> set (symbols f')" "{trampSymbol i, stubSymbol i} \<subseteq> set (symbols f')"
    "entryPoint f' = entryPoint f"
proof -
  obtain k tramp s where k: "findSymbol f tramp = Some k" "sym_store f k = Some s"
    and f': "f' = put_sym k (s\<lparr>esym_name := esym_name s @ ''_tramp''\<rparr>) (snd (add_symbol \<lparr>esym_name = esym_name s, esym_address = 0,
      esym_size = 0, esym_type = STT_FUNC, esym_binding = STB_GLOBAL, outNamePos = 0\<rparr> f))"
    and i: "trampSymbol i = k" "stubSymbol i = next_sym f"
    using assms(2) by (auto simp: read_stub_def fault_simps Let_def case_prod_unfold split: option.splits)
  have in_f: "k \<in> set (symbols f)" using k(1) by (rule findSymbol_in)
  have "k \<noteq> 0" using findSymbol_not_null [of f tramp] assms(1) k(1) by (auto simp: well_formed_def)
  moreover have "k \<noteq> next_sym f" using in_f assms(1) by (auto simp: well_formed_defs)
  ultimately show "well_formed f'" unfolding f'
    using k(2) by (intro put_sym_ok [OF add_symbol_ok [OF assms(1)], where s = s]) (auto simp: add_symbol_def)
  show "set (symbols f) \<subseteq> set (symbols f')" "{trampSymbol i, stubSymbol i} \<subseteq> set (symbols f')" "entryPoint f' = entryPoint f"
    using in_f i by (auto simp: f')
qed

lemma read_stubs_ok:
  "read_stubs n secs a stop f = Inr (is, f') \<Longrightarrow> well_formed f \<Longrightarrow>
   well_formed f' \<and> set (symbols f) \<subseteq> set (symbols f') \<and> (\<forall>i \<in> set is. {trampSymbol i, stubSymbol i} \<subseteq> set (symbols f'))
   \<and> entryPoint f' = entryPoint f"
proof (induction n secs a stop f arbitrary: "is" f' rule: read_stubs.induct)
  case (2 n secs a stop f)
  show ?case
  proof (cases "a < stop")
    case True
    obtain i g rest where i: "read_stub secs a f = Inr (i, g)" and rest: "read_stubs n secs (a + 4) stop g = Inr (rest, f')"
      and "is": "is = i # rest"
      using 2(2) True by (auto simp: fault_simps)
    note g = read_stub_ok [OF 2(3) i]
    have "well_formed f' \<and> set (symbols g) \<subseteq> set (symbols f') \<and> (\<forall>i \<in> set rest. {trampSymbol i, stubSymbol i} \<subseteq> set (symbols f'))
      \<and> entryPoint f' = entryPoint g"
      by (rule 2(1) [OF True i refl rest g(1)])
    then show ?thesis using g(2-4) by (auto simp: "is")
  qed (use 2 in auto)
qed (auto split: if_splits)


text \<open>The stages of the reader keep the program well formed and its entry.\<close>

definition kept :: "u32 \<Rightarrow> elf_file \<Rightarrow> bool" where
  "kept e f \<longleftrightarrow> well_formed f \<and> entryPoint f = e"

lemma foldR_kept:
  "foldR g xs f = Inr (Some f') \<Longrightarrow> kept e f \<Longrightarrow> (\<And>x f f'. g x f = Inr (Some f') \<Longrightarrow> kept e f \<Longrightarrow> kept e f') \<Longrightarrow> kept e f'"
  by (rule foldR_invariant [where P = "kept e"])

lemma read_library_kept:
  assumes "read_library secs tab i f = Inr (Some f')" "kept e f"
  shows "kept e f'"
proof -
  obtain n start stop "is" g lib where "is": "read_stubs n secs start stop f = Inr (is, g)"
    and f': "f' = g\<lparr>rplImports := rplImports g @ [\<lparr>lib_name = lib, lib_imports = is\<rparr>]\<rparr>"
    using assms(1) by (auto simp: read_library_def fault_simps split: option.splits)
  show ?thesis
    using read_stubs_ok [OF "is"] assms(2) unfolding f'
    by (auto simp: kept_def well_formed_defs default_symbols_ok_def stands_for_def)
qed

lemma add_symbol_kept [intro]: "kept e f \<Longrightarrow> kept e (snd (add_symbol s f))"
  by (simp add: kept_def add_symbol_ok)

lemma read_symbol_kept: "read_symbol symdata strTab i f = Inr (Some f') \<Longrightarrow> kept e f \<Longrightarrow> kept e f'"
  by (auto simp: read_symbol_def fault_simps Let_def split: if_splits)

lemma add_relocation_kept:
  "kept e f \<Longrightarrow> known_symbol (symbols f) (rel_symbol r) \<Longrightarrow> kept e (add_relocation r f)"
  by (auto simp: kept_def add_relocation_def well_formed_defs default_symbols_ok_def stands_for_def)

lemma known_symbol_search [simp]: "known_symbol (symbols f) (findSymbol f a)"
  by (cases "findSymbol f a") (auto dest: findSymbol_in)

lemma known_symbol_target: "kept e f \<Longrightarrow> known_target f a = Some k \<Longrightarrow> k \<in> set (symbols f)"
  by (auto simp: kept_def well_formed_def dest: known_target_in)

lemma read_relocation_kept:
  "read_relocation x j l i (secs, f) = Inr (Some (secs', f')) \<Longrightarrow> kept e f \<Longrightarrow> kept e f'"
  by (auto simp: read_relocation_def fault_simps Let_def split: if_splits option.splits
      intro!: add_relocation_kept dest: known_symbol_target)

lemma read_dyn_relocation_kept: "read_dyn_relocation symdata rels i f = Inr (Some f') \<Longrightarrow> kept e f \<Longrightarrow> kept e f'"
  by (auto simp: read_dyn_relocation_def fault_simps Let_def split: if_splits option.splits
      intro!: add_relocation_kept dest: known_symbol_target)

lemma read_symbols_kept: "read_symbols secs x s f = Inr (Some f') \<Longrightarrow> kept e f \<Longrightarrow> kept e f'"
  by (auto simp: read_symbols_def fault_simps split: if_splits elim!: foldR_kept intro: read_symbol_kept)

lemma read_libraries_kept: "read_libraries secs x s f = Inr (Some f') \<Longrightarrow> kept e f \<Longrightarrow> kept e f'"
  by (auto simp: read_libraries_def fault_simps split: if_splits elim!: foldR_kept intro: read_library_kept)

lemma read_dyn_relocations_kept: "read_dyn_relocations secs x s f = Inr (Some f') \<Longrightarrow> kept e f \<Longrightarrow> kept e f'"
  by (auto simp: read_dyn_relocations_def fault_simps split: if_splits elim!: foldR_kept intro: read_dyn_relocation_kept)

lemma read_relocations_kept: "read_relocations x j sf = Inr (Some sf') \<Longrightarrow> kept e (snd sf) \<Longrightarrow> kept e (snd sf')"
  by (auto simp: read_relocations_def fault_simps case_prod_unfold Let_def split: if_splits
      elim!: foldR_invariant [where P = "\<lambda>p. kept e (snd p)"] intro: read_relocation_kept)

definition sections_read :: "u32 \<Rightarrow> elf_file \<Rightarrow> bool" where
  "sections_read e f \<longleftrightarrow> f = (empty_file e)\<lparr>dataSections := dataSections f\<rparr> \<and> data_ok f"

lemma read_data_section_ok: "read_data_section secs x s f = Inr (Some f') \<Longrightarrow> sections_read e f \<Longrightarrow> sections_read e f'"
proof -
  assume r: "read_data_section secs x s f = Inr (Some f')" and f: "sections_read e f"
  have "f' = f \<or> (\<exists>d. f' = f\<lparr>dataSections := dataSections f @ [d]\<rparr> \<and> (ds_type d = SHT_PROGBITS \<or> ds_type d = SHT_NOBITS \<and> ds_data d = []))"
    using r by (auto simp: read_data_section_def fault_simps Let_def split: if_splits)
  then show ?thesis
  proof (elim disjE exE)
    fix d assume d: "f' = f\<lparr>dataSections := dataSections f @ [d]\<rparr> \<and> (ds_type d = SHT_PROGBITS \<or> ds_type d = SHT_NOBITS \<and> ds_data d = [])"
    obtain ds where "f = (empty_file e)\<lparr>dataSections := ds\<rparr>" using f by (auto simp: sections_read_def)
    with d f show ?thesis by (auto simp: sections_read_def data_ok_def)
  qed (use f in simp)
qed

lemma default_symbols_kept: "sections_read e f \<Longrightarrow> kept e (foldl (\<lambda>f s. snd (add_symbol s f)) f default_symbols)"
proof -
  assume "sections_read e f"
  then obtain ds where f: "f = (empty_file e)\<lparr>dataSections := ds\<rparr>" and ok: "data_ok f" by (auto simp: sections_read_def)
  show ?thesis using ok unfolding f
    by (auto simp: kept_def well_formed_defs default_symbols_ok_def stands_for_def default_symbols_def add_symbol_def empty_file_def)
qed

lemma in_read_start:
  "fst (in_read n (replicate n NUL) \<lparr>s_bytes = b, s_pos = 0, s_ok = True\<rparr>) = take n (b @ replicate n NUL)"
  by (simp add: in_read_def Let_def min_def)

text \<open>C29: 
  C0: the reader of the ELF file delivers only well-formed programs. Whatever the file holds, if the reader
  neither refuses it nor runs into undefined behaviour, then the header has passed the checks and gives the
  entry point, every symbol of the table is a live object and occurs once, the four symbols of the converter
  come first with their addresses, every relocation and import refers to a symbol of the table or to none,
  and a section without bits has no data.
\<close>

theorem read_elf_well_formed:
  assumes "read_elf src = Inr (Some f)"
  shows "well_formed f \<and> (\<exists>bytes h. src = Some bytes \<and> header_at (take 52 (bytes @ replicate 52 NUL)) 0 = Inr h \<and>
     check_header h \<and> entryPoint f = e_entry h)"
proof -
  obtain bytes where srcB: "src = Some bytes" using assms by (cases src) (auto simp: read_elf_def)
  obtain hb st where hb: "in_read 52 (replicate 52 NUL) \<lparr>s_bytes = bytes, s_pos = 0, s_ok = True\<rparr> = (hb, st)" by fastforce
  obtain h secs f1 f2 f3 js secs' f4 where h: "header_at hb 0 = Inr h" "check_header h"
    and f1: "foldR (read_data_section secs (shstrndx h)) secs (empty_file (e_entry h)) = Inr (Some f1)"
    and f2: "foldR (read_symbols secs (shstrndx h)) secs (foldl (\<lambda>f s. snd (add_symbol s f)) f1 default_symbols) = Inr (Some f2)"
    and f3: "foldR (read_libraries secs (shstrndx h)) secs f2 = Inr (Some f3)"
    and f4: "foldR (read_relocations (shstrndx h)) js (secs, f3) = Inr (Some (secs', f4))"
    and f: "foldR (read_dyn_relocations secs' (shstrndx h)) secs' f4 = Inr (Some f)"
    using assms unfolding read_elf_def srcB
    by (auto simp: fault_simps hb Let_def split: if_splits)
  have "sections_read (e_entry h) f1"
    by (rule foldR_invariant [OF f1, where P = "sections_read (e_entry h)"])
      (simp add: sections_read_def data_ok_def empty_file_def, erule (1) read_data_section_ok)
  then have "kept (e_entry h) f2" by (rule foldR_kept [OF f2 default_symbols_kept]) (rule read_symbols_kept)
  then have "kept (e_entry h) f3" by (rule foldR_kept [OF f3]) (rule read_libraries_kept)
  then have "kept (e_entry h) (snd (secs', f4))"
    by (intro foldR_invariant [OF f4, where P = "\<lambda>p. kept (e_entry h) (snd p)"]) (simp, rule read_relocations_kept)
  then have "kept (e_entry h) f" by (intro foldR_kept [OF f]) (simp, rule read_dyn_relocations_kept)
  moreover have "hb = take 52 (bytes @ replicate 52 NUL)" using in_read_start [of 52 bytes] hb by simp
  ultimately show ?thesis using h srcB by (auto simp: kept_def)
qed

text \<open>A read delivers the bytes that are there.\<close>

lemma in_read_holds:
  "holds_at (s_bytes s) (s_pos s) bs \<Longrightarrow> s_ok s \<Longrightarrow> n = length bs \<Longrightarrow> length old = n \<Longrightarrow>
   in_read n old s = (bs, s\<lparr>s_pos := s_pos s + n\<rparr>)"
  by (cases s) (simp add: in_read_def holds_at_def Let_def)

definition tiny_header :: elf_header where
  "tiny_header = \<lparr>magic = HeaderMagic, fileClass = ELFCLASS32, encoding = ELFDATA2MSB, elfVersion = EV_CURRENT, abi = 0,
     pad = replicate 7 NUL, e_type = 2, machine = EM_PPC, e_version = 1, e_entry = 0x2000000, phoff = 0, shoff = 52, e_flags = 0,
     ehsize = 52, phentsize = 0, phnum = 0, shentsize = 40, shnum = 1, shstrndx = 0\<rparr>"

definition tiny_section :: section_header where
  "tiny_section = \<lparr>sh_name = 0, sh_type = SHT_STRTAB, sh_flags = 0, sh_addr = 0, sh_offset = 92, sh_size = 1, sh_link = 0,
     sh_info = 0, sh_addralign = 1, sh_entsize = 0\<rparr>"

definition tiny_elf :: "char list" where
  "tiny_elf = header_bytes tiny_header @ section_header_bytes tiny_section @ [NUL]"

lemma tiny_holds:
  "holds_at tiny_elf 0 (header_bytes tiny_header)" "holds_at tiny_elf 52 (section_header_bytes tiny_section)"
  "holds_at tiny_elf 92 [NUL]"
proof -
  have len: "length (header_bytes tiny_header) = 52" by (rule structure_lengths(4)) (simp add: tiny_header_def)
  have "holds_at tiny_elf 0 (header_bytes tiny_header @ section_header_bytes tiny_section @ [NUL])"
    by (simp add: tiny_elf_def holds_at_def)
  then show "holds_at tiny_elf 0 (header_bytes tiny_header)" "holds_at tiny_elf 52 (section_header_bytes tiny_section)"
    "holds_at tiny_elf 92 [NUL]"
    by (simp_all add: holds_at_split structure_lengths len)
qed

lemma tiny_sections:
  "read_sections (Suc 0) \<lparr>s_bytes = tiny_elf, s_pos = 52, s_ok = True\<rparr> =
   Inr ([\<lparr>in_header = tiny_section, in_data = [NUL]\<rparr>], \<lparr>s_bytes = tiny_elf, s_pos = 92, s_ok = True\<rparr>)"
proof -
  let ?s = "\<lambda>p. \<lparr>s_bytes = tiny_elf, s_pos = p, s_ok = True\<rparr>"
  have h: "in_read 40 (replicate 40 NUL) (?s 52) = (section_header_bytes tiny_section, ?s 92)"
    using in_read_holds [of "?s 52" "section_header_bytes tiny_section" 40] tiny_holds by (simp add: structure_lengths)
  have d: "in_read 1 (replicate 1 NUL) (?s 92) = ([NUL], ?s 93)"
    using in_read_holds [of "?s 92" "[NUL]" 1] tiny_holds by simp
  have "section_header_at (section_header_bytes tiny_section) 0 = Inr tiny_section"
    by (rule section_header_holds) (simp add: holds_at_def)
  then show ?thesis using h d
    by (simp add: Let_def in_seekg_def tiny_section_def SHT_STRTAB_def SHT_NOBITS_def)
qed

lemma read_elf_well_formed_witness: "\<exists>f. read_elf (Some tiny_elf) = Inr (Some f) \<and> well_formed f"
proof -
  let ?s = "\<lambda>p. \<lparr>s_bytes = tiny_elf, s_pos = p, s_ok = True\<rparr>"
  have len: "length (header_bytes tiny_header) = 52" by (rule structure_lengths(4)) (simp add: tiny_header_def)
  have hb: "in_read 52 (replicate 52 NUL) (?s 0) = (header_bytes tiny_header, ?s 52)"
    using in_read_holds [of "?s 0" "header_bytes tiny_header" 52] tiny_holds by (simp add: len)
  have h: "header_at (header_bytes tiny_header) 0 = Inr tiny_header"
    by (rule header_holds) (simp_all add: holds_at_def tiny_header_def)
  have checks: "check_header tiny_header" "unat (shnum tiny_header) = Suc 0" "shstrndx tiny_header = 0" "unat (shoff tiny_header) = 52"
    by (simp_all add: check_header_def tiny_header_def)
  have sec: "in_seekg 52 (?s 52) = ?s 52" by (simp add: in_seekg_def)
  have "\<exists>f. read_elf (Some tiny_elf) = Inr (Some f)"
    unfolding read_elf_def
    by (simp add: hb h checks sec tiny_sections section_at_def read_at_def bindR_def loader_relocations_def
        read_data_section_def read_symbols_def read_libraries_def read_relocations_def read_dyn_relocations_def section_name_def
        str_at_def tiny_section_def SHT_STRTAB_def SHT_RELA_def SHT_SYMTAB_def SHT_PROGBITS_def SHT_NOBITS_def
        LoadAddress_def Let_def upt_rec del: read_sections.simps)
  then show ?thesis using read_elf_well_formed by blast
qed

end
