(* ===== verification/ElfWrite.thy ===== *)
theory ElfWrite
  imports ElfRead
begin

text \<open>
  The second half of the converter \<open>elf2rpl\<close> (\<open>write\<close> and \<open>main\<close> in \<open>wut/elf2rpl/main.cpp\<close>): from the program
  in memory to the bytes of the RPX file. Output sections are known by their index, which never changes,
  since sections are only ever appended. The checksum of \<open>zlib\<close> is a parameter; \<open>None\<close> is its null buffer.
\<close>

section \<open>Output sections\<close>

record out_section =
  out_name :: string
  out_header :: section_header
  out_data :: "char list"
  relocationSection :: "nat option"
  sectionSymbol :: "nat option"

record writer =
  outSections :: "out_section list"
  elf :: elf_file
  symbolItr :: nat

definition blank_header :: section_header where
  "blank_header = \<lparr>sh_name = 0, sh_type = 0, sh_flags = 0, sh_addr = 0, sh_offset = 0, sh_size = 0, sh_link = 0, sh_info = 0,
     sh_addralign = 0, sh_entsize = 0\<rparr>"

definition new_section :: "string \<Rightarrow> section_header \<Rightarrow> char list \<Rightarrow> out_section" where
  "new_section name h d = \<lparr>out_name = name, out_header = h, out_data = d, relocationSection = None, sectionSymbol = None\<rparr>"

definition push_section :: "out_section \<Rightarrow> writer \<Rightarrow> writer" where
  "push_section s w = w\<lparr>outSections := outSections w @ [s]\<rparr>"

definition addSection :: "out_section \<Rightarrow> writer \<Rightarrow> writer" where
  "addSection s w =
     (let f = elf w; k = next_sym f; i = symbolItr w;
          y = \<lparr>esym_name = out_name s, esym_address = sh_addr (out_header s), esym_size = - 1, esym_type = STT_SECTION,
            esym_binding = STB_LOCAL, outNamePos = 0\<rparr>;
          f = f\<lparr>symbols := take i (symbols f) @ k # drop i (symbols f), sym_store := (sym_store f)(k \<mapsto> y), next_sym := k + 1\<rparr> in
      push_section (s\<lparr>sectionSymbol := Some k\<rparr>) (w\<lparr>elf := f, symbolItr := i + 1\<rparr>))"

fun index_where :: "('a \<Rightarrow> bool) \<Rightarrow> 'a list \<Rightarrow> nat option" where
  "index_where P [] = None"
| "index_where P (x # xs) = (if P x then Some 0 else map_option Suc (index_where P xs))"

definition covers :: "u32 \<Rightarrow> out_section \<Rightarrow> bool" where
  "covers address s \<longleftrightarrow> address \<ge> sh_addr (out_header s) \<and> address < sh_addr (out_header s) + sh_size (out_header s)"

definition index_word :: "nat option \<Rightarrow> u32" where
  "index_word i = (case i of None \<Rightarrow> - 1 | Some i \<Rightarrow> of_nat i)"

definition getSectionIndex :: "out_section list \<Rightarrow> u32 \<Rightarrow> u32" where
  "getSectionIndex secs address = index_word (index_where (covers address) secs)"

definition getSectionIndex_name :: "out_section list \<Rightarrow> string \<Rightarrow> u32" where
  "getSectionIndex_name secs name = index_word (index_where (\<lambda>s. out_name s = name) secs)"

definition update_section :: "nat \<Rightarrow> (out_section \<Rightarrow> out_section) \<Rightarrow> writer \<Rightarrow> writer" where
  "update_section i g w = w\<lparr>outSections := (outSections w)[i := g (outSections w ! i)]\<rparr>"

section \<open>Data and relocation sections\<close>

definition start_writer :: "elf_file \<Rightarrow> writer" where
  "start_writer f = \<lparr>outSections = [new_section '''' blank_header []], elf = f, symbolItr = 4\<rparr>"

definition create_data_section :: "writer \<Rightarrow> data_section \<Rightarrow> writer" where
  "create_data_section w s =
     addSection (new_section (ds_name s)
       \<lparr>sh_name = - 1, sh_type = ds_type s,
        sh_flags = (if ds_address s = DataAddress then ds_flags s OR SHF_WRITE else ds_flags s),
        sh_addr = ds_address s, sh_offset = - 1,
        sh_size = (if ds_type s = SHT_NOBITS then ds_size s else of_nat (length (ds_data s))),
        sh_link = 0, sh_info = 0, sh_addralign = (if ds_address s = DataAddress then 4096 else 256), sh_entsize = 0\<rparr>
       (ds_data s)) w"

definition create_relocation_section :: "ereloc \<Rightarrow> writer \<Rightarrow> fault + writer option" where
  "create_relocation_section r w =
     (case index_where (covers (rel_target r)) (outSections w) of
        None \<Rightarrow> Inr None
      | Some t \<Rightarrow>
          let target = outSections w ! t in
          if relocationSection target \<noteq> None then Inr (Some w)
          else
            let i = length (outSections w);
                w = addSection (new_section (''.rela'' @ out_name target)
                  \<lparr>sh_name = - 1, sh_type = SHT_RELA, sh_flags = 0, sh_addr = 0, sh_offset = - 1, sh_size = - 1, sh_link = - 1,
                   sh_info = getSectionIndex (outSections w) (sh_addr (out_header target)), sh_addralign = 4, sh_entsize = 12\<rparr> []) w in
            Inr (Some (update_section t (\<lambda>s. s\<lparr>relocationSection := Some i\<rparr>) w)))"

section \<open>Import sections\<close>

text \<open>The symbols of the table, in order.\<close>

fun symbols_of :: "nat list \<Rightarrow> elf_file \<Rightarrow> fault + esym list" where
  "symbols_of [] f = Inr []"
| "symbols_of (k # ks) f = bindF (get_sym k f) (\<lambda>s. bindF (symbols_of ks f) (\<lambda>ss. Inr (s # ss)))"

definition predictStrTabSize :: "esym list \<Rightarrow> nat" where
  "predictStrTabSize ss = align_up (1 + sum_list (map (\<lambda>s. length (esym_name s) + 1) ss)) 16"

definition predictSymTabSize :: "esym list \<Rightarrow> nat" where
  "predictSymTabSize ss = align_up (1 + sum_list (map (\<lambda>_. 16) ss)) 16"

definition predictShstrTabSize :: "out_section list \<Rightarrow> nat" where
  "predictShstrTabSize secs = align_up (1 + sum_list (map (\<lambda>s. length (out_name s) + 1) secs)) 16"

type_synonym checksum = "u32 \<Rightarrow> char list option \<Rightarrow> u32"

text \<open>
  The data of an import section: the number of stubs, a checksum, the name of the library. The name is
  closed with a zero byte behind it, wherever that is.
\<close>

definition import_size :: "string \<Rightarrow> nat \<Rightarrow> nat" where
  "import_size name n = max (align_up (8 + length name) 8) (8 + 8 * n)"

definition import_data :: "checksum \<Rightarrow> string \<Rightarrow> nat \<Rightarrow> fault + char list" where
  "import_data crc32 name n =
     (let d = replicate (unat (of_nat (import_size name n) :: u32)) NUL in
      bindF (put32 d 0 (of_nat n)) (\<lambda>d.
      bindF (put32 d 4 (crc32 0 None)) (\<lambda>d.
      bindF (write_at d 8 name) (\<lambda>d.
      write_at d (8 + int (length name)) [NUL]))))"

fun set_stub_addresses :: "u32 \<Rightarrow> rpl_import list \<Rightarrow> elf_file \<Rightarrow> fault + elf_file" where
  "set_stub_addresses a [] f = Inr f"
| "set_stub_addresses a (i # is) f =
     bindF (get_sym (stubSymbol i) f) (\<lambda>s. set_stub_addresses (a + 8) is (put_sym (stubSymbol i) (s\<lparr>esym_address := a\<rparr>) f))"

definition create_import_section :: "checksum \<Rightarrow> rpl_library \<Rightarrow> writer \<times> u32 \<Rightarrow> fault + (writer \<times> u32) option" where
  "create_import_section crc32 lib = (\<lambda>(w, loadAddress).
     let n = length (lib_imports lib); sz = of_nat (import_size (lib_name lib) n) in
     bindF (import_data crc32 (lib_name lib) n) (\<lambda>d.
     bindF (set_stub_addresses (loadAddress + 8) (lib_imports lib) (elf w)) (\<lambda>f.
     let w = addSection (new_section (''.fimport_'' @ lib_name lib)
           \<lparr>sh_name = - 1, sh_type = SHT_RPL_IMPORTS, sh_flags = SHF_ALLOC OR SHF_EXECINSTR, sh_addr = loadAddress, sh_offset = - 1,
            sh_size = sz, sh_link = 0, sh_info = 0, sh_addralign = 4, sh_entsize = 0\<rparr> d) (w\<lparr>elf := f\<rparr>) in
     Inr (Some (w, of_nat (align_up (unat (loadAddress + sz)) 4))))))"

section \<open>Pruning and relocations\<close>

definition unneeded :: "esym \<Rightarrow> bool" where
  "unneeded s \<longleftrightarrow> esym_name s \<noteq> [] \<and> esym_type s = STT_NOTYPE \<and> esym_size s = 0"

text \<open>An erased symbol is freed with its place in the vector.\<close>

definition prune :: "elf_file \<Rightarrow> elf_file" where
  "prune f = f\<lparr>symbols := filter (\<lambda>k. \<not> matches f unneeded k) (symbols f),
     sym_store := (\<lambda>k. if k \<in> set (symbols f) \<and> matches f unneeded k then None else sym_store f k)\<rparr>"

text \<open>
  The place of a relocation's symbol in the table and the addend. The code also stores the new symbol
  and addend in the relocation, which nothing reads again.
\<close>

definition relocation_symbol :: "ereloc \<Rightarrow> elf_file \<Rightarrow> fault + (nat \<times> u32) option" where
  "relocation_symbol r f =
     (case index_where (\<lambda>k. rel_symbol r = Some k) (symbols f) of
        Some i \<Rightarrow> Inr (Some (i, rel_addend r))
      | None \<Rightarrow>
          (case rel_symbol r of
             None \<Rightarrow> Inl Null_pointer
           | Some k \<Rightarrow>
               bindF (get_sym k f) (\<lambda>s.
               let a = esym_address s in
               if a \<ge> CodeAddress \<and> a < DataAddress then Inr (Some (1, a - CodeAddress))
               else if a \<ge> DataAddress \<and> a < WiiuLoadAddress then Inr (Some (2, a - DataAddress))
               else Inr None)))"

definition convert_relocation :: "ereloc \<Rightarrow> writer \<Rightarrow> fault + writer option" where
  "convert_relocation r w =
     (case index_where (covers (rel_target r)) (outSections w) of
        None \<Rightarrow> Inr None
      | Some t \<Rightarrow>
          (case relocationSection (outSections w ! t) of
             None \<Rightarrow> Inr None
           | Some i \<Rightarrow>
               bindR (relocation_symbol r (elf w)) (\<lambda>(idx, addend).
               let ty = (if rel_type r = R_PPC_RELATIVE then R_PPC_ADDR32 else rel_type r);
                   rela = \<lparr>r_offset = rel_target r, r_info = ty OR of_nat (idx * 256), r_addend = addend\<rparr> in
               Inr (Some (update_section i (\<lambda>s. s\<lparr>out_data := out_data s @ rela_bytes rela\<rparr>) w)))))"

section \<open>Symbol and string tables\<close>

definition add_tables :: "writer \<Rightarrow> writer" where
  "add_tables w = push_section (new_section ''.shstrtab'' blank_header [])
     (push_section (new_section ''.strtab'' blank_header []) (push_section (new_section ''.symtab'' blank_header []) w))"

text \<open>The links and sizes of the sections so far, and what their symbols say of them.\<close>

definition finish_section :: "nat \<Rightarrow> out_section \<Rightarrow> elf_file \<Rightarrow> fault + out_section \<times> elf_file" where
  "finish_section symTabIndex s f =
     (let h = out_header s;
          h = (if sh_type h = SHT_RELA then h\<lparr>sh_link := of_nat symTabIndex\<rparr> else h);
          h = (if sh_type h \<noteq> SHT_NOBITS then h\<lparr>sh_size := of_nat (length (out_data s))\<rparr> else h);
          s = s\<lparr>out_header := h\<rparr> in
      case sectionSymbol s of
        None \<Rightarrow> Inr (s, f)
      | Some k \<Rightarrow> bindF (get_sym k f) (\<lambda>y. Inr (s, put_sym k (y\<lparr>esym_address := sh_addr h, esym_size := sh_size h\<rparr>) f)))"

fun finish_sections :: "nat \<Rightarrow> out_section list \<Rightarrow> elf_file \<Rightarrow> fault + out_section list \<times> elf_file" where
  "finish_sections n [] f = Inr ([], f)"
| "finish_sections n (s # ss) f =
     bindF (finish_section n s f) (\<lambda>(s, f). bindF (finish_sections n ss f) (\<lambda>(ss, f). Inr (s # ss, f)))"

definition strtab_header :: section_header where
  "strtab_header = \<lparr>sh_name = 0, sh_type = SHT_STRTAB, sh_flags = SHF_ALLOC, sh_addr = 0, sh_offset = - 1, sh_size = - 1,
     sh_link = 0, sh_info = 0, sh_addralign = 1, sh_entsize = 0\<rparr>"

definition symtab_header :: "nat \<Rightarrow> section_header" where
  "symtab_header strTabIndex = \<lparr>sh_name = 0, sh_type = SHT_SYMTAB, sh_flags = SHF_ALLOC, sh_addr = 0, sh_offset = - 1,
     sh_size = - 1, sh_link = of_nat strTabIndex, sh_info = 0, sh_addralign = 4, sh_entsize = 16\<rparr>"

text \<open>A name is appended to a table of names, and its position is returned; an empty name is at 0.\<close>

definition add_name :: "string \<Rightarrow> char list \<Rightarrow> u32 \<times> char list" where
  "add_name name tab = (if name = [] then (0, tab) else (of_nat (length tab), tab @ name @ [NUL]))"

fun name_symbols :: "nat list \<Rightarrow> char list \<Rightarrow> elf_file \<Rightarrow> fault + char list \<times> elf_file" where
  "name_symbols [] tab f = Inr (tab, f)"
| "name_symbols (k # ks) tab f =
     bindF (get_sym k f) (\<lambda>s.
     let (pos, tab) = add_name (esym_name s) tab in
     name_symbols ks tab (put_sym k (s\<lparr>outNamePos := pos\<rparr>) f))"

definition symbol_entry :: "out_section list \<Rightarrow> esym \<Rightarrow> (u32 \<times> elf_symbol) option" where
  "symbol_entry secs s =
     (let shndx = (if esym_type s = STT_SECTION \<and> esym_address s = 0 then getSectionIndex_name secs (esym_name s)
                   else getSectionIndex secs (esym_address s)) in
      if shndx = - 1 then None
      else Some (shndx, \<lparr>st_name = outNamePos s, st_value = esym_address s, st_size = esym_size s,
        st_info = ucast (esym_type s OR push_bit 4 (esym_binding s)), st_other = 0, st_shndx = ucast shndx\<rparr>))"

text \<open>The name of a symbol of an import section goes into the checksum of that section.\<close>

definition sign_import :: "checksum \<Rightarrow> char list \<Rightarrow> out_section \<Rightarrow> fault + out_section" where
  "sign_import crc32 bytes s =
     bindF (get32 (out_data s) 4) (\<lambda>sig.
     bindF (put32 (out_data s) 4 (crc32 sig (Some bytes))) (\<lambda>d. Inr (s\<lparr>out_data := d\<rparr>)))"

definition create_symbol :: "checksum \<Rightarrow> char list \<Rightarrow> nat \<Rightarrow> nat \<Rightarrow> writer \<Rightarrow> fault + writer option" where
  "create_symbol crc32 strTab symTabIndex k w =
     bindF (get_sym k (elf w)) (\<lambda>s.
     case symbol_entry (outSections w) s of
       None \<Rightarrow> Inr None
     | Some (shndx, entry) \<Rightarrow>
         bindF (read_at (outSections w) (uint shndx)) (\<lambda>crcSection.
         bindF
           (if sh_type (out_header crcSection) = SHT_RPL_IMPORTS \<and> esym_type s \<noteq> STT_SECTION then
              bindF (str_at strTab (st_name entry)) (\<lambda>name.
              bindF (sign_import crc32 (name @ [NUL]) crcSection) (\<lambda>c. Inr (update_section (unat shndx) (\<lambda>_. c) w)))
            else Inr w)
           (\<lambda>w. Inr (Some (update_section symTabIndex (\<lambda>t. t\<lparr>out_data := out_data t @ symbol_bytes entry\<rparr>) w)))))"

fun finish_imports :: "checksum \<Rightarrow> out_section list \<Rightarrow> fault + out_section list" where
  "finish_imports crc32 [] = Inr []"
| "finish_imports crc32 (s # ss) =
     bindF (if sh_type (out_header s) = SHT_RPL_IMPORTS then sign_import crc32 (replicate 14 NUL) s else Inr s) (\<lambda>s.
     bindF (finish_imports crc32 ss) (\<lambda>ss. Inr (s # ss)))"

fun name_sections :: "out_section list \<Rightarrow> char list \<Rightarrow> out_section list \<times> char list" where
  "name_sections [] tab = ([], tab)"
| "name_sections (s # ss) tab =
     (let (pos, tab) = add_name (out_name s) tab; (ss, tab') = name_sections ss tab in
      (s\<lparr>out_header := (out_header s)\<lparr>sh_name := pos\<rparr>\<rparr> # ss, tab'))"

definition place :: "u32 \<Rightarrow> out_section \<Rightarrow> out_section" where
  "place addr s = s\<lparr>out_header := (out_header s)\<lparr>sh_addr := addr, sh_size := of_nat (length (out_data s))\<rparr>\<rparr>"

definition align_word :: "u32 \<Rightarrow> nat \<Rightarrow> u32" where
  "align_word v n = of_nat (align_up (unat v) n)"

section \<open>File information and checksums\<close>

record file_info =
  fi_version :: u32
  textSize :: u32
  textAlign :: u32
  dataSize :: u32
  dataAlign :: u32
  loadSize :: u32
  loadAlign :: u32
  tempSize :: u32
  trampAdjust :: u32
  sdaBase :: u32
  sda2Base :: u32
  stackSize :: u32
  fi_filename :: u32
  fi_flags :: u32
  heapSize :: u32
  tagOffset :: u32
  minVersion :: u32
  compressionLevel :: u32
  trampAddition :: u32
  fileInfoPad :: u32
  cafeSdkVersion :: u32
  cafeSdkRevision :: u32
  tlsModuleIndex :: u16
  tlsAlignShift :: u16
  runtimeFileInfoSize :: u32

definition file_info_bytes :: "file_info \<Rightarrow> char list" where
  "file_info_bytes i = be32 (fi_version i) @ be32 (textSize i) @ be32 (textAlign i) @ be32 (dataSize i) @ be32 (dataAlign i) @
     be32 (loadSize i) @ be32 (loadAlign i) @ be32 (tempSize i) @ be32 (trampAdjust i) @ be32 (sdaBase i) @ be32 (sda2Base i) @
     be32 (stackSize i) @ be32 (fi_filename i) @ be32 (fi_flags i) @ be32 (heapSize i) @ be32 (tagOffset i) @ be32 (minVersion i) @
     be32 (compressionLevel i) @ be32 (trampAddition i) @ be32 (fileInfoPad i) @ be32 (cafeSdkVersion i) @ be32 (cafeSdkRevision i) @
     be16 (tlsModuleIndex i) @ be16 (tlsAlignShift i) @ be32 (runtimeFileInfoSize i)"

definition initial_info :: file_info where
  "initial_info = \<lparr>fi_version = 0xCAFE0402, textSize = 0, textAlign = 32, dataSize = 0, dataAlign = 4096, loadSize = 0,
     loadAlign = 4, tempSize = 0, trampAdjust = 0, sdaBase = 0, sda2Base = 0, stackSize = 0x10000, fi_filename = 0,
     fi_flags = RPL_IS_RPX, heapSize = 0x8000, tagOffset = 0, minVersion = 0x5078, compressionLevel = - 1, trampAddition = 0,
     fileInfoPad = 0, cafeSdkVersion = 0x51BA, cafeSdkRevision = 0xCCD1, tlsModuleIndex = 0, tlsAlignShift = 0,
     runtimeFileInfoSize = 0\<rparr>"

definition count_section :: "file_info \<Rightarrow> out_section \<Rightarrow> file_info" where
  "count_section i s =
     (let h = out_header s; addr = sh_addr h; past = addr + sh_size h;
          sz = (if sh_type h = SHT_NOBITS then sh_size h else of_nat (length (out_data s))) in
      if addr \<ge> CodeAddress \<and> addr < DataAddress then
        (if past - CodeAddress > textSize i then i\<lparr>textSize := past - CodeAddress\<rparr> else i)
      else if addr \<ge> DataAddress \<and> addr < WiiuLoadAddress then
        (if past - DataAddress > dataSize i then i\<lparr>dataSize := past - DataAddress\<rparr> else i)
      else if addr \<ge> WiiuLoadAddress then
        (if past - WiiuLoadAddress > loadSize i then i\<lparr>loadSize := past - WiiuLoadAddress\<rparr> else i)
      else if addr = 0 \<and> sh_type h \<noteq> SHT_RPL_CRCS \<and> sh_type h \<noteq> SHT_RPL_FILEINFO then i\<lparr>tempSize := tempSize i + (sz + 128)\<rparr>
      else i)"

definition make_info :: "out_section list \<Rightarrow> file_info" where
  "make_info secs =
     (let i = foldl count_section initial_info secs in
      i\<lparr>sdaBase := align_word (DataAddress + dataSize i + heapSize i) 64, sda2Base := align_word (DataAddress + heapSize i) 64\<rparr>)"

definition crc_header :: section_header where
  "crc_header = \<lparr>sh_name = 0, sh_type = SHT_RPL_CRCS, sh_flags = 0, sh_addr = 0, sh_offset = - 1, sh_size = - 1, sh_link = 0,
     sh_info = 0, sh_addralign = 4, sh_entsize = 4\<rparr>"

definition info_header :: section_header where
  "info_header = \<lparr>sh_name = 0, sh_type = SHT_RPL_FILEINFO, sh_flags = 0, sh_addr = 0, sh_offset = - 1, sh_size = - 1, sh_link = 0,
     sh_info = 0, sh_addralign = 4, sh_entsize = 0\<rparr>"

definition section_crc :: "checksum \<Rightarrow> out_section \<Rightarrow> u32" where
  "section_crc crc32 s = (if out_data s = [] then 0 else crc32 (crc32 0 None) (Some (out_data s)))"

text \<open>The checksums of all sections are the data of their own section, which is empty at that time.\<close>

definition add_crcs :: "checksum \<Rightarrow> out_section list \<Rightarrow> out_section list" where
  "add_crcs crc32 secs =
     (let info = new_section '''' info_header (file_info_bytes (make_info secs)); crcs = new_section '''' crc_header [];
          all = secs @ [crcs, info] in
      secs @ [crcs\<lparr>out_data := concat (map (\<lambda>s. be32 (section_crc crc32 s)) all)\<rparr>, info])"

section \<open>The layout of the file\<close>

text \<open>One pass gives the sections it is for their sizes and their places in the file, one behind the other.\<close>

definition assign :: "nat \<Rightarrow> out_section \<Rightarrow> out_section \<times> nat" where
  "assign dataOffset s =
     (let h = out_header s;
          h = (if sh_type h \<noteq> SHT_NOBITS then h\<lparr>sh_size := of_nat (length (out_data s))\<rparr> else h) in
      if out_data s \<noteq> [] then
        let off = of_nat dataOffset in
        (s\<lparr>out_header := h\<lparr>sh_offset := off\<rparr>\<rparr>, unat (align_word (off + of_nat (length (out_data s))) 64))
      else (s\<lparr>out_header := h\<lparr>sh_offset := 0\<rparr>\<rparr>, dataOffset))"

fun assign_pass :: "(section_header \<Rightarrow> bool) \<Rightarrow> nat \<Rightarrow> out_section list \<Rightarrow> out_section list \<times> nat" where
  "assign_pass P d [] = ([], d)"
| "assign_pass P d (s # ss) =
     (let (s, d) = (if P (out_header s) then assign d s else (s, d)); (ss, d) = assign_pass P d ss in (s # ss, d))"

definition in_first_pass :: "section_header \<Rightarrow> bool" where
  "in_first_pass h \<longleftrightarrow> sh_type h = SHT_RPL_CRCS \<or> sh_type h = SHT_RPL_FILEINFO"

definition in_data_pass :: "section_header \<Rightarrow> bool" where
  "in_data_pass h \<longleftrightarrow> sh_offset h = - 1 \<and> sh_addr h \<ge> DataAddress \<and> sh_addr h < WiiuLoadAddress"

definition in_load_pass :: "section_header \<Rightarrow> bool" where
  "in_load_pass h \<longleftrightarrow> sh_offset h = - 1 \<and> sh_addr h \<ge> WiiuLoadAddress"

definition in_last_pass :: "section_header \<Rightarrow> bool" where
  "in_last_pass h \<longleftrightarrow> sh_offset h = - 1"

definition out_shoff :: nat where
  "out_shoff = align_up 52 64"

definition layout :: "out_section list \<Rightarrow> out_section list" where
  "layout secs =
     (let d = align_up (out_shoff + length secs * 40) 64;
          (secs, d) = assign_pass in_first_pass d secs;
          (secs, d) = assign_pass in_data_pass d secs;
          (secs, d) = assign_pass in_load_pass d secs;
          (secs, d) = assign_pass in_last_pass d secs in secs)"

text \<open>Writing at a position of the output file; a gap before it is filled with zeros.\<close>

definition put_file :: "char list \<Rightarrow> nat \<Rightarrow> char list \<Rightarrow> char list" where
  "put_file file pos bs = take pos (file @ replicate (pos - length file) NUL) @ bs @ drop (pos + length bs) file"

definition out_elf_header :: "u32 \<Rightarrow> nat \<Rightarrow> nat \<Rightarrow> elf_header" where
  "out_elf_header entry n strndx =
     \<lparr>magic = HeaderMagic, fileClass = 1, encoding = ELFDATA2MSB, elfVersion = EV_CURRENT, abi = EABI_CAFE, pad = replicate 7 NUL,
      e_type = 0xFE01, machine = EM_PPC, e_version = 1, e_entry = entry, phoff = 0, shoff = of_nat out_shoff, e_flags = 0, ehsize = 52,
      phentsize = 0, phnum = 0, shentsize = 40, shnum = of_nat n, shstrndx = of_nat strndx\<rparr>"

definition put_section_data :: "char list \<Rightarrow> out_section \<Rightarrow> char list" where
  "put_section_data file s = (if out_data s = [] then file else put_file file (unat (sh_offset (out_header s))) (out_data s))"

definition file_bytes :: "elf_header \<Rightarrow> out_section list \<Rightarrow> char list" where
  "file_bytes h secs =
     (let file = put_file [] 0 (header_bytes h);
          file = put_file file (unat (shoff h)) (concat (map (\<lambda>s. section_header_bytes (out_header s)) secs)) in
      foldl put_section_data file secs)"

section \<open>The whole\<close>

text \<open>Up to the string tables: the sections of the program with their symbols.\<close>

definition program_sections :: "checksum \<Rightarrow> elf_file \<Rightarrow> fault + (writer \<times> nat \<times> nat) option" where
  "program_sections crc32 f =
     (let w = foldl create_data_section (start_writer f) (dataSections f) in
      bindR (foldR create_relocation_section (relocations f) w) (\<lambda>w.
      bindF (symbols_of (symbols (elf w)) (elf w)) (\<lambda>syms.
      let strSize = predictStrTabSize syms; symSize = predictSymTabSize syms; shstrSize = predictShstrTabSize (outSections w) in
      bindR (foldR (create_import_section crc32) (rplImports f) (w, WiiuLoadAddress + of_nat (strSize + symSize + shstrSize))) (\<lambda>(w, _).
      bindR (foldR convert_relocation (relocations f) (w\<lparr>elf := prune (elf w)\<rparr>)) (\<lambda>w. Inr (Some (w, symSize, strSize)))))))"

text \<open>The tables, the checksums and the file information, up to the layout of the file.\<close>

definition finish_tables :: "checksum \<Rightarrow> nat \<Rightarrow> nat \<Rightarrow> writer \<Rightarrow> fault + (out_section list \<times> nat) option" where
  "finish_tables crc32 symSize strSize w =
     (let n = length (outSections w); w = add_tables w in
      bindF (finish_sections n (outSections w) (elf w)) (\<lambda>(secs, f).
      bindF (name_symbols (symbols f) [NUL] f) (\<lambda>(tab, f).
      let w = \<lparr>outSections = secs, elf = f, symbolItr = symbolItr w\<rparr>;
          w = update_section (n + 1) (\<lambda>s. s\<lparr>out_header := strtab_header, out_data := tab\<rparr>) w;
          w = update_section n (\<lambda>s. s\<lparr>out_header := symtab_header (n + 1)\<rparr>) w in
      bindR (foldR (create_symbol crc32 tab n) (symbols f) w) (\<lambda>w.
      bindF (finish_imports crc32 (outSections w)) (\<lambda>secs.
      let secs = secs[n + 2 := (secs ! (n + 2))\<lparr>out_header := strtab_header\<rparr>];
          (secs, names) = name_sections secs [NUL];
          secs = secs[n + 2 := (secs ! (n + 2))\<lparr>out_data := names\<rparr>];
          symAddr = WiiuLoadAddress; strAddr = align_word (symAddr + of_nat symSize) 16;
          shstrAddr = align_word (strAddr + of_nat strSize) 16;
          secs = secs[n := place symAddr (secs ! n)];
          secs = secs[n + 1 := place strAddr (secs ! (n + 1))];
          secs = secs[n + 2 := place shstrAddr (secs ! (n + 2))] in
      Inr (Some (add_crcs crc32 secs, n + 2)))))))"

text \<open>\<open>opens\<close> says whether the output file opens; the result is its new contents.\<close>

definition write_elf :: "checksum \<Rightarrow> bool \<Rightarrow> elf_file \<Rightarrow> fault + char list option" where
  "write_elf crc32 opens f =
     bindR (program_sections crc32 f) (\<lambda>(w, symSize, strSize).
     bindR (finish_tables crc32 symSize strSize w) (\<lambda>(secs, strndx).
     let secs = layout secs in
     if \<not> opens then Inr None
     else Inr (Some (file_bytes (out_elf_header (entryPoint f) (length secs) strndx) secs))))"

text \<open>The exit code and the contents of the output file, if it is written.\<close>

definition elf2rpl_main :: "checksum \<Rightarrow> nat \<Rightarrow> char list option \<Rightarrow> bool \<Rightarrow> fault + int \<times> char list option" where
  "elf2rpl_main crc32 argc src opens =
     (if argc < 3 then Inr (- 1, None)
      else
        bindF (read_elf src) (\<lambda>r.
        case r of
          None \<Rightarrow> Inr (- 1, None)
        | Some f \<Rightarrow> bindF (write_elf crc32 opens f) (\<lambda>o'. case o' of None \<Rightarrow> Inr (- 1, None) | Some bytes \<Rightarrow> Inr (0, Some bytes))))"

end
