(* ===== verification/ElfLayout.thy ===== *)
theory ElfLayout
  imports ElfWrite
begin

text \<open>
  The place of every section in the RPX file: the four passes of the layout keep the sections apart, the
  stages of the writer hand them sections as they expect them, and the file reads back as it was written.
\<close>

section \<open>The layout puts every section at a place of its own\<close>

definition file_offset :: "out_section \<Rightarrow> nat" where
  "file_offset s = unat (sh_offset (out_header s))"

definition file_end :: "out_section \<Rightarrow> nat" where
  "file_end s = file_offset s + length (out_data s)"

definition unplaced :: "out_section \<Rightarrow> bool" where
  "unplaced s \<longleftrightarrow> sh_offset (out_header s) = - 1"

definition in_file :: "out_section \<Rightarrow> bool" where
  "in_file s \<longleftrightarrow> \<not> unplaced s \<and> out_data s \<noteq> []"

definition apart :: "out_section \<Rightarrow> out_section \<Rightarrow> bool" where
  "apart s t \<longleftrightarrow> (in_file s \<and> in_file t \<longrightarrow> file_end s \<le> file_offset t \<or> file_end t \<le> file_offset s)"

definition room :: "out_section \<Rightarrow> nat" where
  "room s = (if unplaced s then length (out_data s) + 63 else 0)"

definition placed_well :: "nat \<Rightarrow> nat \<Rightarrow> out_section \<Rightarrow> bool" where
  "placed_well base d s \<longleftrightarrow>
     (\<not> unplaced s \<and> sh_type (out_header s) \<noteq> SHT_NOBITS \<longrightarrow> sh_size (out_header s) = of_nat (length (out_data s))) \<and>
     (in_file s \<longrightarrow> base \<le> file_offset s \<and> 64 dvd file_offset s \<and> file_end s \<le> d)"

definition layout_inv :: "nat \<Rightarrow> nat \<Rightarrow> out_section list \<Rightarrow> bool" where
  "layout_inv base d secs \<longleftrightarrow> 64 dvd d \<and> base \<le> d \<and> d + sum_list (map room secs) < 2 ^ 32 \<and>
     (\<forall>s \<in> set secs. placed_well base d s) \<and> sorted_wrt apart secs"

lemma align_64: "align_up v 64 = (v + 63) div 64 * 64"
  using align_up_pow [of v 6] by simp

lemma align_64_bounds: "v \<le> align_up v 64" "align_up v 64 \<le> v + 63" "64 dvd align_up v 64"
  by (auto simp: align_64)

lemma unat_of_nat32: "n < 2 ^ 32 \<Longrightarrow> unat (of_nat n :: u32) = n"
  by (simp add: unat_of_nat take_bit_nat_eq_self)

lemma aligned_not_minus_one: "64 dvd d \<Longrightarrow> d < 2 ^ 32 \<Longrightarrow> (of_nat d :: u32) \<noteq> - 1"
proof
  assume d: "64 dvd d" "d < 2 ^ 32" and "(of_nat d :: u32) = - 1"
  then have "unat (of_nat d :: u32) = unat (- 1 :: u32)" by simp
  then have "d = 2 ^ 32 - 1" using d(2) by (simp only: unat_of_nat32) (simp add: unsigned_minus_1_eq_mask mask_eq_exp_minus_1)
  with d(1) show False by simp
qed

lemma assign_inv:
  assumes "layout_inv base d (pre @ s # ss)" "unplaced s" "assign d s = (s', d')"
  shows "layout_inv base d' (pre @ s' # ss) \<and> \<not> unplaced s'"
proof (cases "out_data s = []")
  case True
  then show ?thesis using assms
    by (auto simp: assign_def Let_def layout_inv_def placed_well_def unplaced_def in_file_def apart_def room_def sorted_wrt_append)
next
  case False
  let ?len = "length (out_data s)"
  have d: "64 dvd d" "d < 2 ^ 32" "d + ?len + 63 + sum_list (map room (pre @ ss)) < 2 ^ 32"
    using assms(1,2) by (auto simp: layout_inv_def room_def)
  have "unat (of_nat d + of_nat ?len :: u32) = d + ?len" using d(3) unat_of_nat32 [of "d + ?len"] by simp
  moreover have al: "align_up (d + ?len) 64 < 2 ^ 32" using align_64_bounds(2) [of "d + ?len"] d(3) by simp
  ultimately have d': "d' = align_up (d + ?len) 64"
    using assms(3) False unat_of_nat32 [OF al] by (auto simp: assign_def Let_def align_word_def)
  have s': "out_data s' = out_data s" "file_offset s' = d" "sh_offset (out_header s') = of_nat d"
    "sh_type (out_header s') \<noteq> SHT_NOBITS \<Longrightarrow> sh_size (out_header s') = of_nat ?len"
    using assms(3) False d unat_of_nat32 [of d] by (auto simp: assign_def Let_def file_offset_def split: if_splits)
  have new: "\<not> unplaced s'" using aligned_not_minus_one [OF d(1,2)] s'(3) by (simp add: unplaced_def)
  have old: "\<not> in_file s" using assms(2) by (simp add: in_file_def)
  have grow: "d + ?len \<le> d'" "64 dvd d'" "d' \<le> d + ?len + 63" using align_64_bounds [of "d + ?len"] by (simp_all add: d')
  have "layout_inv base d' (pre @ s' # ss)"
    using assms(1) grow d(3) s' new
    by (auto simp: layout_inv_def placed_well_def apart_def sorted_wrt_append room_def file_end_def)
  with new show ?thesis by simp
qed

lemma assign_pass_inv:
  assumes "layout_inv base d (pre @ ss)" "assign_pass P d ss = (ss', d')" "\<forall>s \<in> set ss. P (out_header s) \<longrightarrow> unplaced s"
  shows "layout_inv base d' (pre @ ss') \<and> {s \<in> set ss'. unplaced s} \<subseteq> {s \<in> set ss. unplaced s \<and> \<not> P (out_header s)}"
  using assms
proof (induction ss arbitrary: pre d ss')
  case (Cons s ss)
  obtain s1 d1 where s1: "(if P (out_header s) then assign d s else (s, d)) = (s1, d1)" by fastforce
  then have one: "layout_inv base d1 (pre @ s1 # ss) \<and> (unplaced s1 \<longrightarrow> s1 = s \<and> \<not> P (out_header s))"
    using assign_inv [OF Cons.prems(1)] Cons.prems by (auto split: if_splits)
  obtain ss1 where ss1: "assign_pass P d1 ss = (ss1, d')" "ss' = s1 # ss1"
    using Cons.prems(2) s1 by (auto split: prod.splits)
  have "layout_inv base d' ((pre @ [s1]) @ ss1) \<and> {s \<in> set ss1. unplaced s} \<subseteq> {s \<in> set ss. unplaced s \<and> \<not> P (out_header s)}"
    by (rule Cons.IH [OF _ ss1(1)]) (use one Cons.prems(3) in simp_all)
  then show ?case using one unfolding ss1(2) by auto
qed simp

text \<open>A pass changes nothing but the size and the offset.\<close>

definition identity :: "out_section \<Rightarrow> string \<times> char list \<times> u32 \<times> u32 \<times> u32 \<times> u32 \<times> u32" where
  "identity s = (out_name s, out_data s, sh_name (out_header s), sh_type (out_header s), sh_flags (out_header s),
     sh_addr (out_header s), sh_link (out_header s))"

lemma assign_identity: "assign d s = (s', d') \<Longrightarrow> identity s' = identity s"
  by (auto simp: assign_def identity_def Let_def split: if_splits)

lemma assign_pass_identity: "assign_pass P d ss = (ss', d') \<Longrightarrow> map identity ss' = map identity ss"
  by (induction ss arbitrary: d ss') (auto split: prod.splits if_splits dest: assign_identity)

text \<open>The sections as the layout finds them, and the bound on their size: the file stays below 4 GB.\<close>

definition layout_ready :: "out_section \<Rightarrow> bool" where
  "layout_ready s \<longleftrightarrow> (sh_type (out_header s) = SHT_NOBITS \<longrightarrow> out_data s = []) \<and>
     (unplaced s \<or> sh_offset (out_header s) = 0 \<and> sh_size (out_header s) = 0 \<and> out_data s = [] \<and> \<not> in_first_pass (out_header s))"

definition fits_file :: "out_section list \<Rightarrow> bool" where
  "fits_file secs \<longleftrightarrow> 127 + 40 * length secs + sum_list (map (\<lambda>s. length (out_data s) + 63) secs) < 2 ^ 32"

definition data_start :: "nat \<Rightarrow> nat" where
  "data_start n = align_up (out_shoff + n * 40) 64"

lemma out_shoff_value: "out_shoff = 64"
  by (simp add: out_shoff_def align_64)

lemma layout_start:
  assumes "\<forall>s \<in> set secs. layout_ready s" "fits_file secs"
  shows "layout_inv (data_start (length secs)) (data_start (length secs)) secs"
proof -
  have "sum_list (map room secs) \<le> sum_list (map (\<lambda>s. length (out_data s) + 63) secs)"
    by (rule sum_list_mono) (simp add: room_def)
  moreover have "data_start (length secs) \<le> 127 + 40 * length secs"
    using align_64_bounds(2) [of "out_shoff + length secs * 40"] by (simp add: data_start_def out_shoff_value)
  moreover have "\<not> in_file s" if "s \<in> set secs" for s
    using assms(1) that by (auto simp: in_file_def layout_ready_def)
  moreover from this have "sorted_wrt apart secs" by (induction secs) (auto simp: apart_def)
  ultimately show ?thesis using assms align_64_bounds(3)
    by (auto simp: layout_inv_def fits_file_def data_start_def placed_well_def layout_ready_def)
qed

lemma layout_result:
  assumes "\<forall>s \<in> set secs. layout_ready s" "fits_file secs"
  shows "\<exists>d. layout_inv (data_start (length secs)) d (layout secs) \<and> (\<forall>s \<in> set (layout secs). \<not> unplaced s) \<and>
    map identity (layout secs) = map identity secs"
proof -
  let ?b = "data_start (length secs)"
  obtain s1 d1 where s1: "assign_pass in_first_pass ?b secs = (s1, d1)" by fastforce
  obtain s2 d2 where s2: "assign_pass in_data_pass d1 s1 = (s2, d2)" by fastforce
  obtain s3 d3 where s3: "assign_pass in_load_pass d2 s2 = (s3, d3)" by fastforce
  obtain s4 d4 where s4: "assign_pass in_last_pass d3 s3 = (s4, d4)" by fastforce
  have l: "layout secs = s4" by (simp add: layout_def data_start_def [symmetric] s1 s2 s3 s4)
  note passes = assign_pass_inv [where pre = "[]", simplified]
  have "layout_inv ?b d1 s1"
    using passes [OF layout_start [OF assms] s1] assms(1) by (auto simp: layout_ready_def)
  then have "layout_inv ?b d2 s2" using passes [OF _ s2] by (auto simp: in_data_pass_def unplaced_def)
  then have "layout_inv ?b d3 s3" using passes [OF _ s3] by (auto simp: in_load_pass_def unplaced_def)
  then have "layout_inv ?b d4 s4 \<and> {s \<in> set s4. unplaced s} \<subseteq> {s \<in> set s3. unplaced s \<and> \<not> in_last_pass (out_header s)}"
    using passes [OF _ s4] by (auto simp: in_last_pass_def unplaced_def)
  then show ?thesis unfolding l
    using assign_pass_identity [OF s1] assign_pass_identity [OF s2] assign_pass_identity [OF s3] assign_pass_identity [OF s4]
    by (auto simp: in_last_pass_def unplaced_def)
qed

section \<open>What is written is read back\<close>

lemma holds_at_put_same: "holds_at (put_file b pos bs) pos bs"
  by (auto simp: put_file_def holds_at_def)

lemma holds_at_nth: "holds_at b off bs \<longleftrightarrow> off + length bs \<le> length b \<and> (\<forall>i < length bs. b ! (off + i) = bs ! i)"
  by (auto simp: holds_at_def list_eq_iff_nth_eq)

lemma put_file_nth:
  "i < pos \<or> pos + length bs \<le> i \<Longrightarrow> i < length b \<Longrightarrow> put_file b pos bs ! i = b ! i"
  by (auto simp: put_file_def nth_append)

lemma length_put_file: "length (put_file b pos bs) = max (length b) (pos + length bs)"
  by (auto simp: put_file_def)

lemma holds_at_put_other:
  "holds_at b off xs \<Longrightarrow> off + length xs \<le> pos \<or> pos + length bs \<le> off \<Longrightarrow> holds_at (put_file b pos bs) off xs"
  by (auto simp: holds_at_nth length_put_file put_file_nth)

lemma holds_at_nil [simp]: "holds_at b off [] \<longleftrightarrow> off \<le> length b"
  by (simp add: holds_at_def)

lemma put_sections_other:
  assumes "holds_at b off xs" "\<forall>s \<in> set secs. out_data s \<noteq> [] \<longrightarrow> off + length xs \<le> file_offset s \<or> file_end s \<le> off"
  shows "holds_at (foldl put_section_data b secs) off xs"
  using assms
  by (induction secs arbitrary: b)
    (auto simp: put_section_data_def file_end_def file_offset_def intro: holds_at_put_other)

lemma put_sections_same:
  assumes "sorted_wrt apart secs" "\<forall>s \<in> set secs. \<not> unplaced s" "s \<in> set secs" "out_data s \<noteq> []"
  shows "holds_at (foldl put_section_data b secs) (file_offset s) (out_data s)"
  using assms
proof (induction secs arbitrary: b)
  case (Cons t secs)
  show ?case
  proof (cases "s \<in> set secs")
    case False
    then have "s = t" using Cons.prems(3) by simp
    moreover have "\<forall>u \<in> set secs. out_data u \<noteq> [] \<longrightarrow> file_end t \<le> file_offset u \<or> file_end u \<le> file_offset t"
      using Cons.prems \<open>s = t\<close> by (auto simp: apart_def in_file_def)
    moreover have "holds_at (put_section_data b t) (file_offset t) (out_data t)"
      using Cons.prems(4) \<open>s = t\<close> by (simp add: put_section_data_def file_offset_def holds_at_put_same)
    ultimately show ?thesis using put_sections_other [of "put_section_data b t" "file_offset t" "out_data t" secs]
      by (auto simp: file_end_def)
  qed (use Cons in simp)
qed simp

definition as_input :: "out_section \<Rightarrow> input_section" where
  "as_input s = \<lparr>in_header = out_header s, in_data = out_data s\<rparr>"

text \<open>A section that the reader finds in a file as it was written.\<close>

definition readable :: "char list \<Rightarrow> out_section \<Rightarrow> bool" where
  "readable b s \<longleftrightarrow>
     (if sh_size (out_header s) = 0 \<or> sh_type (out_header s) = SHT_NOBITS then out_data s = []
      else unat (sh_size (out_header s)) = length (out_data s) \<and> holds_at b (file_offset s) (out_data s))"

lemma read_sections_readable:
  "holds_at b p (concat (map (\<lambda>s. section_header_bytes (out_header s)) secs)) \<Longrightarrow> \<forall>s \<in> set secs. readable b s \<Longrightarrow>
   read_sections (length secs) \<lparr>s_bytes = b, s_pos = p, s_ok = True\<rparr> =
   Inr (map as_input secs, \<lparr>s_bytes = b, s_pos = p + 40 * length secs, s_ok = True\<rparr>)"
proof (induction secs arbitrary: p)
  case (Cons s secs)
  let ?st = "\<lambda>p. \<lparr>s_bytes = b, s_pos = p, s_ok = True\<rparr>" and ?h = "out_header s"
  have here: "holds_at b p (section_header_bytes ?h)"
    and rest: "holds_at b (p + 40) (concat (map (\<lambda>s. section_header_bytes (out_header s)) secs))"
    using Cons.prems(1) by (simp_all add: holds_at_split structure_lengths)
  have hd: "in_read 40 (replicate 40 NUL) (?st p) = (section_header_bytes ?h, ?st (p + 40))"
    using in_read_holds [of "?st p" "section_header_bytes ?h" 40] here by (simp add: structure_lengths)
  have h: "section_header_at (section_header_bytes ?h) 0 = Inr ?h"
    by (rule section_header_holds) (simp add: holds_at_def)
  have data: "in_read (unat (sh_size ?h)) (replicate (unat (sh_size ?h)) NUL) (?st (file_offset s)) =
      (out_data s, ?st (file_offset s + unat (sh_size ?h)))" if "sh_size ?h \<noteq> 0" "sh_type ?h \<noteq> SHT_NOBITS"
    using in_read_holds [of "?st (file_offset s)" "out_data s" "unat (sh_size ?h)"] Cons.prems(2) that by (simp add: readable_def)
  have "read_sections (length secs) (?st (p + 40)) = Inr (map as_input secs, ?st (p + 40 + 40 * length secs))"
    by (rule Cons.IH [OF rest]) (use Cons.prems(2) in simp)
  then show ?case using hd h data Cons.prems(2)
    by (auto simp: Let_def in_seekg_def as_input_def readable_def file_offset_def [symmetric] ac_simps)
qed simp

lemma length_headers: "length (concat (map (\<lambda>s. section_header_bytes (out_header s)) secs)) = 40 * length secs"
  by (induction secs) (simp_all add: structure_lengths)

lemma layout_readable:
  assumes "\<forall>s \<in> set secs. layout_ready s" "fits_file secs" "length (pad h) = 7" "unat (shoff h) = out_shoff"
  defines "b \<equiv> file_bytes h (layout secs)"
  shows "holds_at b 0 (header_bytes h)" "holds_at b 64 (concat (map (\<lambda>s. section_header_bytes (out_header s)) (layout secs)))"
    "\<forall>s \<in> set (layout secs). readable b s"
proof -
  let ?L = "layout secs" and ?hs = "concat (map (\<lambda>s. section_header_bytes (out_header s)) (layout secs))"
  obtain d where inv: "layout_inv (data_start (length secs)) d ?L" and placed: "\<forall>s \<in> set ?L. \<not> unplaced s"
    and ident: "map identity ?L = map identity secs"
    using layout_result [OF assms(1,2)] by blast
  have len: "length ?L = length secs" using arg_cong [OF ident, of length] by simp
  have start: "64 + 40 * length secs \<le> data_start (length secs)"
    using align_64_bounds(1) [of "out_shoff + length secs * 40"] by (simp add: data_start_def out_shoff_value)
  let ?b0 = "put_file (put_file [] 0 (header_bytes h)) 64 ?hs"
  have b: "b = foldl put_section_data ?b0 ?L" by (simp add: b_def file_bytes_def Let_def assms(4) out_shoff_value)
  have later: "\<forall>s \<in> set ?L. out_data s \<noteq> [] \<longrightarrow> 64 + length ?hs \<le> file_offset s"
    using inv placed start by (auto simp: layout_inv_def placed_well_def in_file_def length_headers len)
  have "holds_at ?b0 0 (header_bytes h)"
    by (rule holds_at_put_other [OF holds_at_put_same]) (simp add: structure_lengths assms(3))
  then show "holds_at b 0 (header_bytes h)" unfolding b
    by (rule put_sections_other) (use later in \<open>auto simp: structure_lengths assms(3)\<close>)
  show "holds_at b 64 ?hs" unfolding b
    by (rule put_sections_other [OF holds_at_put_same]) (use later in auto)
  show "\<forall>s \<in> set ?L. readable b s"
  proof
    fix s assume s: "s \<in> set ?L"
    have "identity s \<in> set (map identity secs)" using s ident [symmetric] by simp
    then obtain t where t: "t \<in> set secs" "identity s = identity t" by auto
    have nobits: "sh_type (out_header s) = SHT_NOBITS \<Longrightarrow> out_data s = []"
      using assms(1) t by (auto simp: identity_def layout_ready_def)
    have "length (out_data t) + 63 \<le> sum_list (map (\<lambda>s. length (out_data s) + 63) secs)"
      using t(1) by (simp add: member_le_sum_list)
    then have small: "length (out_data s) < 2 ^ 32" using assms(2) t by (simp add: fits_file_def identity_def)
    have sz: "sh_size (out_header s) = of_nat (length (out_data s))" if "sh_type (out_header s) \<noteq> SHT_NOBITS"
      using inv placed s that by (auto simp: layout_inv_def placed_well_def)
    have "holds_at b (file_offset s) (out_data s)" if "out_data s \<noteq> []" unfolding b
      by (rule put_sections_same) (use inv placed s that in \<open>auto simp: layout_inv_def\<close>)
    moreover have "sh_size (out_header s) \<noteq> 0 \<longleftrightarrow> out_data s \<noteq> []" if "sh_type (out_header s) \<noteq> SHT_NOBITS"
      using sz [OF that] unat_of_nat32 [OF small] by (auto simp: unat_eq_0 [symmetric])
    ultimately show "readable b s" using nobits sz unat_of_nat32 [OF small]
      by (cases "sh_type (out_header s) = SHT_NOBITS") (auto simp: readable_def)
  qed
qed

section \<open>The sections that the writer makes\<close>

lemma layout_ready_new [simp]: "sh_offset h = - 1 \<Longrightarrow> layout_ready (new_section name h d) \<longleftrightarrow> (sh_type h = SHT_NOBITS \<longrightarrow> d = [])"
  by (simp add: layout_ready_def new_section_def unplaced_def)

definition has_type :: "u32 \<Rightarrow> nat \<Rightarrow> out_section list \<Rightarrow> bool" where
  "has_type ty n secs \<longleftrightarrow> n < length secs \<and> unplaced (secs ! n) \<and> sh_type (out_header (secs ! n)) = ty"

definition all_ready :: "out_section list \<Rightarrow> bool" where
  "all_ready secs \<longleftrightarrow> (\<forall>s \<in> set secs. layout_ready s)"

definition sections_ok :: "out_section list \<Rightarrow> bool" where
  "sections_ok secs \<longleftrightarrow> all_ready secs \<and> (\<forall>s \<in> set secs. \<forall>i. relocationSection s = Some i \<longrightarrow> has_type SHT_RELA i secs)"

lemma all_ready_update: "all_ready secs \<Longrightarrow> layout_ready s \<Longrightarrow> all_ready (secs[i := s])"
  using set_update_subset_insert [of secs i s] by (auto simp: all_ready_def)

lemma has_type_append: "has_type ty n secs \<Longrightarrow> has_type ty n (secs @ later)"
  by (simp add: has_type_def nth_append)

lemma has_type_update:
  "has_type ty n secs \<Longrightarrow> (i = n \<Longrightarrow> unplaced s \<and> sh_type (out_header s) = ty) \<Longrightarrow> has_type ty n (secs[i := s])"
  by (cases "i = n") (auto simp: has_type_def)

lemma sections_ok_append:
  "sections_ok secs \<Longrightarrow> layout_ready s \<Longrightarrow> relocationSection s = None \<Longrightarrow> sections_ok (secs @ [s])"
  by (auto simp: sections_ok_def all_ready_def has_type_append)

lemma addSection_sections: "outSections (addSection s w) = outSections w @ [s\<lparr>sectionSymbol := Some (next_sym (elf w))\<rparr>]"
  by (simp add: addSection_def push_section_def Let_def)

lemma layout_ready_symbol [simp]: "layout_ready (s\<lparr>sectionSymbol := k\<rparr>) = layout_ready s"
  by (simp add: layout_ready_def unplaced_def)

lemma addSection_ok:
  "sections_ok (outSections w) \<Longrightarrow> layout_ready s \<Longrightarrow> relocationSection s = None \<Longrightarrow> sections_ok (outSections (addSection s w))"
  by (simp add: addSection_sections sections_ok_append)

lemma new_section_sel [simp]:
  "relocationSection (new_section n h d) = None" "out_header (new_section n h d) = h" "out_data (new_section n h d) = d"
  "out_name (new_section n h d) = n"
  by (simp_all add: new_section_def)

lemmas section_types = SHT_PROGBITS_def SHT_SYMTAB_def SHT_STRTAB_def SHT_RELA_def SHT_NOBITS_def SHT_RPL_IMPORTS_def
  SHT_RPL_CRCS_def SHT_RPL_FILEINFO_def

lemma start_writer_ok: "sections_ok (outSections (start_writer f))"
  by (simp add: start_writer_def sections_ok_def all_ready_def layout_ready_def blank_header_def section_types in_first_pass_def)

lemma create_data_sections_ok:
  "sections_ok (outSections w) \<Longrightarrow> \<forall>s \<in> set ds. ds_type s = SHT_PROGBITS \<or> ds_type s = SHT_NOBITS \<and> ds_data s = [] \<Longrightarrow>
   sections_ok (outSections (foldl create_data_section w ds))"
proof (induction ds arbitrary: w)
  case (Cons s ds)
  have "sections_ok (outSections (create_data_section w s))"
    unfolding create_data_section_def using Cons.prems by (intro addSection_ok) (auto simp: section_types)
  then show ?case using Cons by simp
qed simp

lemma update_section_sel [simp]:
  "outSections (update_section i g w) = (outSections w)[i := g (outSections w ! i)]" "elf (update_section i g w) = elf w"
  by (simp_all add: update_section_def)

lemma index_where_Some:
  "index_where P xs = Some i \<longleftrightarrow> i < length xs \<and> P (xs ! i) \<and> (\<forall>j < i. \<not> P (xs ! j))"
  by (induction xs arbitrary: i) (auto simp: less_Suc_eq_0_disj nth_Cons split: nat.splits if_splits)

lemma create_relocation_section_ok:
  assumes "create_relocation_section r w = Inr (Some w')" "sections_ok (outSections w)"
  shows "sections_ok (outSections w')"
proof -
  obtain t where t: "index_where (covers (rel_target r)) (outSections w) = Some t"
    using assms(1) by (auto simp: create_relocation_section_def split: option.splits)
  show ?thesis
  proof (cases "relocationSection (outSections w ! t)")
    case None
    let ?h = "\<lparr>sh_name = - 1, sh_type = SHT_RELA, sh_flags = 0, sh_addr = 0, sh_offset = - 1, sh_size = - 1, sh_link = - 1,
       sh_info = getSectionIndex (outSections w) (sh_addr (out_header (outSections w ! t))), sh_addralign = 4, sh_entsize = 12\<rparr>"
    let ?s = "new_section (''.rela'' @ out_name (outSections w ! t)) ?h []" and ?i = "length (outSections w)"
    let ?secs = "outSections (addSection ?s w)"
    have w': "outSections w' = ?secs[t := (?secs ! t)\<lparr>relocationSection := Some ?i\<rparr>]"
      using assms(1) None by (auto simp: create_relocation_section_def t Let_def)
    have ok: "sections_ok ?secs" using assms(2) by (intro addSection_ok) (simp_all add: section_types)
    have t_lt: "t < ?i" using t by (simp add: index_where_Some)
    then have "?secs ! t \<in> set ?secs" by (intro nth_mem) (simp add: addSection_sections)
    then have "layout_ready (?secs ! t)" using ok by (simp add: sections_ok_def all_ready_def)
    then have ready: "all_ready (outSections w')" unfolding w'
      using ok by (intro all_ready_update) (simp_all add: sections_ok_def layout_ready_def unplaced_def)
    have new: "has_type SHT_RELA ?i ?secs" by (simp add: has_type_def addSection_sections unplaced_def)
    have keep: "has_type SHT_RELA j (outSections w')" if "has_type SHT_RELA j ?secs" for j
      unfolding w' using that by (rule has_type_update) (use that in \<open>auto simp: has_type_def unplaced_def\<close>)
    have "has_type SHT_RELA j (outSections w')" if "s \<in> set (outSections w')" "relocationSection s = Some j" for s j
    proof -
      have "s = (?secs ! t)\<lparr>relocationSection := Some ?i\<rparr> \<or> s \<in> set ?secs"
        using that(1) unfolding w' by (auto dest: subsetD [OF set_update_subset_insert])
      then show ?thesis using that(2) ok new by (auto simp: sections_ok_def intro: keep)
    qed
    with ready show ?thesis by (auto simp: sections_ok_def)
  qed (use assms in \<open>auto simp: create_relocation_section_def t Let_def\<close>)
qed

lemma create_import_section_ok:
  "create_import_section crc lib (w, a) = Inr (Some (w', a')) \<Longrightarrow> sections_ok (outSections w) \<Longrightarrow> sections_ok (outSections w')"
  by (auto simp: create_import_section_def fault_simps Let_def section_types intro!: addSection_ok)

lemma relocation_symbol_index: "convert_relocation r w = Inr (Some w') \<Longrightarrow>
   \<exists>t i rela. t < length (outSections w) \<and> relocationSection (outSections w ! t) = Some i \<and>
     w' = update_section i (\<lambda>s. s\<lparr>out_data := out_data s @ rela_bytes rela\<rparr>) w"
  by (fastforce simp: convert_relocation_def fault_simps Let_def index_where_Some split: option.splits)

lemma convert_relocation_ok:
  assumes "convert_relocation r w = Inr (Some w')" "sections_ok (outSections w)"
  shows "sections_ok (outSections w')"
proof -
  obtain t i rela where t: "t < length (outSections w)" "relocationSection (outSections w ! t) = Some i"
    and w': "outSections w' = (outSections w)[i := (outSections w ! i)\<lparr>out_data := out_data (outSections w ! i) @ rela_bytes rela\<rparr>]"
    using relocation_symbol_index [OF assms(1)] by auto
  have i: "has_type SHT_RELA i (outSections w)" using assms(2) t by (auto simp: sections_ok_def)
  let ?x = "(outSections w ! i)\<lparr>out_data := out_data (outSections w ! i) @ rela_bytes rela\<rparr>"
  have ready: "all_ready (outSections w')" unfolding w' using assms(2) i
    by (intro all_ready_update) (auto simp: sections_ok_def has_type_def layout_ready_def unplaced_def section_types)
  have keep: "has_type SHT_RELA j (outSections w')" if "has_type SHT_RELA j (outSections w)" for j
    unfolding w' using that by (rule has_type_update) (use i in \<open>auto simp: has_type_def unplaced_def\<close>)
  have "has_type SHT_RELA j (outSections w')" if "s \<in> set (outSections w')" "relocationSection s = Some j" for s j
  proof -
    have "s = ?x \<or> s \<in> set (outSections w)" using that(1) unfolding w' by (auto dest: subsetD [OF set_update_subset_insert])
    moreover have "relocationSection ?x = relocationSection (outSections w ! i)" "outSections w ! i \<in> set (outSections w)"
      using i by (simp_all add: has_type_def)
    ultimately have "\<exists>u \<in> set (outSections w). relocationSection u = Some j" using that(2) by fastforce
    then show ?thesis using assms(2) by (auto simp: sections_ok_def intro: keep)
  qed
  with ready show ?thesis by (auto simp: sections_ok_def)
qed

lemma program_sections_ok:
  assumes "program_sections crc f = Inr (Some (w, a, b))" "data_ok f"
  shows "sections_ok (outSections w)"
proof -
  let ?w0 = "foldl create_data_section (start_writer f) (dataSections f)"
  obtain w1 w2 x where w1: "foldR create_relocation_section (relocations f) ?w0 = Inr (Some w1)"
    and w2: "foldR (create_import_section crc) (rplImports f) (w1, x) = Inr (Some w2)"
    and w: "foldR convert_relocation (relocations f) ((fst w2)\<lparr>elf := prune (elf (fst w2))\<rparr>) = Inr (Some w)"
    using assms(1) by (auto simp: program_sections_def fault_simps Let_def)
  have "sections_ok (outSections ?w0)"
    by (rule create_data_sections_ok [OF start_writer_ok]) (use assms(2) in \<open>simp add: data_ok_def\<close>)
  then have "sections_ok (outSections w1)"
    by (rule foldR_invariant [OF w1, where P = "\<lambda>w. sections_ok (outSections w)"]) (rule create_relocation_section_ok)
  then have "sections_ok (outSections (fst w2))"
    by (intro foldR_invariant [OF w2, where P = "\<lambda>p. sections_ok (outSections (fst p))"])
      (auto simp: split_paired_all intro: create_import_section_ok)
  then show ?thesis
    by (intro foldR_invariant [OF w, where P = "\<lambda>w. sections_ok (outSections w)"]) (auto intro: convert_relocation_ok)
qed

lemma push_section_sel [simp]: "outSections (push_section s w) = outSections w @ [s]" "elf (push_section s w) = elf w"
  by (simp_all add: push_section_def)

lemma blank_ready [simp]: "layout_ready (new_section name blank_header [])"
  by (simp add: layout_ready_def in_first_pass_def blank_header_def section_types)

lemma finish_sections_ready:
  "finish_sections n ss f = Inr (ss', f') \<Longrightarrow> all_ready ss \<Longrightarrow> all_ready ss' \<and> length ss' = length ss"
proof (induction n ss f arbitrary: ss' f' rule: finish_sections.induct)
  case (2 n s ss f)
  then obtain s1 f1 ss1 where s1: "finish_section n s f = Inr (s1, f1)" and ss1: "finish_sections n ss f1 = Inr (ss1, f')"
    and ss': "ss' = s1 # ss1" by (auto simp: fault_simps)
  have "layout_ready s1" using s1 2(3)
    by (auto simp: finish_section_def fault_simps Let_def layout_ready_def unplaced_def all_ready_def section_types
        in_first_pass_def split: option.splits if_splits)
  moreover have "all_ready ss1 \<and> length ss1 = length ss" using "2.IH" [OF s1 refl ss1] 2(3) by (simp add: all_ready_def)
  ultimately show ?case by (simp add: ss' all_ready_def)
qed simp

lemma sign_import_ready:
  "sign_import crc bs s = Inr s' \<Longrightarrow> layout_ready s \<Longrightarrow> layout_ready s' \<and> out_header s' = out_header s"
  by (auto simp: sign_import_def fault_simps put32_def write_at_def layout_ready_def unplaced_def get32_def get_be_def slice_at_def
      split: if_splits)

definition tables_ready :: "nat \<Rightarrow> out_section list \<Rightarrow> bool" where
  "tables_ready n secs \<longleftrightarrow> all_ready secs \<and> has_type SHT_SYMTAB n secs \<and> has_type SHT_STRTAB (n + 1) secs \<and> n + 2 < length secs"

lemma has_type_same: "has_type ty j secs \<Longrightarrow> out_header s = out_header (secs ! i) \<Longrightarrow> has_type ty j (secs[i := s])"
  by (cases "i = j") (auto simp: has_type_def unplaced_def)

lemma tables_ready_update:
  "tables_ready n secs \<Longrightarrow> layout_ready s \<Longrightarrow> out_header s = out_header (secs ! i) \<Longrightarrow> tables_ready n (secs[i := s])"
  by (auto simp: tables_ready_def intro: all_ready_update has_type_same)

lemma create_symbol_ready:
  assumes "create_symbol crc tab n k w = Inr (Some w')" "tables_ready n (outSections w)"
  shows "tables_ready n (outSections w')"
proof -
  obtain s shndx entry c where s: "sym_store (elf w) k = Some s" "symbol_entry (outSections w) s = Some (shndx, entry)"
    and c: "read_at (outSections w) (uint shndx) = Inr c" using assms(1)
    by (auto simp: create_symbol_def fault_simps split: option.splits)
  have "int (unat shndx) < int (length (outSections w))" and c_nth: "c = outSections w ! unat shndx"
    using c by (auto simp: read_at_def split: if_splits)
  then have "unat shndx < length (outSections w)" by (simp only: of_nat_less_iff)
  then have c_in: "c \<in> set (outSections w)" "c = outSections w ! unat shndx" using c_nth by simp_all
  have app: "tables_ready n ((outSections v)[n := (outSections v ! n)\<lparr>out_data := d\<rparr>])" if "tables_ready n (outSections v)" for v d
    using that
    by (intro tables_ready_update) (auto simp: tables_ready_def has_type_def layout_ready_def unplaced_def section_types all_ready_def)
  show ?thesis
  proof (cases "sh_type (out_header c) = SHT_RPL_IMPORTS \<and> esym_type s \<noteq> STT_SECTION")
    case True
    obtain bs c' where c': "sign_import crc bs c = Inr c'"
      and w': "outSections w' = outSections (update_section n (\<lambda>t. t\<lparr>out_data := out_data t @ symbol_bytes entry\<rparr>)
        (update_section (unat shndx) (\<lambda>_. c') w))"
      using assms(1) s c True by (auto simp: create_symbol_def fault_simps)
    have "layout_ready c" using assms(2) c_in by (auto simp: tables_ready_def all_ready_def)
    then have "tables_ready n ((outSections w)[unat shndx := c'])"
      using assms(2) sign_import_ready [OF c'] c_in True
      by (intro tables_ready_update) (auto simp: tables_ready_def has_type_def unplaced_def section_types)
    then show ?thesis unfolding w' using app [of "update_section (unat shndx) (\<lambda>_. c') w"] by simp
  next
    case False
    have "outSections w' = (outSections w)[n := (outSections w ! n)\<lparr>out_data := out_data (outSections w ! n) @ symbol_bytes entry\<rparr>]"
      using assms(1) s c False by (auto simp: create_symbol_def fault_simps)
    then show ?thesis using app [OF assms(2)] by simp
  qed
qed

lemma finish_imports_ready:
  "finish_imports crc ss = Inr ss' \<Longrightarrow> all_ready ss \<Longrightarrow> all_ready ss' \<and> map out_header ss' = map out_header ss"
proof (induction ss arbitrary: ss')
  case (Cons s ss)
  then obtain s1 ss1 where s1: "s1 = s \<or> (\<exists>bs. sign_import crc bs s = Inr s1)" and ss1: "finish_imports crc ss = Inr ss1"
    and ss': "ss' = s1 # ss1"
    by (auto simp: fault_simps split: if_splits)
  moreover have "layout_ready s1 \<and> out_header s1 = out_header s"
    using s1 Cons.prems(2) sign_import_ready by (fastforce simp: all_ready_def)
  ultimately show ?case using Cons.IH [OF ss1] Cons.prems(2) by (simp add: all_ready_def)
qed simp

lemma name_sections_ready:
  "name_sections ss tab = (ss', tab') \<Longrightarrow> all_ready ss \<Longrightarrow>
   all_ready ss' \<and> length ss' = length ss \<and> (\<forall>ty i. has_type ty i ss \<longrightarrow> has_type ty i ss')"
proof (induction ss tab arbitrary: ss' tab' rule: name_sections.induct)
  case (2 s ss tab)
  obtain pos tab1 where p: "add_name (out_name s) tab = (pos, tab1)" by fastforce
  obtain ss1 where ss1: "name_sections ss tab1 = (ss1, tab')" and ss': "ss' = s\<lparr>out_header := (out_header s)\<lparr>sh_name := pos\<rparr>\<rparr> # ss1"
    using 2(2) p by (auto split: prod.splits)
  have "all_ready ss1 \<and> length ss1 = length ss \<and> (\<forall>ty i. has_type ty i ss \<longrightarrow> has_type ty i ss1)"
    by (rule 2(1) [OF p [symmetric] refl ss1]) (use 2(3) in \<open>simp add: all_ready_def\<close>)
  then show ?case using 2(3) unfolding ss'
    by (auto simp: all_ready_def layout_ready_def unplaced_def has_type_def in_first_pass_def nth_Cons split: nat.splits)
qed simp

definition put_place :: "nat \<Rightarrow> u32 \<Rightarrow> out_section list \<Rightarrow> out_section list" where
  "put_place i a secs = secs[i := place a (secs ! i)]"

lemma put_place_type: "has_type ty j secs \<Longrightarrow> has_type ty j (put_place i a secs)"
  by (cases "i = j") (auto simp: has_type_def put_place_def place_def unplaced_def)

lemma put_place_ready: "has_type ty i secs \<Longrightarrow> ty \<noteq> SHT_NOBITS \<Longrightarrow> all_ready secs \<Longrightarrow> all_ready (put_place i a secs)"
  unfolding put_place_def
  by (rule all_ready_update) (auto simp: has_type_def place_def unplaced_def layout_ready_def)

text \<open>The stages of \<open>finish_tables\<close>, with the sections between them.\<close>

definition with_headers :: "nat \<Rightarrow> char list \<Rightarrow> out_section list \<Rightarrow> out_section list" where
  "with_headers n tab secs =
     (let secs = secs[n + 1 := (secs ! (n + 1))\<lparr>out_header := strtab_header, out_data := tab\<rparr>] in
      secs[n := (secs ! n)\<lparr>out_header := symtab_header (n + 1)\<rparr>])"

lemma finish_tables_stages:
  assumes "finish_tables crc a b w = Inr (Some (secs, k))" "n = length (outSections w)"
  obtains s1 f1 tab f2 w4 s5 s7 names a1 a2 a3 where
    "finish_sections n (outSections (add_tables w)) (elf (add_tables w)) = Inr (s1, f1)"
    "name_symbols (symbols f1) [NUL] f1 = Inr (tab, f2)"
    "foldR (create_symbol crc tab n) (symbols f2)
      \<lparr>outSections = with_headers n tab s1, elf = f2, symbolItr = symbolItr (add_tables w)\<rparr> = Inr (Some w4)"
    "finish_imports crc (outSections w4) = Inr s5"
    "name_sections (s5[n + 2 := (s5 ! (n + 2))\<lparr>out_header := strtab_header\<rparr>]) [NUL] = (s7, names)"
    "secs = add_crcs crc (put_place (n + 2) a3 (put_place (n + 1) a2 (put_place n a1
      (s7[n + 2 := (s7 ! (n + 2))\<lparr>out_data := names\<rparr>]))))"
proof -
  obtain s1 f1 tab f2 where s1: "finish_sections n (outSections (add_tables w)) (elf (add_tables w)) = Inr (s1, f1)"
    and tab: "name_symbols (symbols f1) [NUL] f1 = Inr (tab, f2)"
    using assms by (auto simp: finish_tables_def fault_simps Let_def)
  obtain w4 s5 where w4: "foldR (create_symbol crc tab n) (symbols f2)
      \<lparr>outSections = with_headers n tab s1, elf = f2, symbolItr = symbolItr (add_tables w)\<rparr> = Inr (Some w4)"
    and s5: "finish_imports crc (outSections w4) = Inr s5"
    using assms s1 tab by (auto simp: finish_tables_def fault_simps Let_def update_section_def with_headers_def)
  obtain s7 names where s7: "name_sections (s5[n + 2 := (s5 ! (n + 2))\<lparr>out_header := strtab_header\<rparr>]) [NUL] = (s7, names)"
    by fastforce
  have "\<exists>a1 a2 a3. secs = add_crcs crc (put_place (n + 2) a3 (put_place (n + 1) a2 (put_place n a1
      (s7[n + 2 := (s7 ! (n + 2))\<lparr>out_data := names\<rparr>]))))"
    using assms s1 tab w4 s5 s7
    by (auto simp: finish_tables_def fault_simps Let_def update_section_def put_place_def with_headers_def)
  with s1 tab w4 s5 s7 that show thesis by blast
qed

lemma finish_tables_ready:
  assumes "finish_tables crc a b w = Inr (Some (secs, k))" "sections_ok (outSections w)"
  shows "\<forall>s \<in> set secs. layout_ready s"
proof -
  define n where "n = length (outSections w)"
  obtain s1 f1 tab f2 w4 s5 s7 names a1 a2 a3 where s1: "finish_sections n (outSections (add_tables w)) (elf (add_tables w)) = Inr (s1, f1)"
    and w4: "foldR (create_symbol crc tab n) (symbols f2)
      \<lparr>outSections = with_headers n tab s1, elf = f2, symbolItr = symbolItr (add_tables w)\<rparr> = Inr (Some w4)"
    and s5: "finish_imports crc (outSections w4) = Inr s5"
    and s7: "name_sections (s5[n + 2 := (s5 ! (n + 2))\<lparr>out_header := strtab_header\<rparr>]) [NUL] = (s7, names)"
    and secs: "secs = add_crcs crc (put_place (n + 2) a3 (put_place (n + 1) a2 (put_place n a1
      (s7[n + 2 := (s7 ! (n + 2))\<lparr>out_data := names\<rparr>]))))"
    by (rule finish_tables_stages [OF assms(1) n_def])
  let ?s6 = "s5[n + 2 := (s5 ! (n + 2))\<lparr>out_header := strtab_header\<rparr>]"
  have "all_ready (outSections (add_tables w))" using assms(2) by (auto simp: sections_ok_def all_ready_def add_tables_def)
  then have r1: "all_ready s1" "length s1 = n + 3" using finish_sections_ready [OF s1] by (simp_all add: add_tables_def n_def)
  have "all_ready (s1[n + 1 := (s1 ! (n + 1))\<lparr>out_header := strtab_header, out_data := tab\<rparr>])"
    using r1(1) by (rule all_ready_update) (simp add: layout_ready_def unplaced_def strtab_header_def section_types)
  then have "tables_ready n (with_headers n tab s1)" using r1(2)
    by (auto simp: tables_ready_def has_type_def unplaced_def with_headers_def Let_def symtab_header_def strtab_header_def
        section_types layout_ready_def intro!: all_ready_update)
  then have r4: "tables_ready n (outSections w4)"
    by (intro foldR_invariant [OF w4, where P = "\<lambda>w. tables_ready n (outSections w)"]) (simp, rule create_symbol_ready)
  then have "all_ready s5" and hd: "map out_header s5 = map out_header (outSections w4)"
    using finish_imports_ready [OF s5] by (simp_all add: tables_ready_def)
  have len: "length s5 = length (outSections w4)" using arg_cong [OF hd, of length] by simp
  have same: "out_header (s5 ! i) = out_header (outSections w4 ! i)" if "i < length s5" for i
    using that arg_cong [OF hd, of "\<lambda>hs. hs ! i"] len by simp
  have t5: "has_type SHT_SYMTAB n s5" "has_type SHT_STRTAB (n + 1) s5" "n + 2 < length s5"
    using r4 len same [of n] same [of "n + 1"] by (auto simp: tables_ready_def has_type_def unplaced_def)
  have "all_ready ?s6" using \<open>all_ready s5\<close> by (rule all_ready_update) (simp add: layout_ready_def unplaced_def strtab_header_def section_types)
  moreover have "has_type SHT_STRTAB (n + 2) ?s6" "has_type SHT_SYMTAB n ?s6" "has_type SHT_STRTAB (n + 1) ?s6"
    using t5 by (auto simp: has_type_def unplaced_def strtab_header_def)
  ultimately have r7: "all_ready s7" "has_type SHT_STRTAB (n + 2) s7" "has_type SHT_SYMTAB n s7" "has_type SHT_STRTAB (n + 1) s7"
    using name_sections_ready [OF s7] by auto
  let ?s8 = "s7[n + 2 := (s7 ! (n + 2))\<lparr>out_data := names\<rparr>]"
  have "all_ready ?s8" using r7
    by (intro all_ready_update) (auto simp: layout_ready_def has_type_def unplaced_def section_types)
  moreover have "has_type SHT_STRTAB (n + 2) ?s8" "has_type SHT_SYMTAB n ?s8" "has_type SHT_STRTAB (n + 1) ?s8"
    using r7 by (auto simp: has_type_def unplaced_def)
  ultimately have "all_ready (put_place (n + 2) a3 (put_place (n + 1) a2 (put_place n a1 ?s8)))"
    using put_place_ready [of SHT_SYMTAB] put_place_ready [of SHT_STRTAB] put_place_type by (simp add: section_types)
  then show ?thesis unfolding secs
    by (auto simp: add_crcs_def Let_def all_ready_def layout_ready_def unplaced_def crc_header_def info_header_def section_types new_section_def)
qed

lemma out_header_ok:
  "length (pad (out_elf_header e n k)) = 7" "unat (shoff (out_elf_header e n k)) = out_shoff" "check_header (out_elf_header e n k)"
  by (simp_all add: out_elf_header_def out_shoff_value check_header_def ELFCLASS32_def)

text \<open>C28: 
  C0: what the writer puts into the RPX file is what a reader of the file finds there. If the program has
  been turned into sections and tables and they fit a file of 4 GB, then the file is written, its first 52
  bytes are the header with the entry point, which passes the checks of the converter's own reader, and that
  reader, from the header's table on, delivers exactly the sections with their data: the layout has not
  put two of them at the same place, has not covered a header, and has changed no section but for its size
  and offset.
\<close>

theorem written_sections_are_read:
  assumes "data_ok f" "program_sections crc f = Inr (Some (w, symSize, strSize))"
    and "finish_tables crc symSize strSize w = Inr (Some (secs, k))" "fits_file secs"
  shows "\<exists>bytes s'. write_elf crc True f = Inr (Some bytes) \<and>
    header_at bytes 0 = Inr (out_elf_header (entryPoint f) (length secs) k) \<and>
    check_header (out_elf_header (entryPoint f) (length secs) k) \<and>
    read_sections (length secs) \<lparr>s_bytes = bytes, s_pos = unat (shoff (out_elf_header (entryPoint f) (length secs) k)), s_ok = True\<rparr> =
      Inr (map as_input (layout secs), s') \<and>
    map identity (layout secs) = map identity secs"
proof -
  have ready: "\<forall>s \<in> set secs. layout_ready s"
    by (rule finish_tables_ready [OF assms(3) program_sections_ok [OF assms(2,1)]])
  obtain d where ident: "map identity (layout secs) = map identity secs" using layout_result [OF ready assms(4)] by blast
  have len: "length (layout secs) = length secs" using arg_cong [OF ident, of length] by simp
  let ?h = "out_elf_header (entryPoint f) (length secs) k"
  let ?b = "file_bytes ?h (layout secs)"
  note r = layout_readable [OF ready assms(4) out_header_ok(1,2), of "entryPoint f" "length secs" k]
  have "write_elf crc True f = Inr (Some ?b)" by (simp add: write_elf_def bindR_def assms(2,3) Let_def len)
  moreover have "header_at ?b 0 = Inr ?h" by (rule header_holds [OF r(1) out_header_ok(1)])
  moreover note read_sections_readable [OF r(2,3), unfolded len] ident
  ultimately show ?thesis by (auto simp: out_header_ok out_shoff_value)
qed

lemma file_info_length: "length (file_info_bytes i) = 96"
  by (simp add: file_info_bytes_def)

lemma zero_less_max: "(0 :: u32) < - 1"
  by (simp add: word_less_nat_alt unsigned_minus_1_eq_mask mask_eq_exp_minus_1)

definition tiny_program :: elf_file where
  "tiny_program =
     (let f = foldl (\<lambda>f s. snd (add_symbol s f)) (empty_file CodeAddress) default_symbols in
      f\<lparr>dataSections := [\<lparr>ds_name = ''.text'', ds_address = CodeAddress, ds_type = SHT_PROGBITS, ds_flags = SHF_ALLOC OR SHF_EXECINSTR,
        ds_data = replicate 8 NUL, ds_size = 0\<rparr>]\<rparr>)"

lemma tiny_program_runs:
  "\<exists>w a b secs k. program_sections (\<lambda>_ _. 0) tiny_program = Inr (Some (w, a, b)) \<and>
      finish_tables (\<lambda>_ _. 0) a b w = Inr (Some (secs, k)) \<and> fits_file secs \<and>
    length (out_data (secs ! (length (outSections w) + 1))) < 2 ^ 32"
  by (simp add: program_sections_def bindR_def tiny_program_def default_symbols_def add_symbol_def empty_file_def
        create_data_section_def addSection_def push_section_def start_writer_def Let_def get_sym_def prune_def matches_def
        unneeded_def section_types STT_NOTYPE_def STT_SECTION_def STT_OBJECT_def STT_FUNC_def blank_header_def
        finish_tables_def add_tables_def finish_section_def put_sym_def add_name_def update_section_def new_section_def CodeAddress_def DataAddress_def create_symbol_def symbol_entry_def getSectionIndex_def getSectionIndex_name_def covers_def index_word_def strtab_header_def symtab_header_def read_at_def place_def add_crcs_def fits_file_def info_header_def crc_header_def structure_lengths file_info_length zero_less_max)

lemma written_sections_are_read_witness:
  "\<exists>bytes secs k s'. write_elf (\<lambda>_ _. 0) True tiny_program = Inr (Some bytes) \<and>
     header_at bytes 0 = Inr (out_elf_header CodeAddress (length secs) k) \<and>
     read_sections (length secs) \<lparr>s_bytes = bytes, s_pos = 64, s_ok = True\<rparr> = Inr (map as_input (layout secs), s')"
proof -
  let ?crc = "\<lambda>_ _. 0"
  obtain w a b secs k where "program_sections ?crc tiny_program = Inr (Some (w, a, b))"
    "finish_tables ?crc a b w = Inr (Some (secs, k))" "fits_file secs"
    using tiny_program_runs by blast
  moreover have "data_ok tiny_program" "entryPoint tiny_program = CodeAddress"
    by (simp_all add: tiny_program_def Let_def data_ok_def default_symbols_def add_symbol_def empty_file_def)
  ultimately show ?thesis using written_sections_are_read [of tiny_program ?crc w a b secs k]
    by (auto simp: out_header_ok out_shoff_value)
qed
end
