(* ===== verification/ElfSymbols.thy ===== *)
theory ElfSymbols
  imports ElfLayout
begin

text \<open>
  Imports, names, symbols and relocations in the RPX file: what the writer stores for them, and when it
  refuses a program or fails on it.
\<close>

section \<open>Import sections\<close>

lemma import_size_bounds:
  "8 + length name \<le> import_size name n" "import_size name n = 8 + length name \<longleftrightarrow> 8 dvd length name \<and> 8 * n \<le> length name"
proof -
  let ?m = "(length name + 7) div 8 * 8"
  have "align_up (8 + length name) 8 = (8 + length name + 7) div 8 * 8" using align_up_pow [of "8 + length name" 3] by simp
  moreover have "(8 + length name + 7) div 8 * 8 = 8 + ?m" by presburger
  ultimately have a: "import_size name n = 8 + max ?m (8 * n)" by (simp only: import_size_def nat_add_max_right)
  have m: "length name \<le> ?m" "?m = length name \<longleftrightarrow> 8 dvd length name" by presburger+
  show "8 + length name \<le> import_size name n" using m(1) by (simp add: a)
  show "import_size name n = 8 + length name \<longleftrightarrow> 8 dvd length name \<and> 8 * n \<le> length name"
    using m by (auto simp: a max_def)
qed

lemma put_front: "put32 (xs @ replicate 4 c @ ys) (length xs) w = Inr (xs @ be32 w @ ys)"
  by (simp add: put32_def write_at_def)

text \<open>
  C0: the data of an import section, for every library name and number of imports. The section holds the
  number of imports and the initial checksum, most significant byte first, then the name, then zeros up
  to the size computed for it. The exception: when the length of the name is a multiple of 8 and the imports
  need no more room than the name, the size leaves no place for the name's end, and the zero byte is stored
  behind the block.
\<close>

theorem import_data_outcomes:
  assumes "import_size name n < 2 ^ 32"
  shows "import_data crc name n =
    (if 8 dvd length name \<and> 8 * n \<le> length name then Inl Out_of_bounds
     else Inr (be32 (of_nat n) @ be32 (crc 0 None) @ name @ replicate (import_size name n - 8 - length name) NUL))"
proof -
  define m where "m = import_size name n - 8 - length name"
  have sz: "import_size name n = 8 + length name + m" using import_size_bounds(1) [of name n] by (simp add: m_def)
  have m: "m = 0 \<longleftrightarrow> 8 dvd length name \<and> 8 * n \<le> length name" using import_size_bounds(2) [of name n] by (simp add: sz)
  let ?a = "be32 (of_nat n)" and ?c = "be32 (crc 0 None)"
  have "unat (of_nat (import_size name n) :: u32) = 8 + length name + m" by (rule trans [OF unat_of_nat32 [OF assms] sz])
  then have "import_data crc name n =
      bindF (put32 (replicate (8 + length name + m) NUL) 0 (of_nat n)) (\<lambda>d. bindF (put32 d 4 (crc 0 None)) (\<lambda>d.
      bindF (write_at d 8 name) (\<lambda>d. write_at d (8 + int (length name)) [NUL])))"
    by (simp add: import_data_def Let_def)
  moreover have "put32 (replicate (8 + length name + m) NUL) 0 (of_nat n) = Inr (?a @ replicate (4 + length name + m) NUL)"
  proof -
    have "replicate (8 + length name + m) NUL = replicate 4 NUL @ replicate (4 + length name + m) NUL"
      by (simp add: replicate_add [symmetric])
    then show ?thesis using put_front [of "[]" NUL "replicate (4 + length name + m) NUL"] by simp
  qed
  moreover have "put32 (?a @ replicate (4 + length name + m) NUL) 4 (crc 0 None) = Inr (?a @ ?c @ replicate (length name + m) NUL)"
  proof -
    have "replicate (4 + length name + m) NUL = replicate 4 NUL @ replicate (length name + m) NUL"
      by (simp add: replicate_add [symmetric])
    then show ?thesis using put_front [of ?a NUL "replicate (length name + m) NUL"] by simp
  qed
  moreover have "write_at (?a @ ?c @ replicate (length name + m) NUL) 8 name = Inr (?a @ ?c @ name @ replicate m NUL)"
    by (simp add: write_at_def)
  moreover have "write_at (?a @ ?c @ name @ replicate m NUL) (8 + int (length name)) [NUL] =
      (if m = 0 then Inl Out_of_bounds else Inr (?a @ ?c @ name @ replicate m NUL))"
    by (cases m) (simp_all add: write_at_def nat_add_distrib)
  ultimately show ?thesis using m by (simp add: m_def)
qed

lemma import_data_outcomes_witness: "import_data (\<lambda>_ _. 0) ''vpad.rpl'' 1 = Inl Out_of_bounds"
proof -
  have l: "length ''vpad.rpl'' = 8" by simp
  have "align_up 16 8 = 16" using align_up_pow [of 16 3] by simp
  then have "import_size ''vpad.rpl'' 1 < 2 ^ 32" by (simp add: import_size_def)
  from import_data_outcomes [OF this] show ?thesis by (simp only: l) simp
qed

section \<open>Names\<close>

lemma str_at_append: "str_at tab pos = Inr s \<Longrightarrow> str_at (tab @ rest) pos = Inr s"
  by (auto simp: str_at_def c_str_Inr_iff split: if_splits)

lemma add_name_prefix: "add_name name tab = (pos, tab') \<Longrightarrow> \<exists>ext. tab' = tab @ ext"
  by (auto simp: add_name_def split: if_splits)

lemma add_name_at:
  assumes "add_name name tab = (pos, tab')" "hd tab = NUL" "tab \<noteq> []" "NUL \<notin> set name" "length tab' < 2 ^ 32"
  shows "str_at tab' pos = Inr name"
proof (cases "name = []")
  case True
  obtain r where "tab = NUL # r" using assms(2,3) by (cases tab) auto
  then show ?thesis using assms(1) True by (auto simp: add_name_def str_at_def)
next
  case False
  then have t: "tab' = tab @ name @ [NUL]" "pos = of_nat (length tab)" using assms(1) by (auto simp: add_name_def)
  then have "unat pos = length tab" using assms(5) by (simp add: unat_of_nat32)
  then show ?thesis using assms(4) by (simp add: str_at_def t)
qed

lemma name_symbols_run:
  assumes "name_symbols ks tab f = Inr (tab', f')" "distinct ks" "hd tab = NUL" "tab \<noteq> []" "length tab' < 2 ^ 32"
  shows "(\<exists>ext. tab' = tab @ ext) \<and> (\<forall>k. k \<notin> set ks \<longrightarrow> sym_store f' k = sym_store f k) \<and>
    (\<forall>k \<in> set ks. \<exists>s pos. sym_store f k = Some s \<and> sym_store f' k = Some (s\<lparr>outNamePos := pos\<rparr>) \<and>
       (NUL \<notin> set (esym_name s) \<longrightarrow> str_at tab' pos = Inr (esym_name s)))"
  using assms
proof (induction ks tab f arbitrary: tab' f' rule: name_symbols.induct)
  case (2 k ks tab f)
  obtain s where s: "sym_store f k = Some s" using 2(2) by (auto simp: fault_simps)
  obtain pos tab1 where n: "add_name (esym_name s) tab = (pos, tab1)" by fastforce
  have run: "name_symbols ks tab1 (put_sym k (s\<lparr>outNamePos := pos\<rparr>) f) = Inr (tab', f')"
    using 2(2) s n by (simp add: get_sym_def)
  obtain ext where ext: "tab1 = tab @ ext" using add_name_prefix [OF n] by blast
  have g: "get_sym k f = Inr s" using s by (simp add: get_sym_def)
  let ?f = "put_sym k (s\<lparr>outNamePos := pos\<rparr>) f"
  have IH: "(\<exists>ext. tab' = tab1 @ ext) \<and> (\<forall>k. k \<notin> set ks \<longrightarrow> sym_store f' k = sym_store ?f k) \<and>
    (\<forall>k \<in> set ks. \<exists>s pos. sym_store ?f k = Some s \<and> sym_store f' k = Some (s\<lparr>outNamePos := pos\<rparr>) \<and>
       (NUL \<notin> set (esym_name s) \<longrightarrow> str_at tab' pos = Inr (esym_name s)))"
    by (rule "2.IH" [OF g n [symmetric] refl run]) (use 2(3-6) ext in \<open>simp_all add: hd_append\<close>)
  then obtain ext' where ext': "tab' = tab1 @ ext'" by blast
  have "str_at tab' pos = Inr (esym_name s)" if "NUL \<notin> set (esym_name s)"
    unfolding ext' by (rule str_at_append) (rule add_name_at [OF n 2(4,5) that], use 2(6) ext' in simp)
  moreover have "\<exists>s pos. sym_store f j = Some s \<and> sym_store f' j = Some (s\<lparr>outNamePos := pos\<rparr>) \<and>
      (NUL \<notin> set (esym_name s) \<longrightarrow> str_at tab' pos = Inr (esym_name s))" if "j \<in> set ks" for j
  proof -
    have "sym_store ?f j = sym_store f j" using that 2(3) by auto
    moreover have "\<exists>s pos. sym_store ?f j = Some s \<and> sym_store f' j = Some (s\<lparr>outNamePos := pos\<rparr>) \<and>
      (NUL \<notin> set (esym_name s) \<longrightarrow> str_at tab' pos = Inr (esym_name s))" using IH that by blast
    ultimately show ?thesis by simp
  qed
  moreover have "sym_store f' j = sym_store f j" if "j \<notin> set (k # ks)" for j using IH that by simp
  moreover have "sym_store f' k = Some (s\<lparr>outNamePos := pos\<rparr>)" using IH 2(3) by simp
  ultimately show ?case using s ext ext' by auto
qed simp

text \<open>
  C0: the string table. After the names of the symbols have been put into it, every symbol finds its own
  name at the position that was stored with it (names without a zero byte, a table below 4 GB), and
  nothing else of the symbols has changed; the empty name is the zero byte the table begins with.
\<close>

theorem symbol_names_are_found:
  assumes "name_symbols (symbols f) [NUL] f = Inr (tab, f')" "distinct (symbols f)" "length tab < 2 ^ 32" "k \<in> set (symbols f)"
  shows "\<exists>s pos. sym_store f k = Some s \<and> sym_store f' k = Some (s\<lparr>outNamePos := pos\<rparr>) \<and>
    (NUL \<notin> set (esym_name s) \<longrightarrow> str_at tab pos = Inr (esym_name s))"
  using name_symbols_run [OF assms(1,2) _ _ assms(3)] assms(4) by simp

lemma symbol_names_are_found_witness:
  "\<exists>tab f' s pos. name_symbols (symbols tiny_program) [NUL] tiny_program = Inr (tab, f') \<and> sym_store f' 1 = Some s \<and>
     outNamePos s = pos \<and> str_at tab pos = Inr ''$TEXT''"
proof -
  let ?f = tiny_program
  have "\<exists>tab f'. name_symbols (symbols ?f) [NUL] ?f = Inr (tab, f') \<and> length tab < 2 ^ 32"
    by (simp add: tiny_program_def default_symbols_def add_symbol_def empty_file_def Let_def get_sym_def put_sym_def add_name_def)
  then obtain tab f' where run: "name_symbols (symbols ?f) [NUL] ?f = Inr (tab, f')" "length tab < 2 ^ 32" by blast
  have "symbols ?f = [0, 1, 2, 3]" and one: "map_option esym_name (sym_store ?f 1) = Some ''$TEXT''"
    by (simp_all add: tiny_program_def default_symbols_def add_symbol_def empty_file_def Let_def)
  then show ?thesis using symbol_names_are_found [OF run(1) _ run(2), of 1] run(1) by fastforce
qed


section \<open>Relocations\<close>

lemma index_where_None: "index_where P xs = None \<longleftrightarrow> (\<forall>x \<in> set xs. \<not> P x)"
  by (induction xs) auto

lemma index_where_append: "index_where P xs = Some i \<Longrightarrow> index_where P (xs @ ys) = Some i"
  by (simp add: index_where_Some nth_append)

text \<open>A relocation whose target lies in a section that has a section for its relocations.\<close>

definition settled :: "ereloc \<Rightarrow> out_section list \<Rightarrow> bool" where
  "settled r secs \<longleftrightarrow> (\<exists>t. index_where (covers (rel_target r)) secs = Some t \<and> relocationSection (secs ! t) \<noteq> None)"

lemma settled_append: "settled r secs \<Longrightarrow> settled r (secs @ ss)"
  by (auto simp: settled_def index_where_append nth_append index_where_Some)

lemma covers_update:
  "out_header s = out_header (secs ! i) \<Longrightarrow> index_where (covers a) (secs[i := s]) = index_where (covers a) secs"
proof -
  assume h: "out_header s = out_header (secs ! i)"
  have m: "index_where (covers a) ss = index_where (\<lambda>h. a \<ge> sh_addr h \<and> a < sh_addr h + sh_size h) (map out_header ss)" for ss
    by (induction ss) (auto simp: covers_def)
  have "map out_header (secs[i := s]) = map out_header secs"
  proof (rule nth_equalityI)
    fix j assume "j < length (map out_header (secs[i := s]))"
    then show "map out_header (secs[i := s]) ! j = map out_header secs ! j" using h by (cases "i = j") simp_all
  qed simp
  then show ?thesis unfolding m by simp
qed

lemma settled_update:
  "settled r secs \<Longrightarrow> out_header s = out_header (secs ! i) \<Longrightarrow> (relocationSection (secs ! i) \<noteq> None \<Longrightarrow> relocationSection s \<noteq> None) \<Longrightarrow>
   settled r (secs[i := s])"
  unfolding settled_def covers_update
  by (elim exE conjE, rename_tac t, case_tac "i = t") (auto simp: index_where_Some covers_update)

lemma create_relocation_section_settles:
  assumes "create_relocation_section r w = Inr (Some w')"
  shows "settled r (outSections w')" "settled q (outSections w) \<Longrightarrow> settled q (outSections w')"
proof -
  obtain t where t: "index_where (covers (rel_target r)) (outSections w) = Some t"
    using assms by (auto simp: create_relocation_section_def split: option.splits)
  have t_lt: "t < length (outSections w)" using t by (simp add: index_where_Some)
  have "settled r (outSections w') \<and> (settled q (outSections w) \<longrightarrow> settled q (outSections w'))"
  proof (cases "relocationSection (outSections w ! t)")
    case None
    then obtain s i where w': "outSections w' = (outSections w @ [s])[t := ((outSections w @ [s]) ! t)\<lparr>relocationSection := Some i\<rparr>]"
      using assms t by (fastforce simp: create_relocation_section_def Let_def addSection_sections)
    have "settled r (outSections w')" unfolding w' settled_def
      using t t_lt index_where_append [OF t, of "[s]"] by (simp add: covers_update)
    moreover have "settled q (outSections w')" if "settled q (outSections w)"
      unfolding w' by (rule settled_update [OF settled_append [OF that]]) simp_all
    ultimately show ?thesis by simp
  next
    case (Some i)
    then show ?thesis using assms t by (auto simp: create_relocation_section_def settled_def)
  qed
  then show "settled r (outSections w')" "settled q (outSections w) \<Longrightarrow> settled q (outSections w')" by simp_all
qed

lemma relocation_sections_settle:
  "foldR create_relocation_section rs w = Inr (Some w') \<Longrightarrow>
   (\<forall>r \<in> set rs. settled r (outSections w')) \<and> (settled q (outSections w) \<longrightarrow> settled q (outSections w'))"
proof (induction rs arbitrary: w q)
  case (Cons r rs)
  then obtain u where u: "create_relocation_section r w = Inr (Some u)" and rest: "foldR create_relocation_section rs u = Inr (Some w')"
    by (auto simp: fault_simps)
  show ?case using create_relocation_section_settles [OF u] Cons.IH [OF rest] by auto
qed simp

text \<open>Symbols that live are in the table.\<close>

definition no_strays :: "elf_file \<Rightarrow> bool" where
  "no_strays f \<longleftrightarrow> dom (sym_store f) \<subseteq> set (symbols f)"

lemma relocation_symbol_outcome:
  "no_strays f \<Longrightarrow> relocation_symbol r f \<noteq> Inr None"
  by (auto simp: relocation_symbol_def no_strays_def get_sym_def index_where_None dom_def split: option.splits)


lemma addSection_elf:
  "set (symbols (elf (addSection s w))) = insert (next_sym (elf w)) (set (symbols (elf w)))"
  "dom (sym_store (elf (addSection s w))) = insert (next_sym (elf w)) (dom (sym_store (elf w)))"
  "k \<noteq> next_sym (elf w) \<Longrightarrow> sym_store (elf (addSection s w)) k = sym_store (elf w) k"
  "next_sym (elf (addSection s w)) = next_sym (elf w) + 1"
proof -
  have "set (take i xs @ k # drop i xs) = insert k (set xs)" for i k and xs :: "nat list"
    by (metis append_take_drop_id list.set(2) set_append Un_insert_right)
  then show "set (symbols (elf (addSection s w))) = insert (next_sym (elf w)) (set (symbols (elf w)))"
    by (simp add: addSection_def Let_def)
qed (auto simp: addSection_def Let_def)

text \<open>
  The contract of a property of the program in memory with the first stages of the writer: a new section and a
  new address of a symbol keep it. Then all stages before the pruning keep it.
\<close>

locale kept_by_writer =
  fixes P :: "elf_file \<Rightarrow> bool"
  assumes new_section_keeps: "P (elf w) \<Longrightarrow> P (elf (addSection s w))"
    and new_address_keeps: "P f \<Longrightarrow> sym_store f k = Some y \<Longrightarrow> P (put_sym k (y\<lparr>esym_address := a\<rparr>) f)"
begin

lemma data_sections: "P (elf w) \<Longrightarrow> P (elf (foldl create_data_section w ds))"
  by (induction ds arbitrary: w) (simp_all add: new_section_keeps create_data_section_def)

lemma relocation_section: "create_relocation_section r w = Inr (Some w') \<Longrightarrow> P (elf w) \<Longrightarrow> P (elf w')"
  by (auto simp: create_relocation_section_def Let_def new_section_keeps split: option.splits if_splits)

lemma stub_addresses: "set_stub_addresses a is f = Inr f' \<Longrightarrow> P f \<Longrightarrow> P f'"
  by (induction a "is" f arbitrary: f' rule: set_stub_addresses.induct) (auto simp: fault_simps new_address_keeps)

lemma import_section:
  assumes "create_import_section crc lib (w, a) = Inr (Some (w', a'))" "P (elf w)"
  shows "P (elf w')"
proof -
  obtain f s where f: "set_stub_addresses (a + 8) (lib_imports lib) (elf w) = Inr f" and w': "w' = addSection s (w\<lparr>elf := f\<rparr>)"
    using assms(1) by (auto simp: create_import_section_def fault_simps Let_def)
  have "P (elf (w\<lparr>elf := f\<rparr>))" using stub_addresses [OF f assms(2)] by simp
  then show ?thesis unfolding w' by (rule new_section_keeps)
qed

lemma stages:
  assumes "P f"
    and w1: "foldR create_relocation_section (relocations f) (foldl create_data_section (start_writer f) (dataSections f)) = Inr (Some w1)"
    and w2: "foldR (create_import_section crc) (rplImports f) (w1, a) = Inr (Some w2)"
  shows "P (elf (fst w2))"
proof -
  have "P (elf (start_writer f))" using assms(1) by (simp add: start_writer_def)
  then have "P (elf w1)"
    by (intro foldR_invariant [OF w1, where P = "\<lambda>w. P (elf w)"]) (simp add: data_sections, erule (1) relocation_section)
  then show ?thesis
    by (intro foldR_invariant [OF w2, where P = "\<lambda>p. P (elf (fst p))"]) (auto simp: split_paired_all intro: import_section)
qed

end

lemma import_settled: "create_import_section crc lib (w, a) = Inr (Some (w', a')) \<Longrightarrow> settled r (outSections w) \<Longrightarrow> settled r (outSections w')"
  by (auto simp: create_import_section_def fault_simps Let_def addSection_sections settled_append)

lemma stages_settle:
  assumes w1: "foldR create_relocation_section (relocations f) (foldl create_data_section (start_writer f) (dataSections f)) = Inr (Some w1)"
    and w2: "foldR (create_import_section crc) (rplImports f) (w1, a) = Inr (Some w2)"
    and r: "r \<in> set (relocations f)"
  shows "settled r (outSections (fst w2))"
  using relocation_sections_settle [OF w1] r
  by (intro foldR_invariant [OF w2, where P = "\<lambda>p. settled r (outSections (fst p))"])
    (auto simp: split_paired_all intro: import_settled)

lemma bindR_None: "bindR m f = Inr None \<longleftrightarrow> m = Inr None \<or> (\<exists>x. m = Inr (Some x) \<and> f x = Inr None)"
  by (auto simp: bindR_def fault_simps split: option.splits)

interpretation strays: kept_by_writer no_strays
  by unfold_locales (auto simp: no_strays_def addSection_elf put_sym_def)

definition doomed :: "nat \<Rightarrow> elf_file \<Rightarrow> bool" where
  "doomed k f \<longleftrightarrow> k < next_sym f \<and> matches f unneeded k"

interpretation doomed: kept_by_writer "doomed k" for k
  by unfold_locales (auto simp: doomed_def matches_def addSection_elf put_sym_def unneeded_def split: option.splits)

lemma prune_no_strays: "no_strays f \<Longrightarrow> no_strays (prune f)"
  by (auto simp: no_strays_def prune_def dom_def subset_iff split: if_splits)

lemma import_never_refuses: "foldR (create_import_section crc) libs p \<noteq> Inr None"
  by (induction libs arbitrary: p) (auto simp: bindR_None create_import_section_def fault_simps Let_def)

lemma convert_keeps:
  "convert_relocation r w = Inr (Some w') \<Longrightarrow> elf w' = elf w \<and> (settled q (outSections w) \<longrightarrow> settled q (outSections w'))"
  by (auto dest!: relocation_symbol_index intro!: settled_update)

lemma convert_never_refuses:
  "no_strays (elf w) \<Longrightarrow> \<forall>r \<in> set rs. settled r (outSections w) \<Longrightarrow> foldR convert_relocation rs w \<noteq> Inr None"
proof (induction rs arbitrary: w)
  case (Cons r rs)
  have "convert_relocation r w \<noteq> Inr None"
    using Cons.prems relocation_symbol_outcome [of "elf w" r]
    by (auto simp: convert_relocation_def settled_def bindR_None Let_def)
  moreover have "foldR convert_relocation rs w' \<noteq> Inr None" if "convert_relocation r w = Inr (Some w')" for w'
    using Cons.IH [of w'] Cons.prems convert_keeps [OF that] by auto
  ultimately show ?case by (auto simp: bindR_None)
qed simp

lemma program_stages:
  assumes "foldR create_relocation_section (relocations f) (foldl create_data_section (start_writer f) (dataSections f)) = Inr (Some w1)"
  shows "program_sections crc f = Inr None \<or> program_sections crc f = Inr (Some x) \<Longrightarrow>
    \<exists>a w2. foldR (create_import_section crc) (rplImports f) (w1, a) = Inr (Some w2) \<and>
      bindR (foldR convert_relocation (relocations f) ((fst w2)\<lparr>elf := prune (elf (fst w2))\<rparr>)) (\<lambda>w. Inr (Some w)) =
      (if program_sections crc f = Inr None then Inr None else Inr (Some (fst x)))"
  using assms import_never_refuses
  by (fastforce simp: program_sections_def bindR_None fault_simps Let_def)

lemma well_formed_no_strays: "well_formed f \<Longrightarrow> no_strays f"
  by (simp add: well_formed_defs no_strays_def)

text \<open>
  C0: the converter refuses a well-formed program, up to its tables, exactly when a relocation has a target
  in no section at the time the sections for relocations are made. The second search, when the relocations
  are converted, finds the same section with its section for relocations, whatever has been added in
  between, and never ends in a message; nor does the search for the symbol of a relocation.
\<close>

theorem conversion_refusals:
  assumes "well_formed f"
  shows "program_sections crc f = Inr None \<longleftrightarrow>
    foldR create_relocation_section (relocations f) (foldl create_data_section (start_writer f) (dataSections f)) = Inr None"
    (is "_ \<longleftrightarrow> ?first = _")
proof
  assume refused: "program_sections crc f = Inr None"
  show "?first = Inr None"
  proof (rule ccontr)
    assume "?first \<noteq> Inr None"
    then obtain w1 where w1: "?first = Inr (Some w1)" using refused by (auto simp: program_sections_def Let_def bindR_None)
    obtain a w2 where w2: "foldR (create_import_section crc) (rplImports f) (w1, a) = Inr (Some w2)"
      and none: "foldR convert_relocation (relocations f) ((fst w2)\<lparr>elf := prune (elf (fst w2))\<rparr>) = Inr None"
      using program_stages [OF w1] refused by (fastforce simp: bindR_None)
    note stages = strays.stages [OF well_formed_no_strays [OF assms] w1 w2] stages_settle [OF w1 w2]
    show False using convert_never_refuses [of "(fst w2)\<lparr>elf := prune (elf (fst w2))\<rparr>"] stages none
      by (auto intro: prune_no_strays)
  qed
qed (simp add: program_sections_def Let_def bindR_def)

lemma tiny_program_ok: "well_formed tiny_program"
proof -
  have "kept CodeAddress (foldl (\<lambda>f s. snd (add_symbol s f)) (empty_file CodeAddress) default_symbols)"
    by (rule default_symbols_kept) (simp add: sections_read_def empty_file_def data_ok_def)
  then show ?thesis by (auto simp: kept_def tiny_program_def Let_def well_formed_defs default_symbols_ok_def stands_for_def)
qed

lemma conversion_refusals_witness: "program_sections (\<lambda>_ _. 0) tiny_program \<noteq> Inr None"
proof -
  have "relocations tiny_program = []"
    by (simp add: tiny_program_def Let_def default_symbols_def add_symbol_def empty_file_def)
  then show ?thesis unfolding conversion_refusals [OF tiny_program_ok] by simp
qed

lemma convert_all_found:
  "foldR convert_relocation rs w = Inr (Some w') \<Longrightarrow> r \<in> set rs \<Longrightarrow> \<exists>p. relocation_symbol r (elf w) = Inr (Some p)"
proof (induction rs arbitrary: w)
  case (Cons q rs)
  obtain u where u: "convert_relocation q w = Inr (Some u)" "foldR convert_relocation rs u = Inr (Some w')"
    using Cons.prems(1) by (auto simp: fault_simps)
  have "elf u = elf w" using convert_keeps [OF u(1)] by simp
  moreover have "\<exists>p. relocation_symbol q (elf w) = Inr (Some p)"
    using u(1) by (auto simp: convert_relocation_def fault_simps split: option.splits)
  ultimately show ?case using Cons.IH [OF u(2)] Cons.prems(2) by auto
qed simp


definition label_program :: elf_file where
  "label_program = add_relocation \<lparr>rel_target = CodeAddress, rel_type = R_PPC_ADDR32, rel_symbol = Some 4, rel_addend = 0\<rparr>
     (snd (add_symbol \<lparr>esym_name = ''label'', esym_address = CodeAddress + 4, esym_size = 0, esym_type = STT_NOTYPE,
       esym_binding = STB_LOCAL, outNamePos = 0\<rparr> tiny_program))"


text \<open>
  While the symbol table is made its own header has the address 0 and the size \<open>- 1\<close>, so that every
  address but the last one is found in a section, if only in the symbol table.
\<close>

lemma every_address_has_a_section:
  assumes "n < length secs" "out_header (secs ! n) = symtab_header m" "length secs < 2 ^ 32 - 1" "a \<noteq> - 1"
  shows "getSectionIndex secs a \<noteq> - 1"
proof -
  have "a < - 1" using assms(4) by (simp add: order_less_le word_order.extremum_unique)
  then have "covers a (secs ! n)" using assms(2) by (simp add: covers_def symtab_header_def)
  then obtain i where i: "index_where (covers a) secs = Some i"
    using assms(1) index_where_None [of "covers a" secs] by (cases "index_where (covers a) secs") auto
  then have "i < 2 ^ 32 - 1" using assms(3) by (auto simp: index_where_Some)
  then have "unat (of_nat i :: u32) = i" by (intro unat_of_nat32) simp
  then have "(of_nat i :: u32) \<noteq> - 1" using \<open>i < 2 ^ 32 - 1\<close> unsigned_minus_1_eq_mask [where 'a = nat and 'b = 32]
    by (auto simp: mask_eq_exp_minus_1)
  then show ?thesis by (simp add: getSectionIndex_def index_word_def i)
qed

end
