(* ===== verification/ElfTables.thy ===== *)
theory ElfTables
  imports ElfSymbols
begin

text \<open>
  The contents of the relocation sections and of the symbol table of the RPX file, and how they fit: the
  symbol a converted relocation names by its number is the symbol it was read with.
\<close>

section \<open>Relocation sections\<close>

text \<open>Which section has the relocations of which, as a map; every one belongs to one section and is empty at first.\<close>

definition relocations_of :: "out_section list \<Rightarrow> nat \<Rightarrow> nat option" where
  "relocations_of secs t = (if t < length secs then relocationSection (secs ! t) else None)"

definition owned :: "out_section list \<Rightarrow> bool" where
  "owned secs \<longleftrightarrow> inj_on (relocations_of secs) (dom (relocations_of secs)) \<and>
     (\<forall>i \<in> ran (relocations_of secs). i < length secs \<and> out_data (secs ! i) = [])"

lemma relocations_of_append: "relocationSection s = None \<Longrightarrow> relocations_of (secs @ [s]) = relocations_of secs"
  by (auto simp: relocations_of_def nth_append)

lemma relocations_of_update:
  "t < length secs \<Longrightarrow> relocations_of (secs[t := s]) = (relocations_of secs)(t := relocationSection s)"
  by (auto simp: relocations_of_def)

lemma owned_append: "owned secs \<Longrightarrow> relocationSection s = None \<Longrightarrow> owned (secs @ [s])"
  by (auto simp: owned_def relocations_of_append nth_append)

lemma owned_add: "owned (outSections w) \<Longrightarrow> relocationSection s = None \<Longrightarrow> owned (outSections (addSection s w))"
  by (simp add: addSection_sections owned_append)

lemma owned_start: "owned (outSections (start_writer f))"
proof -
  have "relocations_of (outSections (start_writer f)) = Map.empty" by (auto simp: start_writer_def relocations_of_def)
  then show ?thesis by (simp add: owned_def)
qed

lemma owned_data_sections: "owned (outSections w) \<Longrightarrow> owned (outSections (foldl create_data_section w ds))"
  by (induction ds arbitrary: w) (simp_all add: create_data_section_def owned_add)

lemma owned_new:
  assumes "owned secs" "t < length secs" "relocations_of secs t = None" "relocationSection s = None" "out_data s = []"
  shows "owned ((secs @ [s])[t := (secs ! t)\<lparr>relocationSection := Some (length secs)\<rparr>])"
proof -
  let ?secs = "(secs @ [s])[t := (secs ! t)\<lparr>relocationSection := Some (length secs)\<rparr>]"
  have m: "relocations_of ?secs = (relocations_of secs)(t \<mapsto> length secs)"
    using assms(2,4) by (simp add: relocations_of_update relocations_of_append)
  have old: "i < length secs \<and> out_data (secs ! i) = []" if "relocations_of secs u = Some i" for u i
    using assms(1) that by (auto simp: owned_def intro: ranI)
  have "out_data (?secs ! i) = []" if "i < length secs" "out_data (secs ! i) = []" for i
    using that by (cases "i = t") (simp_all add: nth_append)
  moreover have "out_data (?secs ! length secs) = []" using assms(2,5) by (simp add: nth_append)
  moreover have "ran (relocations_of ?secs) = insert (length secs) (ran (relocations_of secs))"
    unfolding m using assms(3) by (rule ran_map_upd)
  ultimately have "\<forall>i \<in> ran (relocations_of ?secs). i < length ?secs \<and> out_data (?secs ! i) = []"
    using old by (auto simp: ran_def less_SucI)
  moreover have "inj_on (relocations_of ?secs) (dom (relocations_of ?secs))"
    unfolding m using assms(1,3) old by (fastforce simp: owned_def inj_on_def dom_def)
  ultimately show ?thesis by (simp add: owned_def)
qed

lemma owned_relocation_section:
  assumes "create_relocation_section r w = Inr (Some w')" "owned (outSections w)"
  shows "owned (outSections w')"
proof -
  obtain t where t: "index_where (covers (rel_target r)) (outSections w) = Some t"
    using assms(1) by (auto simp: create_relocation_section_def split: option.splits)
  then have t_lt: "t < length (outSections w)" by (simp add: index_where_Some)
  show ?thesis
  proof (cases "relocationSection (outSections w ! t)")
    case None
    then obtain s where "outSections w' = (outSections w @ [s])[t := (outSections w ! t)\<lparr>relocationSection := Some (length (outSections w))\<rparr>]"
      "relocationSection s = None" "out_data s = []"
      using assms(1) t t_lt by (force simp: create_relocation_section_def Let_def addSection_sections nth_append)
    then show ?thesis using owned_new [OF assms(2) t_lt] None t_lt by (simp add: relocations_of_def)
  qed (use assms t in \<open>auto simp: create_relocation_section_def\<close>)
qed

lemma owned_import: "create_import_section crc lib (w, a) = Inr (Some (w', a')) \<Longrightarrow> owned (outSections w) \<Longrightarrow> owned (outSections w')"
  by (auto simp: create_import_section_def fault_simps Let_def intro!: owned_add)

text \<open>The section a relocation is in, and the entry that is made of it.\<close>

definition home :: "out_section list \<Rightarrow> ereloc \<Rightarrow> nat option" where
  "home secs r = index_where (covers (rel_target r)) secs"

definition entry_of :: "elf_file \<Rightarrow> ereloc \<Rightarrow> elf_rela" where
  "entry_of f r = (case relocation_symbol r f of
     Inr (Some (idx, addend)) \<Rightarrow> \<lparr>r_offset = rel_target r,
       r_info = (if rel_type r = R_PPC_RELATIVE then R_PPC_ADDR32 else rel_type r) OR of_nat (idx * 256), r_addend = addend\<rparr>
   | _ \<Rightarrow> \<lparr>r_offset = 0, r_info = 0, r_addend = 0\<rparr>)"

lemma convert_relocation_run:
  assumes "convert_relocation r w = Inr (Some w')"
  shows "\<exists>t i p. home (outSections w) r = Some t \<and> relocations_of (outSections w) t = Some i \<and>
    relocation_symbol r (elf w) = Inr (Some p) \<and>
    w' = update_section i (\<lambda>s. s\<lparr>out_data := out_data s @ rela_bytes (entry_of (elf w) r)\<rparr>) w"
  using assms by (fastforce simp: convert_relocation_def fault_simps Let_def home_def relocations_of_def entry_of_def index_where_Some split: option.splits)

lemma home_data: "home (secs[i := (secs ! i)\<lparr>out_data := d\<rparr>]) r = home secs r"
  unfolding home_def by (rule covers_update) simp

lemma relocations_of_data: "relocations_of (secs[i := (secs ! i)\<lparr>out_data := d\<rparr>]) = relocations_of secs"
proof
  show "relocations_of (secs[i := (secs ! i)\<lparr>out_data := d\<rparr>]) t = relocations_of secs t" for t
    by (cases "i = t") (auto simp: relocations_of_def)
qed

lemma convert_relocations_run:
  assumes "foldR convert_relocation rs w = Inr (Some w')" "inj_on (relocations_of (outSections w)) (dom (relocations_of (outSections w)))"
    and "relocations_of (outSections w) t = Some i" "i < length (outSections w)"
  shows "out_data (outSections w' ! i) = out_data (outSections w ! i) @
      concat (map (\<lambda>r. rela_bytes (entry_of (elf w) r)) (filter (\<lambda>r. home (outSections w) r = Some t) rs)) \<and>
    elf w' = elf w \<and> home (outSections w') = home (outSections w) \<and> relocations_of (outSections w') = relocations_of (outSections w)"
  using assms
proof (induction rs arbitrary: w)
  case (Cons r rs)
  obtain u where u: "convert_relocation r w = Inr (Some u)" and rest: "foldR convert_relocation rs u = Inr (Some w')"
    using Cons.prems(1) by (auto simp: fault_simps)
  obtain t' i' where h: "home (outSections w) r = Some t'" "relocations_of (outSections w) t' = Some i'"
    and ud: "u = update_section i' (\<lambda>s. s\<lparr>out_data := out_data s @ rela_bytes (entry_of (elf w) r)\<rparr>) w"
    using convert_relocation_run [OF u] by blast
  have same: "home (outSections u) = home (outSections w)" "relocations_of (outSections u) = relocations_of (outSections w)"
    "elf u = elf w" "length (outSections u) = length (outSections w)"
    by (auto simp: ud home_data relocations_of_data)
  have "t' = t \<longleftrightarrow> i' = i" using Cons.prems(2,3) h(2) by (auto simp: inj_on_def dom_def)
  then have "out_data (outSections u ! i) = out_data (outSections w ! i) @
      (if home (outSections w) r = Some t then rela_bytes (entry_of (elf w) r) else [])"
    using h(1) Cons.prems(4) by (auto simp: ud nth_list_update)
  then show ?case using Cons.IH [OF rest] Cons.prems(2-4) same by simp
qed simp

lemma relocation_section_data:
  assumes "program_sections crc f = Inr (Some (w, symSize, strSize))"
    and "t < length (outSections w)" "relocationSection (outSections w ! t) = Some i"
  shows "i < length (outSections w) \<and> out_data (outSections w ! i) =
    concat (map (\<lambda>r. rela_bytes (entry_of (elf w) r)) (filter (\<lambda>r. home (outSections w) r = Some t) (relocations f)))"
proof -
  obtain w1 where w1: "foldR create_relocation_section (relocations f) (foldl create_data_section (start_writer f) (dataSections f)) = Inr (Some w1)"
    using assms(1) by (auto simp: program_sections_def Let_def fault_simps)
  obtain a w2 where w2: "foldR (create_import_section crc) (rplImports f) (w1, a) = Inr (Some w2)"
    and conv: "foldR convert_relocation (relocations f) ((fst w2)\<lparr>elf := prune (elf (fst w2))\<rparr>) = Inr (Some w)"
    using program_stages [OF w1, of crc "(w, symSize, strSize)"] assms(1) by (auto simp: fault_simps)
  let ?w = "(fst w2)\<lparr>elf := prune (elf (fst w2))\<rparr>"
  have "owned (outSections w1)"
    by (rule foldR_invariant [OF w1, where P = "\<lambda>w. owned (outSections w)"])
      (simp add: owned_data_sections owned_start, erule (1) owned_relocation_section)
  then have "owned (outSections (fst w2))"
    by (intro foldR_invariant [OF w2, where P = "\<lambda>p. owned (outSections (fst p))"])
      (auto simp: split_paired_all intro: owned_import)
  then have own: "owned (outSections ?w)" by simp
  have same: "relocations_of (outSections w) = relocations_of (outSections ?w) \<and> length (outSections w) = length (outSections ?w)"
    by (rule foldR_invariant [OF conv, where P = "\<lambda>v. relocations_of (outSections v) = relocations_of (outSections ?w) \<and>
        length (outSections v) = length (outSections ?w)"])
      (auto dest!: convert_relocation_run simp: relocations_of_data)
  then have i: "relocations_of (outSections ?w) t = Some i" using assms(2,3) by (metis relocations_of_def)
  then have "i < length (outSections ?w)" "out_data (outSections ?w ! i) = []" using own by (auto simp: owned_def intro: ranI)
  then show ?thesis using convert_relocations_run [OF conv _ i] own same by (simp add: owned_def)
qed

definition keys_ok :: "elf_file \<Rightarrow> bool" where
  "keys_ok f \<longleftrightarrow> distinct (symbols f) \<and> (\<forall>k \<in> set (symbols f). k < next_sym f)"

lemma distinct_insert: "distinct xs \<Longrightarrow> x \<notin> set xs \<Longrightarrow> distinct (take i xs @ x # drop i xs)"
  using set_take_disj_set_drop_if_distinct [of xs i i] by (auto dest: in_set_takeD in_set_dropD)

interpretation keys: kept_by_writer keys_ok
proof (unfold_locales, goal_cases)
  case (1 w s)
  then have "next_sym (elf w) \<notin> set (symbols (elf w))" by (auto simp: keys_ok_def)
  moreover have "symbols (elf (addSection s w)) = take (symbolItr w) (symbols (elf w)) @ next_sym (elf w) # drop (symbolItr w) (symbols (elf w))"
    by (simp add: addSection_def Let_def)
  ultimately have "distinct (symbols (elf (addSection s w)))" using 1 distinct_insert by (auto simp only: keys_ok_def)
  then show ?case using 1 by (auto simp: keys_ok_def addSection_elf less_SucI)
next
  case (2 f k y a)
  then show ?case by (simp add: keys_ok_def)
qed

lemma program_sections_elf:
  assumes "well_formed f" "program_sections crc f = Inr (Some (w, a, b))"
  shows "no_strays (elf w)" "distinct (symbols (elf w))"
proof -
  obtain w1 where w1: "foldR create_relocation_section (relocations f) (foldl create_data_section (start_writer f) (dataSections f)) = Inr (Some w1)"
    using assms(2) by (auto simp: program_sections_def Let_def fault_simps)
  obtain x w2 where w2: "foldR (create_import_section crc) (rplImports f) (w1, x) = Inr (Some w2)"
    and conv: "foldR convert_relocation (relocations f) ((fst w2)\<lparr>elf := prune (elf (fst w2))\<rparr>) = Inr (Some w)"
    using program_stages [OF w1, of crc "(w, a, b)"] assms(2) by (auto simp: fault_simps)
  have "keys_ok f" using assms(1) by (simp add: keys_ok_def well_formed_defs)
  have e: "elf w = prune (elf (fst w2))"
    by (rule foldR_invariant [OF conv, where P = "\<lambda>v. elf v = prune (elf (fst w2))"]) (auto dest: convert_keeps)
  show "no_strays (elf w)" unfolding e
    by (rule prune_no_strays) (rule strays.stages [OF well_formed_no_strays [OF assms(1)] w1 w2])
  show "distinct (symbols (elf w))" unfolding e
    using keys.stages [OF \<open>keys_ok f\<close> w1 w2] by (simp add: keys_ok_def prune_def)
qed

lemma entry_of_found:
  assumes "no_strays g" "relocation_symbol r g = Inr (Some p)"
  shows "\<exists>idx. rel_symbol r = Some (symbols g ! idx) \<and> idx < length (symbols g) \<and>
    entry_of g r = \<lparr>r_offset = rel_target r, r_info = (if rel_type r = R_PPC_RELATIVE then R_PPC_ADDR32 else rel_type r) OR of_nat (idx * 256),
      r_addend = rel_addend r\<rparr>"
proof -
  have "index_where (\<lambda>k. rel_symbol r = Some k) (symbols g) \<noteq> None"
  proof
    assume none: "index_where (\<lambda>k. rel_symbol r = Some k) (symbols g) = None"
    then obtain k s where "rel_symbol r = Some k" "sym_store g k = Some s"
      using assms(2) by (auto simp: relocation_symbol_def fault_simps split: option.splits)
    then show False using none assms(1) by (auto simp: no_strays_def index_where_None)
  qed
  then obtain idx where idx: "index_where (\<lambda>k. rel_symbol r = Some k) (symbols g) = Some idx" by blast
  then have "relocation_symbol r g = Inr (Some (idx, rel_addend r))" by (simp add: relocation_symbol_def)
  then show ?thesis using idx by (intro exI [of _ idx]) (auto simp: entry_of_def index_where_Some)
qed

text \<open>C30: 
  C0: the relocation sections of the RPX file. After the conversion of a well-formed program the section for
  the relocations of a section holds exactly the relocations whose target lies in that section, in their
  order and once each, as entries of twelve bytes: the target, the type (\<open>R_PPC_RELATIVE\<close> as
  \<open>R_PPC_ADDR32\<close>) with the place in the symbol table of the very symbol the relocation was read with, and
  the addend.
\<close>

theorem relocation_sections_hold_relocations:
  assumes "well_formed f" "program_sections crc f = Inr (Some (w, symSize, strSize))"
    and "t < length (outSections w)" "relocationSection (outSections w ! t) = Some i"
  shows "i < length (outSections w) \<and>
    (\<exists>entries. out_data (outSections w ! i) = concat (map rela_bytes entries) \<and>
      list_all2 (\<lambda>r e. \<exists>idx. rel_symbol r = Some (symbols (elf w) ! idx) \<and> idx < length (symbols (elf w)) \<and>
        e = \<lparr>r_offset = rel_target r, r_info = (if rel_type r = R_PPC_RELATIVE then R_PPC_ADDR32 else rel_type r) OR of_nat (idx * 256),
          r_addend = rel_addend r\<rparr>)
        (filter (\<lambda>r. home (outSections w) r = Some t) (relocations f)) entries)"
proof -
  let ?rs = "filter (\<lambda>r. home (outSections w) r = Some t) (relocations f)"
  obtain w0 where "foldR convert_relocation (relocations f) w0 = Inr (Some w)" and e: "elf w0 = elf w"
  proof -
    obtain w1 where w1: "foldR create_relocation_section (relocations f) (foldl create_data_section (start_writer f) (dataSections f)) = Inr (Some w1)"
      using assms(2) by (auto simp: program_sections_def Let_def fault_simps)
    obtain w0 where conv: "foldR convert_relocation (relocations f) w0 = Inr (Some w)"
      using program_stages [OF w1, of crc "(w, symSize, strSize)"] assms(2) by (auto simp: fault_simps)
    have "elf w = elf w0"
      by (rule foldR_invariant [OF conv, where P = "\<lambda>v. elf v = elf w0"]) (auto dest: convert_keeps)
    then show thesis using that [OF conv] by simp
  qed
  then have found: "\<exists>p. relocation_symbol r (elf w) = Inr (Some p)" if "r \<in> set ?rs" for r
    using convert_all_found that by fastforce
  have data: "i < length (outSections w)" "out_data (outSections w ! i) = concat (map rela_bytes (map (entry_of (elf w)) ?rs))"
    using relocation_section_data [OF assms(2-4)] by (simp_all add: comp_def)
  show ?thesis
  proof (intro conjI exI [of _ "map (entry_of (elf w)) ?rs"])
    show "list_all2 (\<lambda>r e. \<exists>idx. rel_symbol r = Some (symbols (elf w) ! idx) \<and> idx < length (symbols (elf w)) \<and>
        e = \<lparr>r_offset = rel_target r, r_info = (if rel_type r = R_PPC_RELATIVE then R_PPC_ADDR32 else rel_type r) OR of_nat (idx * 256),
          r_addend = rel_addend r\<rparr>) ?rs (map (entry_of (elf w)) ?rs)"
      unfolding list_all2_map2
    proof (rule list.rel_refl_strong)
      fix r assume "r \<in> set ?rs"
      then obtain p where "relocation_symbol r (elf w) = Inr (Some p)" using found by blast
      then show "\<exists>idx. rel_symbol r = Some (symbols (elf w) ! idx) \<and> idx < length (symbols (elf w)) \<and>
        entry_of (elf w) r = \<lparr>r_offset = rel_target r, r_info = (if rel_type r = R_PPC_RELATIVE then R_PPC_ADDR32 else rel_type r) OR of_nat (idx * 256),
          r_addend = rel_addend r\<rparr>"
        by (rule entry_of_found [OF program_sections_elf(1) [OF assms(1,2)]])
    qed
  qed (use data in simp_all)
qed

definition moved_program :: elf_file where
  "moved_program = add_relocation \<lparr>rel_target = CodeAddress + 4, rel_type = R_PPC_ADDR32, rel_symbol = Some 1, rel_addend = 0\<rparr> tiny_program"

lemma moved_program_ok: "well_formed moved_program"
proof -
  have "kept (entryPoint tiny_program) tiny_program" by (simp add: kept_def tiny_program_ok)
  moreover have "1 \<in> set (symbols tiny_program)"
    by (simp add: tiny_program_def Let_def default_symbols_def add_symbol_def empty_file_def)
  ultimately have "kept (entryPoint tiny_program) moved_program" unfolding moved_program_def by (intro add_relocation_kept) simp_all
  then show ?thesis by (simp add: kept_def)
qed

lemma relocation_sections_hold_relocations_witness:
  "\<exists>w a b es. program_sections (\<lambda>_ _. 0) moved_program = Inr (Some (w, a, b)) \<and> out_data (outSections w ! 2) = concat (map rela_bytes es)"
proof -
  have "\<exists>w a b. program_sections (\<lambda>_ _. 0) moved_program = Inr (Some (w, a, b)) \<and> 1 < length (outSections w) \<and>
      relocationSection (outSections w ! 1) = Some 2"
    by (simp add: program_sections_def bindR_def moved_program_def add_relocation_def tiny_program_def default_symbols_def add_symbol_def
        empty_file_def create_data_section_def addSection_def push_section_def start_writer_def Let_def get_sym_def prune_def matches_def
        unneeded_def section_types STT_NOTYPE_def STT_SECTION_def STT_OBJECT_def STT_FUNC_def blank_header_def new_section_def
        CodeAddress_def DataAddress_def covers_def create_relocation_section_def convert_relocation_def relocation_symbol_def
        update_section_def R_PPC_ADDR32_def R_PPC_RELATIVE_def)
  then obtain w a b where r: "program_sections (\<lambda>_ _. 0) moved_program = Inr (Some (w, a, b))" "1 < length (outSections w)"
    "relocationSection (outSections w ! 1) = Some 2" by blast
  show ?thesis using relocation_sections_hold_relocations [OF moved_program_ok r] r(1) by blast
qed

section \<open>The symbol table\<close>

text \<open>What of a symbol no later stage changes.\<close>

definition lasting :: "esym \<Rightarrow> string \<times> u32 \<times> u32" where
  "lasting s = (esym_name s, esym_type s, esym_binding s)"

lemma put_sym_lasting:
  "sym_store f k = Some s \<Longrightarrow> lasting s' = lasting s \<Longrightarrow>
   map_option lasting \<circ> sym_store (put_sym k s' f) = map_option lasting \<circ> sym_store f"
  by (auto simp: put_sym_def)

lemma finish_section_keeps:
  assumes "finish_section n s f = Inr (s', f')"
  shows "symbols f' = symbols f" "map_option lasting \<circ> sym_store f' = map_option lasting \<circ> sym_store f"
    "sectionSymbol s' = sectionSymbol s" "out_name s' = out_name s" "sectionSymbol s \<noteq> Some k \<Longrightarrow> sym_store f' k = sym_store f k"
  using assms
  by (auto simp: finish_section_def fault_simps Let_def lasting_def put_sym_lasting split: option.splits if_splits)

lemma finish_sections_keep:
  "finish_sections n ss f = Inr (ss', f') \<Longrightarrow> symbols f' = symbols f \<and>
   map_option lasting \<circ> sym_store f' = map_option lasting \<circ> sym_store f \<and>
   ((\<forall>s \<in> set ss. sectionSymbol s \<noteq> Some k) \<longrightarrow> sym_store f' k = sym_store f k)"
proof (induction n ss f arbitrary: ss' f' rule: finish_sections.induct)
  case (2 n s ss f)
  then obtain s1 f1 ss1 where s1: "finish_section n s f = Inr (s1, f1)" and ss1: "finish_sections n ss f1 = Inr (ss1, f')"
    by (auto simp: fault_simps)
  show ?case using finish_section_keeps [OF s1] "2.IH" [OF s1 refl ss1] by simp
qed simp

lemma name_symbols_keep:
  "name_symbols ks tab f = Inr (tab', f') \<Longrightarrow> symbols f' = symbols f"
proof (induction ks tab f arbitrary: tab' f' rule: name_symbols.induct)
  case (2 k ks tab f)
  obtain s where s: "get_sym k f = Inr s" using 2(2) by (auto simp: fault_simps get_sym_def)
  obtain pos tab1 where n: "add_name (esym_name s) tab = (pos, tab1)" by fastforce
  have "name_symbols ks tab1 (put_sym k (s\<lparr>outNamePos := pos\<rparr>) f) = Inr (tab', f')" using 2(2) s n by simp
  from "2.IH" [OF s n [symmetric] refl this] show ?case by simp
qed simp

text \<open>Making the entry of a symbol adds it to the table and changes nothing but the checksums of imports.\<close>

definition identity_of :: "out_section \<Rightarrow> string \<times> section_header" where
  "identity_of s = (out_name s, out_header s)"

lemma identity_update: "identity_of s = identity_of (secs ! i) \<Longrightarrow> map identity_of (secs[i := s]) = map identity_of secs"
proof -
  assume h: "identity_of s = identity_of (secs ! i)"
  have "map identity_of (secs[i := s]) ! j = map identity_of secs ! j" if "j < length secs" for j
    using h that by (cases "i = j") simp_all
  then show ?thesis by (intro nth_equalityI) simp_all
qed

definition same_but_imports :: "nat \<Rightarrow> writer \<Rightarrow> writer \<Rightarrow> bool" where
  "same_but_imports n w w' \<longleftrightarrow> elf w' = elf w \<and>
     map identity_of (outSections w') = map identity_of (outSections w) \<and>
     (\<forall>j < length (outSections w). j \<noteq> n \<longrightarrow> sh_type (out_header (outSections w ! j)) \<noteq> SHT_RPL_IMPORTS \<longrightarrow>
        outSections w' ! j = outSections w ! j)"

lemma same_but_imports_trans: "same_but_imports n u v \<Longrightarrow> same_but_imports n v w \<Longrightarrow> same_but_imports n u w"
proof -
  assume a: "same_but_imports n u v" "same_but_imports n v w"
  have "length (outSections v) = length (outSections u)"
    using a(1) by (metis same_but_imports_def length_map)
  moreover have "sh_type (out_header (outSections v ! j)) = sh_type (out_header (outSections u ! j))" if "j < length (outSections u)" for j
  proof -
    have "map identity_of (outSections v) ! j = map identity_of (outSections u) ! j"
      using a(1) by (simp add: same_but_imports_def)
    then show ?thesis using that calculation by (simp add: identity_of_def)
  qed
  ultimately show ?thesis using a unfolding same_but_imports_def by auto
qed

lemma symbol_entry_cong:
  "map identity_of ss = map identity_of ss' \<Longrightarrow> symbol_entry ss y = symbol_entry ss' y"
proof -
  assume m: "map identity_of ss = map identity_of ss'"
  have i: "index_where (Q \<circ> identity_of) ss = index_where Q (map identity_of ss)" for Q ss
    by (induction ss) auto
  have "covers a = (\<lambda>(n, h). a \<ge> sh_addr h \<and> a < sh_addr h + sh_size h) \<circ> identity_of" for a
    by (auto simp: covers_def identity_of_def)
  then have "index_where (covers a) ss = index_where (covers a) ss'" for a by (simp only: i m)
  moreover have "(\<lambda>s. out_name s = n) = (\<lambda>(m, h). m = n) \<circ> identity_of" for n
    by (auto simp: identity_of_def)
  then have "index_where (\<lambda>s. out_name s = n) ss = index_where (\<lambda>s. out_name s = n) ss'" for n by (simp only: i m)
  ultimately show ?thesis by (simp add: symbol_entry_def getSectionIndex_def getSectionIndex_name_def)
qed

lemma create_symbol_run:
  assumes "create_symbol crc tab n k w = Inr (Some w')" "has_type SHT_SYMTAB n (outSections w)"
  shows "\<exists>s shndx entry. sym_store (elf w) k = Some s \<and> symbol_entry (outSections w) s = Some (shndx, entry) \<and>
    same_but_imports n w w' \<and> outSections w' ! n = (outSections w ! n)\<lparr>out_data := out_data (outSections w ! n) @ symbol_bytes entry\<rparr>"
proof -
  obtain s shndx entry c where s: "sym_store (elf w) k = Some s" "symbol_entry (outSections w) s = Some (shndx, entry)"
    and c: "read_at (outSections w) (uint shndx) = Inr c" using assms(1)
    by (auto simp: create_symbol_def fault_simps split: option.splits)
  have c_nth: "c = outSections w ! unat shndx" using c by (auto simp: read_at_def split: if_splits)
  have n: "n < length (outSections w)" "sh_type (out_header (outSections w ! n)) = SHT_SYMTAB"
    using assms(2) by (simp_all add: has_type_def)
  let ?app = "\<lambda>t. t\<lparr>out_data := out_data t @ symbol_bytes entry\<rparr>"
  show ?thesis
  proof (cases "sh_type (out_header c) = SHT_RPL_IMPORTS \<and> esym_type s \<noteq> STT_SECTION")
    case True
    obtain bs c' where c': "sign_import crc bs c = Inr c'"
      and w': "w' = update_section n ?app (update_section (unat shndx) (\<lambda>_. c') w)"
      using assms(1) s c True by (auto simp: create_symbol_def fault_simps)
    have h: "out_header c' = out_header c" "out_name c' = out_name c" using c' by (auto simp: sign_import_def fault_simps)
    have ne: "unat shndx \<noteq> n" using True n(2) c_nth by (auto simp: section_types)
    have "map identity_of (outSections w') = map identity_of (outSections w)" unfolding w' using h c_nth ne
      by (simp add: identity_update identity_of_def)
    moreover have "(outSections w)[unat shndx := c'] ! j = outSections w ! j"
      if "sh_type (out_header (outSections w ! j)) \<noteq> SHT_RPL_IMPORTS" for j
      using that True c_nth by (cases "unat shndx = j") auto
    ultimately have "same_but_imports n w w'" by (auto simp: same_but_imports_def w')
    then show ?thesis using s ne n(1) by (auto simp: w')
  next
    case False
    have w': "w' = update_section n ?app w" using assms(1) s c False by (auto simp: create_symbol_def fault_simps)
    then have "same_but_imports n w w'" unfolding same_but_imports_def
      by (simp add: identity_update identity_of_def)
    then show ?thesis using s n(1) by (auto simp: w')
  qed
qed

lemma same_has_type: "same_but_imports n w w' \<Longrightarrow> has_type ty j (outSections w) \<Longrightarrow> has_type ty j (outSections w')"
proof -
  assume a: "same_but_imports n w w'" "has_type ty j (outSections w)"
  have "length (outSections w') = length (outSections w)" using a(1) by (metis same_but_imports_def length_map)
  moreover have "map identity_of (outSections w') ! j = map identity_of (outSections w) ! j"
    using a(1) by (simp add: same_but_imports_def)
  ultimately show ?thesis using a(2) by (simp add: has_type_def unplaced_def identity_of_def)
qed

lemma create_symbols_run:
  assumes "foldR (create_symbol crc tab n) ks w = Inr (Some w')" "has_type SHT_SYMTAB n (outSections w)"
  shows "\<exists>entries. length entries = length ks \<and> same_but_imports n w w' \<and>
    outSections w' ! n = (outSections w ! n)\<lparr>out_data := out_data (outSections w ! n) @ concat (map symbol_bytes entries)\<rparr> \<and>
    (\<forall>j < length ks. \<exists>s shndx. sym_store (elf w) (ks ! j) = Some s \<and> symbol_entry (outSections w) s = Some (shndx, entries ! j))"
  using assms
proof (induction ks arbitrary: w)
  case Nil
  then show ?case by (auto simp: same_but_imports_def)
next
  case (Cons k ks)
  obtain u where u: "create_symbol crc tab n k w = Inr (Some u)" and rest: "foldR (create_symbol crc tab n) ks u = Inr (Some w')"
    using Cons.prems(1) by (auto simp: fault_simps)
  obtain s shndx entry where s: "sym_store (elf w) k = Some s" "symbol_entry (outSections w) s = Some (shndx, entry)"
    and same: "same_but_imports n w u"
    and n: "outSections u ! n = (outSections w ! n)\<lparr>out_data := out_data (outSections w ! n) @ symbol_bytes entry\<rparr>"
    using create_symbol_run [OF u Cons.prems(2)] by blast
  obtain entries where e: "length entries = length ks" "same_but_imports n u w'"
    "outSections w' ! n = (outSections u ! n)\<lparr>out_data := out_data (outSections u ! n) @ concat (map symbol_bytes entries)\<rparr>"
    "\<forall>j < length ks. \<exists>s shndx. sym_store (elf u) (ks ! j) = Some s \<and> symbol_entry (outSections u) s = Some (shndx, entries ! j)"
    using Cons.IH [OF rest same_has_type [OF same Cons.prems(2)]] by blast
  have eq: "elf u = elf w" "symbol_entry (outSections u) y = symbol_entry (outSections w) y" for y
    using same by (auto simp: same_but_imports_def intro: symbol_entry_cong)
  show ?case
  proof (intro exI [of _ "entry # entries"] conjI allI impI)
    show "same_but_imports n w w'" by (rule same_but_imports_trans [OF same e(2)])
    fix j assume "j < length (k # ks)"
    then show "\<exists>y shndx. sym_store (elf w) ((k # ks) ! j) = Some y \<and> symbol_entry (outSections w) y = Some (shndx, (entry # entries) ! j)"
      using s e(4) eq by (cases j) auto
  qed (use e n in auto)
qed

text \<open>What the stages of \<open>finish_tables\<close> do to the data of the symbol and the string table.\<close>

lemma finish_sections_data: "finish_sections n ss f = Inr (ss', f') \<Longrightarrow> map out_data ss' = map out_data ss"
proof (induction n ss f arbitrary: ss' f' rule: finish_sections.induct)
  case (2 n s ss f)
  then obtain s1 f1 ss1 where s1: "finish_section n s f = Inr (s1, f1)" and ss1: "finish_sections n ss f1 = Inr (ss1, f')"
    and ss': "ss' = s1 # ss1" by (auto simp: fault_simps)
  have "out_data s1 = out_data s" using s1 by (auto simp: finish_section_def fault_simps Let_def split: option.splits)
  then show ?case using "2.IH" [OF s1 refl ss1] by (simp add: ss')
qed simp

lemma finish_imports_other:
  "finish_imports crc ss = Inr ss' \<Longrightarrow> length ss' = length ss \<and>
   (\<forall>j < length ss. sh_type (out_header (ss ! j)) \<noteq> SHT_RPL_IMPORTS \<longrightarrow> ss' ! j = ss ! j)"
proof (induction ss arbitrary: ss')
  case (Cons s ss)
  then obtain s1 ss1 where s1: "sh_type (out_header s) \<noteq> SHT_RPL_IMPORTS \<longrightarrow> s1 = s" and ss1: "finish_imports crc ss = Inr ss1"
    and ss': "ss' = s1 # ss1"
    by (auto simp: fault_simps split: if_splits)
  show ?case using Cons.IH [OF ss1] s1 by (auto simp: ss' nth_Cons split: nat.splits)
qed simp

lemma name_sections_data: "name_sections ss tab = (ss', tab') \<Longrightarrow> map out_data ss' = map out_data ss"
proof (induction ss tab arbitrary: ss' tab' rule: name_sections.induct)
  case (2 s ss tab)
  obtain pos tab1 where p: "add_name (out_name s) tab = (pos, tab1)" by fastforce
  obtain ss1 where ss1: "name_sections ss tab1 = (ss1, tab')" and ss': "ss' = s\<lparr>out_header := (out_header s)\<lparr>sh_name := pos\<rparr>\<rparr> # ss1"
    using 2(2) p by (auto split: prod.splits)
  show ?case using 2(1) [OF p [symmetric] refl ss1] by (simp add: ss')
qed simp

lemma put_place_data: "map out_data (put_place i a secs) = map out_data secs"
proof -
  have "map out_data (put_place i a secs) ! j = map out_data secs ! j" if "j < length secs" for j
    using that by (cases "i = j") (simp_all add: put_place_def place_def)
  then show ?thesis by (intro nth_equalityI) (simp_all add: put_place_def)
qed

lemma map_data_nth: "map out_data ss = map out_data ss' \<Longrightarrow> j < length ss \<Longrightarrow> out_data (ss ! j) = out_data (ss' ! j)"
  by (metis length_map nth_map)

text \<open>The string table and the entries of the symbol table of the file.\<close>

lemma table_data:
  assumes "finish_tables crc a b w = Inr (Some (secs, k))" "n = length (outSections w)"
  shows "\<exists>f1 tab f2 entries ss. symbols f1 = symbols (elf w) \<and> symbols f2 = symbols f1 \<and>
    map_option lasting \<circ> sym_store f1 = map_option lasting \<circ> sym_store (elf w) \<and>
    (\<forall>k. (\<forall>s \<in> set (outSections w). sectionSymbol s \<noteq> Some k) \<longrightarrow> sym_store f1 k = sym_store (elf w) k) \<and>
    name_symbols (symbols f1) [NUL] f1 = Inr (tab, f2) \<and> length entries = length (symbols (elf w)) \<and>
    (\<forall>j < length entries. \<exists>s shndx. sym_store f2 (symbols (elf w) ! j) = Some s \<and> symbol_entry ss s = Some (shndx, entries ! j)) \<and>
    out_data (secs ! n) = concat (map symbol_bytes entries) \<and> out_data (secs ! (n + 1)) = tab"
proof -
  obtain s1 f1 tab f2 w4 s5 s7 names a1 a2 a3 where s1: "finish_sections n (outSections (add_tables w)) (elf (add_tables w)) = Inr (s1, f1)"
    and tab: "name_symbols (symbols f1) [NUL] f1 = Inr (tab, f2)"
    and w4: "foldR (create_symbol crc tab n) (symbols f2)
      \<lparr>outSections = with_headers n tab s1, elf = f2, symbolItr = symbolItr (add_tables w)\<rparr> = Inr (Some w4)"
    and s5: "finish_imports crc (outSections w4) = Inr s5"
    and s7: "name_sections (s5[n + 2 := (s5 ! (n + 2))\<lparr>out_header := strtab_header\<rparr>]) [NUL] = (s7, names)"
    and secs: "secs = add_crcs crc (put_place (n + 2) a3 (put_place (n + 1) a2 (put_place n a1
      (s7[n + 2 := (s7 ! (n + 2))\<lparr>out_data := names\<rparr>]))))"
    by (rule finish_tables_stages [OF assms])
  let ?w3 = "\<lparr>outSections = with_headers n tab s1, elf = f2, symbolItr = symbolItr (add_tables w)\<rparr>"
  have len1: "length s1 = n + 3" using arg_cong [OF finish_sections_data [OF s1], of length] assms(2) by (simp add: add_tables_def)
  have "out_data (s1 ! n) = out_data (outSections (add_tables w) ! n)"
    by (rule map_data_nth [OF finish_sections_data [OF s1]]) (simp add: len1)
  then have d1: "out_data (s1 ! n) = []" using assms(2) by (simp add: add_tables_def nth_append)
  have w3: "has_type SHT_SYMTAB n (outSections ?w3)" "out_data (outSections ?w3 ! n) = []" "length (outSections ?w3) = n + 3"
    "sh_type (out_header (outSections ?w3 ! (n + 1))) = SHT_STRTAB" "out_data (outSections ?w3 ! (n + 1)) = tab"
    by (simp_all add: with_headers_def Let_def has_type_def unplaced_def symtab_header_def strtab_header_def len1 d1)
  obtain entries where e: "length entries = length (symbols f2)" "same_but_imports n ?w3 w4"
    "outSections w4 ! n = (outSections ?w3 ! n)\<lparr>out_data := out_data (outSections ?w3 ! n) @ concat (map symbol_bytes entries)\<rparr>"
    "\<forall>j < length (symbols f2). \<exists>s shndx. sym_store f2 (symbols f2 ! j) = Some s \<and> symbol_entry (outSections ?w3) s = Some (shndx, entries ! j)"
    using create_symbols_run [OF w4 w3(1)] by auto
  have len4: "length (outSections w4) = n + 3" using e(2) w3(3) by (metis same_but_imports_def length_map)
  have "outSections w4 ! (n + 1) = outSections ?w3 ! (n + 1)"
    using e(2) w3(3,4) unfolding same_but_imports_def by (simp add: section_types)
  moreover have "has_type SHT_SYMTAB n (outSections w4)" by (rule same_has_type [OF e(2) w3(1)])
  ultimately have "s5 ! n = outSections w4 ! n \<and> s5 ! (n + 1) = outSections w4 ! (n + 1) \<and> length s5 = n + 3"
    using finish_imports_other [OF s5] w3(4) len4 by (simp add: has_type_def section_types)
  then have d5: "out_data (s5 ! n) = concat (map symbol_bytes entries)" "out_data (s5 ! (n + 1)) = tab" "length s5 = n + 3"
    using e(3) w3(2,5) \<open>outSections w4 ! (n + 1) = outSections ?w3 ! (n + 1)\<close> by simp_all
  have len7: "length s7 = n + 3" using arg_cong [OF name_sections_data [OF s7], of length] d5(3) by simp
  have d7: "out_data (s7 ! j) = out_data (s5 ! j)" if "j < n + 2" for j
    using map_data_nth [OF name_sections_data [OF s7], of j] that len7 by simp
  have d8: "out_data (secs ! j) = out_data (s7 ! j)" if "j < n + 2" for j
  proof -
    let ?s8 = "s7[n + 2 := (s7 ! (n + 2))\<lparr>out_data := names\<rparr>]"
    let ?s9 = "put_place (n + 2) a3 (put_place (n + 1) a2 (put_place n a1 ?s8))"
    have eq: "map out_data ?s9 = map out_data ?s8" by (simp only: put_place_data)
    have len9: "length ?s9 = n + 3" using arg_cong [OF eq, of length] len7 by simp
    have "out_data (?s9 ! j) = out_data (?s8 ! j)" by (rule map_data_nth [OF eq]) (use that len9 in simp)
    moreover have "secs ! j = ?s9 ! j" using that len9 by (simp add: secs add_crcs_def Let_def nth_append)
    ultimately show ?thesis using that by simp
  qed
  have f1: "symbols f1 = symbols (elf w)" "map_option lasting \<circ> sym_store f1 = map_option lasting \<circ> sym_store (elf w)"
    "(\<forall>s \<in> set (outSections w). sectionSymbol s \<noteq> Some k) \<Longrightarrow> sym_store f1 k = sym_store (elf w) k" for k
    using finish_sections_keep [OF s1, of k] by (auto simp: add_tables_def new_section_def)
  show ?thesis
    using f1 tab name_symbols_keep [OF tab] e(1,4) d5 d7 d8
    by (intro exI [of _ f1] exI [of _ tab] exI [of _ f2] exI [of _ entries] exI [of _ "outSections ?w3"]) auto
qed

lemma holds_at_entry:
  assumes "j < length es" "\<And>e. length (enc e) = m"
  shows "holds_at (concat (map enc es)) (m * j) (enc (es ! j))"
proof -
  have "concat (map enc es) = concat (map enc (take j es)) @ enc (es ! j) @ concat (map enc (drop (Suc j) es))"
    using arg_cong [OF id_take_nth_drop [OF assms(1)], of "\<lambda>es. concat (map enc es)"] by simp
  moreover have "length (concat (map enc (take j es))) = m * j"
    using assms by (simp add: length_concat comp_def sum_list_triv)
  ultimately show ?thesis using holds_at_append by metis
qed



end
