(* ===== verification/Gfd.thy ===== *)
theory Gfd
  imports Elf
begin

text \<open>
  The files of compiled shaders (\<open>shader_utils.c\<close>, second half): the blocks of a GFD file are walked in the
  memory the file was read into, the pointers in the shader headers are relocated in place, and the two
  shaders are found. Numbers are stored in the byte order of the processor, high byte first. A pointer into
  the file is an offset from its start, kept as a mathematical number: arithmetic that leaves the block
  is seen at the next access. Two structures are used only for their sizes and the place of one field.
\<close>

section \<open>Constants\<close>

definition GFD_FILE_MAJOR_VERSION :: u32 where "GFD_FILE_MAJOR_VERSION = 7"
definition GFD_FILE_GPU_VERSION :: u32 where "GFD_FILE_GPU_VERSION = 2"
definition GFD_BLOCK_MAJOR_VERSION :: u32 where "GFD_BLOCK_MAJOR_VERSION = 1"

definition make_magic :: "u32 \<Rightarrow> u32 \<Rightarrow> u32 \<Rightarrow> u32 \<Rightarrow> u32" where
  "make_magic c0 c1 c2 c3 = push_bit 24 c0 OR push_bit 16 c1 OR push_bit 8 c2 OR c3"

definition GFD_FILE_MAGIC :: u32 where "GFD_FILE_MAGIC = make_magic 0x47 0x66 0x78 0x32"
definition GFD_BLOCK_MAGIC :: u32 where "GFD_BLOCK_MAGIC = make_magic 0x42 0x4C 0x4B 0x7B"
definition GFD_BLOCK_RELOCATIONS_MAGIC :: u32 where "GFD_BLOCK_RELOCATIONS_MAGIC = make_magic 0x7D 0x42 0x4C 0x4B"
definition GFD_RELOCATIONS_TYPE_MASK :: u32 where "GFD_RELOCATIONS_TYPE_MASK = 0xFFF00000"
definition GFD_RELOCATIONS_VALUE_MASK :: u32 where "GFD_RELOCATIONS_VALUE_MASK = NOT GFD_RELOCATIONS_TYPE_MASK"
definition GFD_RELOCATIONS_DATA :: u32 where "GFD_RELOCATIONS_DATA = 0xD0600000"
definition GFD_RELOCATIONS_TEXT :: u32 where "GFD_RELOCATIONS_TEXT = 0xCA700000"

definition END_OF_FILE :: u32 where "END_OF_FILE = 1"
definition PADDING :: u32 where "PADDING = 2"
definition VERTEX_SHADER_HEADER :: u32 where "VERTEX_SHADER_HEADER = 3"
definition VERTEX_SHADER_PROGRAM :: u32 where "VERTEX_SHADER_PROGRAM = 5"
definition PIXEL_SHADER_HEADER :: u32 where "PIXEL_SHADER_HEADER = 6"
definition PIXEL_SHADER_PROGRAM :: u32 where "PIXEL_SHADER_PROGRAM = 7"

text \<open>
  Offsets of the fields: of the file header (eight words), the block header (eight words, the data
  behind it), the relocation header at the end of a block's data (ten words), and of the pointer to the
  program in the two shader structures.
\<close>

definition file_gpuVersion :: nat where "file_gpuVersion = 16"
definition file_align :: nat where "file_align = 20"
definition block_type :: nat where "block_type = 16"
definition block_dataSize :: nat where "block_dataSize = 20"
definition block_data :: nat where "block_data = 32"
definition rel_size :: nat where "rel_size = 40"
definition rel_patchCount :: nat where "rel_patchCount = 32"
definition rel_patchOffset :: nat where "rel_patchOffset = 36"
definition vs_program :: nat where "vs_program = 212"
definition ps_program :: nat where "ps_program = 168"

lemmas gfd_offsets = file_gpuVersion_def file_align_def block_type_def block_dataSize_def block_data_def rel_size_def
  rel_patchCount_def rel_patchOffset_def vs_program_def ps_program_def

section \<open>Relocation\<close>

definition rel_type :: "u32 \<Rightarrow> u32" where "rel_type w = w AND GFD_RELOCATIONS_TYPE_MASK"
definition rel_value :: "u32 \<Rightarrow> nat" where "rel_value w = unat (w AND GFD_RELOCATIONS_VALUE_MASK)"

text \<open>One entry of the patch table; \<open>dat\<close> is where the data of the block start.\<close>

definition patch_one :: "u32 \<Rightarrow> nat \<Rightarrow> nat \<Rightarrow> char list \<Rightarrow> fault + bool \<times> char list" where
  "patch_one base dat p d =
     bindF (get32 d p) (\<lambda>patch.
     if patch = 0 then Inr (True, d)
     else if rel_type patch \<noteq> GFD_RELOCATIONS_DATA then Inr (False, d)
     else
       let ptr = dat + rel_value patch in
       bindF (get32 d ptr) (\<lambda>w.
       if rel_type w \<noteq> GFD_RELOCATIONS_DATA \<and> rel_type w \<noteq> GFD_RELOCATIONS_TEXT then Inr (False, d)
       else
         bindF (put32 d ptr (base + of_nat dat + of_nat (rel_value w))) (\<lambda>d. Inr (True, d))))"

lemma put32_length: "put32 d p w = Inr d' \<Longrightarrow> length d' = length d"
  by (auto simp: put32_def dest: length_write_at)

lemma get32_bound: "get32 d p = Inr w \<Longrightarrow> p + 4 \<le> length d"
  by (auto simp: get32_def get_be_def slice_at_def fault_simps split: if_splits)

lemma patch_one_length: "patch_one base dat p d = Inr (ok, d') \<Longrightarrow> length d' = length d \<and> p < length d"
  by (auto simp: patch_one_def fault_simps Let_def split: if_splits dest: put32_length get32_bound)

function patch_loop :: "u32 \<Rightarrow> nat \<Rightarrow> nat \<Rightarrow> nat \<Rightarrow> nat \<Rightarrow> char list \<Rightarrow> fault + bool \<times> char list" where
  "patch_loop base dat rel patches i d =
     bindF (get32 d (rel + rel_patchCount)) (\<lambda>count.
     if unat count \<le> i then Inr (True, d)
     else
       bindF (patch_one base dat (patches + 4 * i) d) (\<lambda>r.
       if fst r then patch_loop base dat rel patches (Suc i) (snd r) else Inr (False, snd r)))"
  by pat_completeness auto
termination
  by (relation "measure (\<lambda>(base, dat, rel, patches, i, d). length d - (patches + 4 * i))")
    (auto dest!: patch_one_length [of _ _ _ _ "True"])

declare patch_loop.simps [simp del]

definition gfd_relocate_block :: "u32 \<Rightarrow> nat \<Rightarrow> char list \<Rightarrow> fault + bool \<times> char list" where
  "gfd_relocate_block base blk d =
     bindF (get32 d (blk + block_dataSize)) (\<lambda>dataSize.
     let dat = blk + block_data; rel = dat + unat dataSize - rel_size in
     bindF (get32 d rel) (\<lambda>magic.
     if magic \<noteq> GFD_BLOCK_RELOCATIONS_MAGIC then Inr (False, d)
     else
       bindF (get32 d (rel + rel_patchOffset)) (\<lambda>patchOffset.
       if rel_type patchOffset \<noteq> GFD_RELOCATIONS_DATA then Inr (False, d)
       else patch_loop base dat rel (dat + rel_value patchOffset) 0 d)))"

section \<open>The blocks\<close>

text \<open>The file in memory and the two shader headers found, as offsets.\<close>

record gfd_file =
  gfd_data :: "char list"
  gfd_vs :: "nat option"
  gfd_ps :: "nat option"

text \<open>
  A block of each kind. A \<open>continue\<close> in the loop goes back to its test without having moved on, so it
  finds the same block for ever. \<open>None\<close> is the jump to the error exit.
\<close>

definition header_block ::
  "u32 \<Rightarrow> nat option \<Rightarrow> (nat \<Rightarrow> gfd_file \<Rightarrow> gfd_file) \<Rightarrow> nat \<Rightarrow> gfd_file \<Rightarrow> fault + gfd_file option" where
  "header_block base found set_shader blk g =
     (if found \<noteq> None then Inl Never_returns
      else
        bindF (gfd_relocate_block base blk (gfd_data g)) (\<lambda>(ok, d).
        Inr (if ok then Some (set_shader (blk + block_data) (g\<lparr>gfd_data := d\<rparr>)) else None)))"

definition program_block :: "u32 \<Rightarrow> nat option \<Rightarrow> nat \<Rightarrow> nat \<Rightarrow> gfd_file \<Rightarrow> fault + gfd_file option" where
  "program_block base shader field blk g =
     (case shader of
        None \<Rightarrow> Inl Null_pointer
      | Some sh \<Rightarrow>
          bindF (get32 (gfd_data g) (sh + field)) (\<lambda>program.
          if program \<noteq> 0 then Inl Never_returns
          else
            bindF (put32 (gfd_data g) (sh + field) (base + of_nat (blk + block_data))) (\<lambda>d.
            Inr (Some (g\<lparr>gfd_data := d\<rparr>)))))"

definition do_block :: "u32 \<Rightarrow> u32 \<Rightarrow> nat \<Rightarrow> gfd_file \<Rightarrow> fault + gfd_file option" where
  "do_block base ty blk g =
     (if ty = VERTEX_SHADER_HEADER then header_block base (gfd_vs g) (\<lambda>p g. g\<lparr>gfd_vs := Some p\<rparr>) blk g
      else if ty = VERTEX_SHADER_PROGRAM then program_block base (gfd_vs g) vs_program blk g
      else if ty = PIXEL_SHADER_HEADER then header_block base (gfd_ps g) (\<lambda>p g. g\<lparr>gfd_ps := Some p\<rparr>) blk g
      else if ty = PIXEL_SHADER_PROGRAM then program_block base (gfd_ps g) ps_program blk g
      else Inr (Some g))"

lemma patch_loop_length: "patch_loop base dat rel patches i d = Inr (ok, d') \<Longrightarrow> length d' = length d"
proof (induction base dat rel patches i d rule: patch_loop.induct)
  case (1 base dat rel patches i d)
  from 1(2) obtain count where c: "get32 d (rel + rel_patchCount) = Inr count"
    by (subst (asm) patch_loop.simps) (auto simp: fault_simps)
  show ?case
  proof (cases "unat count \<le> i")
    case True
    then show ?thesis using 1(2) c by (simp add: patch_loop.simps [of base dat rel patches i d])
  next
    case False
    then obtain r where r: "patch_one base dat (patches + 4 * i) d = Inr r"
      "(if fst r then patch_loop base dat rel patches (Suc i) (snd r) else Inr (False, snd r)) = Inr (ok, d')"
      using 1(2) c by (auto simp: patch_loop.simps [of base dat rel patches i d] fault_simps)
    then show ?thesis using 1(1) [OF c False r(1)] patch_one_length [of base dat "patches + 4 * i" d "fst r" "snd r"]
      by (auto split: if_splits)
  qed
qed

lemma relocate_length: "gfd_relocate_block base blk d = Inr (ok, d') \<Longrightarrow> length d' = length d"
  by (auto simp: gfd_relocate_block_def fault_simps Let_def split: if_splits dest: patch_loop_length)

lemma do_block_length: "do_block base ty blk g = Inr (Some g') \<Longrightarrow> length (gfd_data g') = length (gfd_data g)"
  by (auto simp: do_block_def header_block_def program_block_def fault_simps Let_def split: if_splits option.splits
      dest: relocate_length put32_length)

text \<open>
  The loop. The size of the header is checked to be 32 before the block is looked at and read again
  after it, when the two words may have been written over; a step of length 0 is then followed by a
  failing check.
\<close>

definition good_size :: "char list \<Rightarrow> nat \<Rightarrow> nat" where
  "good_size d blk = (if get32 d (blk + 4) = Inr 32 then 1 else 0)"

function gfd_loop :: "u32 \<Rightarrow> nat \<Rightarrow> gfd_file \<Rightarrow> fault + gfd_file option" where
  "gfd_loop base blk g =
     bindF (get32 (gfd_data g) (blk + block_type)) (\<lambda>ty.
     if ty = END_OF_FILE then Inr (Some g)
     else
       bindF (get32 (gfd_data g) blk) (\<lambda>magic.
       if magic \<noteq> GFD_BLOCK_MAGIC then Inr None
       else
         bindF (get32 (gfd_data g) (blk + 4)) (\<lambda>headerSize.
         if headerSize \<noteq> 32 then Inr None
         else
           bindF (get32 (gfd_data g) (blk + 8)) (\<lambda>version.
           if version \<noteq> GFD_BLOCK_MAJOR_VERSION then Inr None
           else
             bindF (do_block base ty blk g) (\<lambda>r. case r of
               None \<Rightarrow> Inr None
             | Some g' \<Rightarrow>
                 bindF (get32 (gfd_data g') (blk + 4)) (\<lambda>hs.
                 bindF (get32 (gfd_data g') (blk + block_dataSize)) (\<lambda>n.
                 gfd_loop base (blk + unat hs + unat n) g')))))))"
  by pat_completeness auto
termination
proof (relation "measure (\<lambda>(base, blk, g). 2 * (length (gfd_data g) - blk) + good_size (gfd_data g) blk)", goal_cases)
  case (2 base blk g ty magic hs0 version r g' hs n)
  from 2 have "length (gfd_data g') = length (gfd_data g)" "blk < length (gfd_data g)" "good_size (gfd_data g) blk = 1"
    by (auto simp: good_size_def dest: do_block_length get32_bound)
  moreover from 2 have "get32 (gfd_data g') (blk + 4) = Inr hs" by simp
  then have "good_size (gfd_data g') blk = 0" if "unat hs = 0" using that by (auto simp: good_size_def)
  ultimately show ?case by (cases "unat hs + unat n = 0") (auto simp: good_size_def)
qed simp

declare gfd_loop.simps [simp del]

section \<open>Opening a file\<close>

text \<open>
  The structure from \<open>calloc\<close> and the memory from \<open>MEM2_alloc\<close> are addresses, 0 if there is none;
  \<open>contents\<close> is what the file holds, \<open>None\<close> if it cannot be opened. The result is the file opened, with
  the memory released on the way out.
\<close>

definition check_file :: "char list \<Rightarrow> fault + bool" where
  "check_file d =
     bindF (get32 d 0) (\<lambda>magic. if magic \<noteq> GFD_FILE_MAGIC then Inr False else
     bindF (get32 d 4) (\<lambda>headerSize. if headerSize \<noteq> 32 then Inr False else
     bindF (get32 d 8) (\<lambda>major. if major \<noteq> GFD_FILE_MAJOR_VERSION then Inr False else
     bindF (get32 d file_gpuVersion) (\<lambda>gpu. if gpu \<noteq> GFD_FILE_GPU_VERSION then Inr False else
     bindF (get32 d file_align) (\<lambda>al. Inr (al \<noteq> 0))))))"

definition check_shaders :: "gfd_file \<Rightarrow> fault + bool" where
  "check_shaders g =
     (case gfd_vs g of
        None \<Rightarrow> Inr False
      | Some v \<Rightarrow>
          bindF (get32 (gfd_data g) (v + vs_program)) (\<lambda>p. if p = 0 then Inr False else
          case gfd_ps g of
            None \<Rightarrow> Inr False
          | Some q \<Rightarrow> bindF (get32 (gfd_data g) (q + ps_program)) (\<lambda>p. Inr (p \<noteq> 0))))"

definition gfd_free :: "u32 \<Rightarrow> u32 \<Rightarrow> u32 list" where
  "gfd_free gfd dat = (if gfd \<noteq> 0 then (if dat \<noteq> 0 then [dat] else []) @ [gfd] else [])"

definition gfd_open :: "string option \<Rightarrow> u32 \<Rightarrow> u32 \<Rightarrow> fault + gfd_file option \<times> u32 list" where
  "gfd_open contents gfd base =
     (case contents of
        None \<Rightarrow> Inr (None, gfd_free gfd 0)
      | Some d \<Rightarrow>
          if gfd = 0 \<or> base = 0 then Inl Null_pointer
          else
            bindF (check_file d) (\<lambda>ok. if \<not> ok then Inr (None, gfd_free gfd base) else
            bindF (gfd_loop base 32 \<lparr>gfd_data = d, gfd_vs = None, gfd_ps = None\<rparr>) (\<lambda>r. case r of
              None \<Rightarrow> Inr (None, gfd_free gfd base)
            | Some g \<Rightarrow>
                bindF (check_shaders g) (\<lambda>ok.
                if ok then Inr (Some g, []) else Inr (None, gfd_free gfd base)))))"

section \<open>Words in memory\<close>

definition words_apart :: "nat \<Rightarrow> nat \<Rightarrow> bool" where
  "words_apart p q \<longleftrightarrow> p + 4 \<le> q \<or> q + 4 \<le> p"

lemma get32_eq: "p + 4 \<le> length d \<Longrightarrow> get32 d p = Inr (of_nat (be_value (take 4 (drop p d))))"
  by (simp add: get32_def get_be_def slice_at_def)

lemma get32_out: "length d < p + 4 \<Longrightarrow> get32 d p = Inl Out_of_bounds"
  by (simp add: get32_def get_be_def slice_at_def)

lemma put32_eq: "p + 4 \<le> length d \<Longrightarrow> put32 d p w = Inr (take p d @ be32 w @ drop (p + 4) d)"
  by (simp add: put32_def write_at_Inr nat_add_distrib)

lemma get_put_same: "put32 d p w = Inr d' \<Longrightarrow> get32 d' p = Inr w"
proof -
  assume "put32 d p w = Inr d'"
  then have b: "p + 4 \<le> length d" by (auto simp: put32_def write_at_Inr_iff)
  with \<open>put32 d p w = Inr d'\<close> have "holds_at d' p (be32 w)" by (auto simp: put32_eq holds_at_def)
  then show ?thesis by (rule get_holds)
qed

lemma get_put_apart:
  assumes "put32 d p w = Inr d'" "words_apart p q"
  shows "get32 d' q = get32 d q"
proof (cases "q + 4 \<le> length d")
  case True
  have b: "p + 4 \<le> length d" using assms(1) by (auto simp: put32_def write_at_Inr_iff)
  then have d': "d' = take p d @ be32 w @ drop (p + 4) d" using assms(1) by (simp add: put32_eq)
  have "take 4 (drop q d') = take 4 (drop q d)"
  proof (cases "p + 4 \<le> q")
    case True
    then show ?thesis using b by (simp add: d' drop_Cons' min_def)
  next
    case False
    then have "q + 4 \<le> p" "4 \<le> p - q" using assms(2) by (simp_all add: words_apart_def)
    then show ?thesis using b by (simp add: d' drop_take min_def)
  qed
  then show ?thesis using True b by (simp add: get32_eq d')
next
  case False
  then show ?thesis using put32_length [OF assms(1)] by (simp add: get32_out)
qed

lemma put32_defined: "get32 d p = Inr w \<Longrightarrow> \<exists>d'. put32 d p v = Inr d'"
  by (auto dest: get32_bound simp: put32_eq)

section \<open>What relocation does\<close>

text \<open>
  A patch table at \<open>tab\<close> with the entries \<open>ps\<close>: every entry that is not empty names a word of the block that
  is marked as a reference, the words do not overlap each other, the table or the number of entries.
\<close>

definition good_patch :: "nat \<Rightarrow> u32 \<Rightarrow> char list \<Rightarrow> bool" where
  "good_patch dat p d \<longleftrightarrow> rel_type p = GFD_RELOCATIONS_DATA \<and>
     (\<exists>w. get32 d (dat + rel_value p) = Inr w \<and> (rel_type w = GFD_RELOCATIONS_DATA \<or> rel_type w = GFD_RELOCATIONS_TEXT))"

definition good_table :: "nat \<Rightarrow> nat \<Rightarrow> nat \<Rightarrow> u32 list \<Rightarrow> nat \<Rightarrow> char list \<Rightarrow> bool" where
  "good_table dat cnt tab ps i d \<longleftrightarrow> get32 d cnt = Inr (of_nat (length ps)) \<and> length ps < 2 ^ 32 \<and>
     (\<forall>j < length ps. get32 d (tab + 4 * j) = Inr (ps ! j)) \<and>
     (\<forall>j. i \<le> j \<and> j < length ps \<and> ps ! j \<noteq> 0 \<longrightarrow> good_patch dat (ps ! j) d)"

definition targets_apart :: "nat \<Rightarrow> nat \<Rightarrow> nat \<Rightarrow> u32 list \<Rightarrow> bool" where
  "targets_apart dat cnt tab ps \<longleftrightarrow> (\<forall>j < length ps. ps ! j \<noteq> 0 \<longrightarrow>
     words_apart (dat + rel_value (ps ! j)) cnt \<and>
     (\<forall>k < length ps. words_apart (dat + rel_value (ps ! j)) (tab + 4 * k)) \<and>
     (\<forall>k < length ps. k \<noteq> j \<and> ps ! k \<noteq> 0 \<longrightarrow> words_apart (dat + rel_value (ps ! j)) (dat + rel_value (ps ! k))))"

text \<open>The entries from \<open>i\<close> on are relocated, every other word is as before.\<close>

definition relocated :: "u32 \<Rightarrow> nat \<Rightarrow> u32 list \<Rightarrow> nat \<Rightarrow> char list \<Rightarrow> char list \<Rightarrow> bool" where
  "relocated base dat ps i d d' \<longleftrightarrow>
     (\<forall>j. i \<le> j \<and> j < length ps \<and> ps ! j \<noteq> 0 \<longrightarrow> (\<exists>w. get32 d (dat + rel_value (ps ! j)) = Inr w \<and>
        get32 d' (dat + rel_value (ps ! j)) = Inr (base + of_nat dat + of_nat (rel_value w)))) \<and>
     (\<forall>q. (\<forall>j. i \<le> j \<and> j < length ps \<and> ps ! j \<noteq> 0 \<longrightarrow> words_apart (dat + rel_value (ps ! j)) q) \<longrightarrow> get32 d' q = get32 d q)"

lemma relocated_skip: "ps ! i = 0 \<Longrightarrow> relocated base dat ps i d d' \<longleftrightarrow> relocated base dat ps (Suc i) d d'"
proof -
  assume z: "ps ! i = 0"
  have "(i \<le> j \<and> j < length ps \<and> ps ! j \<noteq> 0) = (Suc i \<le> j \<and> j < length ps \<and> ps ! j \<noteq> 0)" for j
    using z by (cases "j = i") auto
  then show ?thesis unfolding relocated_def by simp
qed

lemma patch_loop_relocates:
  assumes "i \<le> length ps" "good_table dat (rel + rel_patchCount) tab ps i d" "targets_apart dat (rel + rel_patchCount) tab ps"
  shows "\<exists>d'. patch_loop base dat rel tab i d = Inr (True, d') \<and> relocated base dat ps i d d'"
  using assms
proof (induction "length ps - i" arbitrary: i d)
  case 0
  then have "patch_loop base dat rel tab i d = Inr (True, d)"
    by (subst patch_loop.simps) (simp add: good_table_def unat_of_nat)
  then show ?case using 0 by (auto simp: relocated_def)
next
  case (Suc n)
  have i: "i < length ps" "n = length ps - Suc i" using Suc.hyps(2) by simp_all
  have e: "get32 d (tab + 4 * i) = Inr (ps ! i)" and c: "get32 d (rel + rel_patchCount) = Inr (of_nat (length ps))"
    "unat (of_nat (length ps) :: u32) = length ps" using Suc.prems(2) i by (simp_all add: good_table_def unat_of_nat)
  have go: "patch_loop base dat rel tab i d = patch_loop base dat rel tab (Suc i) d1"
    if "patch_one base dat (tab + 4 * i) d = Inr (True, d1)" for d1
    using that c i(1) by (subst patch_loop.simps) simp
  show ?case
  proof (cases "ps ! i = 0")
    case True
    have "patch_loop base dat rel tab i d = patch_loop base dat rel tab (Suc i) d" using e True by (intro go) (simp add: patch_one_def)
    moreover have "good_table dat (rel + rel_patchCount) tab ps (Suc i) d" using Suc.prems(2) by (simp add: good_table_def)
    ultimately show ?thesis using Suc.hyps(1) [OF i(2)] Suc.prems(3) i(1) relocated_skip [OF True] by simp
  next
    case False
    let ?t = "dat + rel_value (ps ! i)"
    from Suc.prems(2) i(1) False obtain w where w: "rel_type (ps ! i) = GFD_RELOCATIONS_DATA" "get32 d ?t = Inr w"
      "rel_type w = GFD_RELOCATIONS_DATA \<or> rel_type w = GFD_RELOCATIONS_TEXT" by (auto simp: good_table_def good_patch_def)
    let ?w = "base + of_nat dat + of_nat (rel_value w)"
    obtain d1 where d1: "put32 d ?t ?w = Inr d1" using put32_defined [OF w(2)] by blast
    have same: "get32 d1 q = get32 d q" if "words_apart ?t q" for q using get_put_apart [OF d1 that] .
    have ap: "words_apart ?t (rel + rel_patchCount)" "\<And>k. k < length ps \<Longrightarrow> words_apart ?t (tab + 4 * k)"
      "\<And>k. k < length ps \<Longrightarrow> k \<noteq> i \<Longrightarrow> ps ! k \<noteq> 0 \<Longrightarrow> words_apart ?t (dat + rel_value (ps ! k))"
      using Suc.prems(3) i(1) False by (auto simp: targets_apart_def)
    have "patch_one base dat (tab + 4 * i) d = Inr (True, d1)" using e False w d1 by (auto simp: patch_one_def Let_def)
    from go [OF this] have run: "patch_loop base dat rel tab i d = patch_loop base dat rel tab (Suc i) d1" .
    have "good_table dat (rel + rel_patchCount) tab ps (Suc i) d1"
      using Suc.prems(2) same ap by (auto simp: good_table_def good_patch_def)
    from Suc.hyps(1) [OF i(2) _ this Suc.prems(3)] i(1) obtain d' where
      d': "patch_loop base dat rel tab (Suc i) d1 = Inr (True, d')" "relocated base dat ps (Suc i) d1 d'" by auto
    have "relocated base dat ps i d d'"
      unfolding relocated_def
    proof (intro conjI allI impI)
      fix j assume j: "i \<le> j \<and> j < length ps \<and> ps ! j \<noteq> 0"
      show "\<exists>w. get32 d (dat + rel_value (ps ! j)) = Inr w \<and>
        get32 d' (dat + rel_value (ps ! j)) = Inr (base + of_nat dat + of_nat (rel_value w))"
      proof (cases "j = i")
        case True
        have "get32 d' ?t = get32 d1 ?t"
          using d'(2) Suc.prems(3) i(1) False unfolding relocated_def targets_apart_def
          by (simp add: Suc_le_eq)
        then show ?thesis using w(2) get_put_same [OF d1] True by simp
      next
        case False
        then have "Suc i \<le> j" "get32 d1 (dat + rel_value (ps ! j)) = get32 d (dat + rel_value (ps ! j))"
          using j same [OF ap(3), of j] by auto
        then show ?thesis using d'(2) j unfolding relocated_def by metis
      qed
    next
      fix q assume q: "\<forall>j. i \<le> j \<and> j < length ps \<and> ps ! j \<noteq> 0 \<longrightarrow> words_apart (dat + rel_value (ps ! j)) q"
      then have "get32 d' q = get32 d1 q" using d'(2) by (simp add: relocated_def)
      then show "get32 d' q = get32 d q" using same q i(1) False by simp
    qed
    then show ?thesis using run d'(1) by auto
  qed
qed

section \<open>Walking over blocks\<close>

text \<open>The bytes of a block and of a file.\<close>

definition block_bytes :: "u32 \<times> char list \<Rightarrow> char list" where
  "block_bytes = (\<lambda>(ty, dat). be32 GFD_BLOCK_MAGIC @ be32 32 @ be32 1 @ be32 0 @ be32 ty @ be32 (of_nat (length dat)) @
     be32 0 @ be32 0 @ dat)"

definition blocks_bytes :: "(u32 \<times> char list) list \<Rightarrow> char list" where
  "blocks_bytes bs = concat (map block_bytes bs)"

definition gfd_header :: "char list" where
  "gfd_header = be32 GFD_FILE_MAGIC @ be32 32 @ be32 7 @ be32 0 @ be32 2 @ be32 1 @ be32 0 @ be32 0"

definition gfd_bytes :: "(u32 \<times> char list) list \<Rightarrow> char list" where
  "gfd_bytes bs = gfd_header @ blocks_bytes (bs @ [(END_OF_FILE, [])])"

lemma length_block_bytes [simp]: "length (block_bytes (ty, dat)) = 32 + length dat"
  by (simp add: block_bytes_def)

lemma length_gfd_header [simp]: "length gfd_header = 32"
  by (simp add: gfd_header_def)

lemma blocks_bytes_simps [simp]:
  "blocks_bytes [] = []" "blocks_bytes (b # bs) = block_bytes b @ blocks_bytes bs"
  "blocks_bytes (bs @ cs) = blocks_bytes bs @ blocks_bytes cs"
  by (simp_all add: blocks_bytes_def)

text \<open>A word inside a piece of the memory.\<close>

lemma get32_inside: "k + 4 \<le> length h \<Longrightarrow> get32 (xs @ h @ ys) (length xs + k) = get32 h k"
  by (simp add: get32_eq)

definition set_word :: "char list \<Rightarrow> nat \<Rightarrow> u32 \<Rightarrow> char list" where
  "set_word h k w = take k h @ be32 w @ drop (k + 4) h"

lemma length_set_word [simp]: "k + 4 \<le> length h \<Longrightarrow> length (set_word h k w) = length h"
  by (simp add: set_word_def)

lemma put32_inside: "k + 4 \<le> length h \<Longrightarrow> put32 (xs @ h @ ys) (length xs + k) w = Inr (xs @ set_word h k w @ ys)"
  by (simp add: put32_eq set_word_def)

lemma get_set_word: "k + 4 \<le> length h \<Longrightarrow> get32 (set_word h k w) k = Inr w"
  unfolding set_word_def by (rule get_holds) (simp add: holds_at_def)

lemma block_fields:
  fixes ty :: u32
  assumes "d = xs @ block_bytes (ty, dat) @ ys" "length xs = blk"
  shows "get32 d blk = Inr GFD_BLOCK_MAGIC" "get32 d (blk + 4) = Inr 32" "get32 d (blk + 8) = Inr 1"
    "get32 d (blk + block_type) = Inr ty" "get32 d (blk + block_dataSize) = Inr (of_nat (length dat))"
proof -
  have "holds_at d blk (block_bytes (ty, dat))" using assms holds_at_append by metis
  then have h: "holds_at d blk (be32 GFD_BLOCK_MAGIC)" "holds_at d (blk + 4) (be32 32)" "holds_at d (blk + 8) (be32 1)"
    "holds_at d (blk + 16) (be32 ty)" "holds_at d (blk + 20) (be32 (of_nat (length dat)))"
    by (simp_all add: block_bytes_def holds_at_split ac_simps)
  show "get32 d blk = Inr GFD_BLOCK_MAGIC" "get32 d (blk + 4) = Inr 32" "get32 d (blk + 8) = Inr 1"
    "get32 d (blk + block_type) = Inr ty" "get32 d (blk + block_dataSize) = Inr (of_nat (length dat))"
    using h [THEN get_holds(1)] by (simp_all add: gfd_offsets)
qed

text \<open>The file in memory is the bytes before a block, the block, and the rest.\<close>

lemma loop_step:
  assumes "gfd_data g = xs @ block_bytes (ty, dat) @ ys" "length xs = blk" "ty \<noteq> END_OF_FILE"
    "do_block base ty blk g = Inr (Some g')" "gfd_data g' = xs' @ block_bytes (ty', dat') @ ys'" "length xs' = blk"
    "length dat' < 2 ^ 32"
  shows "gfd_loop base blk g = gfd_loop base (blk + 32 + length dat') g'"
  using block_fields [OF assms(1,2)] block_fields [OF assms(5,6)] assms(3,4,7)
  by (subst gfd_loop.simps) (simp add: GFD_BLOCK_MAJOR_VERSION_def unat_of_nat)

lemma loop_end:
  assumes "gfd_data g = xs @ block_bytes (END_OF_FILE, []) @ ys" "length xs = blk"
  shows "gfd_loop base blk g = Inr (Some g)"
  using block_fields(4) [OF assms] by (subst gfd_loop.simps) simp

lemma loop_stuck:
  assumes "gfd_data g = xs @ block_bytes (ty, dat) @ ys" "length xs = blk" "ty \<noteq> END_OF_FILE"
    "do_block base ty blk g = Inl e"
  shows "gfd_loop base blk g = Inl e"
  using block_fields [OF assms(1,2)] assms(3,4)
  by (subst gfd_loop.simps) (simp add: GFD_BLOCK_MAJOR_VERSION_def)

text \<open>Blocks of other kinds are passed over.\<close>

definition other_block :: "u32 \<times> char list \<Rightarrow> bool" where
  "other_block b \<longleftrightarrow> fst b \<notin> {END_OF_FILE, VERTEX_SHADER_HEADER, VERTEX_SHADER_PROGRAM, PIXEL_SHADER_HEADER,
     PIXEL_SHADER_PROGRAM} \<and> length (snd b) < 2 ^ 32"

lemma loop_others:
  assumes "\<forall>b \<in> set bs. other_block b" "gfd_data g = xs @ blocks_bytes bs @ ys" "length xs = blk"
  shows "gfd_loop base blk g = gfd_loop base (blk + length (blocks_bytes bs)) g"
  using assms
proof (induction bs arbitrary: xs blk)
  case (Cons b bs)
  obtain ty dat where b: "b = (ty, dat)" by fastforce
  have o: "ty \<notin> {END_OF_FILE, VERTEX_SHADER_HEADER, VERTEX_SHADER_PROGRAM, PIXEL_SHADER_HEADER, PIXEL_SHADER_PROGRAM}"
    "length dat < 2 ^ 32" using Cons.prems(1) by (simp_all add: other_block_def b)
  have g: "gfd_data g = xs @ block_bytes (ty, dat) @ blocks_bytes bs @ ys" using Cons.prems(2) by (simp add: b)
  have "gfd_loop base blk g = gfd_loop base (blk + 32 + length dat) g"
    using o by (intro loop_step [OF g Cons.prems(3) _ _ g Cons.prems(3)]) (simp_all add: do_block_def)
  also have "\<dots> = gfd_loop base (blk + 32 + length dat + length (blocks_bytes bs)) g"
    using Cons.prems g by (intro Cons.IH [of "xs @ block_bytes (ty, dat)"]) (simp_all add: b)
  finally show ?case by (simp add: b add.assoc)
qed simp

text \<open>
  The data of a shader header without references to relocate: the pointer to the program is null, and
  the relocation header at its end has no entries.
\<close>

definition plain_header :: "nat \<Rightarrow> char list \<Rightarrow> bool" where
  "plain_header field h \<longleftrightarrow> field + 4 \<le> length h - rel_size \<and> length h < 2 ^ 32 \<and> get32 h field = Inr 0 \<and>
     get32 h (length h - rel_size) = Inr GFD_BLOCK_RELOCATIONS_MAGIC \<and>
     get32 h (length h - rel_size + rel_patchCount) = Inr 0 \<and>
     (\<exists>po. get32 h (length h - rel_size + rel_patchOffset) = Inr po \<and> rel_type po = GFD_RELOCATIONS_DATA)"

lemma block_bytes_front: "block_bytes (ty, dat) = take 32 (block_bytes (ty, dat)) @ dat"
  by (simp add: block_bytes_def)

lemma inside_block:
  assumes "d = xs @ block_bytes (ty, dat) @ ys" "length xs = blk" "k + 4 \<le> length dat"
  shows "get32 d (blk + block_data + k) = get32 dat k"
proof -
  have "d = (xs @ take 32 (block_bytes (ty, dat))) @ dat @ ys" using assms(1) block_bytes_front [of ty dat] by simp
  moreover have "length (xs @ take 32 (block_bytes (ty, dat))) = blk + block_data" using assms(2) by (simp add: gfd_offsets)
  ultimately show ?thesis using get32_inside [OF assms(3)] by metis
qed

lemma relocate_plain:
  assumes "d = xs @ block_bytes (ty, h) @ ys" "length xs = blk" "plain_header field h"
  shows "gfd_relocate_block base blk d = Inr (True, d)"
proof -
  let ?r = "length h - rel_size"
  have l: "rel_size < length h" "length h < 2 ^ 32" using assms(3) by (auto simp: plain_header_def)
  have bd: "?r + 4 \<le> length h" "?r + rel_patchCount + 4 \<le> length h" "?r + rel_patchOffset + 4 \<le> length h"
    using l(1) by (simp_all add: gfd_offsets)
  note f = inside_block [OF assms(1,2)]
  have r: "get32 d (blk + block_data + ?r) = Inr GFD_BLOCK_RELOCATIONS_MAGIC"
    "get32 d (blk + block_data + ?r + rel_patchCount) = Inr 0"
    "\<exists>po. get32 d (blk + block_data + ?r + rel_patchOffset) = Inr po \<and> rel_type po = GFD_RELOCATIONS_DATA"
    using f [of ?r] f [of "?r + rel_patchCount"] f [of "?r + rel_patchOffset"] bd assms(3)
    by (simp_all only: plain_header_def add.assoc)
  have n: "blk + block_data + unat (of_nat (length h) :: u32) - rel_size = blk + block_data + ?r"
    using l by (simp add: unat_of_nat)
  show ?thesis
    using block_fields(5) [OF assms(1,2)] r
    by (auto simp: gfd_relocate_block_def Let_def n patch_loop.simps)
qed

text \<open>A header block is found and left as it is; a second one of its kind never ends.\<close>

lemma header_block_plain:
  assumes "gfd_data g = xs @ block_bytes (ty, h) @ ys" "length xs = blk" "plain_header field h"
  shows "header_block base None f blk g = Inr (Some (f (blk + block_data) g))"
  using relocate_plain [OF assms] by (simp add: header_block_def)

lemma program_block_sets:
  assumes "gfd_data g = xs @ h @ ys" "length xs = sh" "field + 4 \<le> length h" "get32 h field = Inr 0"
  shows "program_block base (Some sh) field blk g =
    Inr (Some (g\<lparr>gfd_data := xs @ set_word h field (base + of_nat (blk + block_data)) @ ys\<rparr>))"
  using get32_inside [OF assms(3), of xs ys] put32_inside [OF assms(3), of xs ys] assms(1,2,4)
  by (simp add: program_block_def)

lemma check_file_header: "check_file (gfd_header @ r) = Inr True"
proof -
  have "holds_at (gfd_header @ r) 0 gfd_header" by (simp add: holds_at_def)
  then have h: "holds_at (gfd_header @ r) 0 (be32 GFD_FILE_MAGIC)" "holds_at (gfd_header @ r) 4 (be32 32)"
    "holds_at (gfd_header @ r) 8 (be32 7)" "holds_at (gfd_header @ r) 16 (be32 2)" "holds_at (gfd_header @ r) 20 (be32 1)"
    by (simp_all add: gfd_header_def holds_at_split ac_simps)
  show ?thesis
    using h [THEN get_holds(1)]
    by (simp add: check_file_def gfd_offsets GFD_FILE_MAJOR_VERSION_def GFD_FILE_GPU_VERSION_def)
qed

lemmas block_types = END_OF_FILE_def VERTEX_SHADER_HEADER_def VERTEX_SHADER_PROGRAM_def PIXEL_SHADER_HEADER_def
  PIXEL_SHADER_PROGRAM_def

text \<open>The walk over a file given by its blocks; \<open>pos\<close> is where the blocks behind some others start.\<close>

definition pos :: "(u32 \<times> char list) list \<Rightarrow> nat" where
  "pos bs = 32 + length (blocks_bytes bs)"

lemma gfd_bytes_split:
  "gfd_bytes (p @ bs @ r) = (gfd_header @ blocks_bytes p) @ blocks_bytes bs @ blocks_bytes (r @ [(END_OF_FILE, [])])"
  "length (gfd_header @ blocks_bytes p) = pos p"
  by (simp_all add: gfd_bytes_def pos_def)

lemma gfd_bytes_block:
  "gfd_bytes (p @ [b] @ r) = (gfd_header @ blocks_bytes p) @ block_bytes b @ blocks_bytes (r @ [(END_OF_FILE, [])])"
  using gfd_bytes_split(1) [of p "[b]" r] by simp

lemma pos_append: "pos (p @ bs) = pos p + length (blocks_bytes bs)"
  by (simp add: pos_def)

lemma walk_others:
  assumes "gfd_data g = gfd_bytes (p @ bs @ r)" "\<forall>b \<in> set bs. other_block b"
  shows "gfd_loop base (pos p) g = gfd_loop base (pos (p @ bs)) g"
  using loop_others [OF assms(2) assms(1) [unfolded gfd_bytes_split(1)] gfd_bytes_split(2)] by (simp add: pos_append)

lemma walk_header:
  assumes "gfd_data g = gfd_bytes (p @ [(ty, h)] @ r)" "plain_header field h"
    "ty = VERTEX_SHADER_HEADER \<and> gfd_vs g = None \<and> g' = g\<lparr>gfd_vs := Some (pos p + 32)\<rparr> \<or>
     ty = PIXEL_SHADER_HEADER \<and> gfd_ps g = None \<and> g' = g\<lparr>gfd_ps := Some (pos p + 32)\<rparr>"
  shows "gfd_loop base (pos p) g = gfd_loop base (pos (p @ [(ty, h)])) g'"
proof -
  note d = assms(1) [unfolded gfd_bytes_block]
  have d': "gfd_data g' = gfd_data g" using assms(3) by auto
  have "do_block base ty (pos p) g = Inr (Some g')"
    using header_block_plain [OF d gfd_bytes_split(2) assms(2), of base] assms(3)
    by (auto simp: do_block_def gfd_offsets block_types)
  then have "gfd_loop base (pos p) g = gfd_loop base (pos p + 32 + length h) g'"
    using assms(2,3) d d' by (intro loop_step [OF d gfd_bytes_split(2) _ _ d [folded d'] gfd_bytes_split(2)])
      (auto simp: plain_header_def block_types)
  then show ?thesis by (simp add: pos_append add.assoc)
qed

lemma program_block_at:
  assumes "gfd_data g = gfd_bytes (p @ [(ty, h)] @ r)" "field + 4 \<le> length h" "get32 h field = Inr 0"
  shows "program_block base (Some (pos p + 32)) field blk g =
    Inr (Some (g\<lparr>gfd_data := gfd_bytes (p @ [(ty, set_word h field (base + of_nat (blk + 32)))] @ r)\<rparr>))"
proof -
  let ?w = "base + of_nat (blk + 32)"
  let ?K = "take 32 (block_bytes (ty, h))"
  have k: "block_bytes (ty, set_word h field ?w) = ?K @ set_word h field ?w"
    using assms(2) by (simp add: block_bytes_def)
  have "gfd_data g = ((gfd_header @ blocks_bytes p) @ ?K) @ h @ blocks_bytes (r @ [(END_OF_FILE, [])])"
    using assms(1) [unfolded gfd_bytes_block] block_bytes_front [of ty h] by simp
  from program_block_sets [OF this _ assms(2,3)] show ?thesis
    unfolding gfd_bytes_block k by (simp add: pos_def gfd_offsets)
qed

lemma walk_program:
  assumes "gfd_data g = gfd_bytes (p @ [(ty0, h)] @ m @ [(ty, prog)] @ r)" "field + 4 \<le> length h" "get32 h field = Inr 0"
    "length prog < 2 ^ 32"
    "ty = VERTEX_SHADER_PROGRAM \<and> gfd_vs g = Some (pos p + 32) \<and> field = vs_program \<or>
     ty = PIXEL_SHADER_PROGRAM \<and> gfd_ps g = Some (pos p + 32) \<and> field = ps_program"
    "h' = set_word h field (base + of_nat (pos (p @ [(ty0, h)] @ m) + 32))"
    "g' = g\<lparr>gfd_data := gfd_bytes (p @ [(ty0, h')] @ m @ [(ty, prog)] @ r)\<rparr>"
  shows "gfd_loop base (pos (p @ [(ty0, h)] @ m)) g = gfd_loop base (pos (p @ [(ty0, h')] @ m @ [(ty, prog)])) g'"
proof -
  have l: "length h' = length h" using assms(2,6) by simp
  then have q: "pos (p @ [(ty0, h')] @ m) = pos (p @ [(ty0, h)] @ m)" by (simp add: pos_append)
  have e: "length (gfd_header @ blocks_bytes (p @ [(ty0, h')] @ m)) = pos (p @ [(ty0, h)] @ m)"
    using gfd_bytes_split(2) q by metis
  have d: "gfd_data g = (gfd_header @ blocks_bytes (p @ [(ty0, h)] @ m)) @ block_bytes (ty, prog) @
      blocks_bytes (r @ [(END_OF_FILE, [])])"
    using assms(1) gfd_bytes_block [of "p @ [(ty0, h)] @ m" "(ty, prog)" r] by simp
  have d': "gfd_data g' = (gfd_header @ blocks_bytes (p @ [(ty0, h')] @ m)) @ block_bytes (ty, prog) @
      blocks_bytes (r @ [(END_OF_FILE, [])])"
    using assms(7) gfd_bytes_block [of "p @ [(ty0, h')] @ m" "(ty, prog)" r] by simp
  have "do_block base ty (pos (p @ [(ty0, h)] @ m)) g = Inr (Some g')"
    using program_block_at [OF assms(1-3), of base "pos (p @ [(ty0, h)] @ m)"] assms(5-7)
    by (auto simp: do_block_def block_types)
  then have "gfd_loop base (pos (p @ [(ty0, h)] @ m)) g = gfd_loop base (pos (p @ [(ty0, h)] @ m) + 32 + length prog) g'"
    using assms(4,5) l
    by (intro loop_step [OF d gfd_bytes_split(2) _ _ d' e]) (auto simp: block_types)
  then show ?thesis using q by (simp add: pos_append add.assoc)
qed

lemma walk_end:
  assumes "gfd_data g = gfd_bytes p"
  shows "gfd_loop base (pos p) g = Inr (Some g)"
  using assms by (intro loop_end [of g "gfd_header @ blocks_bytes p" "[]"]) (simp_all add: gfd_bytes_def pos_def)

lemma header_word:
  assumes "k + 4 \<le> length h"
  shows "get32 (gfd_bytes (p @ [(ty, h)] @ r)) (pos p + 32 + k) = get32 h k"
  using inside_block [OF gfd_bytes_block gfd_bytes_split(2) assms] by (simp add: gfd_offsets)

lemma second_header_stuck:
  assumes "gfd_data g = gfd_bytes (p @ [(VERTEX_SHADER_HEADER, h)] @ r)" "gfd_vs g \<noteq> None"
  shows "gfd_loop base (pos p) g = Inl Never_returns"
  using assms(2) by (intro loop_stuck [OF assms(1) [unfolded gfd_bytes_block] gfd_bytes_split(2)])
    (auto simp: do_block_def header_block_def block_types)

section \<open>Properties\<close>

text \<open>C34: 
  Relocation: in a block whose data end with a relocation header and whose patch table names words
  marked as references that overlap neither each other nor the table, relocation succeeds, every word
  named becomes the address of what it refers to in the memory the file was read to, and every other
  word of the file is as before.
\<close>

theorem relocation_sets_pointers:
  assumes "get32 d (blk + block_dataSize) = Inr n" "dat = blk + block_data" "rel = dat + unat n - rel_size"
    "get32 d rel = Inr GFD_BLOCK_RELOCATIONS_MAGIC"
    "get32 d (rel + rel_patchOffset) = Inr po" "rel_type po = GFD_RELOCATIONS_DATA" "tab = dat + rel_value po"
    "good_table dat (rel + rel_patchCount) tab ps 0 d" "targets_apart dat (rel + rel_patchCount) tab ps"
  shows "\<exists>d'. gfd_relocate_block base blk d = Inr (True, d') \<and>
    (\<forall>p \<in> set ps. p \<noteq> 0 \<longrightarrow> (\<exists>w. get32 d (dat + rel_value p) = Inr w \<and>
       get32 d' (dat + rel_value p) = Inr (base + of_nat dat + of_nat (rel_value w)))) \<and>
    (\<forall>q. (\<forall>p \<in> set ps. p \<noteq> 0 \<longrightarrow> words_apart (dat + rel_value p) q) \<longrightarrow> get32 d' q = get32 d q)"
proof -
  from patch_loop_relocates [OF _ assms(8,9)] obtain d' where
    d': "patch_loop base dat rel tab 0 d = Inr (True, d')" "relocated base dat ps 0 d d'" by blast
  have "gfd_relocate_block base blk d = Inr (True, d')"
    using assms(1-7) d'(1) by (simp add: gfd_relocate_block_def Let_def)
  then show ?thesis using d'(2) unfolding relocated_def by (metis in_set_conv_nth zero_le)
qed


text \<open>
  A file with a second vertex shader header never opens: the loop goes back to its test without moving
  on to the next block.
\<close>

theorem second_header_never_ends:
  assumes "plain_header vs_program vh" "\<forall>b \<in> set (b0 @ b1). other_block b" "gfd \<noteq> 0" "base \<noteq> 0"
    "file = b0 @ [(VERTEX_SHADER_HEADER, vh)] @ b1 @ [(VERTEX_SHADER_HEADER, vh2)] @ rest"
  shows "gfd_open (Some (gfd_bytes file)) gfd base = Inl Never_returns"
proof -
  let ?V = "VERTEX_SHADER_HEADER"
  let ?g0 = "\<lparr>gfd_data = gfd_bytes file, gfd_vs = None, gfd_ps = None\<rparr>"
  let ?g1 = "?g0\<lparr>gfd_vs := Some (pos b0 + 32)\<rparr>"
  have "gfd_loop base (pos []) ?g0 = gfd_loop base (pos ([] @ b0)) ?g0" using assms(2,5) by (intro walk_others) auto
  also have "pos ([] @ b0) = pos b0" by simp
  also have "gfd_loop base (pos b0) ?g0 = gfd_loop base (pos (b0 @ [(?V, vh)])) ?g1"
    using assms(5) by (intro walk_header [OF _ assms(1)]) auto
  also have "\<dots> = gfd_loop base (pos ((b0 @ [(?V, vh)]) @ b1)) ?g1" using assms(2,5) by (intro walk_others) auto
  also have "\<dots> = Inl Never_returns" using assms(5) by (intro second_header_stuck [of _ _ vh2 rest]) simp_all
  finally have "gfd_loop base 32 ?g0 = Inl Never_returns" by (simp add: pos_def)
  then show ?thesis using assms(3,4) check_file_header by (simp add: gfd_open_def gfd_bytes_def)
qed

section \<open>Witnesses\<close>

text \<open>The relocation header of ten words, and a shader header that ends with one.\<close>

definition rel_bytes :: "u32 \<Rightarrow> u32 \<Rightarrow> char list" where
  "rel_bytes count po = be32 GFD_BLOCK_RELOCATIONS_MAGIC @ be32 40 @ be32 0 @ be32 0 @ be32 0 @ be32 0 @ be32 0 @ be32 0 @
     be32 count @ be32 po"

definition demo_header :: "nat \<Rightarrow> char list" where
  "demo_header field = replicate field NUL @ be32 0 @ rel_bytes 0 GFD_RELOCATIONS_DATA"

lemma rel_bytes_at:
  "holds_at d p (rel_bytes count po) \<Longrightarrow> get32 d p = Inr GFD_BLOCK_RELOCATIONS_MAGIC \<and>
     get32 d (p + rel_patchCount) = Inr count \<and> get32 d (p + rel_patchOffset) = Inr po"
  by (auto simp: rel_bytes_def holds_at_split gfd_offsets ac_simps intro: get_holds)

lemma rel_type_data: "rel_type GFD_RELOCATIONS_DATA = GFD_RELOCATIONS_DATA"
  by (simp add: rel_type_def GFD_RELOCATIONS_DATA_def GFD_RELOCATIONS_TYPE_MASK_def)

lemma demo_plain: "field < 1000 \<Longrightarrow> plain_header field (demo_header field)"
proof -
  assume f: "field < 1000"
  have l: "length (demo_header field) = field + 44" by (simp add: demo_header_def rel_bytes_def)
  have "holds_at (demo_header field) field (be32 0)" "holds_at (demo_header field) (field + 4) (rel_bytes 0 GFD_RELOCATIONS_DATA)"
    by (simp_all add: demo_header_def holds_at_def)
  then have "get32 (demo_header field) field = Inr 0" and
    "get32 (demo_header field) (field + 4) = Inr GFD_BLOCK_RELOCATIONS_MAGIC \<and>
     get32 (demo_header field) (field + 4 + rel_patchCount) = Inr 0 \<and>
     get32 (demo_header field) (field + 4 + rel_patchOffset) = Inr GFD_RELOCATIONS_DATA"
    using rel_bytes_at [of "demo_header field" "field + 4" 0 GFD_RELOCATIONS_DATA] get_holds(1) by blast+
  moreover have "length (demo_header field) - rel_size = field + 4" by (simp add: l rel_size_def)
  ultimately show ?thesis using f rel_type_data by (simp add: plain_header_def l)
qed

lemma demo_lengths: "length (demo_header field) = field + 44"
  by (simp add: demo_header_def rel_bytes_def)

definition demo_file :: "(u32 \<times> char list) list" where
  "demo_file = [(VERTEX_SHADER_HEADER, demo_header vs_program), (VERTEX_SHADER_PROGRAM, ''vert''), (PADDING, ''--''),
     (PIXEL_SHADER_HEADER, demo_header ps_program), (PIXEL_SHADER_PROGRAM, ''frag'')]"


theorem second_header_never_ends_witness:
  "gfd_open (Some (gfd_bytes [(VERTEX_SHADER_HEADER, demo_header vs_program), (PADDING, ''--''), (VERTEX_SHADER_HEADER, [])]))
     16 4096 = Inl Never_returns"
proof -
  have "other_block (PADDING, ''--'')" by (simp add: other_block_def block_types PADDING_def)
  then show ?thesis
    using second_header_never_ends [OF demo_plain [of vs_program], of "[]" "[(PADDING, ''--'')]" 16 4096 _ "[]" "[]"]
    by (simp add: gfd_offsets)
qed

text \<open>A block with one reference, to the byte 8 of its data, and one patch that names it.\<close>

definition demo_data :: "char list" where
  "demo_data = be32 0xD0600008 @ be32 0xD0600000 @ rel_bytes 1 0xD0600004"

theorem relocation_sets_pointers_witness:
  "\<exists>d'. gfd_relocate_block 4096 0 (block_bytes (VERTEX_SHADER_HEADER, demo_data)) = Inr (True, d') \<and>
     get32 d' 32 = Inr 4136"
proof -
  let ?d = "block_bytes (VERTEX_SHADER_HEADER, demo_data)"
  have n: "length demo_data = 48" by (simp add: demo_data_def rel_bytes_def)
  have b: "?d = [] @ ?d @ []" by simp
  have "holds_at demo_data 0 (be32 0xD0600008)" "holds_at demo_data 4 (be32 0xD0600000)" "holds_at demo_data 8 (rel_bytes 1 0xD0600004)"
    by (simp_all add: demo_data_def holds_at_def)
  then have w: "get32 demo_data 0 = Inr 0xD0600008" "get32 demo_data 4 = Inr 0xD0600000"
    "get32 demo_data 8 = Inr GFD_BLOCK_RELOCATIONS_MAGIC" "get32 demo_data (8 + rel_patchCount) = Inr 1"
    "get32 demo_data (8 + rel_patchOffset) = Inr 0xD0600004"
    using get_holds(1) [of demo_data 0 "0xD0600008"] get_holds(1) [of demo_data 4 "0xD0600000"]
      rel_bytes_at [of demo_data 8 1 "0xD0600004"] by blast+
  note i = inside_block [OF b refl, unfolded list.size add_0]
  have f: "get32 ?d (0 + block_dataSize) = Inr 48" "get32 ?d 32 = Inr 0xD0600008" "get32 ?d 36 = Inr 0xD0600000"
    "get32 ?d 40 = Inr GFD_BLOCK_RELOCATIONS_MAGIC" "get32 ?d (40 + rel_patchCount) = Inr 1"
    "get32 ?d (40 + rel_patchOffset) = Inr 0xD0600004"
    using block_fields(5) [OF b refl] i [of 0] i [of 4] i [of 8] i [of "8 + rel_patchCount"] i [of "8 + rel_patchOffset"] w n
    by (simp_all add: gfd_offsets)
  have v: "rel_value 0xD0600008 = 8" "rel_value 0xD0600000 = 0" "rel_value 0xD0600004 = 4" "rel_type 0xD0600008 = GFD_RELOCATIONS_DATA"
    "rel_type 0xD0600000 = GFD_RELOCATIONS_DATA" "rel_type 0xD0600004 = GFD_RELOCATIONS_DATA"
    by (simp_all add: rel_value_def rel_type_def GFD_RELOCATIONS_VALUE_MASK_def GFD_RELOCATIONS_TYPE_MASK_def GFD_RELOCATIONS_DATA_def)
  have t: "good_table 32 (40 + rel_patchCount) 36 [0xD0600000] 0 ?d" "targets_apart 32 (40 + rel_patchCount) 36 [0xD0600000]"
    using f v by (auto simp: good_table_def good_patch_def targets_apart_def words_apart_def gfd_offsets)
  have o: "(32 :: nat) = 0 + block_data" "40 = 32 + unat (48 :: u32) - rel_size" "36 = 32 + rel_value 0xD0600004"
    by (simp_all add: gfd_offsets v)
  obtain d' where "gfd_relocate_block 4096 0 ?d = Inr (True, d')"
    "\<forall>p \<in> set [0xD0600000]. p \<noteq> 0 \<longrightarrow> (\<exists>w. get32 ?d (32 + rel_value p) = Inr w \<and>
       get32 d' (32 + rel_value p) = Inr (4096 + of_nat 32 + of_nat (rel_value w)))"
    using relocation_sets_pointers [OF f(1) o(1,2) f(4) f(6) v(6) o(3) t] by blast
  then show ?thesis using f(2) v by simp
qed

end
