(* ===== verification/Gx2Shader.thy ===== *)
theory Gx2Shader
  imports Runtime Elf
begin

text \<open>
  Shaders in use (\<open>shader_utils.c\<close>, first half): the graphics processor cannot read the data section of an
  ELF program, so the programs of a shader are copied to the heap, and the pointers to the originals are
  kept behind the fetch shader until the shader is destroyed. Also here: the comparison of two compiled
  shaders. The calls of the graphics library are parameters; \<open>GX2InitFetchShaderEx\<close> fills the buffer it
  is given and enters its address and size, which are the ones already there. Calls that only
  write back caches are left out.
\<close>

section \<open>State\<close>

text \<open>A shader with the fields the code uses of its four parts; pointers are addresses.\<close>

record gx_shader =
  sh_vs_size :: u32
  sh_vs :: u32
  sh_attribVarCount :: u32
  sh_ps_size :: u32
  sh_ps :: u32
  sh_gs_size :: u32
  sh_gs :: u32
  sh_copy_size :: u32
  sh_copy :: u32
  sh_fs_size :: u32
  sh_fs :: u32

record 'w gx2 =
  gx_fetch_size :: "u32 \<Rightarrow> u32"                       \<comment> \<open>\<open>GX2CalcFetchShaderSizeEx\<close>\<close>
  gx_fetch_code :: "u32 \<Rightarrow> char list"                 \<comment> \<open>what \<open>GX2InitFetchShaderEx\<close> writes\<close>
  gx_set_vertex :: "gx_shader \<Rightarrow> 'w \<Rightarrow> 'w"
  gx_set_pixel :: "gx_shader \<Rightarrow> 'w \<Rightarrow> 'w"
  gx_set_fetch :: "gx_shader \<Rightarrow> 'w \<Rightarrow> 'w"
  gx_set_geometry :: "gx_shader \<Rightarrow> 'w \<Rightarrow> 'w"

text \<open>The blocks of the heap and the programs in the data section.\<close>

record 'w gfx = "'w runtime" +
  statics :: "u32 \<Rightarrow> char list option"

definition GX2_SHADER_ALIGNMENT :: u32 where "GX2_SHADER_ALIGNMENT = 256"

text \<open>The four words of \<open>org_programs_t\<close>.\<close>

definition org_size :: nat where "org_size = 16"

definition org_bytes :: "gx_shader \<Rightarrow> char list" where
  "org_bytes sh = be32 (sh_vs sh) @ be32 (sh_ps sh) @ be32 (sh_gs sh) @ be32 (sh_copy sh)"

section \<open>Memory\<close>

definition block_at :: "u32 \<Rightarrow> ('w, 'z) runtime_scheme \<Rightarrow> fault + char list" where
  "block_at p s =
     (if p = 0 then Inl Null_pointer
      else case blocks s p of None \<Rightarrow> Inl Use_after_free | Some (_, bytes) \<Rightarrow> Inr bytes)"

definition store_bytes :: "u32 \<Rightarrow> nat \<Rightarrow> char list \<Rightarrow> ('w, 'z) gfx_scheme \<Rightarrow> fault + ('w, 'z) gfx_scheme" where
  "store_bytes p off bytes s =
     bindF (block_at p s) (\<lambda>old.
     bindF (write_at old (int off) bytes) (\<lambda>new.
     Inr (s\<lparr>blocks := (blocks s)(p \<mapsto> (fst (the (blocks s p)), new))\<rparr>)))"

text \<open>The bytes a program pointer denotes, on the heap or in the data section.\<close>

definition load_program :: "u32 \<Rightarrow> ('w, 'z) gfx_scheme \<Rightarrow> fault + char list" where
  "load_program p s =
     (if p = 0 then Inl Null_pointer
      else case (blocks s p, statics s p) of
        (Some (_, bytes), _) \<Rightarrow> Inr bytes
      | (None, Some bytes) \<Rightarrow> Inr bytes
      | (None, None) \<Rightarrow> Inl Use_after_free)"

definition org_word :: "gx_shader \<Rightarrow> nat \<Rightarrow> ('w, 'z) gfx_scheme \<Rightarrow> fault + u32" where
  "org_word sh k s = bindF (block_at (sh_fs sh) s) (\<lambda>bytes. get32 bytes (unat (sh_fs_size sh) + 4 * k))"

text \<open>Memory for a program, with the program copied from where an entry of the saved pointers says.\<close>

definition alloc_copy ::
  "'w heaps \<Rightarrow> gx_shader \<Rightarrow> nat \<Rightarrow> u32 \<Rightarrow> ('w, 'z) gfx_scheme \<Rightarrow> fault + u32 \<times> ('w, 'z) gfx_scheme" where
  "alloc_copy hp sh k n s =
     (let (p, s) = MEM2_alloc hp n GX2_SHADER_ALIGNMENT s in
      bindF (org_word sh k s) (\<lambda>src.
      bindF (load_program src s) (\<lambda>program.
      bindF (slice_at program 0 (uint n)) (\<lambda>bytes.
      bindF (store_bytes p 0 bytes s) (\<lambda>s. Inr (p, s))))))"

section \<open>The operations\<close>

definition GX2InitShader ::
  "'w gx2 \<Rightarrow> 'w heaps \<Rightarrow> gx_shader \<Rightarrow> ('w, 'z) gfx_scheme \<Rightarrow> fault + gx_shader \<times> ('w, 'z) gfx_scheme" where
  "GX2InitShader gx hp sh s =
     (if sh_fs sh \<noteq> 0 then Inr (sh, s)
      else
        let sh = sh\<lparr>sh_fs_size := gx_fetch_size gx (sh_attribVarCount sh)\<rparr>;
            (p, s) = MEM2_alloc hp (sh_fs_size sh + of_nat org_size) GX2_SHADER_ALIGNMENT s;
            sh = sh\<lparr>sh_fs := p\<rparr> in
        bindF (store_bytes p 0 (gx_fetch_code gx (sh_attribVarCount sh)) s) (\<lambda>s.
        bindF (store_bytes p (unat (sh_fs_size sh)) (org_bytes sh) s) (\<lambda>s.
        bindF (alloc_copy hp sh 0 (sh_vs_size sh) s) (\<lambda>(v, s).
        bindF (alloc_copy hp sh 1 (sh_ps_size sh) s) (\<lambda>(q, s).
        let sh = sh\<lparr>sh_vs := v, sh_ps := q\<rparr> in
        bindF (org_word sh 2 s) (\<lambda>gs.
        if gs = 0 then Inr (sh, s)
        else
          bindF (alloc_copy hp sh 2 (sh_gs_size sh) s) (\<lambda>(g, s).
          bindF (alloc_copy hp sh 3 (sh_copy_size sh) s) (\<lambda>(c, s).
          Inr (sh\<lparr>sh_gs := g, sh_copy := c\<rparr>, s)))))))))"

definition GX2DestroyShader ::
  "'w heaps \<Rightarrow> gx_shader \<Rightarrow> ('w, 'z) gfx_scheme \<Rightarrow> fault + gx_shader \<times> ('w, 'z) gfx_scheme" where
  "GX2DestroyShader hp sh s =
     bindF (MEM2_free hp (sh_vs sh) s) (\<lambda>s.
     bindF (MEM2_free hp (sh_ps sh) s) (\<lambda>s.
     bindF (MEM2_free hp (sh_gs sh) s) (\<lambda>s.
     bindF (MEM2_free hp (sh_copy sh) s) (\<lambda>s.
     bindF (org_word sh 0 s) (\<lambda>v.
     bindF (org_word sh 1 s) (\<lambda>q.
     bindF (org_word sh 2 s) (\<lambda>g.
     bindF (org_word sh 3 s) (\<lambda>c.
     bindF (MEM2_free hp (sh_fs sh) s) (\<lambda>s.
     Inr (sh\<lparr>sh_vs := v, sh_ps := q, sh_gs := g, sh_copy := c, sh_fs := 0\<rparr>, s))))))))))"

definition GX2SetShader :: "'w gx2 \<Rightarrow> gx_shader \<Rightarrow> ('w, 'z) gfx_scheme \<Rightarrow> ('w, 'z) gfx_scheme" where
  "GX2SetShader gx sh s =
     (let s = sys_do (gx_set_vertex gx sh) s;
          s = sys_do (gx_set_pixel gx sh) s;
          s = sys_do (gx_set_fetch gx sh) s in
      if sh_gs sh \<noteq> 0 then sys_do (gx_set_geometry gx sh) s else s)"

section \<open>Comparing shaders\<close>

text \<open>
  The words of two shaders are compared over the size of the first one; the report lists the positions
  that differ and whether the sizes do.
\<close>

fun differing_words :: "char list \<Rightarrow> char list \<Rightarrow> nat \<Rightarrow> nat \<Rightarrow> fault + nat list" where
  "differing_words shader org i 0 = Inr []"
| "differing_words shader org i (Suc k) =
     bindF (get32 shader (4 * i)) (\<lambda>a.
     bindF (get32 org (4 * i)) (\<lambda>b.
     bindF (differing_words shader org (Suc i) k) (\<lambda>ds.
     Inr (if a \<noteq> b then i # ds else ds))))"

definition check_shader :: "char list \<Rightarrow> u32 \<Rightarrow> char list \<Rightarrow> u32 \<Rightarrow> fault + bool \<times> nat list" where
  "check_shader shader shader_size org org_sz =
     bindF (differing_words shader org 0 (unat (shader_size div 4))) (\<lambda>ds. Inr (shader_size \<noteq> org_sz, ds))"

text \<open>The verdict \<open>no errors\<close>.\<close>

definition no_errors :: "bool \<times> nat list \<Rightarrow> bool" where
  "no_errors r \<longleftrightarrow> \<not> fst r \<and> snd r = []"

section \<open>A heap that works\<close>

text \<open>
  What the heap promises: there is room for some more blocks, a new block is at an address in use for
  nothing else, has at least the size asked for, and nothing else changes; releasing a block does not
  make other addresses free. The handle of the base heap does not change.
\<close>

definition honest_heap :: "'w heaps \<Rightarrow> ('w \<Rightarrow> u32 set) \<Rightarrow> ('w \<Rightarrow> nat) \<Rightarrow> bool" where
  "honest_heap hp taken room \<longleftrightarrow> steady_base hp \<and>
     (\<forall>h n a w. 0 < room w \<longrightarrow> (\<exists>p bytes w'. hp_alloc hp h n a w = ((p, bytes), w') \<and> p \<noteq> 0 \<and> p \<notin> taken w \<and>
        unat n \<le> length bytes \<and> insert p (taken w) \<subseteq> taken w' \<and> room w \<le> Suc (room w'))) \<and>
     (\<forall>h p w. taken w - {p} \<subseteq> taken (hp_free hp h p w) \<and> room w \<le> room (hp_free hp h p w))"

definition base_of :: "'w heaps \<Rightarrow> ('w, 'z) gfx_scheme \<Rightarrow> u32" where
  "base_of hp s = hp_base hp MEM_BASE_HEAP_MEM2 (world s)"

definition accounted :: "('w \<Rightarrow> u32 set) \<Rightarrow> ('w, 'z) gfx_scheme \<Rightarrow> bool" where
  "accounted taken s \<longleftrightarrow> dom (blocks s) \<union> dom (statics s) \<subseteq> taken (world s)"

lemma honest_alloc:
  assumes "honest_heap hp taken room" "0 < room w"
  shows "\<exists>p bytes w'. hp_alloc hp h n a w = ((p, bytes), w') \<and> p \<noteq> 0 \<and> p \<notin> taken w \<and>
    unat n \<le> length bytes \<and> insert p (taken w) \<subseteq> taken w' \<and> room w \<le> Suc (room w')"
  using assms unfolding honest_heap_def by simp

lemma honest_base: "honest_heap hp taken room \<Longrightarrow> base_of hp t = base_of hp s"
  using steady_baseD [of hp "world t" "world s"] by (simp add: honest_heap_def base_of_def)

lemma MEM2_alloc_run:
  assumes "honest_heap hp taken room" "accounted taken s" "k < room (world s)"
  shows "\<exists>p bytes w. MEM2_alloc hp n a s = (p, s\<lparr>world := w, blocks := (blocks s)(p \<mapsto> (base_of hp s, bytes))\<rparr>) \<and> p \<noteq> 0 \<and>
    blocks s p = None \<and> statics s p = None \<and> unat n \<le> length bytes \<and>
    accounted taken (s\<lparr>world := w, blocks := (blocks s)(p \<mapsto> (base_of hp s, bytes))\<rparr>) \<and> k \<le> room w"
proof -
  have "0 < room (world s)" using assms(3) by simp
  then obtain p bytes w where r: "hp_alloc hp (base_of hp s) n a (world s) = ((p, bytes), w)" "p \<noteq> 0" "p \<notin> taken (world s)"
    "unat n \<le> length bytes" "insert p (taken (world s)) \<subseteq> taken w" "room (world s) \<le> Suc (room w)"
    using honest_alloc [OF assms(1), of "world s" "base_of hp s" n a] by blast
  have "MEM2_alloc hp n a s = (p, s\<lparr>world := w, blocks := (blocks s)(p \<mapsto> (base_of hp s, bytes))\<rparr>)"
    using r(1,2) by (simp add: MEM2_alloc_def exp_alloc_def sysc_def base_of_def)
  then show ?thesis using r(2-6) assms(2,3) by (intro exI [of _ p] exI [of _ bytes] exI [of _ w]) (auto simp: accounted_def)
qed

lemma MEM2_free_run:
  assumes "p \<noteq> 0" "blocks s p = Some (base_of hp s, bytes)"
  shows "\<exists>w. MEM2_free hp p s = Inr (s\<lparr>world := w, blocks := (blocks s)(p := None)\<rparr>)"
  using assms by (auto simp: MEM2_free_def exp_free_def sys_do_def base_of_def)

section \<open>The saved pointers\<close>

text \<open>The block of the fetch shader holds the four pointers behind the code.\<close>

definition saved :: "gx_shader \<Rightarrow> gx_shader \<Rightarrow> ('w, 'z) gfx_scheme \<Rightarrow> bool" where
  "saved old sh s \<longleftrightarrow> sh_fs sh \<noteq> 0 \<and> (\<exists>h bytes. blocks s (sh_fs sh) = Some (h, bytes) \<and>
     holds_at bytes (unat (sh_fs_size sh)) (org_bytes old))"

lemma org_words:
  assumes "saved old sh s"
  shows "org_word sh 0 s = Inr (sh_vs old)" "org_word sh 1 s = Inr (sh_ps old)" "org_word sh 2 s = Inr (sh_gs old)"
    "org_word sh 3 s = Inr (sh_copy old)"
proof -
  obtain h bytes where b: "blocks s (sh_fs sh) = Some (h, bytes)" "sh_fs sh \<noteq> 0"
    "holds_at bytes (unat (sh_fs_size sh)) (org_bytes old)" using assms unfolding saved_def by blast
  let ?o = "unat (sh_fs_size sh)"
  have "holds_at bytes ?o (be32 (sh_vs old))" "holds_at bytes (?o + 4) (be32 (sh_ps old))"
    "holds_at bytes (?o + 8) (be32 (sh_gs old))" "holds_at bytes (?o + 12) (be32 (sh_copy old))"
    using b(3) by (simp_all add: org_bytes_def holds_at_split ac_simps)
  then show "org_word sh 0 s = Inr (sh_vs old)" "org_word sh 1 s = Inr (sh_ps old)" "org_word sh 2 s = Inr (sh_gs old)"
    "org_word sh 3 s = Inr (sh_copy old)"
    using b(1,2) by (simp_all add: org_word_def block_at_def get_holds)
qed

text \<open>One program: a new block that starts with it, everything else as before.\<close>

lemma alloc_copy_run:
  assumes "honest_heap hp taken room" "accounted taken s" "k < room (world s)" "saved old sh s"
    "org_word sh j s = Inr src" "src \<noteq> 0" "blocks s src = None" "statics s src = Some prog" "unat n \<le> length prog"
  shows "\<exists>p bytes w. alloc_copy hp sh j n s = Inr (p, s\<lparr>world := w, blocks := (blocks s)(p \<mapsto> (base_of hp s, bytes))\<rparr>) \<and>
    p \<noteq> 0 \<and> blocks s p = None \<and> statics s p = None \<and> take (unat n) bytes = take (unat n) prog \<and>
    accounted taken (s\<lparr>world := w, blocks := (blocks s)(p \<mapsto> (base_of hp s, bytes))\<rparr>) \<and> k \<le> room w"
proof -
  from MEM2_alloc_run [OF assms(1-3), of n GX2_SHADER_ALIGNMENT] obtain p bytes w where
    a: "MEM2_alloc hp n GX2_SHADER_ALIGNMENT s = (p, s\<lparr>world := w, blocks := (blocks s)(p \<mapsto> (base_of hp s, bytes))\<rparr>)"
    "p \<noteq> 0" "blocks s p = None" "statics s p = None" "unat n \<le> length bytes"
    "accounted taken (s\<lparr>world := w, blocks := (blocks s)(p \<mapsto> (base_of hp s, bytes))\<rparr>)" "k \<le> room w" by blast
  let ?s = "s\<lparr>world := w, blocks := (blocks s)(p \<mapsto> (base_of hp s, bytes))\<rparr>"
  obtain f where "sh_fs sh \<noteq> 0" "blocks s (sh_fs sh) = Some f" using assms(4) unfolding saved_def by blast
  then have o: "org_word sh j ?s = Inr src" using assms(5) a(3) by (cases "sh_fs sh = p") (simp_all add: org_word_def block_at_def)
  have l: "load_program src ?s = Inr prog" using assms(6-8) a(4) by (auto simp: load_program_def)
  have sl: "slice_at prog 0 (uint n) = Inr (take (unat n) prog)"
  proof -
    have "uint n \<le> int (length prog)" using assms(9) by (metis uint_nat of_nat_le_iff)
    then show ?thesis by (simp add: slice_at_def)
  qed
  let ?new = "take (unat n) prog @ drop (unat n) bytes"
  have wr: "write_at bytes 0 (take (unat n) prog) = Inr ?new"
    using a(5) assms(9) by (simp add: write_at_Inr_iff min_absorb2)
  have "alloc_copy hp sh j n s = Inr (p, s\<lparr>world := w, blocks := (blocks s)(p \<mapsto> (base_of hp s, ?new))\<rparr>)"
    using a(2) o l sl wr by (simp add: alloc_copy_def a(1) store_bytes_def block_at_def)
  moreover have "accounted taken (s\<lparr>world := w, blocks := (blocks s)(p \<mapsto> (base_of hp s, ?new))\<rparr>)"
    using a(6) by (simp add: accounted_def)
  moreover have "take (unat n) ?new = take (unat n) prog" using assms(9) by simp
  ultimately show ?thesis using a(2,3,4,7) by blast
qed

text \<open>A program in the data section, at least as long as its size says.\<close>

definition has_program :: "u32 \<Rightarrow> u32 \<Rightarrow> ('w, 'z) gfx_scheme \<Rightarrow> bool" where
  "has_program p n s \<longleftrightarrow> p \<noteq> 0 \<and> blocks s p = None \<and> (\<exists>prog. statics s p = Some prog \<and> unat n \<le> length prog)"

definition program_copied :: "u32 \<Rightarrow> u32 \<Rightarrow> u32 \<Rightarrow> ('w, 'z) gfx_scheme \<Rightarrow> ('w, 'z) gfx_scheme \<Rightarrow> bool" where
  "program_copied p src n s s' \<longleftrightarrow> p \<noteq> 0 \<and> (\<exists>h bytes. blocks s' p = Some (h, bytes) \<and>
     take (unat n) bytes = take (unat n) (the (statics s src)))"

text \<open>The state with some new blocks of the base heap.\<close>

definition grown :: "'w heaps \<Rightarrow> ('w \<Rightarrow> u32 set) \<Rightarrow> ('w \<Rightarrow> nat) \<Rightarrow> nat \<Rightarrow> gx_shader \<Rightarrow> gx_shader \<Rightarrow>
   (u32 \<Rightarrow> char list option) \<Rightarrow> ('w, 'z) gfx_scheme \<Rightarrow> ('w, 'z) gfx_scheme \<Rightarrow> bool" where
  "grown hp taken room k old sh new s t \<longleftrightarrow>
     (\<exists>w. t = s\<lparr>world := w, blocks := (\<lambda>p. case new p of Some b \<Rightarrow> Some (base_of hp s, b) | None \<Rightarrow> blocks s p)\<rparr>) \<and>
     (\<forall>p. new p \<noteq> None \<longrightarrow> p \<noteq> 0 \<and> blocks s p = None \<and> statics s p = None) \<and>
     accounted taken t \<and> k \<le> room (world t) \<and> saved old sh t"

lemma grown_step:
  assumes "honest_heap hp taken room" "grown hp taken room (Suc k) old sh new s t" "org_word sh j t = Inr src"
    "has_program src n s"
  shows "\<exists>p bytes t'. alloc_copy hp sh j n t = Inr (p, t') \<and> new p = None \<and> p \<noteq> 0 \<and>
    take (unat n) bytes = take (unat n) (the (statics s src)) \<and> grown hp taken room k old sh (new(p \<mapsto> bytes)) s t'"
proof -
  from assms(2) obtain w where
    t: "t = s\<lparr>world := w, blocks := (\<lambda>p. case new p of Some b \<Rightarrow> Some (base_of hp s, b) | None \<Rightarrow> blocks s p)\<rparr>"
    and fresh: "\<And>p. new p \<noteq> None \<Longrightarrow> p \<noteq> 0 \<and> blocks s p = None \<and> statics s p = None"
    and inv: "accounted taken t" "k < room (world t)" "saved old sh t"
    unfolding grown_def by auto
  obtain prog where prog: "src \<noteq> 0" "blocks s src = None" "statics s src = Some prog" "unat n \<le> length prog"
    using assms(4) unfolding has_program_def by blast
  have "new src = None" using fresh [of src] prog(3) by (cases "new src") auto
  then have "blocks t src = None" "statics t src = Some prog" using prog(2,3) by (simp_all add: t)
  from alloc_copy_run [OF assms(1) inv assms(3) prog(1) this prog(4)] obtain p bytes v where
    r: "alloc_copy hp sh j n t = Inr (p, t\<lparr>world := v, blocks := (blocks t)(p \<mapsto> (base_of hp t, bytes))\<rparr>)"
    "p \<noteq> 0" "blocks t p = None" "statics t p = None" "take (unat n) bytes = take (unat n) prog"
    "accounted taken (t\<lparr>world := v, blocks := (blocks t)(p \<mapsto> (base_of hp t, bytes))\<rparr>)" "k \<le> room v" by blast
  let ?t = "t\<lparr>world := v, blocks := (blocks t)(p \<mapsto> (base_of hp t, bytes))\<rparr>"
  have n: "new p = None" "blocks s p = None" using r(3) by (auto simp: t split: option.splits)
  have b: "base_of hp t = base_of hp s" by (rule honest_base [OF assms(1)])
  have "?t = s\<lparr>world := v, blocks := (\<lambda>q. case (new(p \<mapsto> bytes)) q of Some b \<Rightarrow> Some (base_of hp s, b) | None \<Rightarrow> blocks s q)\<rparr>"
    unfolding b by (simp add: t) (rule arg_cong [where f = "\<lambda>b. s\<lparr>world := v, blocks := b\<rparr>"], auto)
  moreover have "saved old sh ?t" using inv(3) r(3) unfolding saved_def by auto
  moreover have "\<forall>q. (new(p \<mapsto> bytes)) q \<noteq> None \<longrightarrow> q \<noteq> 0 \<and> blocks s q = None \<and> statics s q = None"
    using fresh r(2,4) n(2) by (auto simp: t)
  ultimately have "grown hp taken room k old sh (new(p \<mapsto> bytes)) s ?t"
    unfolding grown_def using r(6,7) by auto
  then show ?thesis using r(1,2,5) n(1) prog(3) by auto
qed

text \<open>Releasing one of the new blocks.\<close>

definition shrunk :: "'w heaps \<Rightarrow> (u32 \<Rightarrow> char list option) \<Rightarrow> ('w, 'z) gfx_scheme \<Rightarrow> ('w, 'z) gfx_scheme \<Rightarrow> bool" where
  "shrunk hp new s t \<longleftrightarrow>
     (\<exists>w. t = s\<lparr>world := w, blocks := (\<lambda>p. case new p of Some b \<Rightarrow> Some (base_of hp s, b) | None \<Rightarrow> blocks s p)\<rparr>) \<and>
     (\<forall>p. new p \<noteq> None \<longrightarrow> p \<noteq> 0 \<and> blocks s p = None)"

lemma shrunk_step:
  assumes "honest_heap hp taken room" "shrunk hp new s t" "new p = Some bytes"
  shows "\<exists>t'. MEM2_free hp p t = Inr t' \<and> shrunk hp (new(p := None)) s t'"
proof -
  from assms(2) obtain w where
    t: "t = s\<lparr>world := w, blocks := (\<lambda>p. case new p of Some b \<Rightarrow> Some (base_of hp s, b) | None \<Rightarrow> blocks s p)\<rparr>"
    and fresh: "\<And>p. new p \<noteq> None \<Longrightarrow> p \<noteq> 0 \<and> blocks s p = None" unfolding shrunk_def by auto
  have p: "p \<noteq> 0" "blocks s p = None" using fresh [of p] assms(3) by auto
  have b: "base_of hp t = base_of hp s" by (rule honest_base [OF assms(1)])
  have "blocks t p = Some (base_of hp t, bytes)" using assms(3) by (simp add: t b [unfolded t])
  from MEM2_free_run [OF p(1) this] obtain v where v: "MEM2_free hp p t = Inr (t\<lparr>world := v, blocks := (blocks t)(p := None)\<rparr>)" ..
  have "t\<lparr>world := v, blocks := (blocks t)(p := None)\<rparr> =
      s\<lparr>world := v, blocks := (\<lambda>q. case (new(p := None)) q of Some b \<Rightarrow> Some (base_of hp s, b) | None \<Rightarrow> blocks s q)\<rparr>"
    by (simp add: t) (rule arg_cong [where f = "\<lambda>b. s\<lparr>world := v, blocks := b\<rparr>"], use p(2) in auto)
  then show ?thesis using v fresh unfolding shrunk_def by auto
qed

text \<open>The block of the fetch shader, with the code and the saved pointers.\<close>

lemma fetch_block_run:
  fixes s :: "('w, 'z) gfx_scheme"
  assumes "honest_heap hp taken room" "accounted taken s" "k < room (world s)"
    "unat sz + org_size < 2 ^ 32" "length code \<le> unat sz"
  shows "\<exists>p bytes t u t'. MEM2_alloc hp (sz + of_nat org_size) GX2_SHADER_ALIGNMENT s = (p, t) \<and> p \<noteq> 0 \<and>
    store_bytes p 0 code t = Inr u \<and> store_bytes p (unat sz) (org_bytes sh) u = Inr t' \<and>
    grown hp taken room k sh (sh\<lparr>sh_fs_size := sz, sh_fs := p\<rparr>) [p \<mapsto> bytes] s t'"
proof -
  from MEM2_alloc_run [OF assms(1-3), of "sz + of_nat org_size" GX2_SHADER_ALIGNMENT] obtain p bytes w where
    a: "MEM2_alloc hp (sz + of_nat org_size) GX2_SHADER_ALIGNMENT s =
      (p, s\<lparr>world := w, blocks := (blocks s)(p \<mapsto> (base_of hp s, bytes))\<rparr>)"
    "p \<noteq> 0" "blocks s p = None" "statics s p = None" "unat (sz + of_nat org_size) \<le> length bytes"
    "accounted taken (s\<lparr>world := w, blocks := (blocks s)(p \<mapsto> (base_of hp s, bytes))\<rparr>)" "k \<le> room w" by blast
  let ?B = "base_of hp s"
  let ?st = "\<lambda>b. s\<lparr>world := w, blocks := (blocks s)(p \<mapsto> (?B, b))\<rparr>"
  have l: "unat sz + 16 \<le> length bytes" using a(5) assms(4) by (simp add: org_size_def unat_word_ariths)
  let ?b1 = "code @ drop (length code) bytes"
  have 1: "store_bytes p 0 code (?st bytes) = Inr (?st ?b1)"
    using a(2) l assms(5) by (simp add: store_bytes_def block_at_def write_at_Inr)
  have lb: "length ?b1 = length bytes" using l assms(5) by simp
  let ?b2 = "take (unat sz) ?b1 @ org_bytes sh @ drop (unat sz + 16) ?b1"
  have ol: "length (org_bytes sh) = 16" by (simp add: org_bytes_def)
  have wr: "write_at ?b1 (int (unat sz)) (org_bytes sh) = Inr ?b2"
    using l lb ol by (simp add: write_at_Inr_iff)
  have 2: "store_bytes p (unat sz) (org_bytes sh) (?st ?b1) = Inr (?st ?b2)"
    using a(2) wr by (simp add: store_bytes_def block_at_def)
  have "holds_at ?b2 (unat sz) (org_bytes sh)" using l lb ol by (simp add: holds_at_def)
  then have "saved sh (sh\<lparr>sh_fs_size := sz, sh_fs := p\<rparr>) (?st ?b2)" using a(2) by (simp add: saved_def)
  moreover have "accounted taken (?st ?b2)" using a(6) by (simp add: accounted_def)
  moreover have "?st ?b2 = s\<lparr>world := w, blocks := (\<lambda>q. case [p \<mapsto> ?b2] q of Some b \<Rightarrow> Some (?B, b) | None \<Rightarrow> blocks s q)\<rparr>"
    by (rule arg_cong [where f = "\<lambda>b. s\<lparr>world := w, blocks := b\<rparr>"]) auto
  ultimately have "grown hp taken room k sh (sh\<lparr>sh_fs_size := sz, sh_fs := p\<rparr>) [p \<mapsto> ?b2] s (?st ?b2)"
    unfolding grown_def using a(2-4,7) by (auto split: if_splits)
  then show ?thesis using a(1,2) 1 2 by blast
qed

lemma grown_saved: "grown hp taken room k old sh new s t \<Longrightarrow> saved old sh t"
  by (simp add: grown_def)

lemma grown_shrunk: "grown hp taken room k old sh new s t \<Longrightarrow> shrunk hp new s t"
  unfolding grown_def shrunk_def by blast

lemma saved_cong: "sh_fs sh' = sh_fs sh \<Longrightarrow> sh_fs_size sh' = sh_fs_size sh \<Longrightarrow> saved old sh' s = saved old sh s"
  by (simp add: saved_def)

lemma grown_holds:
  "grown hp taken room k old sh new s t \<Longrightarrow> new p = Some bytes \<Longrightarrow> take (unat n) bytes = take (unat n) (the (statics s src)) \<Longrightarrow>
   program_copied p src n s t"
  by (auto simp: grown_def program_copied_def)

text \<open>Releasing all new blocks, the fetch shader last, reads the saved pointers on the way.\<close>

lemma shrunk_saved:
  assumes "shrunk hp new s t" "new f = Some bytes" "sh_fs sh = f" "holds_at bytes (unat (sh_fs_size sh)) (org_bytes old)"
  shows "saved old sh t"
  using assms by (fastforce simp: shrunk_def saved_def)

lemma destroy_run:
  assumes "honest_heap hp taken room" "grown hp taken room k old sh0 new s t"
    "sh_fs sh = sh_fs sh0" "sh_fs_size sh = sh_fs_size sh0" "new (sh_fs sh) = Some b"
    "set [x \<leftarrow> [sh_vs sh, sh_ps sh, sh_gs sh, sh_copy sh]. x \<noteq> 0] \<union> {sh_fs sh} = dom new"
    "distinct ([x \<leftarrow> [sh_vs sh, sh_ps sh, sh_gs sh, sh_copy sh]. x \<noteq> 0] @ [sh_fs sh])"
  shows "\<exists>t'. GX2DestroyShader hp sh t = Inr (sh\<lparr>sh_vs := sh_vs old, sh_ps := sh_ps old, sh_gs := sh_gs old,
     sh_copy := sh_copy old, sh_fs := 0\<rparr>, t') \<and> blocks t' = blocks s"
proof -
  have free: "\<exists>u'. MEM2_free hp p u = Inr u' \<and> shrunk hp (if p = 0 then m else m(p := None)) s u'"
    if "shrunk hp m s u" "p \<noteq> 0 \<Longrightarrow> m p \<noteq> None" for m u p
  proof (cases "p = 0")
    case True
    then show ?thesis using that(1) by (simp add: MEM2_free_def)
  next
    case False
    then show ?thesis using shrunk_step [OF assms(1) that(1)] that(2) by fastforce
  qed
  define m1 where "m1 = (if sh_vs sh = 0 then new else new(sh_vs sh := None))"
  define m2 where "m2 = (if sh_ps sh = 0 then m1 else m1(sh_ps sh := None))"
  define m3 where "m3 = (if sh_gs sh = 0 then m2 else m2(sh_gs sh := None))"
  define m4 where "m4 = (if sh_copy sh = 0 then m3 else m3(sh_copy sh := None))"
  have i: "p \<noteq> 0 \<Longrightarrow> new p \<noteq> None" if "p \<in> {sh_vs sh, sh_ps sh, sh_gs sh, sh_copy sh}" for p
    using assms(6) that by (auto split: if_splits)
  have nf: "p \<noteq> 0 \<longrightarrow> p \<noteq> sh_fs sh" if "p \<in> {sh_vs sh, sh_ps sh, sh_gs sh, sh_copy sh}" for p
    using assms(7) that by (auto split: if_splits)
  have k: "sh_vs sh \<noteq> 0 \<Longrightarrow> new (sh_vs sh) \<noteq> None" "sh_ps sh \<noteq> 0 \<Longrightarrow> m1 (sh_ps sh) \<noteq> None"
    "sh_gs sh \<noteq> 0 \<Longrightarrow> m2 (sh_gs sh) \<noteq> None" "sh_copy sh \<noteq> 0 \<Longrightarrow> m3 (sh_copy sh) \<noteq> None"
    using i [of "sh_vs sh"] i [of "sh_ps sh"] i [of "sh_gs sh"] i [of "sh_copy sh"] assms(7)
    by (auto simp: m1_def m2_def m3_def split: if_splits)
  obtain u1 where u1: "MEM2_free hp (sh_vs sh) t = Inr u1" "shrunk hp m1 s u1"
    using free [OF grown_shrunk [OF assms(2)] k(1)] unfolding m1_def by blast
  obtain u2 where u2: "MEM2_free hp (sh_ps sh) u1 = Inr u2" "shrunk hp m2 s u2"
    using free [OF u1(2) k(2)] unfolding m2_def by blast
  obtain u3 where u3: "MEM2_free hp (sh_gs sh) u2 = Inr u3" "shrunk hp m3 s u3"
    using free [OF u2(2) k(3)] unfolding m3_def by blast
  obtain u4 where u4: "MEM2_free hp (sh_copy sh) u3 = Inr u4" "shrunk hp m4 s u4"
    using free [OF u3(2) k(4)] unfolding m4_def by blast
  have "m1 (sh_fs sh) = Some b" using assms(5) nf [of "sh_vs sh"] by (auto simp: m1_def)
  then have "m2 (sh_fs sh) = Some b" using nf [of "sh_ps sh"] by (auto simp: m2_def)
  then have "m3 (sh_fs sh) = Some b" using nf [of "sh_gs sh"] by (auto simp: m3_def)
  then have f4: "m4 (sh_fs sh) = Some b" using nf [of "sh_copy sh"] by (auto simp: m4_def)
  have "holds_at b (unat (sh_fs_size sh)) (org_bytes old)"
    using assms(2-5) unfolding grown_def saved_def by (auto split: option.splits)
  from shrunk_saved [OF u4(2) f4 refl this] have sv: "saved old sh u4" .
  from shrunk_step [OF assms(1) u4(2) f4] obtain u5 where
    u5: "MEM2_free hp (sh_fs sh) u4 = Inr u5" "shrunk hp (m4(sh_fs sh := None)) s u5" by blast
  have only: "q = sh_fs sh" if "m4 q \<noteq> None" for q
  proof -
    have 3: "m3 q \<noteq> None" "sh_copy sh \<noteq> 0 \<longrightarrow> q \<noteq> sh_copy sh" using that by (auto simp: m4_def split: if_splits)
    then have 2: "m2 q \<noteq> None" "sh_gs sh \<noteq> 0 \<longrightarrow> q \<noteq> sh_gs sh" by (auto simp: m3_def split: if_splits)
    then have 1: "m1 q \<noteq> None" "sh_ps sh \<noteq> 0 \<longrightarrow> q \<noteq> sh_ps sh" by (auto simp: m2_def split: if_splits)
    then have 0: "new q \<noteq> None" "sh_vs sh \<noteq> 0 \<longrightarrow> q \<noteq> sh_vs sh" by (auto simp: m1_def split: if_splits)
    then have "q \<in> set [x \<leftarrow> [sh_vs sh, sh_ps sh, sh_gs sh, sh_copy sh]. x \<noteq> 0] \<union> {sh_fs sh}" unfolding assms(6) by blast
    then show ?thesis using 0(2) 1(2) 2(2) 3(2) by (auto split: if_splits)
  qed
  have "m4(sh_fs sh := None) = Map.empty"
  proof
    fix q show "(m4(sh_fs sh := None)) q = None" using only [of q] by (cases "m4 q") auto
  qed
  then have "blocks u5 = blocks s" using u5(2) by (auto simp: shrunk_def)
  then show ?thesis using u1(1) u2(1) u3(1) u4(1) u5(1) org_words [OF sv] by (simp add: GX2DestroyShader_def)
qed

section \<open>The verdict of the comparison\<close>

lemma differing_words_iff:
  "differing_words shader org i k = Inr ds \<Longrightarrow>
   set ds = {j. i \<le> j \<and> j < i + k \<and> get32 shader (4 * j) \<noteq> get32 org (4 * j)}"
proof (induction k arbitrary: i ds)
  case (Suc k)
  from Suc.prems obtain a b ds' where r: "get32 shader (4 * i) = Inr a" "get32 org (4 * i) = Inr b"
    "differing_words shader org (Suc i) k = Inr ds'" "ds = (if a \<noteq> b then i # ds' else ds')" by (auto simp: fault_simps)
  have "{j. i \<le> j \<and> j < i + Suc k \<and> get32 shader (4 * j) \<noteq> get32 org (4 * j)} =
      (if a \<noteq> b then {i} else {}) \<union> {j. Suc i \<le> j \<and> j < Suc i + k \<and> get32 shader (4 * j) \<noteq> get32 org (4 * j)}"
    using r(1,2) by (auto simp: le_eq_less_or_eq)
  then show ?case using Suc.IH [OF r(3)] r(4) by simp
qed simp

lemma check_shader_verdict:
  assumes "check_shader shader n org m = Inr r"
  shows "no_errors r \<longleftrightarrow> n = m \<and> (\<forall>i < unat (n div 4). get32 shader (4 * i) = get32 org (4 * i))"
proof -
  obtain ds where r: "differing_words shader org 0 (unat (n div 4)) = Inr ds" "r = (n \<noteq> m, ds)"
    using assms by (auto simp: check_shader_def fault_simps)
  have "ds = [] \<longleftrightarrow> set ds = {}" by simp
  then show ?thesis using differing_words_iff [OF r(1)] r(2) by (auto simp: no_errors_def)
qed

section \<open>Properties\<close>

text \<open>C35: 
  Setting up a shader and destroying it: with programs in the data section and a heap with room for five
  blocks, setting up gives each part of the shader a block that starts with its program, and destroying
  the shader gives back the pointers to the originals and the heap as it was.
\<close>

theorem destroy_undoes_init:
  fixes s :: "('w, 'z) gfx_scheme"
  assumes "honest_heap hp taken room" "accounted taken s" "5 \<le> room (world s)" "sh_fs sh = 0"
    "sz = gx_fetch_size gx (sh_attribVarCount sh)" "unat sz + org_size < 2 ^ 32"
    "length (gx_fetch_code gx (sh_attribVarCount sh)) \<le> unat sz"
    "has_program (sh_vs sh) (sh_vs_size sh) s" "has_program (sh_ps sh) (sh_ps_size sh) s"
    "sh_gs sh = 0 \<and> sh_copy sh = 0 \<or>
     has_program (sh_gs sh) (sh_gs_size sh) s \<and> has_program (sh_copy sh) (sh_copy_size sh) s"
  shows "\<exists>sh1 s1 s2. GX2InitShader gx hp sh s = Inr (sh1, s1) \<and>
    program_copied (sh_vs sh1) (sh_vs sh) (sh_vs_size sh) s s1 \<and> program_copied (sh_ps sh1) (sh_ps sh) (sh_ps_size sh) s s1 \<and>
    (sh_gs sh \<noteq> 0 \<longrightarrow> program_copied (sh_gs sh1) (sh_gs sh) (sh_gs_size sh) s s1 \<and>
      program_copied (sh_copy sh1) (sh_copy sh) (sh_copy_size sh) s s1) \<and>
    GX2DestroyShader hp sh1 s1 = Inr (sh\<lparr>sh_fs_size := sz\<rparr>, s2) \<and> blocks s2 = blocks s"
proof -
  have "4 < room (world s)" using assms(3) by simp
  from fetch_block_run [OF assms(1,2) this assms(6,7), of "sh\<lparr>sh_fs_size := sz\<rparr>"] obtain f b0 t0 u0 t where
    f: "MEM2_alloc hp (sz + of_nat org_size) GX2_SHADER_ALIGNMENT s = (f, t0)" "f \<noteq> 0"
    "store_bytes f 0 (gx_fetch_code gx (sh_attribVarCount sh)) t0 = Inr u0"
    "store_bytes f (unat sz) (org_bytes (sh\<lparr>sh_fs_size := sz\<rparr>)) u0 = Inr t"
    "grown hp taken room 4 (sh\<lparr>sh_fs_size := sz\<rparr>) (sh\<lparr>sh_fs_size := sz, sh_fs := f\<rparr>) [f \<mapsto> b0] s t" by auto
  let ?old = "sh\<lparr>sh_fs_size := sz\<rparr>" and ?sh = "sh\<lparr>sh_fs_size := sz, sh_fs := f\<rparr>"
  have ob: "org_bytes ?sh = org_bytes ?old" by (simp add: org_bytes_def)
  have w: "org_word ?sh 0 u = Inr (sh_vs sh)" "org_word ?sh 1 u = Inr (sh_ps sh)" "org_word ?sh 2 u = Inr (sh_gs sh)"
    "org_word ?sh 3 u = Inr (sh_copy sh)" if "grown hp taken room k ?old ?sh m s u" for k m u
    using org_words [OF grown_saved [OF that]] by simp_all
  have n4: "4 = Suc 3" "3 = Suc 2" "2 = Suc 1" "1 = Suc 0" by simp_all
  from grown_step [OF assms(1) f(5) [unfolded n4(1)] w(1) [OF f(5)] assms(8)] obtain v b1 t1 where
    v: "alloc_copy hp ?sh 0 (sh_vs_size sh) t = Inr (v, t1)" "[f \<mapsto> b0] v = None" "v \<noteq> 0"
    "take (unat (sh_vs_size sh)) b1 = take (unat (sh_vs_size sh)) (the (statics s (sh_vs sh)))"
    "grown hp taken room 3 ?old ?sh ([f \<mapsto> b0, v \<mapsto> b1]) s t1" by blast
  from grown_step [OF assms(1) v(5) [unfolded n4(2)] w(2) [OF v(5)] assms(9)] obtain q b2 t2 where
    q: "alloc_copy hp ?sh 1 (sh_ps_size sh) t1 = Inr (q, t2)" "[f \<mapsto> b0, v \<mapsto> b1] q = None" "q \<noteq> 0"
    "take (unat (sh_ps_size sh)) b2 = take (unat (sh_ps_size sh)) (the (statics s (sh_ps sh)))"
    "grown hp taken room 2 ?old ?sh ([f \<mapsto> b0, v \<mapsto> b1, q \<mapsto> b2]) s t2" by blast
  have d: "v \<noteq> f" "q \<noteq> f" "q \<noteq> v" using v(2) q(2) by (auto split: if_splits)
  let ?sh2 = "?sh\<lparr>sh_vs := v, sh_ps := q\<rparr>"
  have w2: "org_word ?sh2 k t2 = org_word ?sh k t2" for k by (simp add: org_word_def)
  note start = f(1-4) v(1) q(1) assms(4)
  show ?thesis
  proof (cases "sh_gs sh = 0")
    case True
    then have z: "sh_copy sh = 0" using assms(10) by (auto simp: has_program_def)
    have run: "GX2InitShader gx hp sh s = Inr (?sh2, t2)"
      using start True w(3) [OF q(5)] w2 ob by (simp add: GX2InitShader_def assms(5) [symmetric])
    have "\<exists>t'. GX2DestroyShader hp ?sh2 t2 = Inr (?sh2\<lparr>sh_vs := sh_vs ?old, sh_ps := sh_ps ?old, sh_gs := sh_gs ?old,
       sh_copy := sh_copy ?old, sh_fs := 0\<rparr>, t') \<and> blocks t' = blocks s"
      by (rule destroy_run [OF assms(1) q(5), where b = b0]) (use d True z f(2) v(3) q(3) in \<open>auto simp: insert_commute\<close>)
    moreover have "?sh2\<lparr>sh_vs := sh_vs ?old, sh_ps := sh_ps ?old, sh_gs := sh_gs ?old, sh_copy := sh_copy ?old, sh_fs := 0\<rparr> = ?old"
      using assms(4) by simp
    moreover have "program_copied v (sh_vs sh) (sh_vs_size sh) s t2" "program_copied q (sh_ps sh) (sh_ps_size sh) s t2"
      using grown_holds [OF q(5) _ v(4)] grown_holds [OF q(5) _ q(4)] d v(3) q(3) by auto
    ultimately show ?thesis using run True by auto
  next
    case False
    then have hg: "has_program (sh_gs sh) (sh_gs_size sh) s" "has_program (sh_copy sh) (sh_copy_size sh) s"
      using assms(10) by auto
    have w': "org_word ?sh2 k u = org_word ?sh k u" for k and u :: "('w, 'z) gfx_scheme" by (simp add: org_word_def)
    have ac: "alloc_copy hp ?sh2 k n u = alloc_copy hp ?sh k n u" for k n and u :: "('w, 'z) gfx_scheme"
      by (simp add: alloc_copy_def w')
    from grown_step [OF assms(1) q(5) [unfolded n4(3)] w(3) [OF q(5)] hg(1)] obtain g b3 t3 where
      g: "alloc_copy hp ?sh 2 (sh_gs_size sh) t2 = Inr (g, t3)" "[f \<mapsto> b0, v \<mapsto> b1, q \<mapsto> b2] g = None" "g \<noteq> 0"
      "take (unat (sh_gs_size sh)) b3 = take (unat (sh_gs_size sh)) (the (statics s (sh_gs sh)))"
      "grown hp taken room 1 ?old ?sh ([f \<mapsto> b0, v \<mapsto> b1, q \<mapsto> b2, g \<mapsto> b3]) s t3" by blast
    from grown_step [OF assms(1) g(5) [unfolded n4(4)] w(4) [OF g(5)] hg(2)] obtain c b4 t4 where
      c: "alloc_copy hp ?sh 3 (sh_copy_size sh) t3 = Inr (c, t4)" "[f \<mapsto> b0, v \<mapsto> b1, q \<mapsto> b2, g \<mapsto> b3] c = None" "c \<noteq> 0"
      "take (unat (sh_copy_size sh)) b4 = take (unat (sh_copy_size sh)) (the (statics s (sh_copy sh)))"
      "grown hp taken room 0 ?old ?sh ([f \<mapsto> b0, v \<mapsto> b1, q \<mapsto> b2, g \<mapsto> b3, c \<mapsto> b4]) s t4" by blast
    have e: "g \<noteq> f" "g \<noteq> v" "g \<noteq> q" "c \<noteq> f" "c \<noteq> v" "c \<noteq> q" "c \<noteq> g" using g(2) c(2) by (auto split: if_splits)
    let ?sh4 = "?sh2\<lparr>sh_gs := g, sh_copy := c\<rparr>"
    have run: "GX2InitShader gx hp sh s = Inr (?sh4, t4)"
      using start False w(3) [OF q(5)] w2 ob ac g(1) c(1) by (simp add: GX2InitShader_def assms(5) [symmetric])
    have "\<exists>t'. GX2DestroyShader hp ?sh4 t4 = Inr (?sh4\<lparr>sh_vs := sh_vs ?old, sh_ps := sh_ps ?old, sh_gs := sh_gs ?old,
       sh_copy := sh_copy ?old, sh_fs := 0\<rparr>, t') \<and> blocks t' = blocks s"
      by (rule destroy_run [OF assms(1) c(5), where b = b0]) (use d e f(2) v(3) q(3) g(3) c(3) in \<open>auto simp: insert_commute\<close>)
    moreover have "?sh4\<lparr>sh_vs := sh_vs ?old, sh_ps := sh_ps ?old, sh_gs := sh_gs ?old, sh_copy := sh_copy ?old, sh_fs := 0\<rparr> = ?old"
      using assms(4) by simp
    moreover have "program_copied v (sh_vs sh) (sh_vs_size sh) s t4" "program_copied q (sh_ps sh) (sh_ps_size sh) s t4"
      "program_copied g (sh_gs sh) (sh_gs_size sh) s t4" "program_copied c (sh_copy sh) (sh_copy_size sh) s t4"
      using grown_holds [OF c(5) _ v(4)] grown_holds [OF c(5) _ q(4)] grown_holds [OF c(5) _ g(4)] grown_holds [OF c(5) _ c(4)]
        d e v(3) q(3) g(3) c(3) by auto
    ultimately show ?thesis using run by auto
  qed
qed

section \<open>Witness\<close>

text \<open>A heap that gives out addresses going up in steps of 256, up to a thousand times.\<close>

definition step_addr :: "nat \<Rightarrow> u32" where
  "step_addr k = of_nat (256 * k)"

definition step_heap :: "nat heaps" where
  "step_heap = \<lparr>hp_base = (\<lambda>n w. 7), hp_frm_room = (\<lambda>h a w. 0), hp_frm_alloc = (\<lambda>h n a w. (0, w)),
     hp_frm_free = (\<lambda>h n w. w), hp_create = (\<lambda>p n f w. (0, w)), hp_destroy = (\<lambda>h w. w),
     hp_alloc = (\<lambda>h n a w. ((step_addr (Suc w), replicate (unat n) NUL), Suc w)), hp_free = (\<lambda>h p w. w)\<rparr>"

definition step_taken :: "nat \<Rightarrow> u32 set" where
  "step_taken w = {4, 8} \<union> step_addr ` {1..w}"

lemma step_address: "k < 10000 \<Longrightarrow> unat (step_addr k) = 256 * k"
  unfolding step_addr_def by (subst unat_of_nat) simp

lemma step_fresh: "w < 1000 \<Longrightarrow> step_addr (Suc w) \<noteq> 0 \<and> step_addr (Suc w) \<notin> step_taken w"
proof -
  assume w: "w < 1000"
  have u: "unat (step_addr (Suc w)) = 256 * Suc w" using w by (intro step_address) simp
  have "step_addr (Suc w) \<noteq> step_addr k" if "k \<in> {1..w}" for k
  proof
    assume "step_addr (Suc w) = step_addr k"
    moreover have "unat (step_addr k) = 256 * k" using that w by (intro step_address) simp
    ultimately show False using u that by simp
  qed
  moreover have "step_addr (Suc w) \<noteq> x" if "x \<in> {0, 4, 8}" for x
    using u that by auto
  ultimately show ?thesis unfolding step_taken_def by blast
qed

lemma step_honest: "honest_heap step_heap step_taken (\<lambda>w. 1000 - w)"
proof -
  have "step_taken (Suc w) = insert (step_addr (Suc w)) (step_taken w)" for w
    by (auto simp: step_taken_def atLeastAtMostSuc_conv)
  then show ?thesis
    using step_fresh by (auto simp: honest_heap_def steady_base_def step_heap_def)
qed

definition demo_gfx :: "nat gfx" where
  "demo_gfx = \<lparr>world = 0, allocs = allocs0, mem1_heap = 0, bucket_heap = 0, blocks = Map.empty, rt_errno = 0,
     statics = [4 \<mapsto> ''vert'', 8 \<mapsto> ''frag'']\<rparr>"

definition demo_gx2 :: "nat gx2" where
  "demo_gx2 = \<lparr>gx_fetch_size = (\<lambda>n. 32), gx_fetch_code = (\<lambda>n. replicate 32 CR), gx_set_vertex = (\<lambda>sh w. w),
     gx_set_pixel = (\<lambda>sh w. w), gx_set_fetch = (\<lambda>sh w. w), gx_set_geometry = (\<lambda>sh w. w)\<rparr>"

definition shader0 :: gx_shader where
  "shader0 = \<lparr>sh_vs_size = 4, sh_vs = 4, sh_attribVarCount = 2, sh_ps_size = 4, sh_ps = 8, sh_gs_size = 0, sh_gs = 0,
     sh_copy_size = 0, sh_copy = 0, sh_fs_size = 0, sh_fs = 0\<rparr>"

theorem destroy_undoes_init_witness:
  "\<exists>sh1 s1 s2. GX2InitShader demo_gx2 step_heap shader0 demo_gfx = Inr (sh1, s1) \<and>
     program_copied (sh_vs sh1) 4 4 demo_gfx s1 \<and> GX2DestroyShader step_heap sh1 s1 = Inr (shader0\<lparr>sh_fs_size := 32\<rparr>, s2) \<and>
     blocks s2 = Map.empty"
proof -
  have "accounted step_taken demo_gfx" by (simp add: accounted_def demo_gfx_def step_taken_def)
  moreover have "has_program 4 4 demo_gfx" "has_program 8 4 demo_gfx" by (simp_all add: has_program_def demo_gfx_def)
  ultimately show ?thesis
    using destroy_undoes_init [OF step_honest, of demo_gfx shader0 32 demo_gx2]
    by (simp add: demo_gx2_def shader0_def org_size_def) (simp add: demo_gfx_def, blast)
qed

end
