(* ===== verification/BitFields.thy ===== *)
theory BitFields
  imports Prelude
begin

unbundle bit_operations_syntax

text \<open>
  Words made of fields. A layout lists the fields of a word as position and width, from the lowest on;
  packing puts values at the positions, unpacking reads them back. A word that an expression of shifts
  and ORs builds is read by writing it as a packing of its layout.
\<close>

type_synonym layout = "(nat \<times> nat) list"

fun pack :: "layout \<Rightarrow> u32 list \<Rightarrow> u32" where
  "pack ((p, n) # l) (v # vs) = push_bit p v OR pack l vs"
| "pack _ _ = 0"

definition unpack :: "layout \<Rightarrow> u32 \<Rightarrow> u32 list" where
  "unpack l w = map (\<lambda>(p, n). take_bit n (drop_bit p w)) l"

text \<open>Fields in increasing order without overlap, and values that fit them.\<close>

fun ordered_from :: "nat \<Rightarrow> layout \<Rightarrow> bool" where
  "ordered_from k [] \<longleftrightarrow> k \<le> 32"
| "ordered_from k ((p, n) # l) \<longleftrightarrow> k \<le> p \<and> ordered_from (p + n) l"

fun all_fit :: "layout \<Rightarrow> u32 list \<Rightarrow> bool" where
  "all_fit [] [] \<longleftrightarrow> True"
| "all_fit ((p, n) # l) (v # vs) \<longleftrightarrow> take_bit n v = v \<and> all_fit l vs"
| "all_fit _ _ \<longleftrightarrow> False"

lemma ordered_from_bound: "ordered_from k l \<Longrightarrow> k \<le> 32"
  by (induction k l rule: ordered_from.induct) auto

lemma pack_bit_above: "ordered_from k l \<Longrightarrow> bit (pack l vs) i \<Longrightarrow> k \<le> i"
proof (induction l vs arbitrary: k rule: pack.induct)
  case (1 p n l v vs)
  then show ?case by (force simp: bit_simps)
qed (simp_all)

lemma fit_bit: "take_bit n v = v \<Longrightarrow> bit v i \<Longrightarrow> i < n" for v :: u32
  by (metis bit_take_bit_iff)

lemma unpack_above:
  assumes "ordered_from k l" "all_fit l vs" "\<forall>i. bit w i \<longrightarrow> i < k"
  shows "unpack l (w OR pack l vs) = vs"
  using assms
proof (induction l vs arbitrary: k w rule: all_fit.induct)
  case (2 p n l v vs)
  from 2(2) have o: "k \<le> p" "ordered_from (p + n) l" by auto
  from 2(3) have f: "take_bit n v = v" "all_fit l vs" by auto
  have b: "p + n \<le> 32" using ordered_from_bound [OF o(2)] .
  have "take_bit n (drop_bit p (w OR (push_bit p v OR pack l vs))) = v"
  proof (rule bit_word_eqI)
    fix i assume "i < LENGTH(32)"
    have "\<not> bit w (p + i)" using 2(4) o(1) by fastforce
    moreover have "\<not> bit (pack l vs) (p + i)" if "i < n" using pack_bit_above [OF o(2)] that by fastforce
    ultimately show "bit (take_bit n (drop_bit p (w OR (push_bit p v OR pack l vs)))) i = bit v i"
      using b fit_bit [OF f(1)] by (fastforce simp: bit_simps)
  qed
  moreover have "\<forall>i. bit (w OR push_bit p v) i \<longrightarrow> i < p + n"
    using 2(4) o(1) fit_bit [OF f(1)] by (fastforce simp: bit_simps)
  from 2(1) [OF o(2) f(2) this] have "unpack l (w OR (push_bit p v OR pack l vs)) = vs" by (simp add: or.assoc)
  ultimately show ?case by (simp add: unpack_def)
qed (simp_all add: unpack_def)

lemma unpack_pack: "ordered_from 0 l \<Longrightarrow> all_fit l vs \<Longrightarrow> unpack l (pack l vs) = vs"
  using unpack_above [of 0 l vs 0] by simp

text \<open>The four bytes of a word the other way round.\<close>

definition swap_bytes :: "u32 \<Rightarrow> u32" where
  "swap_bytes x = push_bit 24 x OR (push_bit 8 x AND 0x00FF0000) OR (drop_bit 8 x AND 0x0000FF00) OR drop_bit 24 x"

definition swapped_position :: "nat \<Rightarrow> nat" where
  "swapped_position n = (if n < 8 then n + 24 else if n < 16 then n + 8 else if n < 24 then n - 8 else n - 24)"

lemma bit_swap_bytes: "bit (swap_bytes x) n \<longleftrightarrow> n < 32 \<and> bit x (swapped_position n)"
proof -
  have m: "0x00FF0000 = push_bit 16 (mask 8 :: u32)" "0x0000FF00 = push_bit 8 (mask 8 :: u32)"
    by (simp_all add: mask_eq_exp_minus_1 push_bit_eq_mult)
  consider "n < 8" | "8 \<le> n" "n < 16" | "16 \<le> n" "n < 24" | "24 \<le> n" "n < 32" | "32 \<le> n" by force
  then show ?thesis
    using bit_imp_le_length [of x "24 + n"] bit_imp_le_length [of x "8 + n"]
    unfolding swap_bytes_def m swapped_position_def by cases (auto simp: bit_simps add.commute)
qed

lemma swap_bytes_swap_bytes [simp]: "swap_bytes (swap_bytes x) = x"
  by (rule bit_word_eqI) (auto simp: bit_swap_bytes swapped_position_def)

lemma swap_bytes_and_not: "swap_bytes (a AND NOT b) = swap_bytes a AND NOT (swap_bytes b)"
proof (rule bit_word_eqI)
  fix n assume "n < LENGTH(32)"
  then have "swapped_position n < 32" by (auto simp: swapped_position_def)
  then show "bit (swap_bytes (a AND NOT b)) n = bit (swap_bytes a AND NOT (swap_bytes b)) n"
    by (auto simp: bit_swap_bytes bit_and_iff bit_not_iff_eq)
qed

text \<open>Two words in one of twice the width.\<close>

definition join_words :: "u32 \<Rightarrow> u32 \<Rightarrow> 64 word" where
  "join_words w0 w1 = push_bit 32 (ucast w0) OR ucast w1"

definition high_word :: "64 word \<Rightarrow> u32" where "high_word q = ucast (drop_bit 32 q)"
definition low_word :: "64 word \<Rightarrow> u32" where "low_word q = ucast q"

lemma high_join [simp]: "high_word (join_words w0 w1) = w0"
  by (rule bit_word_eqI) (auto simp: high_word_def join_words_def bit_simps dest: bit_imp_le_length)

lemma low_join [simp]: "low_word (join_words w0 w1) = w1"
  by (rule bit_word_eqI) (auto simp: low_word_def join_words_def bit_simps)

end
