(* ===== verification/ShaderAsm.thy ===== *)
theory ShaderAsm
  imports BitFields
begin

text \<open>
  The macros of \<^verbatim>\<open>gx2_shader_inl.h\<close> that write shader programs as tables of 64 bit words: one definition per
  macro, as in a build for the console, which defines \<open>MSB_FIRST\<close>. Their operands are 32 bit words. A macro
  that is written behind an instruction and starts with an operator is a suffix; chains of suffixes
  have the precedence of C. Names of macros that start with an underscore are spelled out.
\<close>

section \<open>Words\<close>

definition to_QWORD :: "u32 \<Rightarrow> u32 \<Rightarrow> 64 word" where
  "to_QWORD w0 w1 = join_words w0 w1"

definition to_LE :: "u32 \<Rightarrow> u32" where "to_LE x = swap_bytes x"
definition CF_DWORD0 where
  "CF_DWORD0 addr = to_LE (
     addr)"
definition CF_DWORD1 where
  "CF_DWORD1 popCount cfConst cond cnt callCount inst = to_LE (
     popCount OR push_bit 3 cfConst OR push_bit 8 cond OR push_bit 10 cnt OR
     push_bit 13 callCount OR push_bit 23 inst OR push_bit 31 1)"
definition CF_ALU_WORD0 where
  "CF_ALU_WORD0 addr kcacheBank0 kcacheBank1 kcacheMode0 = to_LE (
     addr OR push_bit 22 kcacheBank0 OR push_bit 26 kcacheBank1 OR push_bit 30 kcacheMode0)"
definition CF_ALU_WORD1 where
  "CF_ALU_WORD1 kcacheMode1 kcacheAddr0 kcacheAddr1 cnt altConst inst = to_LE (
     kcacheMode1 OR push_bit 2 kcacheAddr0 OR push_bit 10 kcacheAddr1 OR push_bit 18 cnt OR
     push_bit 25 altConst OR push_bit 26 inst OR push_bit 31 1)"
definition CF_EXP_WORD0 where
  "CF_EXP_WORD0 dstReg_and_type srcReg srcRel indexGpr elemSize = to_LE (
     dstReg_and_type OR push_bit 15 srcReg OR push_bit 22 srcRel OR push_bit 23 indexGpr OR
     push_bit 30 elemSize)"
definition CF_EXP_WORD1 where
  "CF_EXP_WORD1 srcSelX srcSelY srcSelZ srcSelW validPixelMode inst = to_LE (
     srcSelX OR push_bit 3 srcSelY OR push_bit 6 srcSelZ OR push_bit 9 srcSelW OR
     push_bit 22 validPixelMode OR push_bit 23 inst OR push_bit 31 1)"
definition CF_ALLOC_EXPORT_WORD0 where
  "CF_ALLOC_EXPORT_WORD0 arrayBase ty dstReg dstRel indexGpr elemSize = to_LE (
     arrayBase OR push_bit 13 ty OR push_bit 15 dstReg OR push_bit 22 dstRel OR
     push_bit 23 indexGpr OR push_bit 30 elemSize)"
definition CF_ALLOC_EXPORT_WORD1_BUF where
  "CF_ALLOC_EXPORT_WORD1_BUF arraySize writeMask inst = to_LE (
     arraySize OR push_bit 12 writeMask OR push_bit 23 inst OR push_bit 31 1)"
definition ALU_WORD0 where
  "ALU_WORD0 src0Sel src0Rel src0Chan src0Neg src1Sel src1Rel src1Chan src1Neg indexMode predSel = to_LE (
     src0Sel OR push_bit 9 src0Rel OR push_bit 10 src0Chan OR push_bit 12 src0Neg OR
     push_bit 13 src1Sel OR push_bit 22 src1Rel OR push_bit 23 src1Chan OR push_bit 25 src1Neg OR
     push_bit 26 indexMode OR push_bit 29 predSel)"
definition ALU_WORD1_OP2 where
  "ALU_WORD1_OP2 src0Abs src1Abs updateExecuteMask updatePred writeMask omod inst encoding bankSwizzle dstGpr dstRel dstChan clamp = to_LE (
     src0Abs OR push_bit 1 src1Abs OR push_bit 2 updateExecuteMask OR push_bit 3 updatePred OR
     push_bit 4 writeMask OR push_bit 5 omod OR push_bit 7 inst OR push_bit 15 encoding OR
     push_bit 18 bankSwizzle OR push_bit 21 (dstGpr AND 0x7F) OR push_bit 28 dstRel OR
     push_bit 29 (dstChan AND 0x3) OR push_bit 31 clamp)"
definition ALU_WORD1_OP3 where
  "ALU_WORD1_OP3 src2Sel src2Rel src2Chan src2Neg inst bankSwizzle dstGpr dstRel dstChan clamp = to_LE (
     src2Sel OR push_bit 9 src2Rel OR push_bit 10 src2Chan OR push_bit 12 src2Neg OR
     push_bit 13 inst OR push_bit 18 bankSwizzle OR push_bit 21 (dstGpr AND 0x7F) OR
     push_bit 28 dstRel OR push_bit 29 (dstChan AND 0x3) OR push_bit 31 clamp)"
definition TEX_WORD0 where
  "TEX_WORD0 inst bcFracMode fetchWholeQuad resourceID srcReg srcRel altConst = to_LE (
     inst OR push_bit 5 bcFracMode OR push_bit 7 fetchWholeQuad OR push_bit 8 resourceID OR
     push_bit 16 srcReg OR push_bit 23 srcRel OR push_bit 24 altConst)"
definition TEX_WORD1 where
  "TEX_WORD1 dstReg dstRel dstSelX dstSelY dstSelZ dstSelW lodBias coordTypeX coordTypeY coordTypeZ coordTypeW = to_LE (
     dstReg OR push_bit 7 dstRel OR push_bit 9 dstSelX OR push_bit 12 dstSelY OR
     push_bit 15 dstSelZ OR push_bit 18 dstSelW OR push_bit 21 lodBias OR push_bit 28 coordTypeX OR
     push_bit 29 coordTypeY OR push_bit 30 coordTypeZ OR push_bit 31 coordTypeW)"
definition TEX_WORD2 where
  "TEX_WORD2 offsetX offsetY offsetZ samplerID srcSelX srcSelY srcSelZ srcSelW = to_LE (
     offsetX OR push_bit 5 offsetY OR push_bit 10 offsetZ OR push_bit 15 samplerID OR
     push_bit 20 srcSelX OR push_bit 23 srcSelY OR push_bit 26 srcSelZ OR push_bit 29 srcSelW)"
definition VTX_WORD0 where
  "VTX_WORD0 inst ty buffer_id srcReg srcSelX mega = to_LE (
     inst OR push_bit 5 ty OR push_bit 8 buffer_id OR push_bit 16 srcReg OR push_bit 24 srcSelX OR
     push_bit 26 mega)"
definition VTX_WORD1 where
  "VTX_WORD1 dstReg dstSelX dstSelY dstSelZ dstSelW = to_LE (
     dstReg OR push_bit 9 dstSelX OR push_bit 12 dstSelY OR push_bit 15 dstSelZ OR
     push_bit 18 dstSelW OR push_bit 21 1)"
definition VTX_WORD2 where
  "VTX_WORD2 offset ismega = to_LE (
     offset OR push_bit 19 ismega)"

section \<open>Constants\<close>

definition ALU_SRC_KCACHE0_BASE :: u32 where "ALU_SRC_KCACHE0_BASE = 0x80"
definition ALU_SRC_KCACHE1_BASE :: u32 where "ALU_SRC_KCACHE1_BASE = 0xA0"
definition CF_KCACHE_BANK_LOCK_1 :: u32 where "CF_KCACHE_BANK_LOCK_1 = 0x1"
definition CB1 :: u32 where "CB1 = 0x1"
definition CB2 :: u32 where "CB2 = 0x2"
definition lock_0_15 :: u32 where "lock_0_15 = CF_KCACHE_BANK_LOCK_1"
definition DEACTIVATE :: u32 where "DEACTIVATE = 1"
definition sel_x :: u32 where "sel_x = 0"
definition sel_y :: u32 where "sel_y = 1"
definition sel_z :: u32 where "sel_z = 2"
definition sel_w :: u32 where "sel_w = 3"
definition sel_0 :: u32 where "sel_0 = 4"
definition sel_1 :: u32 where "sel_1 = 5"
definition sel_m :: u32 where "sel_m = 7"
definition mask_xyzw :: u32 where "mask_xyzw = 15"
definition mask_xy :: u32 where "mask_xy = 3"
definition ALU_SRC_1_DBL_L :: u32 where "ALU_SRC_1_DBL_L = 0xF4"
definition ALU_SRC_1_DBL_M :: u32 where "ALU_SRC_1_DBL_M = 0xF5"
definition ALU_SRC_0_5_DBL_L :: u32 where "ALU_SRC_0_5_DBL_L = 0xF6"
definition ALU_SRC_0_5_DBL_M :: u32 where "ALU_SRC_0_5_DBL_M = 0xF7"
definition ALU_SRC_0 :: u32 where "ALU_SRC_0 = 0xF8"
definition ALU_SRC_1 :: u32 where "ALU_SRC_1 = 0xF9"
definition ALU_SRC_1_INT :: u32 where "ALU_SRC_1_INT = 0xFA"
definition ALU_SRC_M_1_INT :: u32 where "ALU_SRC_M_1_INT = 0xFB"
definition ALU_SRC_0_5 :: u32 where "ALU_SRC_0_5 = 0xFC"
definition ALU_SRC_LITERAL :: u32 where "ALU_SRC_LITERAL = 0xFD"
definition ALU_SRC_PV :: u32 where "ALU_SRC_PV = 0xFE"
definition ALU_SRC_PS :: u32 where "ALU_SRC_PS = 0xFF"
definition ALU_OMOD_OFF :: u32 where "ALU_OMOD_OFF = 0x0"
definition ALU_OMOD_M2 :: u32 where "ALU_OMOD_M2 = 0x1"
definition ALU_OMOD_M4 :: u32 where "ALU_OMOD_M4 = 0x2"
definition ALU_OMOD_D2 :: u32 where "ALU_OMOD_D2 = 0x3"
definition ALU_VEC_012 :: u32 where "ALU_VEC_012 = 0x0"
definition ALU_VEC_021 :: u32 where "ALU_VEC_021 = 0x1"
definition ALU_VEC_120 :: u32 where "ALU_VEC_120 = 0x2"
definition ALU_VEC_102 :: u32 where "ALU_VEC_102 = 0x3"
definition ALU_VEC_201 :: u32 where "ALU_VEC_201 = 0x4"
definition ALU_VEC_210 :: u32 where "ALU_VEC_210 = 0x5"
definition ALU_SCL_210 :: u32 where "ALU_SCL_210 = 0x0"
definition ALU_SCL_122 :: u32 where "ALU_SCL_122 = 0x1"
definition ALU_SCL_212 :: u32 where "ALU_SCL_212 = 0x2"
definition ALU_SCL_221 :: u32 where "ALU_SCL_221 = 0x3"
definition VERTEX_DATA :: u32 where "VERTEX_DATA = 0"
definition INSTANCE_DATA :: u32 where "INSTANCE_DATA = 1"
definition NO_INDEX_OFFSET :: u32 where "NO_INDEX_OFFSET = 2"
definition CF_COND_ACTIVE :: u32 where "CF_COND_ACTIVE = 0x0"
definition CF_COND_FALSE :: u32 where "CF_COND_FALSE = 0x1"
definition CF_COND_BOOL :: u32 where "CF_COND_BOOL = 0x2"
definition CF_COND_NOT_BOOL :: u32 where "CF_COND_NOT_BOOL = 0x3"
definition TEX_UNNORMALIZED :: u32 where "TEX_UNNORMALIZED = 0x0"
definition TEX_NORMALIZED :: u32 where "TEX_NORMALIZED = 0x1"
definition EXPORT_TYPE_PIXEL :: u32 where "EXPORT_TYPE_PIXEL = 0x0"
definition EXPORT_TYPE_POS :: u32 where "EXPORT_TYPE_POS = 0x1"
definition EXPORT_TYPE_PARAM :: u32 where "EXPORT_TYPE_PARAM = 0x2"
definition R_off :: u32 where "R_off = 0x80"

text \<open>The codes of the instructions.\<close>

definition CF_INST_TEX :: u32 where "CF_INST_TEX = 0x01"
definition CF_INST_VTX :: u32 where "CF_INST_VTX = 0x02"
definition CF_INST_JUMP :: u32 where "CF_INST_JUMP = 0x0A"
definition CF_INST_ELSE :: u32 where "CF_INST_ELSE = 0x0D"
definition CF_INST_CALL_FS :: u32 where "CF_INST_CALL_FS = 0x13"
definition CF_INST_EMIT_VERTEX :: u32 where "CF_INST_EMIT_VERTEX = 0x15"
definition CF_INST_MEM_RING :: u32 where "CF_INST_MEM_RING = 0x26"
definition CF_INST_ALU :: u32 where "CF_INST_ALU = 0x08"
definition CF_INST_ALU_PUSH_BEFORE :: u32 where "CF_INST_ALU_PUSH_BEFORE = 0x09"
definition CF_INST_ALU_POP_AFTER :: u32 where "CF_INST_ALU_POP_AFTER = 0x0A"
definition OP2_INST_ADD :: u32 where "OP2_INST_ADD = 0x0"
definition OP2_INST_MUL :: u32 where "OP2_INST_MUL = 0x1"
definition OP2_INST_MUL_IEEE :: u32 where "OP2_INST_MUL_IEEE = 0x2"
definition OP2_INST_MIN :: u32 where "OP2_INST_MIN = 0x04"
definition OP2_INST_MAX :: u32 where "OP2_INST_MAX = 0x03"
definition OP2_INST_MAX_DX10 :: u32 where "OP2_INST_MAX_DX10 = 0x05"
definition OP2_INST_FRACT :: u32 where "OP2_INST_FRACT = 0x10"
definition OP2_INST_SETGT :: u32 where "OP2_INST_SETGT = 0x09"
definition OP2_INST_SETE_DX10 :: u32 where "OP2_INST_SETE_DX10 = 0x0C"
definition OP2_INST_SETGT_DX10 :: u32 where "OP2_INST_SETGT_DX10 = 0x0D"
definition OP2_INST_FLOOR :: u32 where "OP2_INST_FLOOR = 0x14"
definition OP2_INST_MOV :: u32 where "OP2_INST_MOV = 0x19"
definition OP2_INST_PRED_SETGT :: u32 where "OP2_INST_PRED_SETGT = 0x21"
definition OP2_INST_PRED_SETE_INT :: u32 where "OP2_INST_PRED_SETE_INT = 0x42"
definition OP2_INST_DOT4 :: u32 where "OP2_INST_DOT4 = 0x50"
definition OP2_INST_DOT4_IEEE :: u32 where "OP2_INST_DOT4_IEEE = 0x51"
definition OP2_INST_RECIP_IEEE :: u32 where "OP2_INST_RECIP_IEEE = 0x66"
definition OP2_INST_RECIPSQRT_IEEE :: u32 where "OP2_INST_RECIPSQRT_IEEE = 0x69"
definition OP2_INST_SQRT_IEEE :: u32 where "OP2_INST_SQRT_IEEE = 0x6A"
definition OP2_INST_SIN :: u32 where "OP2_INST_SIN = 0x6E"
definition OP2_INST_COS :: u32 where "OP2_INST_COS = 0x6F"
definition OP3_INST_MULADD :: u32 where "OP3_INST_MULADD = 0x10"
definition OP3_INST_CNDGT :: u32 where "OP3_INST_CNDGT = 0x19"
definition OP3_INST_CNDE_INT :: u32 where "OP3_INST_CNDE_INT = 0x1C"
definition CF_INST_EXP :: u32 where "CF_INST_EXP = 0x27"
definition CF_INST_EXP_DONE :: u32 where "CF_INST_EXP_DONE = 0x28"
definition TEX_INST_GET_GRADIENTS_H :: u32 where "TEX_INST_GET_GRADIENTS_H = 0x07"
definition TEX_INST_GET_GRADIENTS_V :: u32 where "TEX_INST_GET_GRADIENTS_V = 0x08"
definition TEX_INST_SAMPLE :: u32 where "TEX_INST_SAMPLE = 0x10"
definition VTX_INST_FETCH :: u32 where "VTX_INST_FETCH = 0x0"

section \<open>Operands\<close>

definition KC0 :: "u32 \<Rightarrow> u32" where "KC0 x = x + ALU_SRC_KCACHE0_BASE"
definition KC1 :: "u32 \<Rightarrow> u32" where "KC1 x = x + ALU_SRC_KCACHE1_BASE"
definition WRITE :: "u32 \<Rightarrow> u32" where "WRITE x = drop_bit 2 x"
definition ARRAY_SIZE :: "u32 \<Rightarrow> u32" where "ARRAY_SIZE x = x"
definition ELEM_SIZE :: "u32 \<Rightarrow> u32" where "ELEM_SIZE x = x"
definition NEG :: "u32 \<Rightarrow> u32" where "NEG x = x OR push_bit 12 1"
definition ABS :: "u32 \<Rightarrow> u32" where "ABS x = x OR push_bit 13 1"
definition FETCH_TYPE :: "u32 \<Rightarrow> u32" where "FETCH_TYPE x = x"
definition MINI :: "u32 \<Rightarrow> u32" where "MINI x = x - 1"
definition MEGA :: "u32 \<Rightarrow> u32" where "MEGA x = MINI x OR 0x80000000"
definition OFFSET :: "u32 \<Rightarrow> u32" where "OFFSET x = x"
definition GX2_COMP_SEL :: "u32 \<Rightarrow> u32 \<Rightarrow> u32 \<Rightarrow> u32 \<Rightarrow> u32" where
  "GX2_COMP_SEL c0 c1 c2 c3 = push_bit 24 c0 OR push_bit 16 c1 OR push_bit 8 c2 OR c3"

definition EXPORT_ARRAY_BASE_POS :: "u32 \<Rightarrow> u32" where "EXPORT_ARRAY_BASE_POS i = 0x3C + i"
definition EXPORT_ARRAY_BASE_PARAM :: "u32 \<Rightarrow> u32" where "EXPORT_ARRAY_BASE_PARAM i = i"
definition EXPORT_ARRAY_BASE_PIX :: "u32 \<Rightarrow> u32" where "EXPORT_ARRAY_BASE_PIX i = i"
definition POS :: "u32 \<Rightarrow> u32" where "POS i = EXPORT_ARRAY_BASE_POS i OR push_bit 13 EXPORT_TYPE_POS"
definition PARAM :: "u32 \<Rightarrow> u32" where "PARAM i = EXPORT_ARRAY_BASE_PARAM i OR push_bit 13 EXPORT_TYPE_PARAM"
definition PIX :: "u32 \<Rightarrow> u32" where "PIX i = EXPORT_ARRAY_BASE_PIX i OR push_bit 13 EXPORT_TYPE_PIXEL"
definition POS0 :: u32 where "POS0 = POS 0"
definition PARAM0 :: u32 where "PARAM0 = PARAM 0"
definition PARAM1 :: u32 where "PARAM1 = PARAM 1"
definition PIX0 :: u32 where "PIX0 = PIX 0"
definition R_reg :: "u32 \<Rightarrow> u32" where "R_reg x = x"
definition R0 :: u32 where "R0 = R_reg 0x0"
definition R1 :: u32 where "R1 = R_reg 0x1"
definition R2 :: u32 where "R2 = R_reg 0x2"
definition R3 :: u32 where "R3 = R_reg 0x3"
definition R4 :: u32 where "R4 = R_reg 0x4"
definition R5 :: u32 where "R5 = R_reg 0x5"
definition R6 :: u32 where "R6 = R_reg 0x6"
definition R7 :: u32 where "R7 = R_reg 0x7"
definition R8 :: u32 where "R8 = R_reg 0x8"
definition R9 :: u32 where "R9 = R_reg 0x9"
definition R10 :: u32 where "R10 = R_reg 0xA"
definition R11 :: u32 where "R11 = R_reg 0xB"
definition R12 :: u32 where "R12 = R_reg 0xC"
definition R13 :: u32 where "R13 = R_reg 0xD"
definition R14 :: u32 where "R14 = R_reg 0xE"
definition R15 :: u32 where "R15 = R_reg 0xF"
definition R120 :: u32 where "R120 = R_reg 0x78"
definition R121 :: u32 where "R121 = R_reg 0x79"
definition R122 :: u32 where "R122 = R_reg 0x7A"
definition R123 :: u32 where "R123 = R_reg 0x7B"
definition R124 :: u32 where "R124 = R_reg 0x7C"
definition R125 :: u32 where "R125 = R_reg 0x7D"
definition R126 :: u32 where "R126 = R_reg 0x7E"
definition R127 :: u32 where "R127 = R_reg 0x7F"
definition tex_id :: "u32 \<Rightarrow> u32" where "tex_id x = x"
definition tex0 :: u32 where "tex0 = tex_id 0"
definition smp_id :: "u32 \<Rightarrow> u32" where "smp_id x = x"
definition smp0 :: u32 where "smp0 = smp_id 0"
definition buf_id :: "u32 \<Rightarrow> u32" where "buf_id x = x"

section \<open>Literals\<close>

definition ALU_LITERAL :: "u32 \<Rightarrow> 64 word" where "ALU_LITERAL v = to_QWORD (to_LE v) 0"
definition ALU_LITERAL2 :: "u32 \<Rightarrow> u32 \<Rightarrow> 64 word" where "ALU_LITERAL2 v0 v1 = to_QWORD (to_LE v0) (to_LE v1)"
definition ALU_LITERAL3 :: "u32 \<Rightarrow> u32 \<Rightarrow> u32 \<Rightarrow> 64 word list" where
  "ALU_LITERAL3 v0 v1 v2 = [ALU_LITERAL2 v0 v1, ALU_LITERAL v2]"

definition ALU_LITERAL4 :: "u32 \<Rightarrow> u32 \<Rightarrow> u32 \<Rightarrow> u32 \<Rightarrow> 64 word list" where
  "ALU_LITERAL4 v0 v1 v2 v3 = [ALU_LITERAL2 v0 v1, ALU_LITERAL2 v2 v3]"

text \<open>Entries repeated in a table.\<close>

definition rep_x2 :: "64 word \<Rightarrow> 64 word list" where "rep_x2 v = [v, v]"
definition rep_x4 :: "64 word \<Rightarrow> 64 word list" where "rep_x4 v = rep_x2 v @ rep_x2 v"
definition rep_x8 :: "64 word \<Rightarrow> 64 word list" where "rep_x8 v = rep_x4 v @ rep_x4 v"
definition rep_x16 :: "64 word \<Rightarrow> 64 word list" where "rep_x16 v = rep_x8 v @ rep_x8 v"
definition rep_x9 :: "64 word \<Rightarrow> 64 word list" where "rep_x9 v = rep_x8 v @ [v]"
definition rep_x30 :: "64 word \<Rightarrow> 64 word list" where "rep_x30 v = rep_x16 v @ rep_x8 v @ rep_x4 v @ rep_x2 v"
definition rep_x31 :: "64 word \<Rightarrow> 64 word list" where "rep_x31 v = rep_x30 v @ [v]"

section \<open>Suffixes\<close>

text \<open>A suffix is an OR or an AND with a word; AND binds tighter, so it reaches only the operand before it.\<close>

datatype suffix = Or_with "64 word" | And_with "64 word"

fun suffixed_from :: "64 word \<Rightarrow> 64 word \<Rightarrow> suffix list \<Rightarrow> 64 word" where
  "suffixed_from acc operand [] = acc OR operand"
| "suffixed_from acc operand (Or_with x # xs) = suffixed_from (acc OR operand) x xs"
| "suffixed_from acc operand (And_with x # xs) = suffixed_from acc (operand AND x) xs"

definition suffixed :: "64 word \<Rightarrow> suffix list \<Rightarrow> 64 word" where
  "suffixed q xs = suffixed_from 0 q xs"

definition NO_BARRIER :: "suffix" where
  "NO_BARRIER = And_with (NOT (to_QWORD 0 (to_LE (push_bit 31 1))))"

definition END_OF_PROGRAM :: "suffix" where
  "END_OF_PROGRAM = Or_with (to_QWORD 0 (to_LE (push_bit 21 1)))"

definition VALID_PIX :: "suffix" where
  "VALID_PIX = Or_with (to_QWORD 0 (to_LE (push_bit 22 1)))"

definition WHOLE_QUAD_MODE :: "suffix" where
  "WHOLE_QUAD_MODE = Or_with (to_QWORD 0 (to_LE (push_bit 30 1)))"

definition BURSTCNT :: "u32 \<Rightarrow> suffix" where
  "BURSTCNT x = Or_with (to_QWORD 0 (to_LE (push_bit 17 x)))"

definition KCACHE0 :: "u32 \<Rightarrow> u32 \<Rightarrow> suffix" where
  "KCACHE0 bank mode = Or_with (to_QWORD (CF_ALU_WORD0 0 bank 0 mode) 0)"

definition KCACHE1 :: "u32 \<Rightarrow> u32 \<Rightarrow> suffix" where
  "KCACHE1 bank mode = Or_with (to_QWORD (CF_ALU_WORD0 0 0 bank 0) (CF_ALU_WORD1 mode 0 0 0 0 0))"

definition UPDATE_EXEC_MASK :: "u32 \<Rightarrow> suffix" where
  "UPDATE_EXEC_MASK mode = Or_with (to_QWORD 0 (to_LE (push_bit 2 mode)))"

definition UPDATE_PRED :: "suffix" where
  "UPDATE_PRED = Or_with (to_QWORD 0 (to_LE (push_bit 3 1)))"

definition CLAMP :: "suffix" where
  "CLAMP = Or_with (to_QWORD 0 (to_LE (push_bit 31 1)))"

definition ALU_LAST :: "suffix" where
  "ALU_LAST = Or_with (to_QWORD (to_LE (push_bit 31 1)) 0)"

definition VEC_012 :: "suffix" where
  "VEC_012 = Or_with (to_QWORD 0 (to_LE (push_bit 18 ALU_VEC_012)))"

definition VEC_021 :: "suffix" where
  "VEC_021 = Or_with (to_QWORD 0 (to_LE (push_bit 18 ALU_VEC_021)))"

definition VEC_120 :: "suffix" where
  "VEC_120 = Or_with (to_QWORD 0 (to_LE (push_bit 18 ALU_VEC_120)))"

definition VEC_102 :: "suffix" where
  "VEC_102 = Or_with (to_QWORD 0 (to_LE (push_bit 18 ALU_VEC_102)))"

definition VEC_201 :: "suffix" where
  "VEC_201 = Or_with (to_QWORD 0 (to_LE (push_bit 18 ALU_VEC_201)))"

definition VEC_210 :: "suffix" where
  "VEC_210 = Or_with (to_QWORD 0 (to_LE (push_bit 18 ALU_VEC_210)))"

definition SCL_210 :: "suffix" where
  "SCL_210 = Or_with (to_QWORD 0 (to_LE (push_bit 18 ALU_SCL_210)))"

definition SCL_122 :: "suffix" where
  "SCL_122 = Or_with (to_QWORD 0 (to_LE (push_bit 18 ALU_SCL_122)))"

definition SCL_212 :: "suffix" where
  "SCL_212 = Or_with (to_QWORD 0 (to_LE (push_bit 18 ALU_SCL_212)))"

definition SCL_221 :: "suffix" where
  "SCL_221 = Or_with (to_QWORD 0 (to_LE (push_bit 18 ALU_SCL_221)))"

section \<open>Control flow instructions\<close>

definition CALL_FS where
  "CALL_FS =
     to_QWORD (CF_DWORD0 0) (CF_DWORD1 0 0 0 0 0 CF_INST_CALL_FS)"

definition TEX where
  "TEX addr cnt =
     to_QWORD (CF_DWORD0 addr) (CF_DWORD1 0 0 CF_COND_ACTIVE (cnt - 1) 0 CF_INST_TEX)"

definition VTX where
  "VTX addr cnt =
     to_QWORD (CF_DWORD0 addr) (CF_DWORD1 0 0 CF_COND_ACTIVE (cnt - 1) 0 CF_INST_VTX)"

definition JUMP where
  "JUMP popCount addr =
     to_QWORD (CF_DWORD0 addr) (CF_DWORD1 popCount 0 CF_COND_ACTIVE 0 0 CF_INST_JUMP)"

definition ELSE where
  "ELSE popCount addr =
     to_QWORD (CF_DWORD0 addr) (CF_DWORD1 popCount 0 CF_COND_ACTIVE 0 0 CF_INST_ELSE)"

definition ALU where
  "ALU addr cnt =
     to_QWORD (CF_ALU_WORD0 addr 0 0 0) (CF_ALU_WORD1 0 0 0 (cnt - 1) 0 CF_INST_ALU)"

definition ALU_PUSH_BEFORE where
  "ALU_PUSH_BEFORE addr cnt =
     to_QWORD (CF_ALU_WORD0 addr 0 0 0) (CF_ALU_WORD1 0 0 0 (cnt - 1) 0 CF_INST_ALU_PUSH_BEFORE)"

definition ALU_POP_AFTER where
  "ALU_POP_AFTER addr cnt =
     to_QWORD (CF_ALU_WORD0 addr 0 0 0) (CF_ALU_WORD1 0 0 0 (cnt - 1) 0 CF_INST_ALU_POP_AFTER)"

definition EXP_DONE where
  "EXP_DONE dstReg_and_type srcReg srcSelX srcSelY srcSelZ srcSelW =
     to_QWORD (CF_EXP_WORD0 dstReg_and_type srcReg 0 0 0)
       (CF_EXP_WORD1 srcSelX srcSelY srcSelZ srcSelW 0 CF_INST_EXP_DONE)"

definition EXP where
  "EXP dstReg_and_type srcReg srcSelX srcSelY srcSelZ srcSelW =
     to_QWORD (CF_EXP_WORD0 dstReg_and_type srcReg 0 0 0)
       (CF_EXP_WORD1 srcSelX srcSelY srcSelZ srcSelW 0 CF_INST_EXP)"

definition MEM_RING where
  "MEM_RING arrayBase dstReg writeMask arraySize elemSize =
     to_QWORD (CF_ALLOC_EXPORT_WORD0 arrayBase 0 dstReg 0 0 elemSize)
       (CF_ALLOC_EXPORT_WORD1_BUF arraySize writeMask CF_INST_MEM_RING)"

definition EMIT_VERTEX where
  "EMIT_VERTEX =
     to_QWORD 0 (CF_DWORD1 0 0 0 0 0 CF_INST_EMIT_VERTEX)"

section \<open>Arithmetic instructions\<close>

definition ALU_OP2 where
  "ALU_OP2 inst dstGpr dstChan src0Sel src0Chan src1Sel src1Chan omod =
     to_QWORD
       (ALU_WORD0 (src0Sel AND (push_bit 13 1 - 1)) 0 src0Chan 0 (src1Sel AND (push_bit 13 1 - 1)) 0 src1Chan 0 0 0)
       (ALU_WORD1_OP2 (drop_bit 13 src0Sel) (drop_bit 13 src1Sel) 0 0 (drop_bit 7 (dstGpr AND R_off) XOR 1)
          omod inst 0 0 dstGpr 0 dstChan 0)"

definition ALU_OP3 where
  "ALU_OP3 inst dstGpr dstChan src0Sel src0Chan src1Sel src1Chan src2Sel src2Chan =
     to_QWORD
       (ALU_WORD0 src0Sel 0 src0Chan 0 src1Sel 0 src1Chan 0 0 0)
       (ALU_WORD1_OP3 src2Sel 0 src2Chan 0 inst 0 dstGpr 0 dstChan 0)"

definition ALU_ADD where
  "ALU_ADD dstGpr dstChan src0Sel src0Chan src1Sel src1Chan =
     ALU_OP2 OP2_INST_ADD dstGpr dstChan src0Sel src0Chan src1Sel src1Chan ALU_OMOD_OFF"
definition ALU_ADD_x2 where
  "ALU_ADD_x2 dstGpr dstChan src0Sel src0Chan src1Sel src1Chan =
     ALU_OP2 OP2_INST_ADD dstGpr dstChan src0Sel src0Chan src1Sel src1Chan ALU_OMOD_M2"
definition ALU_ADD_D2 where
  "ALU_ADD_D2 dstGpr dstChan src0Sel src0Chan src1Sel src1Chan =
     ALU_OP2 OP2_INST_ADD dstGpr dstChan src0Sel src0Chan src1Sel src1Chan ALU_OMOD_D2"
definition ALU_MUL where
  "ALU_MUL dstGpr dstChan src0Sel src0Chan src1Sel src1Chan =
     ALU_OP2 OP2_INST_MUL dstGpr dstChan src0Sel src0Chan src1Sel src1Chan ALU_OMOD_OFF"
definition ALU_MUL_x2 where
  "ALU_MUL_x2 dstGpr dstChan src0Sel src0Chan src1Sel src1Chan =
     ALU_OP2 OP2_INST_MUL dstGpr dstChan src0Sel src0Chan src1Sel src1Chan ALU_OMOD_M2"
definition ALU_MUL_x4 where
  "ALU_MUL_x4 dstGpr dstChan src0Sel src0Chan src1Sel src1Chan =
     ALU_OP2 OP2_INST_MUL dstGpr dstChan src0Sel src0Chan src1Sel src1Chan ALU_OMOD_M4"
definition ALU_MUL_IEEE where
  "ALU_MUL_IEEE dstGpr dstChan src0Sel src0Chan src1Sel src1Chan =
     ALU_OP2 OP2_INST_MUL_IEEE dstGpr dstChan src0Sel src0Chan src1Sel src1Chan ALU_OMOD_OFF"
definition ALU_MUL_IEEE_x2 where
  "ALU_MUL_IEEE_x2 dstGpr dstChan src0Sel src0Chan src1Sel src1Chan =
     ALU_OP2 OP2_INST_MUL_IEEE dstGpr dstChan src0Sel src0Chan src1Sel src1Chan ALU_OMOD_M2"
definition ALU_MUL_IEEE_x4 where
  "ALU_MUL_IEEE_x4 dstGpr dstChan src0Sel src0Chan src1Sel src1Chan =
     ALU_OP2 OP2_INST_MUL_IEEE dstGpr dstChan src0Sel src0Chan src1Sel src1Chan ALU_OMOD_M4"
definition ALU_FRACT where
  "ALU_FRACT dstGpr dstChan src0Sel src0Chan =
     ALU_OP2 OP2_INST_FRACT dstGpr dstChan src0Sel src0Chan ALU_SRC_0 0 ALU_OMOD_OFF"
definition ALU_FLOOR where
  "ALU_FLOOR dstGpr dstChan src0Sel src0Chan =
     ALU_OP2 OP2_INST_FLOOR dstGpr dstChan src0Sel src0Chan ALU_SRC_0 0 ALU_OMOD_OFF"
definition ALU_SQRT_IEEE where
  "ALU_SQRT_IEEE dstGpr dstChan src0Sel src0Chan =
     ALU_OP2 OP2_INST_SQRT_IEEE dstGpr dstChan src0Sel src0Chan ALU_SRC_0 0 ALU_OMOD_OFF"
definition ALU_SQRT_IEEE_D2 where
  "ALU_SQRT_IEEE_D2 dstGpr dstChan src0Sel src0Chan =
     ALU_OP2 OP2_INST_SQRT_IEEE dstGpr dstChan src0Sel src0Chan ALU_SRC_0 0 ALU_OMOD_D2"
definition ALU_MOV where
  "ALU_MOV dstGpr dstChan src0Sel src0Chan =
     ALU_OP2 OP2_INST_MOV dstGpr dstChan src0Sel src0Chan ALU_SRC_0 0 ALU_OMOD_OFF"
definition ALU_MOV_D2 where
  "ALU_MOV_D2 dstGpr dstChan src0Sel src0Chan =
     ALU_OP2 OP2_INST_MOV dstGpr dstChan src0Sel src0Chan ALU_SRC_0 0 ALU_OMOD_D2"
definition ALU_MOV_x2 where
  "ALU_MOV_x2 dstGpr dstChan src0Sel src0Chan =
     ALU_OP2 OP2_INST_MOV dstGpr dstChan src0Sel src0Chan ALU_SRC_0 0 ALU_OMOD_M2"
definition ALU_MOV_x4 where
  "ALU_MOV_x4 dstGpr dstChan src0Sel src0Chan =
     ALU_OP2 OP2_INST_MOV dstGpr dstChan src0Sel src0Chan ALU_SRC_0 0 ALU_OMOD_M4"
definition ALU_DOT4_IEEE where
  "ALU_DOT4_IEEE dstGpr dstChan src0Sel src0Chan src1Sel src1Chan =
     ALU_OP2 OP2_INST_DOT4_IEEE dstGpr dstChan src0Sel src0Chan src1Sel src1Chan ALU_OMOD_OFF"
definition ALU_DOT4 where
  "ALU_DOT4 dstGpr dstChan src0Sel src0Chan src1Sel src1Chan =
     ALU_OP2 OP2_INST_DOT4 dstGpr dstChan src0Sel src0Chan src1Sel src1Chan ALU_OMOD_OFF"
definition ALU_PRED_SETGT where
  "ALU_PRED_SETGT dstGpr dstChan src0Sel src0Chan src1Sel src1Chan =
     ALU_OP2 OP2_INST_PRED_SETGT dstGpr dstChan src0Sel src0Chan src1Sel src1Chan ALU_OMOD_OFF"
definition ALU_SETE_DX10 where
  "ALU_SETE_DX10 dstGpr dstChan src0Sel src0Chan src1Sel src1Chan =
     ALU_OP2 OP2_INST_SETE_DX10 dstGpr dstChan src0Sel src0Chan src1Sel src1Chan ALU_OMOD_OFF"
definition ALU_SETGT_DX10 where
  "ALU_SETGT_DX10 dstGpr dstChan src0Sel src0Chan src1Sel src1Chan =
     ALU_OP2 OP2_INST_SETGT_DX10 dstGpr dstChan src0Sel src0Chan src1Sel src1Chan ALU_OMOD_OFF"
definition ALU_SETGT where
  "ALU_SETGT dstGpr dstChan src0Sel src0Chan src1Sel src1Chan =
     ALU_OP2 OP2_INST_SETGT dstGpr dstChan src0Sel src0Chan src1Sel src1Chan ALU_OMOD_OFF"
definition ALU_PRED_SETE_INT where
  "ALU_PRED_SETE_INT dstGpr dstChan src0Sel src0Chan src1Sel src1Chan =
     ALU_OP2 OP2_INST_PRED_SETE_INT dstGpr dstChan src0Sel src0Chan src1Sel src1Chan ALU_OMOD_OFF"
definition ALU_MIN where
  "ALU_MIN dstGpr dstChan src0Sel src0Chan src1Sel src1Chan =
     ALU_OP2 OP2_INST_MIN dstGpr dstChan src0Sel src0Chan src1Sel src1Chan ALU_OMOD_OFF"
definition ALU_MAX where
  "ALU_MAX dstGpr dstChan src0Sel src0Chan src1Sel src1Chan =
     ALU_OP2 OP2_INST_MAX dstGpr dstChan src0Sel src0Chan src1Sel src1Chan ALU_OMOD_OFF"
definition ALU_MAX_DX10 where
  "ALU_MAX_DX10 dstGpr dstChan src0Sel src0Chan src1Sel src1Chan =
     ALU_OP2 OP2_INST_MAX_DX10 dstGpr dstChan src0Sel src0Chan src1Sel src1Chan ALU_OMOD_OFF"
definition ALU_RECIP_IEEE where
  "ALU_RECIP_IEEE dstGpr dstChan src0Sel src0Chan =
     ALU_OP2 OP2_INST_RECIP_IEEE dstGpr dstChan src0Sel src0Chan ALU_SRC_0 0 ALU_OMOD_OFF"
definition ALU_RECIPSQRT_IEEE where
  "ALU_RECIPSQRT_IEEE dstGpr dstChan src0Sel src0Chan =
     ALU_OP2 OP2_INST_RECIPSQRT_IEEE dstGpr dstChan src0Sel src0Chan ALU_SRC_0 0 ALU_OMOD_OFF"
definition ALU_SIN where
  "ALU_SIN dstGpr dstChan src0Sel src0Chan =
     ALU_OP2 OP2_INST_SIN dstGpr dstChan src0Sel src0Chan ALU_SRC_0 0 ALU_OMOD_OFF"
definition ALU_COS where
  "ALU_COS dstGpr dstChan src0Sel src0Chan =
     ALU_OP2 OP2_INST_COS dstGpr dstChan src0Sel src0Chan ALU_SRC_0 0 ALU_OMOD_OFF"
definition ALU_COS_D2 where
  "ALU_COS_D2 dstGpr dstChan src0Sel src0Chan =
     ALU_OP2 OP2_INST_COS dstGpr dstChan src0Sel src0Chan ALU_SRC_0 0 ALU_OMOD_D2"
definition ALU_MULADD where
  "ALU_MULADD dstGpr dstChan src0Sel src0Chan src1Sel src1Chan src2Sel src2Chan =
     ALU_OP3 OP3_INST_MULADD dstGpr dstChan src0Sel src0Chan src1Sel src1Chan src2Sel src2Chan"
definition ALU_CNDGT where
  "ALU_CNDGT dstGpr dstChan src0Sel src0Chan src1Sel src1Chan src2Sel src2Chan =
     ALU_OP3 OP3_INST_CNDGT dstGpr dstChan src0Sel src0Chan src1Sel src1Chan src2Sel src2Chan"
definition ALU_CNDE_INT where
  "ALU_CNDE_INT dstGpr dstChan src0Sel src0Chan src1Sel src1Chan src2Sel src2Chan =
     ALU_OP3 OP3_INST_CNDE_INT dstGpr dstChan src0Sel src0Chan src1Sel src1Chan src2Sel src2Chan"

section \<open>Fetches\<close>

definition TEX_SAMPLE where
  "TEX_SAMPLE dstReg dstSelX dstSelY dstSelZ dstSelW srcReg (srcSelX :: u32) (srcSelY :: u32) (srcSelZ :: u32)
     (srcSelW :: u32) resourceID samplerID =
     [to_QWORD (TEX_WORD0 TEX_INST_SAMPLE 0 0 resourceID srcReg 0 0)
        (TEX_WORD1 dstReg 0 dstSelX dstSelY dstSelZ dstSelW 0 TEX_NORMALIZED TEX_NORMALIZED TEX_NORMALIZED TEX_NORMALIZED),
      to_QWORD (TEX_WORD2 0 0 0 samplerID sel_x sel_y sel_0 sel_x) 0]"

definition TEX_GET_GRADIENTS_H where
  "TEX_GET_GRADIENTS_H dstReg dstSelX dstSelY dstSelZ dstSelW srcReg (srcSelX :: u32) (srcSelY :: u32) (srcSelZ :: u32)
     (srcSelW :: u32) resourceID samplerID =
     [to_QWORD (TEX_WORD0 TEX_INST_GET_GRADIENTS_H 0 0 resourceID srcReg 0 0)
        (TEX_WORD1 dstReg 0 dstSelX dstSelY dstSelZ dstSelW 0 TEX_NORMALIZED TEX_NORMALIZED TEX_NORMALIZED TEX_NORMALIZED),
      to_QWORD (TEX_WORD2 0 0 0 samplerID sel_x sel_y sel_z sel_x) 0]"

definition TEX_GET_GRADIENTS_V where
  "TEX_GET_GRADIENTS_V dstReg dstSelX dstSelY dstSelZ dstSelW srcReg (srcSelX :: u32) (srcSelY :: u32) (srcSelZ :: u32)
     (srcSelW :: u32) resourceID samplerID =
     [to_QWORD (TEX_WORD0 TEX_INST_GET_GRADIENTS_V 0 0 resourceID srcReg 0 0)
        (TEX_WORD1 dstReg 0 dstSelX dstSelY dstSelZ dstSelW 0 TEX_NORMALIZED TEX_NORMALIZED TEX_NORMALIZED TEX_NORMALIZED),
      to_QWORD (TEX_WORD2 0 0 0 samplerID sel_x sel_y sel_z sel_x) 0]"

definition VTX_FETCH where
  "VTX_FETCH dstReg dstSelX dstSelY dstSelZ dstSelW srcReg srcSelX buffer_id ty mega offset =
     [to_QWORD (VTX_WORD0 VTX_INST_FETCH ty buffer_id srcReg srcSelX mega)
        (VTX_WORD1 dstReg dstSelX dstSelY dstSelZ dstSelW),
      to_QWORD (VTX_WORD2 offset (drop_bit 31 mega)) 0]"


section \<open>The fields of the words\<close>

text \<open>Where the fields of each word are, as position and width.\<close>

definition cf_layout :: layout where
  "cf_layout = [(0, 3), (3, 5), (8, 2), (10, 3), (13, 6), (23, 7), (31, 1)]"

definition cf_alu_layouts :: "layout \<times> layout" where
  "cf_alu_layouts = ([(0, 22), (22, 4), (26, 4), (30, 2)], [(0, 2), (2, 8), (10, 8), (18, 7), (25, 1), (26, 4), (31, 1)])"

definition source_layout :: layout where
  "source_layout = [(0, 9), (9, 1), (10, 2), (12, 1), (13, 9), (22, 1), (23, 2), (25, 1), (26, 3), (29, 2)]"

definition op2_layout :: layout where
  "op2_layout = [(0, 1), (1, 1), (2, 1), (3, 1), (4, 1), (5, 2), (7, 8), (15, 3), (18, 3), (21, 7), (28, 1), (29, 2), (31, 1)]"

definition op3_layout :: layout where
  "op3_layout = [(0, 9), (9, 1), (10, 2), (12, 1), (13, 5), (18, 3), (21, 7), (28, 1), (29, 2), (31, 1)]"

definition vtx_layouts :: "layout \<times> layout \<times> layout" where
  "vtx_layouts = ([(0, 5), (5, 2), (8, 8), (16, 7), (24, 2), (26, 6)],
     [(0, 7), (9, 3), (12, 3), (15, 3), (18, 3), (21, 1)], [(0, 16), (19, 1)])"

lemmas layouts = cf_layout_def cf_alu_layouts_def source_layout_def op2_layout_def op3_layout_def vtx_layouts_def

text \<open>The two words of an instruction as the processor reads them.\<close>

definition word0 :: "64 word \<Rightarrow> u32" where "word0 q = to_LE (high_word q)"
definition word1 :: "64 word \<Rightarrow> u32" where "word1 q = to_LE (low_word q)"

lemma word0_QWORD [simp]: "word0 (to_QWORD (to_LE a) w) = a"
  by (simp add: word0_def to_QWORD_def to_LE_def)

lemma word1_QWORD [simp]: "word1 (to_QWORD w (to_LE a)) = a"
  by (simp add: word1_def to_QWORD_def to_LE_def)

lemma fits: "v < 2 ^ n \<Longrightarrow> n < 32 \<Longrightarrow> take_bit n v = v" for v :: u32
  by (simp add: take_bit_eq_mod mod_word_less)

lemma fits_bit: "take_bit (Suc n) (of_bool b) = (of_bool b :: u32)"
  by simp

section \<open>Arithmetic instructions read back\<close>

text \<open>A source operand: a register or constant, perhaps negated or its absolute value taken.\<close>

definition source :: "u32 \<Rightarrow> bool \<Rightarrow> bool \<Rightarrow> u32" where
  "source sel ng ab = (let x = (if ng then NEG sel else sel) in if ab then ABS x else x)"

lemma source_bits: "source sel ng ab = sel OR push_bit 12 (of_bool ng) OR push_bit 13 (of_bool ab)"
  by (simp add: source_def NEG_def ABS_def or.assoc)

lemma source_fields:
  assumes "sel < 2 ^ 9"
  shows "source sel ng ab AND (push_bit 13 1 - 1) = sel OR push_bit 12 (of_bool ng)"
    "drop_bit 13 (source sel ng ab) = of_bool ab"
proof -
  have m: "push_bit 13 1 - 1 = (mask 13 :: u32)" by (simp add: mask_eq_exp_minus_1 push_bit_eq_mult)
  have b: "i < 9" if "bit sel i" for i using fit_bit [OF fits [OF assms] that] by simp
  show "source sel ng ab AND (push_bit 13 1 - 1) = sel OR push_bit 12 (of_bool ng)"
    unfolding m source_bits using b
    by (intro bit_word_eqI) (fastforce simp: bit_simps)
  show "drop_bit 13 (source sel ng ab) = of_bool ab"
    unfolding source_bits using b by (intro bit_word_eqI) (fastforce simp: bit_simps)
qed

lemma ALU_WORD0_pack:
  "ALU_WORD0 (sel0 OR push_bit 12 n0) 0 c0 0 (sel1 OR push_bit 12 n1) 0 c1 0 0 0 =
   to_LE (pack source_layout [sel0, 0, c0, n0, sel1, 0, c1, n1, 0, 0])"
  by (simp add: ALU_WORD0_def source_layout_def push_bit_or or.assoc or.commute or.left_commute)

lemma ALU_WORD1_OP2_pack:
  "ALU_WORD1_OP2 a0 a1 0 0 wr omod inst 0 0 gpr 0 chan 0 =
   to_LE (pack op2_layout [a0, a1, 0, 0, wr, omod, inst, 0, 0, gpr AND 0x7F, 0, chan AND 0x3, 0])"
  by (simp add: ALU_WORD1_OP2_def op2_layout_def)

lemma ALU_WORD1_OP3_pack:
  "ALU_WORD1_OP3 (sel2 OR push_bit 12 n2) 0 c2 0 inst 0 gpr 0 chan 0 =
   to_LE (pack op3_layout [sel2, 0, c2, n2, inst, 0, gpr AND 0x7F, 0, chan AND 0x3, 0])"
  by (simp add: ALU_WORD1_OP3_def op3_layout_def or.assoc or.commute or.left_commute)

lemma masks: "(0x7F :: u32) = mask 7" "(0x3 :: u32) = mask 2"
  by (simp_all add: mask_eq_exp_minus_1)

lemma gpr_field: "gpr < 0x80 \<Longrightarrow> gpr AND 0x7F = gpr" for gpr :: u32
  unfolding masks using fits [of gpr 7] by (simp only: take_bit_eq_mask [symmetric]) simp

lemma chan_field: "chan < 4 \<Longrightarrow> chan AND 0x3 = chan" for chan :: u32
  unfolding masks using fits [of chan 2] by (simp only: take_bit_eq_mask [symmetric]) simp

lemma dest_fields:
  assumes "gpr < 0x80"
  shows "drop_bit 7 ((if wr then gpr else R_off) AND R_off) XOR 1 = of_bool wr"
    "(if wr then gpr else R_off) AND 0x7F = (if wr then gpr else 0)"
proof -
  have "drop_bit 7 (gpr AND R_off) = drop_bit 7 ((gpr AND 0x7F) AND R_off)" by (simp add: gpr_field [OF assms])
  also have "\<dots> = 0" by (simp add: R_off_def and.assoc)
  finally show "drop_bit 7 ((if wr then gpr else R_off) AND R_off) XOR 1 = of_bool wr"
    by (simp add: R_off_def del: drop_bit_and)
  show "(if wr then gpr else R_off) AND 0x7F = (if wr then gpr else 0)" by (simp add: R_off_def gpr_field [OF assms])
qed

text \<open>C36: 
  An instruction with two operands reads back: its code, its destination and whether it is written, the
  two sources with their channels, signs and absolute values, and the factor of the result.
\<close>

theorem op2_reads_back:
  assumes "inst < 2 ^ 8" "gpr < 0x80" "chan < 4" "sel0 < 2 ^ 9" "c0 < 4" "sel1 < 2 ^ 9" "c1 < 4" "omod < 4"
    "q = ALU_OP2 inst (if wr then gpr else R_off) chan (source sel0 n0 a0) c0 (source sel1 n1 a1) c1 omod"
  shows "unpack source_layout (word0 q) = [sel0, 0, c0, of_bool n0, sel1, 0, c1, of_bool n1, 0, 0] \<and>
    unpack op2_layout (word1 q) =
      [of_bool a0, of_bool a1, 0, 0, of_bool wr, omod, inst, 0, 0, if wr then gpr else 0, 0, chan, 0]"
proof
  let ?src = "[sel0, 0, c0, of_bool n0, sel1, 0, c1, of_bool n1, 0, 0]"
  let ?dst = "[of_bool a0, of_bool a1, 0, 0, of_bool wr, omod, inst, 0, 0, if wr then gpr else 0, 0, chan, 0]"
  note f = fits [OF assms(1)] fits [OF assms(4)] fits [OF assms(6)] fits [of gpr 7] fits [of chan 2] fits [of c0 2]
    fits [of c1 2] fits [of omod 2]
  have "q = to_QWORD (to_LE (pack source_layout ?src)) (to_LE (pack op2_layout ?dst))"
    by (simp only: assms(9) ALU_OP2_def source_fields [OF assms(4)] source_fields [OF assms(6)] ALU_WORD0_pack
        ALU_WORD1_OP2_pack dest_fields [OF assms(2)] chan_field [OF assms(3)])
  moreover have "all_fit source_layout ?src" "ordered_from 0 source_layout" "all_fit op2_layout ?dst" "ordered_from 0 op2_layout"
    using f assms(2,3,5,7,8) by (auto simp: source_layout_def op2_layout_def)
  ultimately show "unpack source_layout (word0 q) = ?src" "unpack op2_layout (word1 q) = ?dst"
    by (simp_all add: unpack_pack)
qed

theorem op2_reads_back_witness:
  "unpack op2_layout (word1 (ALU_OP2 OP2_INST_MUL (if True then 3 else R_off) 1 (source 5 True False) 2
     (source 6 False True) 3 ALU_OMOD_M2)) = [0, 1, 0, 0, 1, 1, 1, 0, 0, 3, 0, 1, 0]"
  using op2_reads_back [of OP2_INST_MUL 3 1 5 2 6 3 ALU_OMOD_M2 _ True True False False True]
  by (simp add: OP2_INST_MUL_def ALU_OMOD_M2_def)

text \<open>An instruction with three operands reads back.\<close>

lemma op3_reads_back:
  assumes "inst < 2 ^ 5" "gpr < 0x80" "chan < 4" "sel0 < 2 ^ 9" "c0 < 4" "sel1 < 2 ^ 9" "c1 < 4" "sel2 < 2 ^ 9" "c2 < 4"
    "q = ALU_OP3 inst gpr chan (source sel0 n0 False) c0 (source sel1 n1 False) c1 (source sel2 n2 False) c2"
  shows "unpack source_layout (word0 q) = [sel0, 0, c0, of_bool n0, sel1, 0, c1, of_bool n1, 0, 0] \<and>
    unpack op3_layout (word1 q) = [sel2, 0, c2, of_bool n2, inst, 0, gpr, 0, chan, 0]"
proof
  let ?src = "[sel0, 0, c0, of_bool n0, sel1, 0, c1, of_bool n1, 0, 0]"
  let ?dst = "[sel2, 0, c2, of_bool n2, inst, 0, gpr, 0, chan, 0]"
  have s: "source sel n False = sel OR push_bit 12 (of_bool n)" for sel n by (simp add: source_bits)
  note f = fits [OF assms(1)] fits [OF assms(4)] fits [OF assms(6)] fits [OF assms(8)] fits [of gpr 7] fits [of chan 2]
    fits [of c0 2] fits [of c1 2] fits [of c2 2]
  have "q = to_QWORD (to_LE (pack source_layout ?src)) (to_LE (pack op3_layout ?dst))"
    by (simp only: assms(10) ALU_OP3_def s ALU_WORD0_pack ALU_WORD1_OP3_pack gpr_field [OF assms(2)] chan_field [OF assms(3)])
  moreover have "all_fit source_layout ?src" "ordered_from 0 source_layout" "all_fit op3_layout ?dst" "ordered_from 0 op3_layout"
    using f assms(2,3,5,7,9) by (auto simp: source_layout_def op3_layout_def)
  ultimately show "unpack source_layout (word0 q) = ?src" "unpack op3_layout (word1 q) = ?dst"
    by (simp_all add: unpack_pack)
qed

text \<open>
  It has no bit for not writing: with the register that switches writing off it writes register 0. The
  absolute value of its first source is lost and changes the second source instead.
\<close>

lemma op3_writes_register_0: "ALU_OP3 inst R_off chan = ALU_OP3 inst R0 chan"
  by (rule ext)+ (simp add: ALU_OP3_def ALU_WORD1_OP3_def R_off_def R0_def R_reg_def)

lemma op3_abs_is_second_source:
  "ALU_OP3 inst gpr chan (ABS sel0) c0 sel1 c1 sel2 c2 = ALU_OP3 inst gpr chan sel0 c0 (sel1 OR 1) c1 sel2 c2"
  by (simp add: ALU_OP3_def ALU_WORD0_def ABS_def push_bit_or ac_simps)

section \<open>Control flow and fetches read back\<close>

lemma clause_reads_back:
  assumes "1 \<le> cnt" "cnt \<le> 8"
  shows "word0 (TEX addr cnt) = addr \<and> unpack cf_layout (word1 (TEX addr cnt)) = [0, 0, CF_COND_ACTIVE, cnt - 1, 0, CF_INST_TEX, 1]"
    and "word0 (VTX addr cnt) = addr \<and> unpack cf_layout (word1 (VTX addr cnt)) = [0, 0, CF_COND_ACTIVE, cnt - 1, 0, CF_INST_VTX, 1]"
proof -
  have "cnt - 1 < 2 ^ 3" using assms by unat_arith
  then have f: "all_fit cf_layout [0, 0, CF_COND_ACTIVE, cnt - 1, 0, i, 1]" if "i < 2 ^ 7" for i
    using fits [of "cnt - 1" 3] fits [OF that] by (simp add: cf_layout_def CF_COND_ACTIVE_def)
  have o: "ordered_from 0 cf_layout" by (simp add: cf_layout_def)
  have w: "to_QWORD (CF_DWORD0 addr) (CF_DWORD1 0 0 CF_COND_ACTIVE (cnt - 1) 0 i) =
    to_QWORD (to_LE addr) (to_LE (pack cf_layout [0, 0, CF_COND_ACTIVE, cnt - 1, 0, i, 1]))" for i
    by (simp add: CF_DWORD0_def CF_DWORD1_def cf_layout_def)
  show "word0 (TEX addr cnt) = addr \<and> unpack cf_layout (word1 (TEX addr cnt)) = [0, 0, CF_COND_ACTIVE, cnt - 1, 0, CF_INST_TEX, 1]"
    unfolding TEX_def w by (simp add: unpack_pack [OF o f] CF_INST_TEX_def)
  show "word0 (VTX addr cnt) = addr \<and> unpack cf_layout (word1 (VTX addr cnt)) = [0, 0, CF_COND_ACTIVE, cnt - 1, 0, CF_INST_VTX, 1]"
    unfolding VTX_def w by (simp add: unpack_pack [OF o f] CF_INST_VTX_def)
qed

lemma alu_clause_reads_back:
  assumes "addr < 2 ^ 22" "1 \<le> cnt" "cnt \<le> 128"
  shows "unpack (fst cf_alu_layouts) (word0 (ALU addr cnt)) = [addr, 0, 0, 0] \<and>
    unpack (snd cf_alu_layouts) (word1 (ALU addr cnt)) = [0, 0, 0, cnt - 1, 0, CF_INST_ALU, 1]"
proof -
  have "cnt - 1 < 2 ^ 7" using assms by unat_arith
  then have f: "all_fit (snd cf_alu_layouts) [0, 0, 0, cnt - 1, 0, CF_INST_ALU, 1]" "all_fit (fst cf_alu_layouts) [addr, 0, 0, 0]"
    using fits [of "cnt - 1" 7] fits [OF assms(1)] by (simp_all add: cf_alu_layouts_def CF_INST_ALU_def)
  have o: "ordered_from 0 (snd cf_alu_layouts)" "ordered_from 0 (fst cf_alu_layouts)" by (simp_all add: cf_alu_layouts_def)
  have "ALU addr cnt = to_QWORD (to_LE (pack (fst cf_alu_layouts) [addr, 0, 0, 0]))
    (to_LE (pack (snd cf_alu_layouts) [0, 0, 0, cnt - 1, 0, CF_INST_ALU, 1]))"
    by (simp add: ALU_def CF_ALU_WORD0_def CF_ALU_WORD1_def cf_alu_layouts_def)
  then show ?thesis using unpack_pack [OF o(1) f(1)] unpack_pack [OF o(2) f(2)] by simp
qed

text \<open>A fetch of vertex data; the flag of a mega fetch is the top bit of its size, which the size field loses.\<close>

lemma vtx_fetch_reads_back:
  assumes "ty < 4" "buf < 2 ^ 8" "src < 0x80" "sx < 4" "1 \<le> n" "n \<le> 64" "dst < 0x80"
    "dx < 8" "dy < 8" "dz < 8" "dw < 8" "off < 2 ^ 16"
    "[q0, q1] = VTX_FETCH dst dx dy dz dw src sx buf ty (if mega then MEGA n else MINI n) off"
  shows "unpack (fst vtx_layouts) (word0 q0) = [VTX_INST_FETCH, ty, buf, src, sx, n - 1] \<and>
    unpack (fst (snd vtx_layouts)) (word1 q0) = [dst, dx, dy, dz, dw, 1] \<and>
    unpack (snd (snd vtx_layouts)) (word0 q1) = [off, of_bool mega]"
proof -
  let ?m = "if mega then MEGA n else MINI n"
  have "n - 1 < 2 ^ 6" using assms(5,6) by unat_arith
  then have n: "take_bit 6 (n - 1) = n - 1" by (simp add: fits)
  have b: "\<not> bit (n - 1) i" if "6 \<le> i" for i using fit_bit [OF n, of i] that by auto
  have t: "?m = (n - 1) OR push_bit 31 (of_bool mega)" by (simp add: MEGA_def MINI_def)
  have m: "push_bit 26 ?m = push_bit 26 (n - 1)" "drop_bit 31 ?m = of_bool mega"
    unfolding t using b by (fastforce intro!: bit_word_eqI simp: bit_simps)+
  note f = fits [OF assms(2)] fits [OF assms(12)] fits [of ty 2] fits [of src 7] fits [of sx 2] fits [of dst 7]
    fits [of dx 3] fits [of dy 3] fits [of dz 3] fits [of dw 3] n
  let ?l0 = "fst vtx_layouts" and ?l1 = "fst (snd vtx_layouts)" and ?l2 = "snd (snd vtx_layouts)"
  have q: "q0 = to_QWORD (to_LE (pack ?l0 [VTX_INST_FETCH, ty, buf, src, sx, n - 1])) (to_LE (pack ?l1 [dst, dx, dy, dz, dw, 1]))"
    "q1 = to_QWORD (to_LE (pack ?l2 [off, of_bool mega])) 0"
    using assms(13) by (simp_all add: VTX_FETCH_def VTX_WORD0_def VTX_WORD1_def VTX_WORD2_def m vtx_layouts_def)
  have "all_fit ?l0 [VTX_INST_FETCH, ty, buf, src, sx, n - 1]" "all_fit ?l1 [dst, dx, dy, dz, dw, 1]" "all_fit ?l2 [off, of_bool mega]"
    "ordered_from 0 ?l0" "ordered_from 0 ?l1" "ordered_from 0 ?l2"
    using f assms(1,3,4,7-11) by (auto simp: vtx_layouts_def VTX_INST_FETCH_def)
  then show ?thesis unfolding q by (simp add: unpack_pack)
qed

text \<open>A texture fetch ignores which components of the coordinates it is asked to use.\<close>

lemma tex_sample_ignores_source_selection:
  "TEX_SAMPLE d dx dy dz dw r sx sy sz sw t s = TEX_SAMPLE d dx dy dz dw r sx' sy' sz' sw' t s"
  by (simp add: TEX_SAMPLE_def)

section \<open>Suffixes\<close>

text \<open>Whatever stands in front of an OR stays in the result.\<close>

lemma suffixed_from_keeps: "bit acc i \<Longrightarrow> bit (suffixed_from acc operand xs) i"
  by (induction acc operand xs rule: suffixed_from.induct) (auto simp: bit_or_iff)

text \<open>
  The suffix without barrier works directly behind an instruction, and only there: behind a suffix that
  adds bits it reaches that suffix alone, and the barrier of the instruction stays.
\<close>

lemma no_barrier_clears: "word1 (suffixed (to_QWORD w0 (to_LE w1)) [NO_BARRIER]) = w1 AND NOT (push_bit 31 1)"
proof -
  have "low_word (to_QWORD w0 (to_LE w1) AND NOT (to_QWORD 0 (to_LE (push_bit 31 1)))) = to_LE w1 AND NOT (to_LE (push_bit 31 1))"
    by (rule bit_word_eqI) (auto simp: low_word_def to_QWORD_def join_words_def bit_simps)
  then show ?thesis by (simp add: suffixed_def NO_BARRIER_def word1_def to_LE_def swap_bytes_and_not del: push_bit_numeral)
qed

lemma barrier_stays:
  assumes "bit (word1 (suffixed q [])) 31"
  shows "bit (word1 (suffixed q (Or_with x # xs))) 31"
proof -
  have b: "bit (word1 w) 31 \<longleftrightarrow> bit w 7" for w
    by (simp add: word1_def to_LE_def low_word_def swap_bytes_def bit_simps)
  show ?thesis using assms unfolding b by (simp add: suffixed_def suffixed_from_keeps)
qed

text \<open>Repeated entries have the length their names say.\<close>

lemma repeats:
  "rep_x2 v = replicate 2 v" "rep_x4 v = replicate 4 v" "rep_x8 v = replicate 8 v" "rep_x16 v = replicate 16 v"
  "rep_x9 v = replicate 9 v" "rep_x30 v = replicate 30 v" "rep_x31 v = replicate 31 v"
proof -
  have 1: "[v] = replicate 1 v" by simp
  show 2: "rep_x2 v = replicate 2 v" by (simp add: rep_x2_def numeral_2_eq_2)
  show 4: "rep_x4 v = replicate 4 v" unfolding rep_x4_def 2 by (simp only: replicate_add [symmetric]) simp
  show 8: "rep_x8 v = replicate 8 v" unfolding rep_x8_def 4 by (simp only: replicate_add [symmetric]) simp
  show 16: "rep_x16 v = replicate 16 v" unfolding rep_x16_def 8 by (simp only: replicate_add [symmetric]) simp
  show "rep_x9 v = replicate 9 v" unfolding rep_x9_def 8 1 by (simp only: replicate_add [symmetric]) simp
  show 30: "rep_x30 v = replicate 30 v" unfolding rep_x30_def 16 8 4 2 by (simp only: replicate_add [symmetric]) simp
  show "rep_x31 v = replicate 31 v" unfolding rep_x31_def 30 1 by (simp only: replicate_add [symmetric]) simp
qed

end
