(* ===== verification/Slang.thy ===== *)
theory Slang
  imports Prelude "HOL-Library.Sublist"
begin

text \<open>
  The shader preprocessor of the build (\<open>slang/main.c\<close>): it splits a slang shader into the vertex and
  the fragment source. The buffer is walked with pointers and cut into strings by writing terminators
  into it; the walk leaves the buffer when the text does not end with a line end, and the search for
  the end of a layout qualifier leaves the line. The second half states what the tool computes on a
  text of complete lines without pointers, and proves the walk equal to it.
\<close>

section \<open>The arguments\<close>

record slang_args =
  arg_slang :: "string option"
  vs_asm :: "string option"
  ps_asm :: "string option"
  vs_out :: "string option"
  ps_out :: "string option"

definition no_args :: slang_args where
  "no_args = \<lparr>arg_slang = None, vs_asm = None, ps_asm = None, vs_out = None, ps_out = None\<rparr>"

definition set_arg :: "string \<Rightarrow> string \<Rightarrow> slang_args \<Rightarrow> slang_args" where
  "set_arg opt v a =
     (if opt = ''--slang'' then a\<lparr>arg_slang := Some v\<rparr>
      else if opt = ''--vsource'' then a\<lparr>vs_asm := Some v\<rparr>
      else if opt = ''--psource'' then a\<lparr>ps_asm := Some v\<rparr>
      else if opt = ''--vsh'' then a\<lparr>vs_out := Some v\<rparr>
      else if opt = ''--psh'' then a\<lparr>ps_out := Some v\<rparr>
      else a)"

text \<open>The arguments after the program's name, two at a time.\<close>

fun read_args :: "string list \<Rightarrow> slang_args \<Rightarrow> slang_args" where
  "read_args (opt # v # rest) a = read_args rest (set_arg opt v a)"
| "read_args _ a = a"

definition args_incomplete :: "slang_args \<Rightarrow> bool" where
  "args_incomplete a \<longleftrightarrow> arg_slang a = None \<or> vs_out a = None \<or> ps_out a = None \<or>
     (vs_asm a = None \<and> ps_asm a \<noteq> None) \<or> (vs_asm a \<noteq> None \<and> ps_asm a = None)"

section \<open>String functions of the C library\<close>

text \<open>The pointer \<open>strstr\<close> returns, and whether \<open>strncmp\<close> finds the characters at a pointer.\<close>

fun strstr :: "string \<Rightarrow> char list \<Rightarrow> fault + char list option" where
  "strstr pat [] = Inl Out_of_bounds"
| "strstr pat (c # cs) =
     (if prefix pat (c # cs) then Inr (Some (c # cs))
      else if c = NUL then Inr None
      else strstr pat cs)"

fun strncmp_is :: "string \<Rightarrow> char list \<Rightarrow> fault + bool" where
  "strncmp_is [] p = Inr True"
| "strncmp_is (a # as) [] = Inl Out_of_bounds"
| "strncmp_is (a # as) (c # cs) = (if c = a then strncmp_is as cs else Inr False)"

section \<open>One line\<close>

text \<open>The two output streams and which of them are on.\<close>

record slang_out =
  vson :: bool
  pson :: bool
  vs_text :: string
  ps_text :: string

definition version_line :: string where
  "version_line = ''#version 150'' @ [LF]"

definition start_out :: slang_out where
  "start_out = \<lparr>vson = True, pson = True, vs_text = version_line, ps_text = version_line\<rparr>"

definition set_stage :: "char list \<Rightarrow> slang_out \<Rightarrow> fault + slang_out" where
  "set_stage line s =
     bindF (strstr ''#pragma stage vertex'' line) (\<lambda>v.
     if v \<noteq> None then Inr (s\<lparr>vson := True, pson := False\<rparr>)
     else
       bindF (strstr ''#pragma stage fragment'' line) (\<lambda>f.
       if f \<noteq> None then Inr (s\<lparr>vson := False, pson := True\<rparr>) else Inr s))"

text \<open>The search for the closing parenthesis has no test for the end of the string.\<close>

fun to_paren :: "char list \<Rightarrow> fault + char list" where
  "to_paren [] = Inl Out_of_bounds"
| "to_paren (c # cs) = (if c = CHR '')'' then Inr (c # cs) else to_paren cs)"

fun skip_blanks :: "char list \<Rightarrow> fault + char list" where
  "skip_blanks [] = Inl Out_of_bounds"
| "skip_blanks (c # cs) = (if c \<noteq> NUL \<and> isspace c then skip_blanks cs else Inr (c # cs))"

definition drop_layout :: "char list \<Rightarrow> fault + char list" where
  "drop_layout line =
     bindF (strstr ''layout('' line) (\<lambda>found. case found of
       None \<Rightarrow> Inr line
     | Some layout \<Rightarrow>
         bindF (to_paren layout) (\<lambda>layout.
         bindF (skip_blanks (tl layout)) (\<lambda>layout.
         bindF (strncmp_is ''uniform'' layout) (\<lambda>uniform.
         Inr (if uniform then layout else line)))))"

definition put_line :: "char list \<Rightarrow> slang_out \<Rightarrow> fault + slang_out" where
  "put_line line s =
     bindF (if vson s then bindF (c_str line) (\<lambda>t. Inr (s\<lparr>vs_text := vs_text s @ t @ [LF]\<rparr>)) else Inr s) (\<lambda>s.
     if pson s then bindF (c_str line) (\<lambda>t. Inr (s\<lparr>ps_text := ps_text s @ t @ [LF]\<rparr>)) else Inr s)"

text \<open>The body of the loop after the line has been cut off; \<open>line\<close> is the pointer to it.\<close>

definition do_line :: "char list \<Rightarrow> slang_out \<Rightarrow> fault + slang_out" where
  "do_line line s =
     bindF (strstr ''#version'' line) (\<lambda>version.
     if version \<noteq> None then Inr s
     else
       bindF (strstr ''#pragma'' line) (\<lambda>pragma.
       if pragma \<noteq> None then set_stage line s
       else bindF (drop_layout line) (\<lambda>line. put_line line s)))"

section \<open>The walk over the buffer\<close>

definition ends_line :: "char \<Rightarrow> bool" where
  "ends_line c \<longleftrightarrow> c = NUL \<or> c = LF \<or> c = CR"

fun scan_line :: "char list \<Rightarrow> fault + string \<times> char list" where
  "scan_line [] = Inl Out_of_bounds"
| "scan_line (c # cs) =
     (if ends_line c then Inr ([], c # cs)
      else bindF (scan_line cs) (\<lambda>(l, p). Inr (c # l, p)))"

text \<open>The terminators written at the end of the line, and the pointer past them.\<close>

fun terminate_line :: "char list \<Rightarrow> fault + string \<times> char list" where
  "terminate_line [] = Inl Out_of_bounds"
| "terminate_line (c # cs) =
     (if c = CR then (case cs of [] \<Rightarrow> Inl Out_of_bounds | _ # p \<Rightarrow> Inr ([NUL, NUL], p))
      else Inr ([NUL], cs))"

lemma scan_line_length: "scan_line p = Inr (l, q) \<Longrightarrow> length p = length l + length q"
  by (induction p arbitrary: l q) (auto simp: fault_simps split: if_splits)

lemma terminate_line_length: "terminate_line q = Inr (z, r) \<Longrightarrow> length r < length q"
  by (cases q) (auto split: if_splits list.splits)

function slang_loop :: "char list \<Rightarrow> slang_out \<Rightarrow> fault + slang_out" where
  "slang_loop p s =
     (case p of
        [] \<Rightarrow> Inl Out_of_bounds
      | c # _ \<Rightarrow>
          if c = NUL then Inr s
          else
            bindF (scan_line p) (\<lambda>lq.
            bindF (terminate_line (snd lq)) (\<lambda>zr.
            bindF (do_line (fst lq @ fst zr @ snd zr) s) (\<lambda>s.
            slang_loop (snd zr) s))))"
  by pat_completeness auto
termination
  by (relation "measure (\<lambda>(p, s). length p)")
    (use scan_line_length terminate_line_length in \<open>fastforce\<close>)+

declare slang_loop.simps [simp del]

section \<open>The tool\<close>

text \<open>
  \<open>contents\<close> says what a file holds (\<open>None\<close>: it cannot be opened), \<open>can_write\<close> whether an output can
  be opened; a null pointer from \<open>fopen\<close> or \<open>malloc\<close> is used as it is. The result is the text written
  to each output, after a flag that the usage was printed.
\<close>

definition use_ptr :: "'a option \<Rightarrow> fault + 'a" where
  "use_ptr p = (case p of None \<Rightarrow> Inl Null_pointer | Some x \<Rightarrow> Inr x)"

definition open_out :: "(string \<Rightarrow> bool) \<Rightarrow> string option \<Rightarrow> fault + string" where
  "open_out can_write name = bindF (use_ptr name) (\<lambda>n. if can_write n then Inr n else Inl Null_pointer)"

definition slang_main ::
  "(string \<Rightarrow> string option) \<Rightarrow> (string \<Rightarrow> bool) \<Rightarrow> string list \<Rightarrow> mem \<Rightarrow> fault + bool \<times> slang_out" where
  "slang_main contents can_write argv m =
     (let a = read_args argv no_args;
          usage = args_incomplete a in
      bindF (use_ptr (arg_slang a)) (\<lambda>name.
      bindF (use_ptr (contents name)) (\<lambda>text.
      if fst (malloc m) = 0 then Inl Null_pointer
      else
        bindF (open_out can_write (vs_out a)) (\<lambda>_.
        bindF (open_out can_write (ps_out a)) (\<lambda>_.
        bindF (slang_loop (text @ [NUL]) start_out) (\<lambda>s.
        Inr (usage, s)))))))"

section \<open>What the tool computes\<close>

datatype stage = Vertex | Fragment

text \<open>The rest of the line from the first place where a text occurs.\<close>

fun find_text :: "string \<Rightarrow> string \<Rightarrow> string option" where
  "find_text pat [] = (if pat = [] then Some [] else None)"
| "find_text pat (c # cs) = (if prefix pat (c # cs) then Some (c # cs) else find_text pat cs)"

definition after_layout :: "string \<Rightarrow> string" where
  "after_layout t = dropWhile isspace (tl (dropWhile (\<lambda>c. c \<noteq> CHR '')'') t))"

definition plain_line :: "string \<Rightarrow> string" where
  "plain_line l =
     (case find_text ''layout('' l of
        None \<Rightarrow> l
      | Some t \<Rightarrow> if prefix ''uniform'' (after_layout t) then after_layout t else l)"

text \<open>
  The lines a stage gets: those before the first stage pragma and those after a pragma of the stage,
  without the lines that name a version or a pragma.
\<close>

fun next_stage :: "stage option \<Rightarrow> string \<Rightarrow> stage option" where
  "next_stage cur l =
     (if sublist ''#version'' l then cur
      else if sublist ''#pragma stage vertex'' l then Some Vertex
      else if sublist ''#pragma stage fragment'' l then Some Fragment
      else cur)"

fun stage_lines :: "stage \<Rightarrow> stage option \<Rightarrow> string list \<Rightarrow> string list" where
  "stage_lines k cur [] = []"
| "stage_lines k cur (l # ls) =
     (if sublist ''#version'' l \<or> sublist ''#pragma'' l then stage_lines k (next_stage cur l) ls
      else (if cur = None \<or> cur = Some k then [plain_line l] else []) @ stage_lines k cur ls)"

definition stage_text :: "stage \<Rightarrow> string list \<Rightarrow> string" where
  "stage_text k ls = concat (map (\<lambda>l. l @ [LF]) (''#version 150'' # stage_lines k None ls))"

text \<open>A text of complete lines: each ends with LF or CR LF, and a layout qualifier is closed.\<close>

definition good_line :: "string \<Rightarrow> bool" where
  "good_line l \<longleftrightarrow> (\<forall>c \<in> set l. \<not> ends_line c) \<and>
     (sublist ''#version'' l \<or> sublist ''#pragma'' l \<or>
      (\<forall>t. find_text ''layout('' l = Some t \<longrightarrow> CHR '')'' \<in> set t))"

definition lines_text :: "bool \<Rightarrow> string list \<Rightarrow> string" where
  "lines_text crlf ls = concat (map (\<lambda>l. l @ (if crlf then [CR, LF] else [LF])) ls)"

section \<open>The walk equals it\<close>

lemma find_text_None: "find_text pat l = None \<longleftrightarrow> \<not> sublist pat l"
  by (induction l) (auto simp: sublist_Cons_right)

lemma find_text_Some: "(\<exists>t. find_text pat l = Some t) \<longleftrightarrow> sublist pat l"
  using find_text_None [of pat l] by (cases "find_text pat l") auto

lemma find_text_suffix: "find_text pat l = Some t \<Longrightarrow> suffix t l"
  by (induction l) (auto simp: suffix_Cons split: if_splits)

lemma prefix_before_NUL:
  "NUL \<notin> set pat \<Longrightarrow> prefix pat (l @ NUL # r) \<longleftrightarrow> prefix pat l"
proof (induction pat arbitrary: l)
  case (Cons a pat)
  then show ?case by (cases l) auto
qed simp

lemma strstr_find:
  assumes "NUL \<notin> set l" "NUL \<notin> set pat" "pat \<noteq> []"
  shows "strstr pat (l @ NUL # r) = Inr (map_option (\<lambda>t. t @ NUL # r) (find_text pat l))"
  using assms(1)
proof (induction l)
  case Nil
  then show ?case using prefix_before_NUL [OF assms(2), of "[]" r] assms(3) by simp
next
  case (Cons c l)
  then show ?case using prefix_before_NUL [OF assms(2), of "c # l" r] by auto
qed

lemma strncmp_prefix:
  "NUL \<notin> set pat \<Longrightarrow> NUL \<notin> set l \<Longrightarrow> strncmp_is pat (l @ NUL # r) = Inr (prefix pat l)"
proof (induction pat arbitrary: l)
  case (Cons a pat)
  then show ?case by (cases l) auto
qed simp

lemma to_paren_found:
  "CHR '')'' \<in> set t \<Longrightarrow> to_paren (t @ r) = Inr (dropWhile (\<lambda>c. c \<noteq> CHR '')'') t @ r)"
  by (induction t) auto

lemma skip_blanks_found:
  "NUL \<notin> set t \<Longrightarrow> skip_blanks (t @ NUL # r) = Inr (dropWhile isspace t @ NUL # r)"
  by (induction t) auto

lemma suffix_set: "suffix t l \<Longrightarrow> set t \<subseteq> set l"
  by (auto simp: suffix_def)

lemma set_after_layout: "set (after_layout t) \<subseteq> set t"
proof -
  have "suffix (after_layout t) t"
    unfolding after_layout_def
    by (meson suffix_dropWhile suffix_tl suffix_order.trans)
  then show ?thesis by (rule suffix_set)
qed

lemma drop_layout_plain:
  assumes "NUL \<notin> set l" "\<forall>t. find_text ''layout('' l = Some t \<longrightarrow> CHR '')'' \<in> set t"
  shows "drop_layout (l @ NUL # r) = Inr (plain_line l @ NUL # r)"
proof (cases "find_text ''layout('' l")
  case None
  then show ?thesis using assms(1) by (simp add: drop_layout_def strstr_find plain_line_def)
next
  case (Some t)
  have par: "CHR '')'' \<in> set t" using assms(2) Some by simp
  have t: "NUL \<notin> set t" using suffix_set [OF find_text_suffix [OF Some]] assms(1) by auto
  have ne: "dropWhile (\<lambda>c. c \<noteq> CHR '')'') t \<noteq> []" using par by simp
  have tl: "NUL \<notin> set (tl (dropWhile (\<lambda>c. c \<noteq> CHR '')'') t))"
    using t suffix_set [OF suffix_order.trans [OF suffix_tl suffix_dropWhile], of "\<lambda>c. c \<noteq> CHR '')''" t] by auto
  have al: "NUL \<notin> set (after_layout t)" using set_after_layout [of t] t by auto
  show ?thesis
    using assms(1) ne
    by (simp add: drop_layout_def strstr_find Some plain_line_def to_paren_found par
        skip_blanks_found [OF tl] strncmp_prefix [OF _ al] flip: after_layout_def)
qed

lemma plain_line_NUL: "NUL \<notin> set l \<Longrightarrow> NUL \<notin> set (plain_line l)"
proof -
  assume n: "NUL \<notin> set l"
  have "NUL \<notin> set (after_layout t)" if "find_text ''layout('' l = Some t" for t
    using n suffix_set [OF find_text_suffix [OF that]] set_after_layout [of t] by auto
  then show ?thesis using n by (auto simp: plain_line_def split: option.split)
qed

text \<open>What one complete line does.\<close>

definition line_effect :: "string \<Rightarrow> slang_out \<Rightarrow> slang_out" where
  "line_effect l s =
     (if sublist ''#version'' l then s
      else if sublist ''#pragma'' l then
        (if sublist ''#pragma stage vertex'' l then s\<lparr>vson := True, pson := False\<rparr>
         else if sublist ''#pragma stage fragment'' l then s\<lparr>vson := False, pson := True\<rparr>
         else s)
      else
        s\<lparr>vs_text := vs_text s @ (if vson s then plain_line l @ [LF] else []),
          ps_text := ps_text s @ (if pson s then plain_line l @ [LF] else [])\<rparr>)"

lemma good_line_NUL: "good_line l \<Longrightarrow> NUL \<notin> set l"
  by (auto simp: good_line_def ends_line_def)

lemma do_line_effect:
  assumes "good_line l"
  shows "do_line (l @ NUL # r) s = Inr (line_effect l s)"
proof -
  have n: "NUL \<notin> set l" using assms by (rule good_line_NUL)
  have f: "strstr pat (l @ NUL # r) = Inr (map_option (\<lambda>t. t @ NUL # r) (find_text pat l))"
    if "NUL \<notin> set pat" "pat \<noteq> []" for pat
    using n that by (rule strstr_find)
  have d: "drop_layout (l @ NUL # r) = Inr (plain_line l @ NUL # r)"
    if "\<not> sublist ''#version'' l" "\<not> sublist ''#pragma'' l"
    using assms that n by (intro drop_layout_plain) (auto simp: good_line_def)
  have p: "put_line (plain_line l @ NUL # r) s = Inr (s\<lparr>
      vs_text := vs_text s @ (if vson s then plain_line l @ [LF] else []),
      ps_text := ps_text s @ (if pson s then plain_line l @ [LF] else [])\<rparr>)"
    using plain_line_NUL [OF n] by (simp add: put_line_def)
  show ?thesis
    unfolding do_line_def line_effect_def set_stage_def
    by (cases "sublist ''#version'' l"; cases "sublist ''#pragma'' l") (simp_all add: f d p find_text_Some)
qed


lemma scan_line_good:
  "\<forall>c \<in> set l. \<not> ends_line c \<Longrightarrow> ends_line e \<Longrightarrow> scan_line (l @ e # r) = Inr (l, e # r)"
  by (induction l) auto

text \<open>One round of the loop on a complete line. An empty buffer ends it.\<close>

lemma slang_loop_end: "slang_loop (NUL # r) s = Inr s"
  by (simp add: slang_loop.simps)

lemma hd_line: "\<forall>c \<in> set l. \<not> ends_line c \<Longrightarrow> l \<noteq> [] \<or> x \<noteq> NUL \<Longrightarrow> hd (l @ x # r) \<noteq> NUL"
  by (cases l) (auto simp: ends_line_def)

lemma slang_loop_round:
  assumes "p \<noteq> []" "hd p \<noteq> NUL" "scan_line p = Inr (l, q)" "terminate_line q = Inr (z, r)"
    "do_line (l @ z @ r) s = Inr s'"
  shows "slang_loop p s = slang_loop r s'"
proof -
  obtain c k where "p = c # k" "c \<noteq> NUL" using assms(1,2) by (cases p) auto
  then have "slang_loop p s = bindF (scan_line p) (\<lambda>lq.
     bindF (terminate_line (snd lq)) (\<lambda>zr. bindF (do_line (fst lq @ fst zr @ snd zr) s) (\<lambda>s. slang_loop (snd zr) s)))"
    by (subst slang_loop.simps) (simp only: list.case if_False)
  then show ?thesis by (simp only: assms(3-5) bindF.simps fst_conv snd_conv)
qed

lemma slang_loop_line:
  assumes "good_line l" "p = l @ [CR, LF] @ r \<or> p = l @ [LF] @ r"
  shows "slang_loop p s = slang_loop r (line_effect l s)"
proof -
  have ok: "\<forall>c \<in> set l. \<not> ends_line c" using assms(1) by (simp add: good_line_def)
  have p: "p \<noteq> []" "hd p \<noteq> NUL"
    using assms(2) hd_line [OF ok, of CR "LF # r"] hd_line [OF ok, of LF r] by auto
  obtain q z where q: "scan_line p = Inr (l, q)" and z: "terminate_line q = Inr (NUL # z, r)"
  proof (cases "p = l @ [CR, LF] @ r")
    case True
    then show thesis using that [of "CR # LF # r" "[NUL]"] scan_line_good [OF ok, of CR] by (simp add: ends_line_def)
  next
    case False
    then show thesis using that [of "LF # r" "[]"] assms(2) scan_line_good [OF ok, of LF] by (simp add: ends_line_def)
  qed
  show ?thesis
    using slang_loop_round [OF p q z] do_line_effect [OF assms(1), of "z @ r" s] by simp
qed

text \<open>A last line without a line end: the walk steps over the end of the buffer.\<close>

lemma slang_loop_unfinished:
  assumes "good_line l" "l \<noteq> []"
  shows "slang_loop (l @ [NUL]) s = Inl Out_of_bounds"
proof -
  have ok: "\<forall>c \<in> set l. \<not> ends_line c" using assms(1) by (simp add: good_line_def)
  have p: "l @ [NUL] \<noteq> []" "hd (l @ [NUL]) \<noteq> NUL"
    using assms(2) hd_line [OF ok] by auto
  have q: "scan_line (l @ [NUL]) = Inr (l, [NUL])" using scan_line_good [OF ok, of NUL "[]"] by (simp add: ends_line_def)
  show ?thesis
    using slang_loop_round [OF p q, of "[NUL]" "[]" s] do_line_effect [OF assms(1), of "[]" s]
    by (simp add: slang_loop.simps [of "[]"])
qed

lemma slang_loop_lines:
  "\<forall>l \<in> set ls. good_line l \<Longrightarrow> slang_loop (lines_text crlf ls @ r) s = slang_loop r (foldl (\<lambda>s l. line_effect l s) s ls)"
proof (induction ls arbitrary: s)
  case (Cons l ls)
  then show ?case
    using slang_loop_line [of l "lines_text crlf (l # ls) @ r" "lines_text crlf ls @ r" s]
    by (auto simp: lines_text_def)
qed (simp add: lines_text_def)

definition on_for :: "stage \<Rightarrow> stage option \<Rightarrow> bool" where
  "on_for k cur \<longleftrightarrow> cur = None \<or> cur = Some k"

lemma stage_pragmas: "sublist ''#pragma stage vertex'' l \<Longrightarrow> sublist ''#pragma'' l"
  "sublist ''#pragma stage fragment'' l \<Longrightarrow> sublist ''#pragma'' l"
  by (auto simp: sublist_def)+

lemma line_effects:
  assumes "vson s = on_for Vertex cur" "pson s = on_for Fragment cur"
  shows "vs_text (foldl (\<lambda>s l. line_effect l s) s ls) =
     vs_text s @ concat (map (\<lambda>l. l @ [LF]) (stage_lines Vertex cur ls)) \<and>
   ps_text (foldl (\<lambda>s l. line_effect l s) s ls) =
     ps_text s @ concat (map (\<lambda>l. l @ [LF]) (stage_lines Fragment cur ls))"
  using assms
proof (induction ls arbitrary: s cur)
  case (Cons l ls)
  let ?v = "sublist ''#pragma stage vertex'' l" and ?f = "sublist ''#pragma stage fragment'' l"
  show ?case
  proof (cases "sublist ''#version'' l \<or> sublist ''#pragma'' l")
    case True
    have "vson (line_effect l s) = on_for Vertex (next_stage cur l)"
      "pson (line_effect l s) = on_for Fragment (next_stage cur l)"
      using Cons.prems True by (auto simp: line_effect_def on_for_def)
    moreover have "vs_text (line_effect l s) = vs_text s" "ps_text (line_effect l s) = ps_text s"
      using True by (auto simp: line_effect_def)
    ultimately show ?thesis using Cons.IH [of "line_effect l s"] True by (simp del: next_stage.simps)
  next
    case False
    then have e: "line_effect l s = s\<lparr>
        vs_text := vs_text s @ (if vson s then plain_line l @ [LF] else []),
        ps_text := ps_text s @ (if pson s then plain_line l @ [LF] else [])\<rparr>"
      by (simp add: line_effect_def)
    show ?thesis
      using Cons.IH [of "line_effect l s" cur] Cons.prems False by (simp add: e on_for_def)
  qed
qed simp


section \<open>Properties\<close>

text \<open>C37: 
  The tool splits a shader into its stages: for a file of complete lines, each ending the same way
  (LF or CR LF) and free of terminators and other line ends, and outputs that can be opened, a run
  has no undefined behaviour, and what it writes to the two outputs is, for the vertex and for the
  fragment stage, the version line and the lines of the stage in order, without version and pragma
  lines and with a layout qualifier before a uniform removed.
\<close>

theorem slang_splits_stages:
  assumes "contents name = Some (lines_text crlf ls)" "\<forall>l \<in> set ls. good_line l"
    "can_write vo" "can_write po" "fst (malloc m) \<noteq> 0"
  shows "\<exists>s. slang_main contents can_write [''--slang'', name, ''--vsh'', vo, ''--psh'', po] m = Inr (False, s) \<and>
    vs_text s = stage_text Vertex ls \<and> ps_text s = stage_text Fragment ls"
  using line_effects [of start_out None ls] assms slang_loop_lines [OF assms(2), of crlf "[NUL]" start_out]
  by (simp add: slang_main_def no_args_def set_arg_def args_incomplete_def use_ptr_def open_out_def
      slang_loop_end stage_text_def start_out_def on_for_def version_line_def)

definition demo_shader :: "string list" where
  "demo_shader = [''#version 450'', ''layout(set = 0) uniform float x;'', ''#pragma stage vertex'', ''v;'',
     ''#pragma stage fragment'', ''layout(location = 0) in p;'']"

theorem slang_splits_stages_witness:
  "\<exists>s. slang_main [''a.slang'' \<mapsto> lines_text True demo_shader] (\<lambda>_. True)
      [''--slang'', ''a.slang'', ''--vsh'', ''v'', ''--psh'', ''p''] (\<lambda>_. 64) = Inr (False, s) \<and>
    vs_text s = lines_text False [''#version 150'', ''uniform float x;'', ''v;''] \<and>
    ps_text s = lines_text False [''#version 150'', ''uniform float x;'', ''layout(location = 0) in p;'']"
  using slang_splits_stages [of "[''a.slang'' \<mapsto> lines_text True demo_shader]" "''a.slang''" True demo_shader
     "\<lambda>_. True" "''v''" "''p''" "\<lambda>_. 64"]
  by (simp add: demo_shader_def good_line_def ends_line_def stage_text_def lines_text_def plain_line_def
      after_layout_def malloc_def isspace_def sublist_Cons_right)

text \<open>
  A shader that does not end with a line end is not handled: after any complete lines, a last line
  that lacks its line end makes the tool step over the terminator of the buffer, and the next test
  reads outside it.
\<close>

theorem slang_needs_final_line_end:
  assumes "contents name = Some (lines_text crlf ls @ l)" "\<forall>l \<in> set ls. good_line l" "good_line l" "l \<noteq> []"
    "can_write vo" "can_write po" "fst (malloc m) \<noteq> 0"
  shows "slang_main contents can_write [''--slang'', name, ''--vsh'', vo, ''--psh'', po] m = Inl Out_of_bounds"
  using assms slang_loop_lines [OF assms(2), of crlf "l @ [NUL]" start_out]
  by (simp add: slang_main_def no_args_def set_arg_def use_ptr_def open_out_def slang_loop_unfinished)

theorem slang_needs_final_line_end_witness:
  "slang_main [''a.slang'' \<mapsto> ''#version 450'' @ [LF] @ ''v;''] (\<lambda>_. True)
      [''--slang'', ''a.slang'', ''--vsh'', ''v'', ''--psh'', ''p''] (\<lambda>_. 64) = Inl Out_of_bounds"
  using slang_needs_final_line_end [of "[''a.slang'' \<mapsto> ''#version 450'' @ [LF] @ ''v;'']" "''a.slang''" False
      "[''#version 450'']" "''v;''" "\<lambda>_. True" "''v''" "''p''" "\<lambda>_. 64"]
  by (simp add: good_line_def ends_line_def lines_text_def malloc_def)

text \<open>Without its arguments the tool prints its usage and goes on with a null file name.\<close>

lemma slang_without_arguments: "slang_main contents can_write [] m = Inl Null_pointer"
  by (simp add: slang_main_def no_args_def use_ptr_def)

text \<open>A lone CR ends a line and takes the character after it along.\<close>

lemma slang_lone_cr:
  assumes g: "good_line l" and that: "l \<noteq> []"
  shows "slang_loop (l @ [CR, c] @ r) s = slang_loop r (line_effect l s)"
proof -
  have ok: "\<forall>c \<in> set l. \<not> ends_line c" using g by (simp add: good_line_def)
  have p: "l @ [CR, c] @ r \<noteq> []" "hd (l @ [CR, c] @ r) \<noteq> NUL" using hd_line [OF ok] that by auto
  show ?thesis
    using slang_loop_round [OF p, of l "CR # c # r" "[NUL, NUL]" r s] scan_line_good [OF ok, of CR]
      do_line_effect [OF g, of "NUL # r" s]
    by (simp add: ends_line_def)
qed

text \<open>
  A layout qualifier that is not closed on its line: the search goes on behind the line's terminator
  and, with no parenthesis left, out of the buffer.
\<close>

lemma to_paren_lost: "CHR '')'' \<notin> set p \<Longrightarrow> to_paren p = Inl Out_of_bounds"
  by (induction p) auto

lemma slang_open_layout:
  assumes "NUL \<notin> set l" "find_text ''layout('' l = Some t" "CHR '')'' \<notin> set t" "CHR '')'' \<notin> set r"
  shows "drop_layout (l @ NUL # r) = Inl Out_of_bounds"
  using assms by (simp add: drop_layout_def strstr_find to_paren_lost)

end
