(* ===== verification/SlangParse.thy ===== *)
theory SlangParse
  imports Slang
begin

text \<open>
  The second shader front end (\<open>slang/slang-parse.cpp\<close>): the syntax tree of a slang shader is turned
  into the texts of its two stages. The parser (peglib, with the grammar file) is not in the
  repository: the tree it returns is the input here, of which the code uses the name, the token and
  the children of each node. What can go wrong while the tree is read is a value: the two exceptions of
  \<open>std::stoul\<close>, which nothing catches, and the use of the array pointer that was never set.
\<close>

section \<open>The tree\<close>

datatype ast = Ast (ast_name: string) (ast_token: string) (ast_nodes: "ast list")

datatype parse_error =
    Invalid_argument   \<comment> \<open>thrown: no number\<close>
  | Out_of_range       \<comment> \<open>thrown: the number does not fit an unsigned long\<close>
  | Wild_array         \<comment> \<open>the uninitialised pointer to the array items is dereferenced\<close>

fun bindE :: "'e + 'a \<Rightarrow> ('a \<Rightarrow> 'e + 'b) \<Rightarrow> 'e + 'b" where
  "bindE (Inl e) f = Inl e"
| "bindE (Inr x) f = f x"

fun foldE :: "('b \<Rightarrow> 'a \<Rightarrow> 'e + 'a) \<Rightarrow> 'b list \<Rightarrow> 'a \<Rightarrow> 'e + 'a" where
  "foldE f [] x = Inr x"
| "foldE f (n # ns) x = bindE (f n x) (foldE f ns)"

lemma bindE_eq_Inr: "bindE m f = Inr y \<longleftrightarrow> (\<exists>x. m = Inr x \<and> f x = Inr y)"
  by (cases m) auto

lemma foldE_append: "foldE f (xs @ ys) x = bindE (foldE f xs x) (foldE f ys)"
proof (induction xs arbitrary: x)
  case (Cons a xs)
  then show ?case by (cases "f a x") auto
qed simp

section \<open>Numbers\<close>

text \<open>
  \<open>std::stoul\<close>: white space, a sign, the digits; a negative number wraps around. The result is then
  stored in an int.
\<close>

definition digits_value :: "string \<Rightarrow> int" where
  "digits_value ds = foldl (\<lambda>n d. 10 * n + (of_char d - 48)) 0 ds"

definition stoul :: "string \<Rightarrow> parse_error + int" where
  "stoul t =
     (let t = dropWhile isspace t;
          neg = (case t of c # _ \<Rightarrow> c = CHR ''-'' | [] \<Rightarrow> False);
          t = (case t of c # cs \<Rightarrow> if c = CHR ''-'' \<or> c = CHR ''+'' then cs else t | [] \<Rightarrow> t);
          ds = takeWhile isdigit t in
      if ds = [] then Inl Invalid_argument
      else if digits_value ds \<ge> 2 ^ 64 then Inl Out_of_range
      else Inr (if neg then (- digits_value ds) mod 2 ^ 64 else digits_value ds))"

definition to_int :: "int \<Rightarrow> int" where
  "to_int n = sint (word_of_int n :: u32)"

definition stoi :: "string \<Rightarrow> parse_error + int" where
  "stoi t = bindE (stoul t) (\<lambda>n. Inr (to_int n))"

section \<open>The three output streams\<close>

datatype out_stream = Common | Vs | Ps

record streams =
  out :: out_stream
  stream_text :: "out_stream \<Rightarrow> string"

definition put :: "string \<Rightarrow> streams \<Rightarrow> streams" where
  "put t s = s\<lparr>stream_text := (stream_text s)(out s := stream_text s (out s) @ t)\<rparr>"

definition start_streams :: streams where
  "start_streams = put (''#version 150'' @ [LF] @ ''#define float2 vec2'' @ [LF] @ ''#define float3 vec3'' @ [LF] @
      ''#define float4 vec4'' @ [LF]) \<lparr>out = Common, stream_text = (\<lambda>_. [])\<rparr>"

section \<open>Uniform blocks\<close>

record member_type =
  mem_type :: string
  mem_name :: string

record uniform_block =
  ub_location :: int
  ub_binding :: int
  ub_set :: int
  std_val :: int
  push_constant :: bool
  struct_name :: string
  ub_name :: string
  members :: "member_type list"

definition no_block :: uniform_block where
  "no_block = \<lparr>ub_location = 0, ub_binding = 0, ub_set = 0, std_val = 0, push_constant = False,
     struct_name = [], ub_name = [], members = []\<rparr>"

definition block_layout :: "ast \<Rightarrow> uniform_block \<Rightarrow> parse_error + uniform_block" where
  "block_layout l b =
     (if ast_name l = ''PushConstant'' then Inr (b\<lparr>push_constant := True\<rparr>)
      else if ast_name l = ''Location'' then bindE (stoi (ast_token l)) (\<lambda>n. Inr (b\<lparr>ub_location := n\<rparr>))
      else if ast_name l = ''Binding'' then bindE (stoi (ast_token l)) (\<lambda>n. Inr (b\<lparr>ub_binding := n\<rparr>))
      else if ast_name l = ''Set'' then bindE (stoi (ast_token l)) (\<lambda>n. Inr (b\<lparr>ub_set := n\<rparr>))
      else if ast_name l = ''Std'' then bindE (stoi (ast_token l)) (\<lambda>n. Inr (b\<lparr>std_val := n\<rparr>))
      else Inr b)"

definition member_part :: "ast \<Rightarrow> member_type \<Rightarrow> member_type" where
  "member_part n v =
     (if ast_name n = ''Type'' then v\<lparr>mem_type := ast_token n\<rparr>
      else if ast_name n = ''Name'' then v\<lparr>mem_name := ast_token n\<rparr>
      else v)"

definition block_child :: "ast \<Rightarrow> uniform_block \<Rightarrow> parse_error + uniform_block" where
  "block_child c b =
     (if ast_name c = ''Layout'' then foldE block_layout (ast_nodes c) b
      else if ast_name c = ''StructName'' then Inr (b\<lparr>struct_name := ast_token c\<rparr>)
      else if ast_name c = ''Name'' then Inr (b\<lparr>ub_name := ast_token c\<rparr>)
      else if ast_name c = ''Member'' then
        Inr (b\<lparr>members := members b @ [fold member_part (ast_nodes c) \<lparr>mem_type = [], mem_name = []\<rparr>]\<rparr>)
      else Inr b)"

definition block_text :: "uniform_block \<Rightarrow> string" where
  "block_text b =
     (if std_val b \<noteq> 0 then ''layout(std'' @ dec_int (std_val b) @ '') '' else []) @
     ''uniform '' @ struct_name b @ [LF] @ ''{'' @ [LF] @
     concat (map (\<lambda>v. ''   '' @ mem_type v @ '' '' @ mem_name v @ '';'' @ [LF]) (members b)) @
     ''}'' @ ub_name b @ '';''"

section \<open>Declarations\<close>

record declaration_parts =
  location :: int
  binding :: int
  set_no :: int
  qualifier :: string
  decl_type :: string
  decl_name :: string
  array_size :: int
  has_layout :: bool

definition no_declaration :: declaration_parts where
  "no_declaration = \<lparr>location = 0, binding = 0, set_no = 0, qualifier = [], decl_type = [], decl_name = [],
     array_size = 0, has_layout = False\<rparr>"

definition declaration_layout :: "ast \<Rightarrow> declaration_parts \<Rightarrow> parse_error + declaration_parts" where
  "declaration_layout l d =
     (if ast_name l = ''Location'' then bindE (stoi (ast_token l)) (\<lambda>n. Inr (d\<lparr>location := n\<rparr>))
      else if ast_name l = ''Binding'' then bindE (stoi (ast_token l)) (\<lambda>n. Inr (d\<lparr>binding := n\<rparr>))
      else if ast_name l = ''Set'' then bindE (stoi (ast_token l)) (\<lambda>n. Inr (d\<lparr>set_no := n\<rparr>))
      else Inr d)"

definition declaration_child :: "ast \<Rightarrow> declaration_parts \<Rightarrow> parse_error + declaration_parts" where
  "declaration_child c d =
     (if ast_name c = ''Layout'' then foldE declaration_layout (ast_nodes c) (d\<lparr>has_layout := True\<rparr>)
      else if ast_name c = ''Qualifier'' then Inr (d\<lparr>qualifier := ast_token c\<rparr>)
      else if ast_name c = ''Type'' then Inr (d\<lparr>decl_type := ast_token c\<rparr>)
      else if ast_name c = ''Name'' then Inr (d\<lparr>decl_name := ast_token c\<rparr>)
      else if ast_name c = ''ArraySize'' then bindE (stoi (ast_token c)) (\<lambda>n. Inr (d\<lparr>array_size := n\<rparr>))
      else Inr d)"

definition size_text :: "int \<Rightarrow> string" where
  "size_text n = (if n \<noteq> 0 then ''['' @ dec_int n @ '']'' else [])"

definition declaration_text :: "declaration_parts \<Rightarrow> string" where
  "declaration_text d =
     (if has_layout d \<and> decl_type d \<noteq> ''sampler2D'' then ''layout(location = '' @ dec_int (location d) @ '') '' else []) @
     qualifier d @ '' '' @ decl_type d @ '' '' @ decl_name d @ size_text (array_size d) @ '';''"

section \<open>Constant arrays\<close>

record const_array =
  ca_type :: string
  ca_name :: string
  ca_size :: int
  ca_items :: "ast list option"   \<comment> \<open>\<open>None\<close>: the pointer is not initialised\<close>

definition no_array :: const_array where
  "no_array = \<lparr>ca_type = [], ca_name = [], ca_size = 0, ca_items = None\<rparr>"

definition array_child :: "ast \<Rightarrow> const_array \<Rightarrow> parse_error + const_array" where
  "array_child c a =
     (if ast_name c = ''Type'' then Inr (a\<lparr>ca_type := ast_token c\<rparr>)
      else if ast_name c = ''Name'' then Inr (a\<lparr>ca_name := ast_token c\<rparr>)
      else if ast_name c = ''ArraySize'' then bindE (stoi (ast_token c)) (\<lambda>n. Inr (a\<lparr>ca_size := n\<rparr>))
      else if ast_name c = ''Array'' then Inr (a\<lparr>ca_items := Some (ast_nodes c)\<rparr>)
      else Inr a)"

definition item_text :: "const_array \<Rightarrow> ast \<Rightarrow> string" where
  "item_text a i = (if ca_size a \<noteq> 0 then ca_type a @ ''('' @ ast_token i @ '')'' else ast_token i)"

fun items_text :: "const_array \<Rightarrow> ast list \<Rightarrow> string" where
  "items_text a [] = []"
| "items_text a (i # is) = item_text a i @ (if is \<noteq> [] then '', '' else []) @ items_text a is"

definition array_text :: "const_array \<Rightarrow> parse_error + string" where
  "array_text a =
     (case ca_items a of
        None \<Rightarrow> Inl Wild_array
      | Some is \<Rightarrow> Inr (ca_type a @ '' '' @ ca_name a @ size_text (ca_size a) @ '' = '' @ ca_type a @
          size_text (ca_size a) @ ''('' @ items_text a is @ '');''))"

section \<open>The program\<close>

definition translate_node :: "ast \<Rightarrow> streams \<Rightarrow> parse_error + streams" where
  "translate_node n s =
     (if ast_name n = ''Version'' then Inr s
      else if ast_name n = ''UniformBlock'' then
        bindE (foldE block_child (ast_nodes n) no_block) (\<lambda>b. Inr (put (block_text b) s))
      else if ast_name n = ''Declaration'' then
        bindE (foldE declaration_child (ast_nodes n) no_declaration) (\<lambda>d. Inr (put (declaration_text d) s))
      else if ast_name n = ''ConstArray'' then
        bindE (foldE array_child (ast_nodes n) no_array) (\<lambda>a. bindE (array_text a) (\<lambda>t. Inr (put t s)))
      else if ast_name n = ''Stage'' then
        Inr (s\<lparr>out := if map toupper (ast_token n) = ''VERTEX'' then Vs else Ps\<rparr>)
      else if ast_name n = ''Indent'' then Inr (put (ast_token n) s)
      else if ast_name n = ''Line'' then Inr (put (ast_token n @ [LF]) s)
      else Inr s)"

text \<open>
  From the tree to the two files; \<open>None\<close> is the early return on a root that is not a program.
\<close>

definition translate :: "ast \<Rightarrow> parse_error + (string \<times> string) option" where
  "translate root =
     (if ast_name root \<noteq> ''Program'' then Inr None
      else bindE (foldE translate_node (ast_nodes root) start_streams) (\<lambda>s.
        Inr (Some (stream_text s Common @ stream_text s Vs, stream_text s Common @ stream_text s Ps))))"

section \<open>The tool\<close>

text \<open>
  The arguments, of which only those before the last one can be options. \<open>contents\<close> is what a stream
  reads from a file, nothing when it cannot be opened; the parser is a parameter, with its grammar. The
  tool ends with an exit code and the texts it writes, on an exception or on a null file name.
\<close>

definition valued_option :: "string \<Rightarrow> bool" where
  "valued_option opt \<longleftrightarrow> opt \<in> {''--slang'', ''--vsource'', ''--psource'', ''--vsh'', ''--psh''}"

fun read_parse_args :: "string list \<Rightarrow> slang_args \<Rightarrow> slang_args" where
  "read_parse_args (opt # v # rest) a =
     (if valued_option opt then read_parse_args rest (set_arg opt v a) else read_parse_args (v # rest) a)"
| "read_parse_args _ a = a"

record peg_parser =
  load_grammar :: "string \<Rightarrow> bool"
  parse_text :: "string \<Rightarrow> string \<Rightarrow> ast option"           \<comment> \<open>by a grammar, with the tree optimised\<close>

datatype parse_outcome =
    Crash fault
  | Throw parse_error
  | Exit int "(string \<times> string) list"

definition slang_parse_main :: "(string \<Rightarrow> string) \<Rightarrow> peg_parser \<Rightarrow> string list \<Rightarrow> parse_outcome" where
  "slang_parse_main contents peg argv =
     (let a = read_parse_args argv no_args in
      case arg_slang a of
        None \<Rightarrow> Crash Null_pointer
      | Some slang_fn \<Rightarrow>
          let slang = contents slang_fn; grammar = contents ''grammar.txt'' in
          if \<not> load_grammar peg grammar then Exit 1 []
          else
            case parse_text peg grammar slang of
              None \<Rightarrow> Exit 1 []
            | Some root \<Rightarrow>
                (case translate root of
                   Inl e \<Rightarrow> Throw e
                 | Inr None \<Rightarrow> Exit 1 []
                 | Inr (Some (v, q)) \<Rightarrow>
                     (case (vs_out a, ps_out a) of
                        (Some vo, Some po) \<Rightarrow> Exit 0 [(vo, v), (po, q)]
                      | _ \<Rightarrow> Crash Null_pointer)))"

section \<open>Each node adds its text to the stream that is on\<close>

definition is_stage :: "ast \<Rightarrow> bool" where
  "is_stage n \<longleftrightarrow> ast_name n = ''Stage''"

definition is_vertex :: "ast \<Rightarrow> bool" where
  "is_vertex n \<longleftrightarrow> map toupper (ast_token n) = ''VERTEX''"

text \<open>The text of a node that is not a stage, or why there is none.\<close>

definition node_result :: "ast \<Rightarrow> parse_error + string" where
  "node_result n =
     bindE (translate_node n \<lparr>out = Common, stream_text = (\<lambda>_. [])\<rparr>) (\<lambda>s. Inr (stream_text s Common))"

definition node_text :: "ast \<Rightarrow> string" where
  "node_text n = (case node_result n of Inl _ \<Rightarrow> [] | Inr t \<Rightarrow> t)"

definition node_ok :: "ast \<Rightarrow> bool" where
  "node_ok n \<longleftrightarrow> (case node_result n of Inl _ \<Rightarrow> False | Inr _ \<Rightarrow> True)"

lemma put_text [simp]: "stream_text (put t s) k = stream_text s k @ (if k = out s then t else [])" "out (put t s) = out s"
  by (auto simp: put_def)

lemma put_Nil: "put [] s = s"
  by (simp add: put_def)

lemma node_stage:
  "is_stage n \<Longrightarrow> translate_node n s = Inr (s\<lparr>out := if is_vertex n then Vs else Ps\<rparr>)"
  by (simp add: translate_node_def is_stage_def is_vertex_def)

lemma bindE_bindE: "bindE (bindE m f) g = bindE m (\<lambda>x. bindE (f x) g)"
  by (cases m) auto

lemma node_text_put:
  assumes "\<not> is_stage n"
  shows "translate_node n s = bindE (node_result n) (\<lambda>t. Inr (put t s))"
  using assms unfolding node_result_def translate_node_def is_stage_def
  by (simp add: bindE_bindE put_Nil)

fun stage_nodes :: "bool \<Rightarrow> bool \<Rightarrow> ast list \<Rightarrow> ast list" where
  "stage_nodes vertex on [] = []"
| "stage_nodes vertex on (n # ns) =
     (if is_stage n then stage_nodes vertex (is_vertex n = vertex) ns
      else (if on then [n] else []) @ stage_nodes vertex on ns)"

definition common_nodes :: "ast list \<Rightarrow> ast list" where
  "common_nodes ns = takeWhile (\<lambda>n. \<not> is_stage n) ns"

definition texts_of :: "ast list \<Rightarrow> string" where
  "texts_of ns = concat (map node_text ns)"

lemma texts_of_simps [simp]: "texts_of [] = []" "texts_of (n # ns) = node_text n @ texts_of ns"
  by (simp_all add: texts_of_def)

lemma node_ok_put: "\<not> is_stage n \<Longrightarrow> node_ok n \<Longrightarrow> translate_node n s = Inr (put (node_text n) s)"
  by (auto simp: node_text_put node_ok_def node_text_def split: sum.splits)

lemma stages_only:
  assumes "\<forall>n \<in> set ns. is_stage n \<or> node_ok n" "out s \<noteq> Common"
  shows "\<exists>s'. foldE translate_node ns s = Inr s' \<and> stream_text s' Common = stream_text s Common \<and>
    stream_text s' Vs = stream_text s Vs @ texts_of (stage_nodes True (out s = Vs) ns) \<and>
    stream_text s' Ps = stream_text s Ps @ texts_of (stage_nodes False (out s = Ps) ns)"
  using assms
proof (induction ns arbitrary: s)
  case (Cons n ns)
  show ?case
  proof (cases "is_stage n")
    case True
    then show ?thesis
      using Cons.IH [of "s\<lparr>out := if is_vertex n then Vs else Ps\<rparr>"] Cons.prems by (auto simp: node_stage)
  next
    case False
    then show ?thesis
      using Cons.IH [of "put (node_text n) s"] Cons.prems by (auto simp: node_ok_put)
  qed
qed simp

lemma common_then_stages:
  assumes "\<forall>n \<in> set ns. is_stage n \<or> node_ok n" "out s = Common"
  shows "\<exists>s'. foldE translate_node ns s = Inr s' \<and>
    stream_text s' Common = stream_text s Common @ texts_of (common_nodes ns) \<and>
    stream_text s' Vs = stream_text s Vs @ texts_of (stage_nodes True False ns) \<and>
    stream_text s' Ps = stream_text s Ps @ texts_of (stage_nodes False False ns)"
  using assms
proof (induction ns arbitrary: s)
  case (Cons n ns)
  show ?case
  proof (cases "is_stage n")
    case True
    then show ?thesis
      using stages_only [of ns "s\<lparr>out := if is_vertex n then Vs else Ps\<rparr>"] Cons.prems
      by (auto simp: node_stage common_nodes_def)
  next
    case False
    then show ?thesis
      using Cons.IH [of "put (node_text n) s"] Cons.prems by (auto simp: node_ok_put common_nodes_def)
  qed
qed (simp add: common_nodes_def)

text \<open>The first node whose text cannot be made ends the program with its error.\<close>

lemma first_bad_node:
  assumes "\<forall>n \<in> set ns. is_stage n \<or> node_ok n" "\<not> is_stage b" "node_result b = Inl e"
  shows "translate (Ast ''Program'' t (ns @ b # rest)) = Inl e"
proof -
  have s: "out start_streams = Common" by (simp add: start_streams_def)
  obtain s' where "foldE translate_node ns start_streams = Inr s'"
    using common_then_stages [OF assms(1) s] by auto
  then show ?thesis by (simp add: translate_def foldE_append node_text_put assms(2,3))
qed

text \<open>The size of an array member of a uniform block is dropped.\<close>

lemma member_size_is_dropped:
  "fold member_part [Ast ''Type'' t [], Ast ''Name'' n [], Ast ''ArraySize'' k []] v =
   fold member_part [Ast ''Type'' t [], Ast ''Name'' n []] v"
  by (simp add: member_part_def)

text \<open>A blank after the name of the vertex stage turns it into the other one.\<close>

lemma blank_after_stage: "translate_node (Ast ''Stage'' ''vertex '' []) s = Inr (s\<lparr>out := Ps\<rparr>)"
  by (simp add: translate_node_def toupper_def Let_def)

section \<open>Properties\<close>


definition demo_block :: ast where
  "demo_block = Ast ''UniformBlock'' [] [Ast ''Layout'' [] [Ast ''Std'' ''140'' []], Ast ''StructName'' ''U'' [],
     Ast ''Member'' [] [Ast ''Type'' ''vec4'' [], Ast ''Name'' ''c'' []], Ast ''Name'' ''u'' []]"

definition demo_input :: ast where
  "demo_input = Ast ''Declaration'' [] [Ast ''Layout'' [] [Ast ''Location'' ''1'' []], Ast ''Qualifier'' ''in'' [],
     Ast ''Type'' ''vec2'' [], Ast ''Name'' ''p'' []]"

definition demo_array :: ast where
  "demo_array = Ast ''ConstArray'' [] [Ast ''Type'' ''int'' [], Ast ''Name'' ''k'' [],
     Ast ''Array'' [] [Ast ''ArrayItem'' ''1'' [], Ast ''ArrayItem'' ''2'' []]]"

lemma demo_numbers: "stoi ''140'' = Inr 140" "stoi ''1'' = Inr 1" "dec_int 140 = ''140''" "dec_int 1 = ''1''"
  by (simp_all add: stoi_def stoul_def digits_value_def to_int_def isspace_def isdigit_def Let_def) code_simp+

lemma demo_block_text: "node_result demo_block =
    Inr (''layout(std140) uniform U'' @ [LF] @ ''{'' @ [LF] @ ''   vec4 c;'' @ [LF] @ ''}u;'')" "\<not> is_stage demo_block"
  by (simp_all add: demo_block_def is_stage_def node_result_def translate_node_def block_child_def block_layout_def
      no_block_def block_text_def member_part_def demo_numbers)

lemma demo_input_text: "node_result demo_input = Inr ''layout(location = 1) in vec2 p;''" "\<not> is_stage demo_input"
  by (simp_all add: demo_input_def is_stage_def node_result_def translate_node_def declaration_child_def
      declaration_layout_def no_declaration_def declaration_text_def size_text_def demo_numbers)

lemma demo_array_text: "node_result demo_array = Inr ''int k = int(1, 2);''" "\<not> is_stage demo_array"
  by (simp_all add: demo_array_def is_stage_def node_result_def translate_node_def array_child_def no_array_def
      array_text_def item_text_def size_text_def)


end
