(* ===== verification/Spec2Isabelle.thy ===== *)
theory Spec2Isabelle
  imports Boot FatDir FsUtils Crash Loader ElfTables Gfd Gx2Shader ShaderAsm SlangParse
begin

text \<open>
  FTPservU is an FTP server for the Wii U. One thread runs everything: \<open>main\<close> (\<open>src/ftpservu.c\<close>) brings up
  the log, the console, the network and the storages, then turns a loop that polls the pad, accepts and
  serves FTP clients and moves data on their data channels, until the home button is pressed. Beside the
  server the repository holds its runtime (entry points, import table, allocator, clock, SD card driver,
  exception handler, loader of other programs), \<open>elf2rpl\<close>, the program that turns the linker's output into
  the file the console runs, and helpers for shaders that the build of the server leaves out.
  All paths below are relative to \<open>src/\<close>.

  \<^bold>\<open>How the model reads.\<close> A C function is a HOL function of the same name from its arguments and the state to
  \<open>fault + result\<close>: \<open>Inl\<close> is behaviour the C standard leaves undefined (a null pointer, an access outside a
  block, a use after free, an overflowing int), \<open>Inr\<close> an ordinary end, with the error codes of the source as
  values. Pointers to shared objects are keys of a store, with \<open>None\<close> for freed memory; pointers to bytes are
  the bytes from the pointer to the end of its block. Integers that can wrap are words of their width. The
  libraries of the console and of the C compiler are not in the repository: their calls are parameters, the
  fields of records such as \<open>os\<close> and \<open>fs\<close> that map the state of the outside world to an answer and a new
  state. The answers of \<open>malloc\<close> are a list in the state. A theorem that needs more of a library than that it
  answers says so in a named premise.

  \<^bold>\<open>The theories\<close>, in the order of the code:

  \<^item> \<open>Prelude\<close>: faults and their sequencing, blocks of memory, C strings, \<open>ctype.h\<close>, decimal printing, \<open>malloc\<close>;
    the collection \<open>fault_simps\<close> runs fallible steps in all proofs. \<open>Platform\<close>: sockets, descriptors, directories.
  \<^item> \<open>IOBuffer\<close> (\<open>iobuffer.c\<close>): the line buffers. They are a first-in first-out queue of lines; the locale \<open>line_queue\<close>
    states that contract for both line readers, and every outcome of reading a line is listed.
  \<^item> \<open>VfsPath\<close> (\<open>vfs/vfs_path.c\<close>, \<open>vfs/vfs_pathent.c\<close>): parsing, normalising, merging and printing of paths, refined
    to a walk from the root. \<open>VfsList\<close> (\<open>vfs/vfs.c\<close>): the text of a directory listing.
  \<^item> \<open>Network\<close> (\<open>network.c\<close>): the socket wrappers. \<open>Dtp\<close> (\<open>dtp/*.c\<close>): data channels, their poll list with channels
    freed while linked, the copying of data; the locale \<open>data_iface\<close> is what the list needs of the active and
    the passive interface.
  \<^item> \<open>Client\<close>, \<open>Ftp\<close>, \<open>Sessions\<close> (\<open>ftp.c\<close>): the client structure and its replies; how a line becomes a command and what
    a poll does for one client; the slot table over time, as an inductive set of reachable states with its
    invariant. \<open>Commands\<close> (\<open>commands.c\<close>, \<open>commands/*.c\<close>): the table and all handlers; each handler is an instance of
    the locale \<open>command_handler\<close>, and an abstract session of three login states is what they refine.
  \<^item> \<open>FatDevice\<close>, \<open>FatFile\<close>, \<open>FatDir\<close> (\<open>fs/sd_fat_devoptab.c\<close>): the SD card driver: the device table, open files, paths
    and directories; locks are counted, and no sequence of operations changes the count. \<open>FsUtils\<close> (\<open>fs/fs_utils.c\<close>).
  \<^item> \<open>Console\<close> (\<open>console.c\<close>), \<open>Logging\<close> (\<open>logging.c\<close>), \<open>Server\<close> (\<open>ftpservu.c\<close>, \<open>input.c\<close>, the start-up part of \<open>main.c\<close>):
    the last runs all components on one state.
  \<^item> \<open>Runtime\<close> (\<open>system/memory.c\<close>, \<open>system/missing_libc_functions.c\<close>, \<open>system/atomic.c\<close>), \<open>Crash\<close>
    (\<open>system/exception_handler.c\<close>), \<open>Loader\<close> (\<open>hbl.c\<close>). \<open>Dynload\<close> (\<open>system/imports.h\<close>, \<open>system/dynamic.c\<close>,
    \<open>system/stubs_elf.S\<close>): the table of imported functions and how its address words are filled. \<open>Boot\<close> (the entry
    points of \<open>main.c\<close>): imports, heaps, constructors and storages around a run of the server, and what is left of
    them at the end.
  \<^item> \<open>Elf\<close> (\<open>wut/elf2rpl/elf.h\<close>, \<open>be_val.h\<close>, \<open>utils.h\<close>), \<open>ElfRead\<close> and \<open>ElfWrite\<close> (\<open>read\<close>, \<open>write\<close> and \<open>main\<close> of
    \<open>wut/elf2rpl/main.cpp\<close>), one definition per stage of the two functions; \<open>ElfLayout\<close>, \<open>ElfSymbols\<close> and \<open>ElfTables\<close> hold what is
    proved of them: the file reads back as it was written, its tables and relocations, which programs are refused, and
    where the converter leaves defined behaviour.
  \<^item> \<open>Slang\<close> (\<open>slang/main.c\<close>), \<open>SlangParse\<close> (\<open>slang/slang-parse.cpp\<close>): two tools that split a shader into its stages, one
    by lines, as a walk over its buffer that is proved equal to a split into lines, one from a syntax tree. \<open>Gfd\<close>
    and \<open>Gx2Shader\<close> (\<open>shader_utils.c\<close>): opening a file of compiled shaders in memory, with its relocation, and
    copying the programs of a shader and giving them back. \<open>BitFields\<close> and \<open>ShaderAsm\<close> (\<open>gx2_shader_inl.h\<close>): the
    macros that write shader programs as tables of words, and the fields that are read back from them.

  \<^bold>\<open>Groups of lemmas.\<close> For every component: that its operations keep its well-formedness predicate (\<open>iob_wf\<close>,
  the sound clients of \<open>Commands\<close>, the slot table of \<open>Sessions\<close>, \<open>well_formed\<close> of \<open>ElfRead\<close>, \<open>layout_inv\<close> of \<open>ElfLayout\<close>);
  what each operation returns on each of its branches; the abstract function or relation it refines
  (the walk of a path, the queue of lines, the abstract session, the specification of a path operation);
  and round trips (paths, port numbers, mounting, the structures of \<open>Elf\<close> with their bytes). Where the code is
  wrong the theorem states what it does, and says so in its comment.

  \<^bold>\<open>Loops and bounds.\<close> Loops over lists and strings are structural recursions. Loops that depend on a library
  (polling channels, reading and writing files, sending a log text, waiting for the log's lock, the main
  loop, loading a program) are partial functions to an option, and the theorems about them prove that they
  return, under a premise on the library where one is needed. A transfer moves one packet per poll; \<open>packets\<close>
  counts them, and \<open>transfer_completes\<close> says how many suffice. One loop has fuel, the import stubs in \<open>read_stubs\<close>:
  there \<open>2 ^ 30\<close> steps of four bytes bring a 32 bit address back to its start, so that running out of fuel
  (\<open>Never_returns\<close>) is exactly an endless loop. The crash report is proved to fit its 4096 bytes; the layout of an RPX
  file is proved for files below 4 GB.

  \<^bold>\<open>Not modelled.\<close> Messages printed for debugging; \<open>dump_vs_data\<close>, \<open>dump_ps_data\<close> and \<open>check_shader_verbose\<close> of
  \<open>shader_utils.c\<close> only print. The imports that \<open>WIIU_HID\<close> adds to the table, which the build leaves out. The parser
  library that \<open>slang-parse.cpp\<close> calls is a parameter of the model. Of \<open>gx2_shader_inl.h\<close>, the order of bytes of a
  little-endian build. Linker scripts and the assembler of the start-up code. The headers under \<open>include/wiiu\<close>
  declare the system's libraries; of them the model takes the constants and types that the code uses.
\<close>

end
